(* ===== verification/Prelude.thy ===== *)
theory Prelude
  imports Main "HOL-Library.Char_ord" "HOL-Library.List_Lexorder"
begin

text \<open>
  The vocabulary shared by the component theories: the fragment of Go's run-time behaviour the
  source relies on (run-time panics, 64-bit signed integers, truncating division, instants and
  durations, decimal formatting, channel close), the generic list routine both
  slice-normalising functions of the registries use, and the lemma collections of the library.

  Go strings are byte sequences and are modelled by the type string (lists of characters, each one
  byte); the byte-wise lexicographic order of Go's string comparison is the order of
  the library theories on characters and lists.
\<close>

section \<open>Lemma collections\<close>

named_theorems go_arith \<open>evaluation of 64-bit signed arithmetic\<close>
named_theorems reg_defs \<open>definitions of the generic registry operations\<close>
named_theorems reg_inv \<open>preservation of the generic registry invariant\<close>

section \<open>Run-time panics\<close>

text \<open>The run-time panics that the modelled code could raise.\<close>

datatype panic =
    CloseOfClosedChannel
  | SendOnClosedChannel
  | IndexOutOfRange
  | DivideByZero
  | NilDereference
  | NonPositiveTicker
  | PanicValue string

type_synonym 'a go = "panic + 'a"

fun go_bind :: "'a go \<Rightarrow> ('a \<Rightarrow> 'b go) \<Rightarrow> 'b go" where
  "go_bind (Inl p) f = Inl p"
| "go_bind (Inr x) f = f x"

fun go_panics :: "'a go \<Rightarrow> bool" where
  "go_panics (Inl p) = True"
| "go_panics (Inr x) = False"

section \<open>Signed 64-bit integers\<close>

text \<open>
  The Go types int, int64 and time.Duration are 64-bit two's complement. A value is an integer and
  every operation that can leave the range is followed by the wrap-around \<open>i64\<close>.
\<close>

definition i64 :: "int \<Rightarrow> int" where
  "i64 x = (x + 2 ^ 63) mod 2 ^ 64 - 2 ^ 63"

definition is_i64 :: "int \<Rightarrow> bool" where
  "is_i64 x \<longleftrightarrow> - (2 ^ 63) \<le> x \<and> x < 2 ^ 63"

text \<open>Go's integer division and remainder truncate towards zero; a zero divisor panics.\<close>

definition go_quot :: "int \<Rightarrow> int \<Rightarrow> int go" where
  "go_quot a b = (if b = 0 then Inl DivideByZero else Inr (i64 (sgn a * sgn b * (\<bar>a\<bar> div \<bar>b\<bar>))))"

definition go_rem :: "int \<Rightarrow> int \<Rightarrow> int go" where
  "go_rem a b = (if b = 0 then Inl DivideByZero else Inr (sgn a * (\<bar>a\<bar> mod \<bar>b\<bar>)))"

text \<open>Reading a slice at an integer index.\<close>

definition go_index :: "'a list \<Rightarrow> int \<Rightarrow> 'a go" where
  "go_index xs i = (if 0 \<le> i \<and> i < int (length xs) then Inr (xs ! nat i) else Inl IndexOutOfRange)"

section \<open>Instants and durations\<close>

text \<open>
  An instant is the number of nanoseconds since Go's zero Time, so the zero value \<open>time.Time{}\<close>
  is 0; a duration is a number of nanoseconds. \<open>time.Since\<close> saturates at the ends of the
  64-bit range.
\<close>

type_synonym time = int
type_synonym duration = int

definition Millisecond :: duration where
  "Millisecond = 1000000"

definition Second :: duration where
  "Second = 1000000000"

definition max_duration :: duration where
  "max_duration = 2 ^ 63 - 1"

definition min_duration :: duration where
  "min_duration = - (2 ^ 63)"

definition time_sub :: "time \<Rightarrow> time \<Rightarrow> duration" where
  "time_sub t u = max min_duration (min max_duration (t - u))"

definition time_since :: "time \<Rightarrow> time \<Rightarrow> duration" where
  "time_since now t = time_sub now t"

section \<open>Decimal formatting\<close>

text \<open>The verb \<open>%d\<close> of the fmt package.\<close>

fun show_nat :: "nat \<Rightarrow> string" where
  "show_nat n =
     (if n < 10 then [char_of (48 + n)] else show_nat (n div 10) @ [char_of (48 + n mod 10)])"

declare show_nat.simps [simp del]

definition show_int :: "int \<Rightarrow> string" where
  "show_int x = (if x < 0 then CHR ''-'' # show_nat (nat (- x)) else show_nat (nat x))"

section \<open>Channels that are only ever closed\<close>

text \<open>
  A channel used as a broadcast signal is an address; the set of closed addresses is
  part of the state of the component that owns it. Closing a closed channel panics.
\<close>

type_synonym chan = nat

definition go_close :: "chan \<Rightarrow> chan set \<Rightarrow> chan set go" where
  "go_close c C = (if c \<in> C then Inl CloseOfClosedChannel else Inr (insert c C))"

section \<open>Collapsing runs of duplicates in place\<close>

text \<open>
  The loop of the registries' normalising functions over an array that is overwritten while it
  is read: \<open>i\<close> is the read index and \<open>w\<close> the write index. The loop starts at
  \<open>i = w = 1\<close>; the result is the array cut to the final write index.
\<close>

function collapse_loop :: "'a list \<Rightarrow> nat \<Rightarrow> nat \<Rightarrow> 'a list \<times> nat" where
  "collapse_loop s i w =
     (if i < length s
      then if s ! i \<noteq> s ! (i - 1)
           then collapse_loop (s[w := s ! i]) (Suc i) (Suc w)
           else collapse_loop s (Suc i) w
      else (s, w))"
  by pat_completeness auto
termination
  by (relation "measure (\<lambda>(s, i, w). length s - i)") auto

declare collapse_loop.simps [simp del]

definition sort_collapse :: "'a::linorder list \<Rightarrow> 'a list" where
  "sort_collapse xs =
     (if length xs \<le> 1 then xs
      else let (s, w) = collapse_loop (sort xs) 1 1 in take w s)"

section \<open>Lemmas on panics and 64-bit arithmetic\<close>

lemma go_bind_Inr_iff: "go_bind m f = Inr y \<longleftrightarrow> (\<exists>x. m = Inr x \<and> f x = Inr y)"
  by (cases m) auto

lemma go_panics_iff: "go_panics m \<longleftrightarrow> (\<exists>p. m = Inl p)"
  by (cases m) auto

lemma i64_id [go_arith]: "is_i64 x \<Longrightarrow> i64 x = x"
  by (simp add: i64_def is_i64_def)

lemma i64_range: "is_i64 (i64 x)"
proof -
  have "0 \<le> (x + 2 ^ 63) mod (2 ^ 64 :: int)" and "(x + 2 ^ 63) mod (2 ^ 64 :: int) < 2 ^ 64"
    by simp_all
  then show ?thesis
    by (simp add: i64_def is_i64_def)
qed

lemma i64_cong: "x mod 2 ^ 64 = y mod 2 ^ 64 \<Longrightarrow> i64 x = i64 y"
  unfolding i64_def by (metis mod_add_left_eq)

lemma i64_mod: "i64 x mod 2 ^ 64 = x mod 2 ^ 64"
  unfolding i64_def by (metis add_diff_cancel_right' mod_diff_left_eq)

lemma i64_add_left [simp]: "i64 (i64 x + y) = i64 (x + y)"
  by (rule i64_cong) (metis i64_mod mod_add_left_eq)

lemma i64_add_right [simp]: "i64 (x + i64 y) = i64 (x + y)"
  by (rule i64_cong) (metis i64_mod mod_add_right_eq)

lemma i64_add_right2 [simp]: "i64 (x + (y + i64 z)) = i64 (x + (y + z))"
  using i64_add_right [of "x + y" z] by (simp add: add.assoc)

lemma i64_idem [simp]: "i64 (i64 x) = i64 x"
  using i64_id i64_range by blast

lemma i64_nat_small [go_arith]: "n < 2 ^ 63 \<Longrightarrow> i64 (int n) = int n"
  by (rule i64_id) (auto simp: is_i64_def)

lemma i64_succ: "0 \<le> x \<Longrightarrow> x < y \<Longrightarrow> y < 2 ^ 63 \<Longrightarrow> i64 (x + 1) = x + 1"
  by (rule i64_id) (auto simp: is_i64_def)

lemma go_index_Inr: "i < length xs \<Longrightarrow> go_index xs (int i) = Inr (xs ! i)"
  by (simp add: go_index_def)

lemma go_rem_nonneg: "0 \<le> a \<Longrightarrow> 0 < b \<Longrightarrow> go_rem a b = Inr (a mod b)"
  by (auto simp: go_rem_def sgn_if)

lemma time_since_range: "min_duration \<le> time_since now t \<and> time_since now t \<le> max_duration"
  by (auto simp: time_since_def time_sub_def min_duration_def max_duration_def)

lemma time_since_exact:
  "is_i64 (now - t) \<Longrightarrow> time_since now t = now - t"
  by (auto simp: time_since_def time_sub_def min_duration_def max_duration_def is_i64_def)

lemma time_since_less_iff:
  "is_i64 d \<Longrightarrow> d < max_duration \<Longrightarrow> d < time_since now t \<longleftrightarrow> d < now - t"
  by (auto simp: time_since_def time_sub_def min_duration_def max_duration_def is_i64_def)

section \<open>Lemmas on the in-place collapse\<close>

lemma length_collapse_loop: "length (fst (collapse_loop s i w)) = length s"
proof (induction s i w rule: collapse_loop.induct)
  case (1 s i w)
  then show ?case
    by (subst collapse_loop.simps) auto
qed

text \<open>
  The loop invariant: the prefix below the write index is the collapse of the original prefix
  below the read index, and the array is still the original from position \<open>i - 1\<close> on.
\<close>

lemma remdups_adj_take_step:
  assumes "Suc j < length t"
  shows "remdups_adj (take (Suc (Suc j)) t) = remdups_adj (take (Suc j) t) @ (if t ! j = t ! Suc j then [] else [t ! Suc j])"
proof -
  have "take (Suc (Suc j)) t = take j t @ [t ! j, t ! Suc j]" "take (Suc j) t = take j t @ [t ! j]"
    using assms by (simp_all add: take_Suc_conv_app_nth)
  then show ?thesis by (simp only: remdups_adj_append_two)
qed

lemma collapse_loop_correct:
  assumes "length s = length t" and "0 < w" and "w \<le> i" and "i \<le> length t"
    and "drop (i - 1) s = drop (i - 1) t" and "take w s = remdups_adj (take i t)"
    and "collapse_loop s i w = (s', w')"
  shows "w' \<le> length t \<and> take w' s' = remdups_adj t"
  using assms
proof (induction s i w arbitrary: s' w' rule: collapse_loop.induct)
  case (1 s i w)
  show ?case
  proof (cases "i < length s")
    case False
    with "1.prems" show ?thesis
      by (auto simp: collapse_loop.simps [of s i w])
  next
    case True
    obtain j where j: "i = Suc j" using "1.prems"(2,3) by (cases i) auto
    have lt: "i < length t" and jt: "j < length t" using True "1.prems"(1) j by auto
    have nth: "s ! k = t ! k" if "j \<le> k" "k < length t" for k
    proof -
      have "drop j s ! (k - j) = drop j t ! (k - j)" using "1.prems"(5) j by simp
      with that show ?thesis by (simp add: "1.prems"(1))
    qed
    have si: "s ! i = t ! i" "s ! (i - 1) = t ! (i - 1)" using nth lt jt j by auto
    have step: "remdups_adj (take (Suc i) t) = remdups_adj (take i t) @ (if t ! j = t ! i then [] else [t ! i])"
      unfolding j by (rule remdups_adj_take_step) (use lt j in simp)
    show ?thesis
    proof (cases "s ! i = s ! (i - 1)")
      case eq: True
      have e: "collapse_loop s (Suc i) w = (s', w')"
        using "1.prems"(7) True eq by (simp add: collapse_loop.simps [of s i w])
      have d: "drop (Suc i - 1) s = drop (Suc i - 1) t"
        by (rule nth_equalityI) (auto simp: "1.prems"(1) nth j)
      have k: "take w s = remdups_adj (take (Suc i) t)"
        using step eq si j "1.prems"(6) by simp
      show ?thesis
        using "1.IH"(2) [OF True _ "1.prems"(1,2) _ _ d k e] eq lt "1.prems"(3) by simp
    next
      case neq: False
      let ?s = "s[w := s ! i]"
      have e: "collapse_loop ?s (Suc i) (Suc w) = (s', w')"
        using "1.prems"(7) True neq by (simp add: collapse_loop.simps [of s i w])
      have d: "drop (Suc i - 1) ?s = drop (Suc i - 1) t"
        by (rule nth_equalityI) (use "1.prems"(1,3) nth j in \<open>auto simp: nth_list_update\<close>)
      have ws: "w < length s" using "1.prems"(3) True by simp
      have "take (Suc w) ?s = take w s @ [s ! i]"
        using ws by (simp add: take_Suc_conv_app_nth)
      then have k: "take (Suc w) ?s = remdups_adj (take (Suc i) t)"
        using step neq si j "1.prems"(6) by simp
      have l: "length ?s = length t" using "1.prems"(1) by simp
      show ?thesis
        using "1.IH"(1) [OF True neq l _ _ _ d k e] lt "1.prems"(3) by simp
    qed
  qed
qed

lemma sort_collapse_eq: "sort_collapse xs = remdups_adj (sort xs)"
proof (cases "length xs \<le> 1")
  case True
  then have "xs = [] \<or> (\<exists>x. xs = [x])"
    by (cases xs rule: remdups_adj.cases) auto
  then show ?thesis
    using True by (auto simp: sort_collapse_def)
next
  case False
  obtain s w where r: "collapse_loop (sort xs) 1 1 = (s, w)" by fastforce
  have "take 1 (sort xs) = remdups_adj (take 1 (sort xs))"
    by (cases "sort xs") auto
  then have "take w s = remdups_adj (sort xs)"
    using collapse_loop_correct [OF _ _ _ _ _ _ r, of "sort xs"] False by simp
  with False r show ?thesis
    by (simp add: sort_collapse_def)
qed

lemma distinct_collapse_sorted: "sorted xs \<Longrightarrow> distinct (remdups_adj xs)"
  by (induction xs rule: remdups_adj.induct) (auto simp: order.antisym)

lemma sort_collapse_canonical: "sort_collapse xs = sorted_list_of_set (set xs)"
proof (rule sorted_distinct_set_unique)
  show "sorted (sort_collapse xs)"
    by (simp add: sort_collapse_eq sorted_remdups_adj)
  show "distinct (sort_collapse xs)"
    by (simp add: sort_collapse_eq distinct_collapse_sorted)
qed (simp_all add: sort_collapse_eq)

section \<open>Counting after the update of one position\<close>

lemma filter_update_length:
  "i < length xs \<Longrightarrow>
     length (filter P (xs[i := v])) + (if P (xs ! i) then 1 else 0) = length (filter P xs) + (if P v then 1 else 0)"
  by (subst (3) id_take_nth_drop [of i xs]) (simp_all add: upd_conv_take_nth_drop)

lemma sum_list_map_update:
  "i < length xs \<Longrightarrow> sum_list (map f (xs[i := v])) + f (xs ! i) = sum_list (map f xs) + (f v :: nat)"
  by (subst (3) id_take_nth_drop [of i xs]) (simp_all add: upd_conv_take_nth_drop)

end
