(* ===== verification/FM_Types.thy ===== *)
theory FM_Types
  imports Prelude
begin

text \<open>
  The identifier and version scalars of the Fabric Manager (package types, files
  \<^verbatim>\<open>ids.go\<close> and \<^verbatim>\<open>versions.go\<close> of \<^verbatim>\<open>src/FM/pkg/types\<close>): the universal identifier
  contract, the typed constructors that apply it at a trust boundary, and the comparisons on
  revisions, driver epochs and storage watermarks.
\<close>

section \<open>Identifiers\<close>

definition MaxIDLen :: nat where
  "MaxIDLen = 256"

type_synonym ENIID = string
type_synonym VnetID = string
type_synonym RouteGroupID = string
type_synonym AclGroupID = string
type_synonym MappingID = string
type_synonym MeterPolicyID = string
type_synonym HaScopeID = string
type_synonym DeviceID = string
type_synonym TenantID = string

text \<open>The three messages of \<open>ValidateID\<close>; the length error carries the offending length.\<close>

datatype id_error = IdEmpty | IdTooLong nat | IdBadChar

text \<open>The bytes of the set given to \<open>strings.ContainsAny\<close>: space, tab, newline, return and NUL.\<close>

definition forbidden_bytes :: "char list" where
  "forbidden_bytes = [CHR 0x20, CHR 0x09, CHR 0x0A, CHR 0x0D, CHR 0x00]"

definition ContainsAny :: "string \<Rightarrow> char list \<Rightarrow> bool" where
  "ContainsAny s cs = list_ex (\<lambda>c. c \<in> set cs) s"

definition ValidateID :: "string \<Rightarrow> id_error option" where
  "ValidateID s =
     (if length s = 0 then Some IdEmpty
      else if length s > MaxIDLen then Some (IdTooLong (length s))
      else if ContainsAny s forbidden_bytes then Some IdBadChar
      else None)"

text \<open>The constructors return the typed value together with the verdict, whatever the verdict.\<close>

definition NewENIID :: "string \<Rightarrow> ENIID \<times> id_error option" where
  "NewENIID s = (s, ValidateID s)"

definition NewVnetID :: "string \<Rightarrow> VnetID \<times> id_error option" where
  "NewVnetID s = (s, ValidateID s)"

definition NewRouteGroupID :: "string \<Rightarrow> RouteGroupID \<times> id_error option" where
  "NewRouteGroupID s = (s, ValidateID s)"

definition NewAclGroupID :: "string \<Rightarrow> AclGroupID \<times> id_error option" where
  "NewAclGroupID s = (s, ValidateID s)"

definition NewMappingID :: "string \<Rightarrow> MappingID \<times> id_error option" where
  "NewMappingID s = (s, ValidateID s)"

definition NewMeterPolicyID :: "string \<Rightarrow> MeterPolicyID \<times> id_error option" where
  "NewMeterPolicyID s = (s, ValidateID s)"

definition NewHaScopeID :: "string \<Rightarrow> HaScopeID \<times> id_error option" where
  "NewHaScopeID s = (s, ValidateID s)"

definition NewDeviceID :: "string \<Rightarrow> DeviceID \<times> id_error option" where
  "NewDeviceID s = (s, ValidateID s)"

definition NewTenantID :: "string \<Rightarrow> TenantID \<times> id_error option" where
  "NewTenantID s = (s, ValidateID s)"

text \<open>The nine \<open>IsZero\<close> methods have the same body.\<close>

definition IsZero :: "string \<Rightarrow> bool" where
  "IsZero s = (s = [])"

section \<open>Versions\<close>

type_synonym SpecRevision = int
type_synonym Epoch = int
type_synonym Watermark = int

definition Newer :: "SpecRevision \<Rightarrow> SpecRevision \<Rightarrow> bool" where
  "Newer s other = (s > other)"

definition Bumped :: "Epoch \<Rightarrow> Epoch \<Rightarrow> bool" where
  "Bumped e other = (e > other)"

definition Regressed :: "Watermark \<Rightarrow> Watermark \<Rightarrow> bool" where
  "Regressed w prev = (w < prev)"

section \<open>The identifier contract\<close>

definition valid_id :: "string \<Rightarrow> bool" where
  "valid_id s \<longleftrightarrow> s \<noteq> [] \<and> length s \<le> MaxIDLen \<and> set s \<inter> set forbidden_bytes = {}"

lemma ContainsAny_iff: "ContainsAny s cs \<longleftrightarrow> set s \<inter> set cs \<noteq> {}"
  by (auto simp: ContainsAny_def list_ex_iff)

lemma ValidateID_None_iff: "ValidateID s = None \<longleftrightarrow> valid_id s"
  by (auto simp: ValidateID_def valid_id_def ContainsAny_iff)

lemma valid_id_nonzero: "valid_id s \<Longrightarrow> \<not> IsZero s"
  by (simp add: valid_id_def IsZero_def)

lemma ValidateID_witness_ok: "ValidateID ''eni-1'' = None"
  by (simp add: ValidateID_def MaxIDLen_def ContainsAny_def forbidden_bytes_def)

text \<open>A watermark sequence that never regresses is non-decreasing, however long it is.\<close>

lemma not_Regressed_sorted:
  "(\<forall>i. Suc i < length ws \<longrightarrow> \<not> Regressed (ws ! Suc i) (ws ! i)) \<longleftrightarrow> sorted ws"
  by (auto simp: Regressed_def sorted_iff_nth_Suc not_less)

text \<open>Newer is the strict part of a total order, so two distinct revisions are always ordered.\<close>

lemma Newer_total: "s = t \<or> Newer s t \<or> Newer t s"
  by (auto simp: Newer_def)

section \<open>Properties\<close>

text \<open>Each of the nine constructors of typed identifiers returns the text it was given together with the same verdict: it is accepted
  exactly when it is not empty, has at most 256 bytes and contains no space, tab, line feed, carriage return or NUL byte;
  a rejected one reports the first reason in the order empty, too long (with its length), bad character; and the
  zero value of every type is exactly the text that is rejected as empty.\<close>

lemma id_constructors_sound:
  "list_all (\<lambda>mk.
     mk s = (s, if s = [] then Some IdEmpty
                else if 256 < length s then Some (IdTooLong (length s))
                else if set s \<inter> {CHR '' '', CHR 0x09, CHR 0x0A, CHR 0x0D, CHR 0x00} \<noteq> {} then Some IdBadChar
                else None) \<and>
     (snd (mk s) = None \<longleftrightarrow> valid_id s) \<and>
     (IsZero (fst (mk s)) \<longleftrightarrow> snd (mk s) = Some IdEmpty))
   [NewENIID, NewVnetID, NewRouteGroupID, NewAclGroupID, NewMappingID, NewMeterPolicyID, NewHaScopeID, NewDeviceID, NewTenantID]"
proof -
  have v: "ValidateID s =
      (if s = [] then Some IdEmpty
       else if 256 < length s then Some (IdTooLong (length s))
       else if set s \<inter> {CHR '' '', CHR 0x09, CHR 0x0A, CHR 0x0D, CHR 0x00} \<noteq> {} then Some IdBadChar
       else None)"
    by (simp add: ValidateID_def ContainsAny_iff forbidden_bytes_def MaxIDLen_def)
  have z: "IsZero s \<longleftrightarrow> ValidateID s = Some IdEmpty" by (auto simp: IsZero_def ValidateID_def)
  have "mk s = (s, ValidateID s) \<and> (snd (mk s) = None \<longleftrightarrow> valid_id s) \<and> (IsZero (fst (mk s)) \<longleftrightarrow> snd (mk s) = Some IdEmpty)"
    if "mk s = (s, ValidateID s)" for mk :: "string \<Rightarrow> string \<times> id_error option"
    using that by (simp add: ValidateID_None_iff z)
  note c = this [unfolded v]
  have "mk s = (s, ValidateID s)"
    if "mk \<in> set [NewENIID, NewVnetID, NewRouteGroupID, NewAclGroupID, NewMappingID, NewMeterPolicyID, NewHaScopeID, NewDeviceID,
      NewTenantID]" for mk
    using that by (auto simp: NewENIID_def NewVnetID_def NewRouteGroupID_def NewAclGroupID_def NewMappingID_def
      NewMeterPolicyID_def NewHaScopeID_def NewDeviceID_def NewTenantID_def)
  with c show ?thesis unfolding list_all_iff v by blast
qed

end
