(* ===== verification/FM_Errors.thy ===== *)
theory FM_Errors
  imports FM_Types
begin

text \<open>
  The error catalogue of the Fabric Manager (package errors, files \<^verbatim>\<open>codes.go\<close> and
  \<^verbatim>\<open>classify.go\<close> of \<^verbatim>\<open>src/FM/pkg/errors\<close>): the stable code strings, their severity,
  recoverability and blast radius, and the lookup \<open>Classify\<close>. The catalogue is the association
  list of the map literal in source order; its keys are distinct, so the map it stands for is
  the list's lookup function.
\<close>

section \<open>Codes\<close>

type_synonym Code = string

abbreviation API_001_BAD_REQUEST :: Code where
  "API_001_BAD_REQUEST \<equiv> ''API_001_BAD_REQUEST''"

abbreviation API_002_AUTH_FAILED :: Code where
  "API_002_AUTH_FAILED \<equiv> ''API_002_AUTH_FAILED''"

abbreviation API_003_NOT_FOUND :: Code where
  "API_003_NOT_FOUND \<equiv> ''API_003_NOT_FOUND''"

abbreviation API_004_CONFLICT :: Code where
  "API_004_CONFLICT \<equiv> ''API_004_CONFLICT''"

abbreviation API_005_RATE_LIMITED :: Code where
  "API_005_RATE_LIMITED \<equiv> ''API_005_RATE_LIMITED''"

abbreviation API_006_ADMISSION_REJECTED :: Code where
  "API_006_ADMISSION_REJECTED \<equiv> ''API_006_ADMISSION_REJECTED''"

abbreviation API_007_SHARD_NOT_OWNED :: Code where
  "API_007_SHARD_NOT_OWNED \<equiv> ''API_007_SHARD_NOT_OWNED''"

abbreviation API_008_TIMEOUT :: Code where
  "API_008_TIMEOUT \<equiv> ''API_008_TIMEOUT''"

abbreviation REG_001_KEY_NOT_FOUND :: Code where
  "REG_001_KEY_NOT_FOUND \<equiv> ''REG_001_KEY_NOT_FOUND''"

abbreviation REG_002_WATCH_LOST :: Code where
  "REG_002_WATCH_LOST \<equiv> ''REG_002_WATCH_LOST''"

abbreviation REG_003_WATCH_FAILED :: Code where
  "REG_003_WATCH_FAILED \<equiv> ''REG_003_WATCH_FAILED''"

abbreviation REG_004_ACQUIRE_TIMEOUT :: Code where
  "REG_004_ACQUIRE_TIMEOUT \<equiv> ''REG_004_ACQUIRE_TIMEOUT''"

abbreviation REG_005_ASSEMBLER_INCOMPLETE :: Code where
  "REG_005_ASSEMBLER_INCOMPLETE \<equiv> ''REG_005_ASSEMBLER_INCOMPLETE''"

abbreviation REG_006_VALUE_DECODE_FAILED :: Code where
  "REG_006_VALUE_DECODE_FAILED \<equiv> ''REG_006_VALUE_DECODE_FAILED''"

abbreviation REG_007_REFCOUNT_UNDERFLOW :: Code where
  "REG_007_REFCOUNT_UNDERFLOW \<equiv> ''REG_007_REFCOUNT_UNDERFLOW''"

abbreviation REG_008_CACHE_OOM :: Code where
  "REG_008_CACHE_OOM \<equiv> ''REG_008_CACHE_OOM''"

abbreviation ACT_001_PARENT_NOT_READY :: Code where
  "ACT_001_PARENT_NOT_READY \<equiv> ''ACT_001_PARENT_NOT_READY''"

abbreviation ACT_002_INPUTS_NOT_READY :: Code where
  "ACT_002_INPUTS_NOT_READY \<equiv> ''ACT_002_INPUTS_NOT_READY''"

abbreviation ACT_003_COMPOSE_FAILED :: Code where
  "ACT_003_COMPOSE_FAILED \<equiv> ''ACT_003_COMPOSE_FAILED''"

abbreviation ACT_004_MAILBOX_DROPPED :: Code where
  "ACT_004_MAILBOX_DROPPED \<equiv> ''ACT_004_MAILBOX_DROPPED''"

abbreviation ACT_005_PANIC_RECOVERED :: Code where
  "ACT_005_PANIC_RECOVERED \<equiv> ''ACT_005_PANIC_RECOVERED''"

abbreviation ACT_006_REPEATED_PANIC :: Code where
  "ACT_006_REPEATED_PANIC \<equiv> ''ACT_006_REPEATED_PANIC''"

abbreviation ACT_007_STATE_INVARIANT_BROKEN :: Code where
  "ACT_007_STATE_INVARIANT_BROKEN \<equiv> ''ACT_007_STATE_INVARIANT_BROKEN''"

abbreviation ACT_008_DEADLINE_EXCEEDED :: Code where
  "ACT_008_DEADLINE_EXCEEDED \<equiv> ''ACT_008_DEADLINE_EXCEEDED''"

abbreviation DRV_001_CONNECTION_LOST :: Code where
  "DRV_001_CONNECTION_LOST \<equiv> ''DRV_001_CONNECTION_LOST''"

abbreviation DRV_002_TIMEOUT :: Code where
  "DRV_002_TIMEOUT \<equiv> ''DRV_002_TIMEOUT''"

abbreviation DRV_003_INVALID_PAYLOAD :: Code where
  "DRV_003_INVALID_PAYLOAD \<equiv> ''DRV_003_INVALID_PAYLOAD''"

abbreviation DRV_004_RESOURCE_EXHAUSTED :: Code where
  "DRV_004_RESOURCE_EXHAUSTED \<equiv> ''DRV_004_RESOURCE_EXHAUSTED''"

abbreviation DRV_005_VERSION_MISMATCH :: Code where
  "DRV_005_VERSION_MISMATCH \<equiv> ''DRV_005_VERSION_MISMATCH''"

abbreviation DRV_006_PARTIAL_APPLY :: Code where
  "DRV_006_PARTIAL_APPLY \<equiv> ''DRV_006_PARTIAL_APPLY''"

abbreviation DRV_007_DEVICE_REJECTED :: Code where
  "DRV_007_DEVICE_REJECTED \<equiv> ''DRV_007_DEVICE_REJECTED''"

abbreviation DRV_008_PERMANENT_FAILURE :: Code where
  "DRV_008_PERMANENT_FAILURE \<equiv> ''DRV_008_PERMANENT_FAILURE''"

abbreviation DRV_009_CAPABILITY_MISSING :: Code where
  "DRV_009_CAPABILITY_MISSING \<equiv> ''DRV_009_CAPABILITY_MISSING''"

abbreviation DRV_010_HASH_MISMATCH :: Code where
  "DRV_010_HASH_MISMATCH \<equiv> ''DRV_010_HASH_MISMATCH''"

abbreviation ADP_001_LEASE_LOST :: Code where
  "ADP_001_LEASE_LOST \<equiv> ''ADP_001_LEASE_LOST''"

abbreviation ADP_002_CAS_CONFLICT :: Code where
  "ADP_002_CAS_CONFLICT \<equiv> ''ADP_002_CAS_CONFLICT''"

abbreviation ADP_003_SCHEMA_REJECTED :: Code where
  "ADP_003_SCHEMA_REJECTED \<equiv> ''ADP_003_SCHEMA_REJECTED''"

abbreviation ADP_004_UNKNOWN_EVENT_TYPE :: Code where
  "ADP_004_UNKNOWN_EVENT_TYPE \<equiv> ''ADP_004_UNKNOWN_EVENT_TYPE''"

abbreviation ADP_005_T1_UNREACHABLE :: Code where
  "ADP_005_T1_UNREACHABLE \<equiv> ''ADP_005_T1_UNREACHABLE''"

abbreviation ADP_006_T2_UNREACHABLE :: Code where
  "ADP_006_T2_UNREACHABLE \<equiv> ''ADP_006_T2_UNREACHABLE''"

abbreviation ADP_007_DLQ_INSERTED :: Code where
  "ADP_007_DLQ_INSERTED \<equiv> ''ADP_007_DLQ_INSERTED''"

abbreviation ADP_008_WATERMARK_REGRESS :: Code where
  "ADP_008_WATERMARK_REGRESS \<equiv> ''ADP_008_WATERMARK_REGRESS''"

abbreviation STO_001_T1_TIMEOUT :: Code where
  "STO_001_T1_TIMEOUT \<equiv> ''STO_001_T1_TIMEOUT''"

abbreviation STO_002_T1_OOM :: Code where
  "STO_002_T1_OOM \<equiv> ''STO_002_T1_OOM''"

abbreviation STO_003_T1_CAS_RETRY_EXHAUSTED :: Code where
  "STO_003_T1_CAS_RETRY_EXHAUSTED \<equiv> ''STO_003_T1_CAS_RETRY_EXHAUSTED''"

abbreviation STO_004_T2_LEASE_EXPIRED :: Code where
  "STO_004_T2_LEASE_EXPIRED \<equiv> ''STO_004_T2_LEASE_EXPIRED''"

abbreviation STO_005_T3_CORRUPTION :: Code where
  "STO_005_T3_CORRUPTION \<equiv> ''STO_005_T3_CORRUPTION''"

abbreviation STO_006_T3_FULL :: Code where
  "STO_006_T3_FULL \<equiv> ''STO_006_T3_FULL''"

abbreviation REC_001_DRIFT_TRANSIENT :: Code where
  "REC_001_DRIFT_TRANSIENT \<equiv> ''REC_001_DRIFT_TRANSIENT''"

abbreviation REC_002_DRIFT_STALE_DEVICE :: Code where
  "REC_002_DRIFT_STALE_DEVICE \<equiv> ''REC_002_DRIFT_STALE_DEVICE''"

abbreviation REC_003_DRIFT_OBJECT :: Code where
  "REC_003_DRIFT_OBJECT \<equiv> ''REC_003_DRIFT_OBJECT''"

abbreviation REC_004_DRIFT_TOTAL :: Code where
  "REC_004_DRIFT_TOTAL \<equiv> ''REC_004_DRIFT_TOTAL''"

abbreviation REC_005_DRIFT_UNKNOWN :: Code where
  "REC_005_DRIFT_UNKNOWN \<equiv> ''REC_005_DRIFT_UNKNOWN''"

abbreviation REC_006_PEER_DRIFT :: Code where
  "REC_006_PEER_DRIFT \<equiv> ''REC_006_PEER_DRIFT''"

abbreviation REC_007_HASH_RPC_FAIL :: Code where
  "REC_007_HASH_RPC_FAIL \<equiv> ''REC_007_HASH_RPC_FAIL''"

abbreviation REC_008_PERSISTENT_DRIFT :: Code where
  "REC_008_PERSISTENT_DRIFT \<equiv> ''REC_008_PERSISTENT_DRIFT''"

abbreviation HA_001_FAILOVER_INITIATED :: Code where
  "HA_001_FAILOVER_INITIATED \<equiv> ''HA_001_FAILOVER_INITIATED''"

abbreviation HA_002_FAILOVER_TIMEOUT :: Code where
  "HA_002_FAILOVER_TIMEOUT \<equiv> ''HA_002_FAILOVER_TIMEOUT''"

abbreviation HA_003_SPLIT_BRAIN_SUSPECTED :: Code where
  "HA_003_SPLIT_BRAIN_SUSPECTED \<equiv> ''HA_003_SPLIT_BRAIN_SUSPECTED''"

abbreviation HA_004_SESSION_REPL_LAG :: Code where
  "HA_004_SESSION_REPL_LAG \<equiv> ''HA_004_SESSION_REPL_LAG''"

abbreviation HA_005_ORPHANED_STANDBY :: Code where
  "HA_005_ORPHANED_STANDBY \<equiv> ''HA_005_ORPHANED_STANDBY''"

abbreviation Unknown :: Code where
  "Unknown \<equiv> ''UNKNOWN''"

section \<open>Classification\<close>

datatype Severity = SeverityInfo | SeverityWarn | SeverityError | SeverityCritical

fun Severity_String :: "Severity \<Rightarrow> string" where
  "Severity_String SeverityInfo = ''INFO''"
| "Severity_String SeverityWarn = ''WARN''"
| "Severity_String SeverityError = ''ERROR''"
| "Severity_String SeverityCritical = ''CRITICAL''"

datatype Recoverability = RecovNA | RecovTransient | RecovPermanent | RecovOperator

fun Recoverability_String :: "Recoverability \<Rightarrow> string" where
  "Recoverability_String RecovNA = ''N/A''"
| "Recoverability_String RecovTransient = ''TRANSIENT''"
| "Recoverability_String RecovPermanent = ''PERMANENT''"
| "Recoverability_String RecovOperator = ''OPERATOR''"

datatype Blast =
    BlastSingleENI | BlastSingleDevice | BlastShard | BlastPod | BlastHaScope | BlastCluster

fun Blast_String :: "Blast \<Rightarrow> string" where
  "Blast_String BlastSingleENI = ''SINGLE_ENI''"
| "Blast_String BlastSingleDevice = ''SINGLE_DEVICE''"
| "Blast_String BlastShard = ''SHARD''"
| "Blast_String BlastPod = ''POD''"
| "Blast_String BlastHaScope = ''HA_SCOPE''"
| "Blast_String BlastCluster = ''CLUSTER''"

record Info =
  info_Code :: Code
  info_Severity :: Severity
  info_Recoverability :: Recoverability
  info_Blast :: Blast
  info_Runbook :: string
  info_Meaning :: string

definition Retryable :: "Info \<Rightarrow> bool" where
  "Retryable i = (info_Recoverability i = RecovTransient)"

text \<open>One line of the map literal: the key, and the record written positionally.\<close>

definition catalog_line ::
  "Code \<Rightarrow> Code \<Rightarrow> Severity \<Rightarrow> Recoverability \<Rightarrow> Blast \<Rightarrow> string \<Rightarrow> string \<Rightarrow> Code \<times> Info" where
  "catalog_line k c s r b book meaning =
     (k, \<lparr>info_Code = c, info_Severity = s, info_Recoverability = r, info_Blast = b,
         info_Runbook = book, info_Meaning = meaning\<rparr>)"

definition catalog :: "(Code \<times> Info) list" where
  "catalog =
    [catalog_line API_001_BAD_REQUEST API_001_BAD_REQUEST SeverityWarn RecovOperator BlastSingleENI
       '''' ''Schema violation in input'',
     catalog_line API_002_AUTH_FAILED API_002_AUTH_FAILED SeverityWarn RecovOperator BlastSingleENI
       '''' ''mTLS/JWT rejected'',
     catalog_line API_003_NOT_FOUND API_003_NOT_FOUND SeverityInfo RecovNA BlastSingleENI
       '''' (''Device/ENI doesn'' @ [CHR 0x27] @ ''t exist''),
     catalog_line API_004_CONFLICT API_004_CONFLICT SeverityWarn RecovTransient BlastSingleENI
       '''' ''ETag mismatch (concurrent modify)'',
     catalog_line API_005_RATE_LIMITED API_005_RATE_LIMITED SeverityInfo RecovTransient BlastSingleENI
       '''' ''Client over quota'',
     catalog_line API_006_ADMISSION_REJECTED API_006_ADMISSION_REJECTED SeverityWarn RecovOperator BlastPod
       '''' ''Pod over capacity'',
     catalog_line API_007_SHARD_NOT_OWNED API_007_SHARD_NOT_OWNED SeverityInfo RecovTransient BlastSingleENI
       '''' ''Request to wrong pod; redirect'',
     catalog_line API_008_TIMEOUT API_008_TIMEOUT SeverityError RecovTransient BlastSingleENI
       '''' ''Backend slow'',
     catalog_line REG_001_KEY_NOT_FOUND REG_001_KEY_NOT_FOUND SeverityInfo RecovNA BlastSingleENI
       '''' ''Acquire on non-existent key'',
     catalog_line REG_002_WATCH_LOST REG_002_WATCH_LOST SeverityWarn RecovTransient BlastSingleENI
       '''' ''etcd stream dropped'',
     catalog_line REG_003_WATCH_FAILED REG_003_WATCH_FAILED SeverityError RecovTransient BlastShard
       '''' ''etcd unreachable after retries'',
     catalog_line REG_004_ACQUIRE_TIMEOUT REG_004_ACQUIRE_TIMEOUT SeverityWarn RecovTransient BlastSingleENI
       '''' ''Ready not closed within deadline'',
     catalog_line REG_005_ASSEMBLER_INCOMPLETE REG_005_ASSEMBLER_INCOMPLETE SeverityWarn RecovTransient BlastSingleENI
       '''' ''VnetMapping chunks missing'',
     catalog_line REG_006_VALUE_DECODE_FAILED REG_006_VALUE_DECODE_FAILED SeverityError RecovPermanent BlastSingleENI
       '''' ''T1 has invalid proto'',
     catalog_line REG_007_REFCOUNT_UNDERFLOW REG_007_REFCOUNT_UNDERFLOW SeverityCritical RecovPermanent BlastPod
       ''Specs/Runbooks/REG_007_REFCOUNT_UNDERFLOW.md'' ''Bug: more Releases than Acquires'',
     catalog_line REG_008_CACHE_OOM REG_008_CACHE_OOM SeverityCritical RecovTransient BlastPod
       ''Specs/Runbooks/REG_008_CACHE_OOM.md'' ''Memory budget exceeded'',
     catalog_line ACT_001_PARENT_NOT_READY ACT_001_PARENT_NOT_READY SeverityInfo RecovTransient BlastSingleENI
       '''' ''NicActor waiting on HDO'',
     catalog_line ACT_002_INPUTS_NOT_READY ACT_002_INPUTS_NOT_READY SeverityInfo RecovTransient BlastSingleENI
       '''' ''NicActor waiting on registries'',
     catalog_line ACT_003_COMPOSE_FAILED ACT_003_COMPOSE_FAILED SeverityError RecovPermanent BlastSingleENI
       '''' ''Validation rejected (bad spec)'',
     catalog_line ACT_004_MAILBOX_DROPPED ACT_004_MAILBOX_DROPPED SeverityWarn RecovTransient BlastSingleENI
       '''' ''Registry burst overflowed'',
     catalog_line ACT_005_PANIC_RECOVERED ACT_005_PANIC_RECOVERED SeverityError RecovPermanent BlastSingleENI
       '''' ''Goroutine recovered from panic'',
     catalog_line ACT_006_REPEATED_PANIC ACT_006_REPEATED_PANIC SeverityCritical RecovPermanent BlastSingleENI
       ''Specs/Runbooks/ACT_006_REPEATED_PANIC.md'' ''Quarantined (3 panics in 10min)'',
     catalog_line ACT_007_STATE_INVARIANT_BROKEN ACT_007_STATE_INVARIANT_BROKEN SeverityCritical RecovPermanent BlastPod
       ''Specs/Runbooks/ACT_007_STATE_INVARIANT_BROKEN.md'' ''State machine corrupted (bug)'',
     catalog_line ACT_008_DEADLINE_EXCEEDED ACT_008_DEADLINE_EXCEEDED SeverityWarn RecovTransient BlastSingleENI
       '''' ''Compose/program exceeded budget'',
     catalog_line DRV_001_CONNECTION_LOST DRV_001_CONNECTION_LOST SeverityWarn RecovTransient BlastSingleDevice
       '''' ''gRPC/SAI broken'',
     catalog_line DRV_002_TIMEOUT DRV_002_TIMEOUT SeverityWarn RecovTransient BlastSingleENI
       '''' ''Per-command deadline'',
     catalog_line DRV_003_INVALID_PAYLOAD DRV_003_INVALID_PAYLOAD SeverityError RecovOperator BlastSingleENI
       '''' ''Device rejected schema'',
     catalog_line DRV_004_RESOURCE_EXHAUSTED DRV_004_RESOURCE_EXHAUSTED SeverityError RecovOperator BlastSingleDevice
       '''' ''Device tables full'',
     catalog_line DRV_005_VERSION_MISMATCH DRV_005_VERSION_MISMATCH SeverityWarn RecovTransient BlastSingleENI
       '''' ''Plan stale; recompose'',
     catalog_line DRV_006_PARTIAL_APPLY DRV_006_PARTIAL_APPLY SeverityError RecovTransient BlastSingleENI
       '''' ''Mid-wave failure'',
     catalog_line DRV_007_DEVICE_REJECTED DRV_007_DEVICE_REJECTED SeverityError RecovOperator BlastSingleENI
       '''' ''Device-level validation'',
     catalog_line DRV_008_PERMANENT_FAILURE DRV_008_PERMANENT_FAILURE SeverityCritical RecovPermanent BlastSingleDevice
       ''Specs/Runbooks/DRV_008_PERMANENT_FAILURE.md'' ''Quarantine'',
     catalog_line DRV_009_CAPABILITY_MISSING DRV_009_CAPABILITY_MISSING SeverityError RecovOperator BlastSingleDevice
       '''' ''Device lacks required feature'',
     catalog_line DRV_010_HASH_MISMATCH DRV_010_HASH_MISMATCH SeverityError RecovTransient BlastSingleENI
       '''' (''Post-apply hash '' @ [CHR 0xE2, CHR 0x89, CHR 0xA0] @ '' target''),
     catalog_line ADP_001_LEASE_LOST ADP_001_LEASE_LOST SeverityWarn RecovTransient BlastPod
       '''' ''Adapter pod lost leadership'',
     catalog_line ADP_002_CAS_CONFLICT ADP_002_CAS_CONFLICT SeverityInfo RecovTransient BlastSingleENI
       '''' ''Concurrent T1 write'',
     catalog_line ADP_003_SCHEMA_REJECTED ADP_003_SCHEMA_REJECTED SeverityError RecovOperator BlastSingleENI
       '''' ''CB sent invalid event'',
     catalog_line ADP_004_UNKNOWN_EVENT_TYPE ADP_004_UNKNOWN_EVENT_TYPE SeverityError RecovOperator BlastSingleENI
       '''' ''CB plugin/FM version skew'',
     catalog_line ADP_005_T1_UNREACHABLE ADP_005_T1_UNREACHABLE SeverityCritical RecovTransient BlastCluster
       ''Specs/Runbooks/ADP_005_T1_UNREACHABLE.md'' ''etcd down'',
     catalog_line ADP_006_T2_UNREACHABLE ADP_006_T2_UNREACHABLE SeverityCritical RecovTransient BlastCluster
       ''Specs/Runbooks/ADP_006_T2_UNREACHABLE.md'' ''etcd down'',
     catalog_line ADP_007_DLQ_INSERTED ADP_007_DLQ_INSERTED SeverityWarn RecovOperator BlastSingleENI
       '''' ''Event dead-lettered'',
     catalog_line ADP_008_WATERMARK_REGRESS ADP_008_WATERMARK_REGRESS SeverityCritical RecovPermanent BlastCluster
       ''Specs/Runbooks/ADP_008_WATERMARK_REGRESS.md'' ''Bug: watermark went backwards'',
     catalog_line STO_001_T1_TIMEOUT STO_001_T1_TIMEOUT SeverityWarn RecovTransient BlastShard
       '''' ''etcd slow'',
     catalog_line STO_002_T1_OOM STO_002_T1_OOM SeverityCritical RecovOperator BlastCluster
       ''Specs/Runbooks/STO_002_T1_OOM.md'' ''etcd memory exhausted'',
     catalog_line STO_003_T1_CAS_RETRY_EXHAUSTED STO_003_T1_CAS_RETRY_EXHAUSTED SeverityError RecovTransient BlastSingleENI
       '''' ''Lost CAS race repeatedly'',
     catalog_line STO_004_T2_LEASE_EXPIRED STO_004_T2_LEASE_EXPIRED SeverityWarn RecovTransient BlastPod
       '''' ''Lease lost mid-op'',
     catalog_line STO_005_T3_CORRUPTION STO_005_T3_CORRUPTION SeverityCritical RecovPermanent BlastPod
       ''Specs/Runbooks/STO_005_T3_CORRUPTION.md'' ''RocksDB integrity check failed'',
     catalog_line STO_006_T3_FULL STO_006_T3_FULL SeverityError RecovOperator BlastPod
       '''' (''Local cache full; eviction can'' @ [CHR 0x27] @ ''t keep up''),
     catalog_line REC_001_DRIFT_TRANSIENT REC_001_DRIFT_TRANSIENT SeverityInfo RecovTransient BlastSingleENI
       '''' ''Cleared on retry'',
     catalog_line REC_002_DRIFT_STALE_DEVICE REC_002_DRIFT_STALE_DEVICE SeverityWarn RecovTransient BlastSingleENI
       '''' ''Re-applying'',
     catalog_line REC_003_DRIFT_OBJECT REC_003_DRIFT_OBJECT SeverityWarn RecovTransient BlastSingleENI
       '''' ''Targeted fix'',
     catalog_line REC_004_DRIFT_TOTAL REC_004_DRIFT_TOTAL SeverityError RecovTransient BlastSingleENI
       '''' ''Full re-program'',
     catalog_line REC_005_DRIFT_UNKNOWN REC_005_DRIFT_UNKNOWN SeverityCritical RecovOperator BlastSingleENI
       ''Specs/Runbooks/REC_005_DRIFT_UNKNOWN.md'' ''Quarantined; external edit suspected'',
     catalog_line REC_006_PEER_DRIFT REC_006_PEER_DRIFT SeverityInfo RecovTransient BlastSingleENI
       '''' ''HA failover artifact'',
     catalog_line REC_007_HASH_RPC_FAIL REC_007_HASH_RPC_FAIL SeverityWarn RecovTransient BlastSingleDevice
       '''' ''Device unreachable'',
     catalog_line REC_008_PERSISTENT_DRIFT REC_008_PERSISTENT_DRIFT SeverityCritical RecovOperator BlastSingleENI
       ''Specs/Runbooks/REC_008_PERSISTENT_DRIFT.md'' ''5+ drifts in 1hr'',
     catalog_line HA_001_FAILOVER_INITIATED HA_001_FAILOVER_INITIATED SeverityInfo RecovNA BlastSingleENI
       '''' ''Normal HA op'',
     catalog_line HA_002_FAILOVER_TIMEOUT HA_002_FAILOVER_TIMEOUT SeverityError RecovTransient BlastSingleENI
       '''' (''Peer didn'' @ [CHR 0x27] @ ''t take over in budget''),
     catalog_line HA_003_SPLIT_BRAIN_SUSPECTED HA_003_SPLIT_BRAIN_SUSPECTED SeverityCritical RecovOperator BlastHaScope
       ''Specs/Runbooks/HA_003_SPLIT_BRAIN_SUSPECTED.md'' ''Both peers claim PRIMARY'',
     catalog_line HA_004_SESSION_REPL_LAG HA_004_SESSION_REPL_LAG SeverityWarn RecovTransient BlastHaScope
       '''' ''Replication lag > 1s'',
     catalog_line HA_005_ORPHANED_STANDBY HA_005_ORPHANED_STANDBY SeverityWarn RecovOperator BlastHaScope
       '''' ''Standby has no primary'']"

definition unknownInfo :: Info where
  "unknownInfo =
     \<lparr>info_Code = Unknown, info_Severity = SeverityError, info_Recoverability = RecovPermanent,
      info_Blast = BlastSingleENI, info_Runbook = '''', info_Meaning = ''Unrecognised error code''\<rparr>"

definition Classify :: "Code \<Rightarrow> Info" where
  "Classify c = (case map_of catalog c of Some info \<Rightarrow> info | None \<Rightarrow> unknownInfo)"

text \<open>
  Go leaves the iteration order of a map open, and so the order of \<open>All\<close>; the model lists the codes in
  catalogue order, and the properties only speak of the set and the number of codes.
\<close>

definition All_codes :: "Code list" where
  "All_codes = map fst catalog"

section \<open>The catalogue is coherent\<close>

text \<open>What every catalogue line must satisfy: its record repeats the key, a meaning is present, and
  a runbook is given for the critical codes and for no other, at the path derived from the code.\<close>

definition line_ok :: "Code \<times> Info \<Rightarrow> bool" where
  "line_ok ln = (case ln of (k, i) \<Rightarrow>
     info_Code i = k \<and> info_Meaning i \<noteq> [] \<and>
     info_Runbook i =
       (if info_Severity i = SeverityCritical then ''Specs/Runbooks/'' @ k @ ''.md'' else ''''))"

lemma catalog_lines_ok: "list_all line_ok catalog"
  by code_simp

lemma catalog_distinct: "distinct (map fst catalog)"
  by code_simp

lemma catalog_size: "length catalog = 61"
  by (simp add: catalog_def)

lemma Unknown_not_in_catalog: "Unknown \<notin> set (map fst catalog)"
  by code_simp

lemma Classify_known: "(c, i) \<in> set catalog \<Longrightarrow> Classify c = i"
  using map_of_is_SomeI [OF catalog_distinct] by (simp add: Classify_def)

lemma Classify_unknown: "c \<notin> set (map fst catalog) \<Longrightarrow> Classify c = unknownInfo"
  by (simp add: Classify_def map_of_eq_None_iff [THEN iffD2])

lemma Classify_cases:
  obtains (known) i where "(c, i) \<in> set catalog" and "Classify c = i" and "line_ok (c, i)"
  | (unknown) "c \<notin> set All_codes" and "Classify c = unknownInfo"
proof (cases "map_of catalog c")
  case None
  then have "c \<notin> set All_codes" and "Classify c = unknownInfo"
    by (simp_all add: Classify_def All_codes_def flip: map_of_eq_None_iff)
  then show ?thesis by (rule unknown)
next
  case (Some i)
  then have "(c, i) \<in> set catalog" by (rule map_of_SomeD)
  with Some show ?thesis
    using known catalog_lines_ok by (auto simp: Classify_def list_all_iff)
qed

lemma unknownInfo_not_retryable: "\<not> Retryable unknownInfo"
  by (simp add: Retryable_def unknownInfo_def)

section \<open>Properties\<close>

text \<open>The error catalogue lists 61 distinct codes; classifying a listed code returns a record of that very code
  with a meaning, and with a runbook at the derived path exactly if its severity is CRITICAL;
  every other code gets the unknown record, which is never retryable.\<close>

lemma catalog_coherent:
  "distinct All_codes \<and> length All_codes = 61 \<and>
   (if c \<in> set All_codes
    then info_Code (Classify c) = c \<and> info_Meaning (Classify c) \<noteq> [] \<and>
      info_Runbook (Classify c) =
        (if info_Severity (Classify c) = SeverityCritical then ''Specs/Runbooks/'' @ c @ ''.md'' else '''')
    else Classify c = unknownInfo \<and> \<not> Retryable (Classify c))"
proof (cases c rule: Classify_cases)
  case (known i)
  then have "c \<in> set All_codes" by (force simp: All_codes_def)
  with known show ?thesis by (simp add: All_codes_def catalog_distinct catalog_size line_ok_def)
next
  case unknown
  then show ?thesis by (simp add: All_codes_def catalog_distinct catalog_size unknownInfo_not_retryable)
qed

end
