(* ===== verification/FM_Registry.thy ===== *)
theory FM_Registry
  imports FM_Errors
begin

text \<open>
  The generic in-memory registry of the Fabric Manager (package registry, files
  \<^verbatim>\<open>semantics.go\<close> and \<^verbatim>\<open>refcount.go\<close> of \<^verbatim>\<open>src/FM/pkg/registry\<close>). Every method runs under the
  registry's mutex from its first to its last statement, so one method call is one atomic step and
  an interleaving of concurrent callers is a list of steps.

  The Ready channel of an entry is an address; the registry's record carries the allocation
  counter and the set of closed addresses, so that closing a channel twice would be visible as
  a panic.
\<close>

section \<open>State\<close>

record 'v entry =
  evalue :: "'v option"
  hasValue :: bool
  refs :: int
  ready :: chan

record ('k, 'v) Registry =
  entries :: "'k \<rightharpoonup> 'v entry"
  rname :: string
  next_chan :: chan
  closed_chans :: "chan set"

datatype 'k UnderflowError =
  UnderflowError (uf_Code: Code) (uf_Registry: string) (uf_Key: "'k option")

text \<open>The sentinel has no registry name and no key.\<close>

definition ErrRefcountUnderflow :: "'k UnderflowError" where
  "ErrRefcountUnderflow = UnderflowError REG_007_REFCOUNT_UNDERFLOW '''' None"

text \<open>The text of the error, for a rendering of keys; a missing key is rendered as Go renders nil.\<close>

definition UnderflowError_Error :: "('k \<Rightarrow> string) \<Rightarrow> 'k UnderflowError \<Rightarrow> string" where
  "UnderflowError_Error show_key e =
     uf_Code e @ '': registry='' @ uf_Registry e @ '' key='' @ (case uf_Key e of None \<Rightarrow> ''<nil>'' | Some k \<Rightarrow> show_key k)"

definition newUnderflow :: "string \<Rightarrow> 'k \<Rightarrow> 'k UnderflowError" where
  "newUnderflow n key = UnderflowError REG_007_REFCOUNT_UNDERFLOW n (Some key)"

text \<open>The \<open>Is\<close> method, for a target that is an \<open>UnderflowError\<close>.\<close>

definition UnderflowError_Is :: "'k UnderflowError \<Rightarrow> 'k UnderflowError \<Rightarrow> bool" where
  "UnderflowError_Is e target = (uf_Code target = uf_Code e)"

section \<open>Operations\<close>

definition reg_New :: "string \<Rightarrow> ('k, 'v) Registry" where
  "reg_New n = \<lparr>entries = Map.empty, rname = n, next_chan = 0, closed_chans = {}\<rparr>"

definition reg_Name :: "('k, 'v) Registry \<Rightarrow> string" where
  "reg_Name r = rname r"

text \<open>Allocates the Ready channel of a fresh entry.\<close>

definition newEntry :: "('k, 'v) Registry \<Rightarrow> 'v entry \<times> ('k, 'v) Registry" where
  "newEntry r =
     (\<lparr>evalue = None, hasValue = False, refs = 0, ready = next_chan r\<rparr>,
      r\<lparr>next_chan := Suc (next_chan r)\<rparr>)"

text \<open>The first lines of \<open>Acquire\<close> and \<open>Add\<close>: find the entry, or create and store a fresh one.\<close>

definition find_or_create :: "('k, 'v) Registry \<Rightarrow> 'k \<Rightarrow> 'v entry \<times> ('k, 'v) Registry" where
  "find_or_create r key =
     (case entries r key of
        Some e \<Rightarrow> (e, r)
      | None \<Rightarrow> (let (e, r') = newEntry r in (e, r'\<lparr>entries := (entries r')(key \<mapsto> e)\<rparr>)))"

definition reg_Acquire :: "('k, 'v) Registry \<Rightarrow> 'k \<Rightarrow> chan \<times> ('k, 'v) Registry" where
  "reg_Acquire r key =
     (let (e, r') = find_or_create r key;
          e' = e\<lparr>refs := i64 (refs e + 1)\<rparr>
      in (ready e', r'\<lparr>entries := (entries r')(key \<mapsto> e')\<rparr>))"

definition reg_Release ::
  "('k, 'v) Registry \<Rightarrow> 'k \<Rightarrow> 'k UnderflowError option \<times> ('k, 'v) Registry" where
  "reg_Release r key =
     (case entries r key of
        None \<Rightarrow> (Some (newUnderflow (rname r) key), r)
      | Some e \<Rightarrow>
          if refs e \<le> 0 then (Some (newUnderflow (rname r) key), r)
          else
            let e' = e\<lparr>refs := i64 (refs e - 1)\<rparr>
            in (None,
                if refs e' = 0 then r\<lparr>entries := (entries r)(key := None)\<rparr>
                else r\<lparr>entries := (entries r)(key \<mapsto> e')\<rparr>))"

definition reg_Add :: "('k, 'v) Registry \<Rightarrow> 'k \<Rightarrow> 'v \<Rightarrow> ('k, 'v) Registry go" where
  "reg_Add r key v =
     (let (e, r') = find_or_create r key;
          first = (\<not> hasValue e);
          e' = e\<lparr>evalue := Some v, hasValue := True\<rparr>;
          r'' = r'\<lparr>entries := (entries r')(key \<mapsto> e')\<rparr>
      in if first
         then go_bind (go_close (ready e') (closed_chans r'')) (\<lambda>C. Inr (r''\<lparr>closed_chans := C\<rparr>))
         else Inr r'')"

definition reg_Get :: "('k, 'v) Registry \<Rightarrow> 'k \<Rightarrow> 'v option" where
  "reg_Get r key =
     (case entries r key of
        None \<Rightarrow> None
      | Some e \<Rightarrow> if \<not> hasValue e then None else evalue e)"

definition reg_Ready :: "('k, 'v) Registry \<Rightarrow> 'k \<Rightarrow> bool" where
  "reg_Ready r key = (case entries r key of None \<Rightarrow> False | Some e \<Rightarrow> hasValue e)"

definition reg_Refcount :: "('k, 'v) Registry \<Rightarrow> 'k \<Rightarrow> int" where
  "reg_Refcount r key = (case entries r key of None \<Rightarrow> 0 | Some e \<Rightarrow> refs e)"

definition reg_Len :: "('k, 'v) Registry \<Rightarrow> nat" where
  "reg_Len r = card (dom (entries r))"

definition reg_Snapshot :: "('k, 'v) Registry \<Rightarrow> ('k \<rightharpoonup> 'v)" where
  "reg_Snapshot r = (\<lambda>k. case entries r k of
     None \<Rightarrow> None | Some e \<Rightarrow> if hasValue e then evalue e else None)"

lemmas reg_op_defs [reg_defs] =
  reg_Acquire_def reg_Release_def reg_Add_def find_or_create_def newEntry_def

section \<open>Steps and histories\<close>

text \<open>The calls that change the registry; \<open>Get\<close>, \<open>Ready\<close> and the other queries do not.\<close>

datatype ('k, 'v) reg_op = OpAcquire 'k | OpRelease 'k | OpAdd 'k 'v

fun reg_step :: "('k, 'v) Registry \<Rightarrow> ('k, 'v) reg_op \<Rightarrow> ('k, 'v) Registry go" where
  "reg_step r (OpAcquire k) = Inr (snd (reg_Acquire r k))"
| "reg_step r (OpRelease k) = Inr (snd (reg_Release r k))"
| "reg_step r (OpAdd k v) = reg_Add r k v"

fun reg_run :: "('k, 'v) Registry \<Rightarrow> ('k, 'v) reg_op list \<Rightarrow> ('k, 'v) Registry go" where
  "reg_run r [] = Inr r"
| "reg_run r (x # xs) = go_bind (reg_step r x) (\<lambda>r'. reg_run r' xs)"

section \<open>Abstract specification\<close>

text \<open>
  What the registry promises, with neither channels nor entries: every key has a number of live
  holders and possibly a value, and the last release drops the value.
\<close>

type_synonym ('k, 'v) reg_spec = "'k \<Rightarrow> nat \<times> 'v option"

fun spec_step :: "('k, 'v) reg_spec \<Rightarrow> ('k, 'v) reg_op \<Rightarrow> ('k, 'v) reg_spec" where
  "spec_step s (OpAcquire k) = s(k := (Suc (fst (s k)), snd (s k)))"
| "spec_step s (OpRelease k) =
     (case fst (s k) of
        0 \<Rightarrow> s
      | Suc 0 \<Rightarrow> s(k := (0, None))
      | Suc n \<Rightarrow> s(k := (n, snd (s k))))"
| "spec_step s (OpAdd k v) = s(k := (fst (s k), Some v))"

fun spec_run :: "('k, 'v) reg_spec \<Rightarrow> ('k, 'v) reg_op list \<Rightarrow> ('k, 'v) reg_spec" where
  "spec_run s [] = s"
| "spec_run s (x # xs) = spec_run (spec_step s x) xs"

definition reg_abs :: "('k, 'v) Registry \<Rightarrow> ('k, 'v) reg_spec" where
  "reg_abs r k = (nat (reg_Refcount r k), reg_Get r k)"

section \<open>The invariant\<close>

text \<open>
  The entries agree with the channel store: the Ready channel of an entry is allocated, belongs to
  no other key and is closed exactly when the entry has a value; an entry nobody holds exists
  only because a value was written. The bound \<open>n\<close> limits every count, which keeps the 64-bit counter
  away from its wrap-around.
\<close>

definition entry_ok :: "nat \<Rightarrow> chan \<Rightarrow> chan set \<Rightarrow> 'v entry \<Rightarrow> bool" where
  "entry_ok n next C e \<longleftrightarrow>
     ready e < next \<and> (hasValue e \<longleftrightarrow> ready e \<in> C) \<and> (hasValue e \<longleftrightarrow> evalue e \<noteq> None) \<and>
     0 \<le> refs e \<and> refs e \<le> int n \<and> (refs e = 0 \<longrightarrow> hasValue e)"

definition reg_wf :: "nat \<Rightarrow> ('k, 'v) Registry \<Rightarrow> bool" where
  "reg_wf n r \<longleftrightarrow>
     finite (dom (entries r)) \<and> closed_chans r \<subseteq> {..<next_chan r} \<and>
     (\<forall>k e. entries r k = Some e \<longrightarrow> entry_ok n (next_chan r) (closed_chans r) e) \<and>
     (\<forall>k k' e e'. entries r k = Some e \<longrightarrow> entries r k' = Some e' \<longrightarrow> ready e = ready e' \<longrightarrow> k = k')"

section \<open>Preservation of the invariant\<close>

lemma reg_wf_entry: "reg_wf n r \<Longrightarrow> entries r k = Some e \<Longrightarrow> entry_ok n (next_chan r) (closed_chans r) e"
  by (auto simp: reg_wf_def)

lemma reg_wf_same_chan:
  "reg_wf n r \<Longrightarrow> entries r k = Some e \<Longrightarrow> entries r k' = Some e' \<Longrightarrow> ready e = ready e' \<Longrightarrow> k = k'"
  by (auto simp: reg_wf_def)

lemma reg_wf_New [reg_inv]: "reg_wf n (reg_New nm)"
  by (simp add: reg_wf_def reg_New_def)

lemma reg_wf_mono: "reg_wf m r \<Longrightarrow> m \<le> n \<Longrightarrow> reg_wf n r"
  by (fastforce simp: reg_wf_def entry_ok_def)

text \<open>Counting inside the range never wraps.\<close>

lemma refs_incr: "0 \<le> x \<Longrightarrow> x \<le> int n \<Longrightarrow> Suc n < 2 ^ 63 \<Longrightarrow> i64 (x + 1) = x + 1"
  by (rule i64_id) (auto simp: is_i64_def)

lemma refs_decr: "0 < x \<Longrightarrow> x \<le> int n \<Longrightarrow> n < 2 ^ 63 \<Longrightarrow> i64 (x - 1) = x - 1"
  by (rule i64_id) (auto simp: is_i64_def)

lemma reg_wf_Acquire [reg_inv]:
  assumes wf: "reg_wf n r" and n: "Suc n < 2 ^ 63"
  shows "reg_wf (Suc n) (snd (reg_Acquire r k))"
proof (cases "entries r k")
  case None
  have "entry_ok (Suc n) (Suc (next_chan r)) (closed_chans r) e" if "entries r j = Some e" for j e
    using reg_wf_entry [OF wf that] by (auto simp: entry_ok_def)
  moreover have "ready e \<noteq> next_chan r" if "entries r j = Some e" for j e
    using reg_wf_entry [OF wf that] by (auto simp: entry_ok_def)
  moreover have "next_chan r \<notin> closed_chans r" and "closed_chans r \<subseteq> {..<Suc (next_chan r)}"
    using wf by (auto simp: reg_wf_def)
  moreover have "entry_ok (Suc n) (Suc (next_chan r)) (closed_chans r)
      \<lparr>evalue = None, hasValue = False, refs = i64 1, ready = next_chan r\<rparr>"
    using calculation(3) by (simp add: entry_ok_def i64_id is_i64_def)
  ultimately show ?thesis
    using wf None by (auto simp: reg_defs reg_wf_def dest: sym)
next
  case (Some e)
  have e: "entry_ok n (next_chan r) (closed_chans r) e" using wf Some by (rule reg_wf_entry)
  then have "entry_ok (Suc n) (next_chan r) (closed_chans r) (e\<lparr>refs := i64 (refs e + 1)\<rparr>)"
    using n by (auto simp: entry_ok_def refs_incr)
  moreover have "entry_ok (Suc n) (next_chan r) (closed_chans r) e'" if "entries r j = Some e'" for j e'
    using reg_wf_entry [OF wf that] by (auto simp: entry_ok_def)
  ultimately show ?thesis
    using wf Some reg_wf_same_chan [OF wf Some] by (auto simp: reg_defs reg_wf_def)
qed

lemma reg_wf_Release [reg_inv]:
  assumes wf: "reg_wf n r" and n: "n < 2 ^ 63"
  shows "reg_wf n (snd (reg_Release r k))"
proof (cases "entries r k")
  case None
  then show ?thesis using wf by (simp add: reg_defs)
next
  case (Some e)
  have e: "entry_ok n (next_chan r) (closed_chans r) e" using wf Some by (rule reg_wf_entry)
  show ?thesis
  proof (cases "refs e \<le> 0")
    case True
    then show ?thesis using wf Some by (simp add: reg_defs)
  next
    case False
    then have d: "i64 (refs e - 1) = refs e - 1"
      using e n by (intro refs_decr) (auto simp: entry_ok_def)
    have "entry_ok n (next_chan r) (closed_chans r) (e\<lparr>refs := refs e - 1\<rparr>)" if "refs e \<noteq> 1"
      using e False that by (auto simp: entry_ok_def)
    with False d wf Some reg_wf_same_chan [OF wf Some] show ?thesis
      by (auto simp: reg_defs reg_wf_def Let_def)
  qed
qed

lemma reg_wf_Add [reg_inv]:
  assumes wf: "reg_wf n r"
  obtains r' where "reg_Add r k v = Inr r'" and "reg_wf n r'"
proof (cases "entries r k")
  case None
  let ?c = "next_chan r"
  let ?e = "\<lparr>evalue = Some v, hasValue = True, refs = 0, ready = ?c\<rparr>"
  let ?r = "r\<lparr>entries := (entries r)(k \<mapsto> ?e), next_chan := Suc ?c,
              closed_chans := insert ?c (closed_chans r)\<rparr>"
  have fresh: "?c \<notin> closed_chans r" using wf by (auto simp: reg_wf_def)
  have "entry_ok n (Suc ?c) (insert ?c (closed_chans r)) e \<and> ready e \<noteq> ?c"
    if "entries r j = Some e" for j e
    using reg_wf_entry [OF wf that] by (auto simp: entry_ok_def)
  moreover have "closed_chans r \<subseteq> {..<Suc ?c}" using wf by (auto simp: reg_wf_def)
  moreover have "entry_ok n (Suc ?c) (insert ?c (closed_chans r)) ?e"
    by (simp add: entry_ok_def)
  ultimately have "reg_wf n ?r"
    using wf by (auto simp: reg_wf_def dest: sym)
  moreover have "reg_Add r k v = Inr ?r"
    using None fresh by (simp add: reg_defs go_close_def)
  ultimately show ?thesis using that by blast
next
  case (Some e)
  have e: "entry_ok n (next_chan r) (closed_chans r) e" using wf Some by (rule reg_wf_entry)
  let ?e = "e\<lparr>evalue := Some v, hasValue := True\<rparr>"
  let ?C = "insert (ready e) (closed_chans r)"
  let ?r = "r\<lparr>entries := (entries r)(k \<mapsto> ?e), closed_chans := ?C\<rparr>"
  have "entry_ok n (next_chan r) ?C e'" if "entries r j = Some e'" "j \<noteq> k" for j e'
    using reg_wf_entry [OF wf that(1)] reg_wf_same_chan [OF wf that(1) Some] that(2)
    by (auto simp: entry_ok_def)
  moreover have "entry_ok n (next_chan r) ?C ?e" and "?C \<subseteq> {..<next_chan r}"
    using e wf by (auto simp: entry_ok_def reg_wf_def)
  ultimately have "reg_wf n ?r"
    using wf reg_wf_same_chan [OF wf Some] by (auto simp: reg_wf_def)
  moreover have "reg_Add r k v = Inr ?r"
  proof (cases "hasValue e")
    case True
    with e have "?C = closed_chans r" by (auto simp: entry_ok_def)
    with True Some show ?thesis by (simp add: reg_defs)
  next
    case False
    with e Some show ?thesis by (simp add: reg_defs entry_ok_def go_close_def)
  qed
  ultimately show ?thesis using that by blast
qed

section \<open>Observations after each operation\<close>

lemma wf_Refcount: "reg_wf n r \<Longrightarrow> 0 \<le> reg_Refcount r k \<and> reg_Refcount r k \<le> int n"
  by (auto simp: reg_Refcount_def dest: reg_wf_entry simp: entry_ok_def split: option.splits)

lemma Refcount_Acquire:
  assumes "reg_wf n r" and "Suc n < 2 ^ 63"
  shows "reg_Refcount (snd (reg_Acquire r k)) = (reg_Refcount r)(k := reg_Refcount r k + 1)"
proof (cases "entries r k")
  case None
  then show ?thesis by (auto simp: reg_defs reg_Refcount_def i64_id is_i64_def fun_eq_iff)
next
  case (Some e)
  then have "i64 (refs e + 1) = refs e + 1"
    using reg_wf_entry [OF assms(1) Some] assms(2) by (auto simp: entry_ok_def refs_incr)
  with Some show ?thesis by (auto simp: reg_defs reg_Refcount_def fun_eq_iff)
qed

lemma Get_Acquire: "reg_Get (snd (reg_Acquire r k)) = reg_Get r"
  by (auto simp: reg_defs reg_Get_def fun_eq_iff split: option.splits)

lemma Release_error_iff:
  "reg_wf n r \<Longrightarrow>
     fst (reg_Release r k) = (if reg_Refcount r k = 0 then Some (newUnderflow (rname r) k) else None)"
  using wf_Refcount [of n r k]
  by (auto simp: reg_Release_def reg_Refcount_def Let_def split: option.splits)

lemma Release_error_unchanged: "fst (reg_Release r k) \<noteq> None \<Longrightarrow> snd (reg_Release r k) = r"
  by (auto simp: reg_Release_def Let_def split: option.splits if_splits)

lemma Release_ok_entry:
  assumes "reg_wf n r" and "n < 2 ^ 63" and "fst (reg_Release r k) = None"
  obtains e where "entries r k = Some e" and "0 < refs e" and "i64 (refs e - 1) = refs e - 1"
    and "reg_Refcount r k = refs e"
proof -
  obtain e where e: "entries r k = Some e" "0 < refs e"
    using assms(3) by (auto simp: reg_Release_def Let_def split: option.splits if_splits)
  moreover have "i64 (refs e - 1) = refs e - 1"
    using reg_wf_entry [OF assms(1) e(1)] e(2) assms(2)
    by (intro refs_decr) (auto simp: entry_ok_def)
  ultimately show ?thesis using that by (simp add: reg_Refcount_def)
qed

lemma Refcount_Release:
  assumes "reg_wf n r" and "n < 2 ^ 63" and "fst (reg_Release r k) = None"
  shows "reg_Refcount (snd (reg_Release r k)) = (reg_Refcount r)(k := reg_Refcount r k - 1)"
  using assms
  by (elim Release_ok_entry) (auto simp: reg_Release_def reg_Refcount_def Let_def fun_eq_iff)

lemma Get_Release:
  assumes "reg_wf n r" and "n < 2 ^ 63" and "fst (reg_Release r k) = None"
  shows "reg_Get (snd (reg_Release r k)) =
    (if reg_Refcount r k = 1 then (reg_Get r)(k := None) else reg_Get r)"
  using assms
  by (elim Release_ok_entry) (auto simp: reg_Release_def reg_Get_def Let_def fun_eq_iff)

lemma Add_entries:
  assumes "reg_Add r k v = Inr r'"
  obtains e where "entries r' = (entries r)(k \<mapsto> e)" and "evalue e = Some v" and "hasValue e"
    and "refs e = reg_Refcount r k" and "rname r' = rname r"
proof (cases "entries r k")
  case None
  with assms that show ?thesis
    by (auto simp: reg_defs reg_Refcount_def go_bind_Inr_iff Let_def)
next
  case (Some e)
  with assms that show ?thesis
    by (cases "hasValue e") (auto simp: reg_defs reg_Refcount_def go_bind_Inr_iff Let_def)
qed

lemma Add_observations:
  assumes "reg_Add r k v = Inr r'"
  shows "reg_Get r' = (reg_Get r)(k \<mapsto> v)" and "reg_Refcount r' = reg_Refcount r"
    and "rname r' = rname r"
proof -
  obtain e where "entries r' = (entries r)(k \<mapsto> e)" "evalue e = Some v" "hasValue e"
    "refs e = reg_Refcount r k" "rname r' = rname r"
    using assms by (rule Add_entries)
  then show "reg_Get r' = (reg_Get r)(k \<mapsto> v)" and "reg_Refcount r' = reg_Refcount r"
    and "rname r' = rname r"
    by (simp_all add: reg_Get_def reg_Refcount_def fun_eq_iff)
qed

lemma Snapshot_is_Get: "reg_Snapshot r = reg_Get r"
  by (auto simp: reg_Snapshot_def reg_Get_def fun_eq_iff split: option.splits)

lemma Ready_is_Get: "reg_wf n r \<Longrightarrow> reg_Ready r k \<longleftrightarrow> reg_Get r k \<noteq> None"
  by (auto simp: reg_Ready_def reg_Get_def entry_ok_def dest: reg_wf_entry split: option.splits)

text \<open>Names never change; a channel that is closed stays closed.\<close>

lemma reg_step_frame:
  "reg_step r x = Inr r' \<Longrightarrow> rname r' = rname r \<and> closed_chans r \<subseteq> closed_chans r' \<and>
     next_chan r \<le> next_chan r'"
proof (cases x)
  case (OpAdd k v)
  assume "reg_step r x = Inr r'"
  with OpAdd show ?thesis
    by (cases "entries r k") (auto simp: reg_defs go_close_def Let_def go_bind_Inr_iff split: if_splits)
qed (auto simp: reg_defs Let_def split: option.splits if_splits)

section \<open>Refinement of the abstract specification\<close>

lemma reg_step_refines:
  assumes wf: "reg_wf n r" and n: "Suc n < 2 ^ 63"
  shows "\<exists>r'. reg_step r x = Inr r' \<and> reg_wf (Suc n) r' \<and> reg_abs r' = spec_step (reg_abs r) x"
proof (cases x)
  case (OpAcquire k)
  have "reg_abs (snd (reg_Acquire r k)) = spec_step (reg_abs r) x"
    using OpAcquire wf_Refcount [OF wf] wf n
    by (auto simp: reg_abs_def Refcount_Acquire Get_Acquire nat_add_distrib fun_eq_iff)
  with OpAcquire reg_wf_Acquire [OF wf n] show ?thesis by simp
next
  case (OpRelease k)
  have n': "n < 2 ^ 63" using n by simp
  have "reg_abs (snd (reg_Release r k)) = spec_step (reg_abs r) x"
  proof (cases "reg_Refcount r k = 0")
    case True
    then have "snd (reg_Release r k) = r"
      by (intro Release_error_unchanged) (simp add: Release_error_iff [OF wf])
    with True OpRelease show ?thesis by (simp add: reg_abs_def)
  next
    case False
    then have ok: "fst (reg_Release r k) = None" by (simp add: Release_error_iff [OF wf])
    obtain m where "reg_Refcount r k = int (Suc m)"
      using False wf_Refcount [OF wf, of k] by (metis int_nat_eq nat_0_iff not0_implies_Suc order_antisym)
    with OpRelease show ?thesis
      by (auto simp: reg_abs_def Refcount_Release [OF wf n' ok] Get_Release [OF wf n' ok] fun_eq_iff
          split: nat.splits)
  qed
  with OpRelease reg_wf_mono [OF reg_wf_Release [OF wf n', of k] le_SucI [OF order_refl]] show ?thesis by simp
next
  case (OpAdd k v)
  obtain r' where "reg_Add r k v = Inr r'" and "reg_wf n r'" using wf by (rule reg_wf_Add)
  with OpAdd show ?thesis
    by (auto simp: reg_abs_def Add_observations fun_eq_iff intro: reg_wf_mono)
qed

lemma reg_run_refines:
  assumes "reg_wf n r" and "n + length xs < 2 ^ 63"
  shows "\<exists>r'. reg_run r xs = Inr r' \<and> reg_wf (n + length xs) r' \<and> reg_abs r' = spec_run (reg_abs r) xs"
  using assms
proof (induction xs arbitrary: n r)
  case Nil
  then show ?case by simp
next
  case (Cons x xs)
  then obtain r' where "reg_step r x = Inr r'" "reg_wf (Suc n) r'" "reg_abs r' = spec_step (reg_abs r) x"
    using reg_step_refines [of n r x] by auto
  with Cons.IH [of "Suc n" r'] Cons.prems(2) show ?case by auto
qed

lemma reg_abs_New: "reg_abs (reg_New nm) = (\<lambda>k. (0, None))"
  by (simp add: reg_abs_def reg_New_def reg_Refcount_def reg_Get_def fun_eq_iff)

end
