(* ===== verification/Registry_Contract.thy ===== *)
theory Registry_Contract
  imports FM_Registry
begin

text \<open>
  The interface between the registries and their clients. The locale \<open>refcounted_registry\<close> lists what
  a holder of a reference relies on; \<open>validated_registry\<close> adds what the typed wrappers promise about
  values: they are checked and normalised before they are stored. The clients' lemmas are proved
  once here and reach the generic registry and the six typed registries by interpretation.
\<close>

section \<open>Histories of holders and writers\<close>

datatype 'k hold_op = Hold 'k | Drop 'k

fun hold_run ::
  "('r \<Rightarrow> 'k \<Rightarrow> chan \<times> 'r) \<Rightarrow> ('r \<Rightarrow> 'k \<Rightarrow> 'k UnderflowError option \<times> 'r) \<Rightarrow> 'r \<Rightarrow> 'k hold_op list \<Rightarrow> 'r"
where
  "hold_run acq rel r [] = r"
| "hold_run acq rel r (Hold k # xs) = hold_run acq rel (snd (acq r k)) xs"
| "hold_run acq rel r (Drop k # xs) = hold_run acq rel (snd (rel r k)) xs"

fun drops :: "'k \<Rightarrow> 'k hold_op list \<Rightarrow> nat" where
  "drops k [] = 0"
| "drops k (Hold j # xs) = drops k xs"
| "drops k (Drop j # xs) = (if j = k then Suc (drops k xs) else drops k xs)"

text \<open>The mutating calls of a typed registry; the argument of \<open>Add\<close> is a pointer and may be nil.\<close>

datatype ('k, 's) treg_op = TAcquire 'k | TRelease 'k | TAdd "'s option"

fun treg_step ::
  "('r \<Rightarrow> 'k \<Rightarrow> chan \<times> 'r) \<Rightarrow> ('r \<Rightarrow> 'k \<Rightarrow> 'k UnderflowError option \<times> 'r) \<Rightarrow>
   ('r \<Rightarrow> 's option \<Rightarrow> ('e option \<times> 'r) go) \<Rightarrow> 'r \<Rightarrow> ('k, 's) treg_op \<Rightarrow> 'r go"
where
  "treg_step acq rel add r (TAcquire k) = Inr (snd (acq r k))"
| "treg_step acq rel add r (TRelease k) = Inr (snd (rel r k))"
| "treg_step acq rel add r (TAdd s) = go_bind (add r s) (\<lambda>(err, r'). Inr r')"

fun treg_run ::
  "('r \<Rightarrow> 'k \<Rightarrow> chan \<times> 'r) \<Rightarrow> ('r \<Rightarrow> 'k \<Rightarrow> 'k UnderflowError option \<times> 'r) \<Rightarrow>
   ('r \<Rightarrow> 's option \<Rightarrow> ('e option \<times> 'r) go) \<Rightarrow> 'r \<Rightarrow> ('k, 's) treg_op list \<Rightarrow> 'r go"
where
  "treg_run acq rel add r [] = Inr r"
| "treg_run acq rel add r (x # xs) =
     go_bind (treg_step acq rel add r x) (\<lambda>r'. treg_run acq rel add r' xs)"

text \<open>What a registry stores: every value sits under its own key, passes validation and is normal.\<close>

definition stored_ok ::
  "('s option \<Rightarrow> 'e option) \<Rightarrow> ('s \<Rightarrow> 'k) \<Rightarrow> ('s \<Rightarrow> 's) \<Rightarrow> ('k \<Rightarrow> 's option) \<Rightarrow> bool" where
  "stored_ok validate key norm m \<longleftrightarrow>
     (\<forall>k s. m k = Some s \<longrightarrow> key s = k \<and> validate (Some s) = None \<and> norm s = s)"

text \<open>The well-formedness predicate of a registry with a fixed name.\<close>

definition named_wf :: "string \<Rightarrow> nat \<Rightarrow> ('k, 'v) Registry \<Rightarrow> bool" where
  "named_wf nm n r \<longleftrightarrow> reg_wf n r \<and> rname r = nm"

section \<open>Reference counting\<close>

locale refcounted_registry =
  fixes nm :: string
    and wf :: "nat \<Rightarrow> 'r \<Rightarrow> bool"
    and new :: 'r
    and acquire :: "'r \<Rightarrow> 'k \<Rightarrow> chan \<times> 'r"
    and release :: "'r \<Rightarrow> 'k \<Rightarrow> 'k UnderflowError option \<times> 'r"
    and get :: "'r \<Rightarrow> 'k \<Rightarrow> 'v option"
    and refcount :: "'r \<Rightarrow> 'k \<Rightarrow> int"
    and closed :: "'r \<Rightarrow> chan set"
  assumes wf_new: "wf n new"
    and get_new: "get new k = None"
    and refcount_new: "refcount new k = 0"
    and wf_mono: "wf m r \<Longrightarrow> m \<le> n \<Longrightarrow> wf n r"
    and wf_acquire: "wf n r \<Longrightarrow> Suc n < 2 ^ 63 \<Longrightarrow> wf (Suc n) (snd (acquire r k))"
    and wf_release: "wf n r \<Longrightarrow> n < 2 ^ 63 \<Longrightarrow> wf n (snd (release r k))"
    and refcount_range: "wf n r \<Longrightarrow> 0 \<le> refcount r k \<and> refcount r k \<le> int n"
    and refcount_acquire:
      "wf n r \<Longrightarrow> Suc n < 2 ^ 63 \<Longrightarrow> refcount (snd (acquire r k)) = (refcount r)(k := refcount r k + 1)"
    and get_acquire: "get (snd (acquire r k)) = get r"
    and acquire_ready:
      "wf n r \<Longrightarrow> fst (acquire r k) \<in> closed (snd (acquire r k)) \<longleftrightarrow> get r k \<noteq> None"
    and release_error:
      "wf n r \<Longrightarrow> fst (release r k) = (if refcount r k = 0 then Some (newUnderflow nm k) else None)"
    and release_unchanged: "fst (release r k) \<noteq> None \<Longrightarrow> snd (release r k) = r"
    and refcount_release:
      "wf n r \<Longrightarrow> n < 2 ^ 63 \<Longrightarrow> fst (release r k) = None \<Longrightarrow>
         refcount (snd (release r k)) = (refcount r)(k := refcount r k - 1)"
    and get_release:
      "wf n r \<Longrightarrow> n < 2 ^ 63 \<Longrightarrow> fst (release r k) = None \<Longrightarrow>
         get (snd (release r k)) = (if refcount r k = 1 then (get r)(k := None) else get r)"
begin

text \<open>A successful or failed release as one equation each.\<close>

lemma release_zero: "wf n r \<Longrightarrow> refcount r k = 0 \<Longrightarrow> release r k = (Some (newUnderflow nm k), r)"
  by (metis option.distinct(1) prod.collapse release_error release_unchanged)

lemma release_positive: "wf n r \<Longrightarrow> refcount r k \<noteq> 0 \<Longrightarrow> fst (release r k) = None"
  by (simp add: release_error)

text \<open>
  While there are more holders of a key than releases still to come, no interleaving of acquires
  and releases, of this key or of any other, can take the value away.
\<close>

lemma held_value_survives:
  assumes "wf n r" and "n + length xs < 2 ^ 63" and "int (drops k xs) < refcount r k"
  shows "get (hold_run acquire release r xs) k = get r k \<and>
    0 < refcount (hold_run acquire release r xs) k"
  using assms
proof (induction xs arbitrary: n r)
  case Nil
  then show ?case by simp
next
  case (Cons x xs)
  have n: "Suc n < 2 ^ 63" "n < 2 ^ 63" "Suc n + length xs < 2 ^ 63" using Cons.prems(2) by auto
  show ?case
  proof (cases x)
    case (Hold j)
    have "int (drops k xs) < refcount (snd (acquire r j)) k"
      using Cons.prems Hold n by (auto simp: refcount_acquire)
    with Cons.IH [OF wf_acquire [OF Cons.prems(1) n(1)] n(3)] Hold show ?thesis
      by (simp add: get_acquire)
  next
    case (Drop j)
    show ?thesis
    proof (cases "refcount r j = 0")
      case True
      then have "release r j = (Some (newUnderflow nm j), r)" and "j \<noteq> k"
        using Cons.prems release_zero by auto
      with Cons.IH [OF Cons.prems(1)] Cons.prems Drop show ?thesis by simp
    next
      case False
      note ok = release_positive [OF Cons.prems(1) False]
      have "int (drops k xs) < refcount (snd (release r j)) k"
        using Cons.prems Drop by (auto simp: refcount_release [OF Cons.prems(1) n(2) ok])
      moreover have "get (snd (release r j)) k = get r k"
        using Cons.prems(3) Drop by (auto simp: get_release [OF Cons.prems(1) n(2) ok] split: if_splits)
      ultimately show ?thesis
        using Cons.IH [OF wf_release [OF Cons.prems(1) n(2)]] Drop n by simp
    qed
  qed
qed

text \<open>Acquiring and releasing again restores the count; the value stays if somebody else holds the key,
  and a value nobody held before is evicted.\<close>

lemma acquire_release:
  assumes "wf n r" and "Suc n < 2 ^ 63"
  shows "fst (release (snd (acquire r k)) k) = None"
    and "refcount (snd (release (snd (acquire r k)) k)) = refcount r"
    and "get (snd (release (snd (acquire r k)) k)) =
      (if refcount r k = 0 then (get r)(k := None) else get r)"
proof -
  let ?r = "snd (acquire r k)"
  have w: "wf (Suc n) ?r" and c: "refcount ?r = (refcount r)(k := refcount r k + 1)"
    using assms by (simp_all add: wf_acquire refcount_acquire)
  have ok: "fst (release ?r k) = None"
    using w c refcount_range [OF assms(1), of k] by (intro release_positive) auto
  then show "fst (release ?r k) = None"
    and "refcount (snd (release ?r k)) = refcount r"
    and "get (snd (release ?r k)) = (if refcount r k = 0 then (get r)(k := None) else get r)"
    using w assms(2) c by (simp_all add: refcount_release get_release get_acquire)
qed

text \<open>Exactly as many releases succeed as there are live acquires.\<close>

lemma releases_to_zero:
  assumes "wf n r" and "n < 2 ^ 63" and "int m \<le> refcount r k"
  shows "refcount (hold_run acquire release r (replicate m (Drop k))) k = refcount r k - int m \<and>
    wf n (hold_run acquire release r (replicate m (Drop k)))"
  using assms
proof (induction m arbitrary: r)
  case 0
  then show ?case by simp
next
  case (Suc m)
  then have ok: "fst (release r k) = None" by (intro release_positive) auto
  show ?case
    using Suc.IH [OF wf_release [OF Suc.prems(1,2), of k]] Suc.prems
    by (simp add: refcount_release [OF Suc.prems(1,2) ok])
qed

lemma release_after_last:
  assumes "wf n r" and "n < 2 ^ 63"
  shows "fst (release (hold_run acquire release r (replicate (nat (refcount r k)) (Drop k))) k) =
    Some (newUnderflow nm k)"
proof -
  have "int (nat (refcount r k)) \<le> refcount r k" using refcount_range [OF assms(1), of k] by simp
  from releases_to_zero [OF assms this] refcount_range [OF assms(1), of k] show ?thesis
    by (auto simp: release_error)
qed

end

section \<open>Validated values\<close>

locale validated_registry =
  refcounted_registry nm wf new acquire release get refcount closed
  for nm :: string
    and wf :: "nat \<Rightarrow> 'r \<Rightarrow> bool"
    and new :: 'r
    and acquire :: "'r \<Rightarrow> 'k \<Rightarrow> chan \<times> 'r"
    and release :: "'r \<Rightarrow> 'k \<Rightarrow> 'k UnderflowError option \<times> 'r"
    and get :: "'r \<Rightarrow> 'k \<Rightarrow> 's option"
    and refcount :: "'r \<Rightarrow> 'k \<Rightarrow> int"
    and closed :: "'r \<Rightarrow> chan set" +
  fixes add :: "'r \<Rightarrow> 's option \<Rightarrow> ('e option \<times> 'r) go"
    and validate :: "'s option \<Rightarrow> 'e option"
    and key :: "'s \<Rightarrow> 'k"
    and norm :: "'s \<Rightarrow> 's"
  assumes validate_nil: "validate None \<noteq> None"
    and add_reject: "validate p = Some e \<Longrightarrow> add r p = Inr (Some e, r)"
    and add_accept:
      "wf n r \<Longrightarrow> validate (Some s) = None \<Longrightarrow>
         \<exists>r'. add r (Some s) = Inr (None, r') \<and> wf n r' \<and> get r' = (get r)(key s \<mapsto> norm s) \<and>
              refcount r' = refcount r"
    and norm_valid: "validate (Some s) = None \<Longrightarrow> validate (Some (norm s)) = None"
    and norm_idem: "norm (norm s) = norm s"
    and norm_key: "key (norm s) = key s"
begin

lemma step_ok:
  assumes "wf n r" and "Suc n < 2 ^ 63" and "stored_ok validate key norm (get r)"
  shows "\<exists>r'. treg_step acquire release add r x = Inr r' \<and> wf (Suc n) r' \<and>
    stored_ok validate key norm (get r')"
proof (cases x)
  case (TAcquire k)
  with assms show ?thesis by (simp add: wf_acquire get_acquire)
next
  case (TRelease k)
  have n: "n < 2 ^ 63" using assms(2) by simp
  have "stored_ok validate key norm (get (snd (release r k)))"
  proof (cases "fst (release r k) = None")
    case True
    with assms(3) show ?thesis
      by (auto simp: get_release [OF assms(1) n] stored_ok_def)
  next
    case False
    with assms(3) show ?thesis by (simp add: release_unchanged)
  qed
  with TRelease show ?thesis using wf_mono [OF wf_release [OF assms(1) n, of k], of "Suc n"] by simp
next
  case (TAdd s)
  show ?thesis
  proof (cases "validate s")
    case (Some e)
    with TAdd assms wf_mono [OF assms(1), of "Suc n"] show ?thesis by (simp add: add_reject)
  next
    case None
    then obtain s' where s': "s = Some s'" using validate_nil by (cases s) auto
    obtain r' where "add r (Some s') = Inr (None, r')" "wf n r'"
      "get r' = (get r)(key s' \<mapsto> norm s')"
      using add_accept [OF assms(1), of s'] None s' by auto
    with TAdd s' None assms(3) wf_mono [of n r' "Suc n"] show ?thesis
      by (auto simp: stored_ok_def norm_valid norm_idem norm_key)
  qed
qed

lemma run_ok:
  assumes "wf n r" and "n + length xs < 2 ^ 63" and "stored_ok validate key norm (get r)"
  shows "\<exists>r'. treg_run acquire release add r xs = Inr r' \<and> wf (n + length xs) r' \<and>
    stored_ok validate key norm (get r')"
  using assms
proof (induction xs arbitrary: n r)
  case Nil
  then show ?case by simp
next
  case (Cons x xs)
  then obtain r' where "treg_step acquire release add r x = Inr r'" "wf (Suc n) r'"
    "stored_ok validate key norm (get r')"
    using step_ok [of n r x] by auto
  with Cons.IH [of "Suc n" r'] Cons.prems(2) show ?case by simp
qed

text \<open>Whatever the callers do, the registry never panics and only holds checked, normal values.\<close>

lemma history_ok:
  assumes "length xs < 2 ^ 63"
  shows "\<exists>r. treg_run acquire release add new xs = Inr r \<and> wf (length xs) r \<and>
    stored_ok validate key norm (get r)"
  using run_ok [OF wf_new [of 0], of xs] assms by (simp add: stored_ok_def get_new)

text \<open>Reading back what was added gives the normal form, and writing it again changes nothing.\<close>

lemma add_get:
  assumes "wf n r" and "validate (Some s) = None" and "add r (Some s) = Inr (None, r')"
  shows "get r' (key s) = Some (norm s)"
  using add_accept [OF assms(1,2)] assms(3) by auto

lemma add_again:
  assumes "wf n r" and "stored_ok validate key norm (get r)" and "get r k = Some s"
  shows "\<exists>r'. add r (Some s) = Inr (None, r') \<and> get r' = get r \<and> refcount r' = refcount r"
proof -
  have s: "key s = k" "validate (Some s) = None" "norm s = s"
    using assms(2,3) by (auto simp: stored_ok_def)
  with add_accept [OF assms(1) s(2)] assms(3) show ?thesis
    by (auto simp: fun_upd_idem)
qed

end

section \<open>The generic registry satisfies the reference-counting contract\<close>

lemma Acquire_ready:
  assumes "reg_wf n r"
  shows "fst (reg_Acquire r k) \<in> closed_chans (snd (reg_Acquire r k)) \<longleftrightarrow> reg_Get r k \<noteq> None"
proof (cases "entries r k")
  case None
  then show ?thesis using assms by (auto simp: reg_defs reg_Get_def reg_wf_def)
next
  case (Some e)
  with reg_wf_entry [OF assms Some] show ?thesis
    by (auto simp: reg_defs reg_Get_def entry_ok_def)
qed

lemma reg_op_name [simp]:
  "rname (snd (reg_Acquire r k)) = rname r" "rname (snd (reg_Release r k)) = rname r"
  by (auto simp: reg_defs Let_def split: option.splits)

lemma reg_New_obs [simp]:
  "reg_Get (reg_New nm) k = None" "reg_Refcount (reg_New nm) k = 0" "rname (reg_New nm) = nm"
  by (simp_all add: reg_New_def reg_Get_def reg_Refcount_def)

lemma reg_refcounted:
  "refcounted_registry nm (named_wf nm) (reg_New nm :: ('k, 'v) Registry)
     reg_Acquire reg_Release reg_Get reg_Refcount closed_chans"
proof (unfold_locales, unfold named_wf_def, goal_cases)
  case (7 n r k)
  then show ?case using wf_Refcount [of n r k] by simp
next
  case (8 n r k)
  then show ?case using Refcount_Acquire [of n r k] by simp
next
  case (10 n r k)
  then show ?case using Acquire_ready [of n r k] by simp
next
  case (11 n r k)
  then show ?case using Release_error_iff [of n r k] by simp
next
  case (13 n r k)
  then show ?case using Refcount_Release [of n r k] by simp
next
  case (14 n r k)
  then show ?case using Get_Release [of n r k] by simp
next
  case (12 r k)
  then show ?case by (rule Release_error_unchanged)
qed (auto simp: reg_inv Get_Acquire intro: reg_wf_mono)

interpretation reg: refcounted_registry nm "named_wf nm" "reg_New nm :: ('k, 'v) Registry"
  reg_Acquire reg_Release reg_Get reg_Refcount closed_chans for nm
  by (rule reg_refcounted)

text \<open>
  A typed wrapper that validates, normalises and stores through the generic \<open>Add\<close> satisfies the
  second contract as soon as its normalisation respects its validation.
\<close>

lemma typed_registry:
  fixes validate :: "'s option \<Rightarrow> 'e option" and key :: "'s \<Rightarrow> 'k"
  assumes nil: "validate None \<noteq> None"
    and add: "\<And>r p. add r p = (case validate p of
        Some e \<Rightarrow> Inr (Some e, r)
      | None \<Rightarrow> go_bind (reg_Add r (key (the p)) (norm (the p))) (\<lambda>r'. Inr (None, r')))"
    and norm: "\<And>s. validate (Some s) = None \<Longrightarrow> validate (Some (norm s)) = None"
      "\<And>s. norm (norm s) = norm s" "\<And>s. key (norm s) = key s"
  shows "validated_registry nm (named_wf nm) (reg_New nm :: ('k, 's) Registry)
    reg_Acquire reg_Release reg_Get reg_Refcount closed_chans add validate key norm"
proof (intro validated_registry.intro [OF reg_refcounted] validated_registry_axioms.intro)
  fix n s and r :: "('k, 's) Registry"
  assume wf: "named_wf nm n r" and v: "validate (Some s) = None"
  obtain r' where r': "reg_Add r (key s) (norm s) = Inr r'" "reg_wf n r'"
    using wf reg_wf_Add [of n r "key s" "norm s"] by (auto simp: named_wf_def)
  with Add_observations [OF r'(1)] wf v
  show "\<exists>r'. add r (Some s) = Inr (None, r') \<and> named_wf nm n r' \<and>
      reg_Get r' = (reg_Get r)(key s \<mapsto> norm s) \<and> reg_Refcount r' = reg_Refcount r"
    by (simp add: add named_wf_def)
qed (use nil norm in \<open>simp_all add: add\<close>)

section \<open>Histories of the generic registry\<close>

lemma reg_run_name: "reg_run r xs = Inr r' \<Longrightarrow> rname r' = rname r"
proof (induction xs arbitrary: r)
  case (Cons x xs)
  then show ?case using reg_step_frame [of r x] by (auto simp: go_bind_Inr_iff)
qed simp

lemma reg_run_wf:
  assumes "reg_run (reg_New nm) xs = Inr r" and "length xs < 2 ^ 63"
  shows "named_wf nm (length xs) r"
  using reg_run_refines [OF reg_wf_New [of 0 nm], of xs] assms reg_run_name [OF assms(1)]
  by (auto simp: named_wf_def)

text \<open>
  A channel that \<open>Acquire\<close> handed out stays the Ready channel of its key while no release of
  that key happens, and counting continues upwards.
\<close>

lemma reg_step_ready:
  assumes "reg_step r x = Inr r'" and "x \<noteq> OpRelease k" and "entries r k = Some e"
  obtains e' where "entries r' k = Some e'" and "ready e' = ready e" and "hasValue e \<Longrightarrow> hasValue e'"
    and "\<And>v. x = OpAdd k v \<Longrightarrow> hasValue e'"
proof (cases x)
  case (OpAcquire j)
  with assms that show ?thesis by (cases "j = k") (auto simp: reg_defs split: option.splits)
next
  case (OpRelease j)
  with assms that show ?thesis by (auto simp: reg_defs Let_def split: option.splits if_splits)
next
  case (OpAdd j v)
  show ?thesis
  proof (cases "j = k")
    case True
    with OpAdd assms that show ?thesis
      by (cases "hasValue e") (auto simp: reg_defs Let_def go_bind_Inr_iff)
  next
    case False
    with OpAdd assms that Add_entries [of r j v r'] show ?thesis by (metis fun_upd_apply reg_op.inject(3) reg_step.simps(3))
  qed
qed

lemma reg_run_ready:
  assumes "reg_run r xs = Inr r'" and "OpRelease k \<notin> set xs" and "entries r k = Some e"
  shows "\<exists>e'. entries r' k = Some e' \<and> ready e' = ready e \<and>
    (hasValue e \<or> (\<exists>v. OpAdd k v \<in> set xs) \<longrightarrow> hasValue e')"
  using assms
proof (induction xs arbitrary: r e)
  case (Cons x xs)
  obtain r1 where r1: "reg_step r x = Inr r1" "reg_run r1 xs = Inr r'"
    using Cons.prems(1) by (auto simp: go_bind_Inr_iff)
  have x: "x \<noteq> OpRelease k" "OpRelease k \<notin> set xs" using Cons.prems(2) by auto
  obtain e1 where "entries r1 k = Some e1" "ready e1 = ready e" "hasValue e \<Longrightarrow> hasValue e1"
    "\<And>v. x = OpAdd k v \<Longrightarrow> hasValue e1"
    using reg_step_ready [OF r1(1) x(1) Cons.prems(3)] by metis
  with Cons.IH [OF r1(2) x(2)] show ?case by fastforce
qed simp

section \<open>Properties\<close>

text \<open>C1: Every sequence of calls on a new registry, of any length the 64-bit counters can hold, runs without a
  panic (in particular no Ready channel is closed twice), and afterwards the count and the value of every
  key are those of the abstract specification: holders are counted, a value survives while it is
  held, the last release evicts it and a cold write needs no holder.\<close>

theorem registry_history_refines:
  assumes "length xs < 2 ^ 63"
  shows "\<exists>r. reg_run (reg_New nm) xs = Inr r \<and>
    (\<forall>k. reg_Refcount r k = int (fst (spec_run (\<lambda>_. (0, None)) xs k)) \<and>
         reg_Get r k = snd (spec_run (\<lambda>_. (0, None)) xs k))"
proof -
  obtain r where r: "reg_run (reg_New nm) xs = Inr r" "reg_wf (length xs) r"
    "reg_abs r = spec_run (\<lambda>_. (0, None)) xs"
    using reg_run_refines [OF reg_wf_New [of 0 nm], of xs] assms by (auto simp: reg_abs_New)
  then show ?thesis
    using wf_Refcount [OF r(2)] by (auto simp: reg_abs_def [of r] fun_eq_iff r(3) [symmetric])
qed

theorem registry_history_refines_witness:
  "\<exists>r. reg_run (reg_New ''vnet'') [OpAcquire (1::nat), OpAdd 1 True, OpAcquire 1, OpRelease 1] = Inr r \<and>
    reg_Refcount r 1 = 1 \<and> reg_Get r 1 = Some True"
  using registry_history_refines [of "[OpAcquire (1::nat), OpAdd 1 True, OpAcquire 1, OpRelease 1]" "''vnet''"]
  by auto

text \<open>C2: A holder's value cannot be taken away. After any history, if a key has more live acquires than
  releases of it are still to come, then any interleaving of further acquires and releases by any
  callers leaves the value readable and the key held.\<close>

theorem registry_held_value_survives:
  assumes "reg_run (reg_New nm) pre = Inr r" and "length pre + length xs < 2 ^ 63"
    and "int (drops k xs) < reg_Refcount r k"
  shows "reg_Get (hold_run reg_Acquire reg_Release r xs) k = reg_Get r k \<and>
    0 < reg_Refcount (hold_run reg_Acquire reg_Release r xs) k"
proof -
  have "named_wf nm (length pre) r" using assms(1,2) by (intro reg_run_wf) simp_all
  then show ?thesis using assms(2,3) by (rule reg.held_value_survives)
qed

lemma held_example:
  "reg_run (reg_New ''vnet'') [OpAcquire (1::nat), OpAdd 1 True, OpAcquire 1] =
     Inr \<lparr>entries = [1 \<mapsto> \<lparr>evalue = Some True, hasValue = True, refs = 2, ready = 0\<rparr>],
          rname = ''vnet'', next_chan = 1, closed_chans = {0}\<rparr>"
  by (simp add: reg_New_def reg_defs go_close_def i64_def)

theorem registry_held_value_survives_witness:
  "reg_Get (hold_run reg_Acquire reg_Release
      \<lparr>entries = [1 \<mapsto> \<lparr>evalue = Some True, hasValue = True, refs = 2, ready = 0\<rparr>],
       rname = ''vnet'', next_chan = 1, closed_chans = {0}\<rparr> [Drop (1::nat), Hold 2]) 1 = Some True"
  using registry_held_value_survives [OF held_example, of "[Drop 1, Hold 2]" 1]
  by (simp add: reg_Refcount_def reg_Get_def)

text \<open>Releasing a key with no live acquire, after any history, returns the underflow error that carries
  the registry's name, the key and code REG_007, matches the sentinel, and leaves the registry
  exactly as it was; any other release succeeds.\<close>

lemma registry_release_underflow:
  assumes "reg_run (reg_New nm) pre = Inr r" and "length pre < 2 ^ 63"
  shows "(if reg_Refcount r k = 0 then reg_Release r k = (Some (newUnderflow nm k), r)
      else fst (reg_Release r k) = None) \<and> UnderflowError_Is (newUnderflow nm k) ErrRefcountUnderflow"
  using reg.release_zero [OF reg_run_wf [OF assms]] reg.release_positive [OF reg_run_wf [OF assms]]
  by (simp add: UnderflowError_Is_def newUnderflow_def ErrRefcountUnderflow_def)

lemma registry_release_underflow_instance:
  "reg_Release (reg_New ''acl'' :: (nat, bool) Registry) 3 = (Some (newUnderflow ''acl'' 3), reg_New ''acl'')"
  using registry_release_underflow [of "''acl''" "[]" "reg_New ''acl'' :: (nat, bool) Registry" 3] by simp

text \<open>C3: The Ready channel keeps its promise. After any history, let a caller acquire a key and let other calls
  follow in which the key is not released. The channel the caller holds is then closed exactly when
  the key has a value, and it is closed if the key was added meanwhile.\<close>

theorem registry_ready_channel:
  assumes "reg_run (reg_New nm) pre = Inr r" and "length pre + length xs < 2 ^ 63 - 1"
    and "OpRelease k \<notin> set xs" and "reg_run (snd (reg_Acquire r k)) xs = Inr r'"
  shows "(fst (reg_Acquire r k) \<in> closed_chans r' \<longleftrightarrow> reg_Get r' k \<noteq> None) \<and>
    (OpAdd k v \<in> set xs \<longrightarrow> fst (reg_Acquire r k) \<in> closed_chans r')"
proof -
  obtain e where e: "entries (snd (reg_Acquire r k)) k = Some e" "ready e = fst (reg_Acquire r k)"
    by (cases "entries r k") (auto simp: reg_defs)
  obtain e' where e': "entries r' k = Some e'" "ready e' = fst (reg_Acquire r k)"
    "\<And>v. OpAdd k v \<in> set xs \<Longrightarrow> hasValue e'"
    using reg_run_ready [OF assms(4,3) e(1)] e(2) by auto
  have "reg_wf (length pre) r" using reg_run_wf [OF assms(1)] assms(2) by (simp add: named_wf_def)
  then have "reg_wf (Suc (length pre)) (snd (reg_Acquire r k))"
    using assms(2) by (intro reg_wf_Acquire) simp_all
  then have "\<exists>n. reg_wf n r'"
    using reg_run_refines [of _ "snd (reg_Acquire r k)" xs] assms(2,4) by fastforce
  then show ?thesis
    using e' reg_wf_entry [OF _ e'(1)] by (auto simp: reg_Get_def entry_ok_def)
qed

theorem registry_ready_channel_witness:
  "0 \<in> closed_chans \<lparr>entries = [1 \<mapsto> \<lparr>evalue = Some True, hasValue = True, refs = 1, ready = 0\<rparr>],
       rname = ''vnet'', next_chan = 1, closed_chans = {0}\<rparr>"
  using registry_ready_channel [of "''vnet''" "[]" "reg_New ''vnet''" "[OpAdd (1::nat) True]" 1
    "\<lparr>entries = [1 \<mapsto> \<lparr>evalue = Some True, hasValue = True, refs = 1, ready = 0\<rparr>],
       rname = ''vnet'', next_chan = 1, closed_chans = {0}\<rparr>" True]
  by (simp add: reg_New_def reg_defs go_close_def i64_def)

end
