(* ===== verification/FM_Vnet.thy ===== *)
theory FM_Vnet
  imports Registry_Contract "HOL-Library.Word"
begin

text \<open>
  The registry of virtual networks (package vnet, file \<^verbatim>\<open>src/FM/pkg/registry/vnet/vnet.go\<close>). The struct
  \<open>VnetState\<close> is a record, a possibly nil pointer to it is an option, and its peer slice is a list
  (a nil slice and an empty one behave alike everywhere in the package). Values are immutable
  in the model, so \<open>Clone\<close> is visible only through nil.
\<close>

section \<open>State and validation\<close>

record VnetState =
  vn_VnetID :: VnetID
  vn_VNI :: "32 word"
  vn_PeerVnetIDs :: "VnetID list"
  vn_SpecRevision :: SpecRevision
  vn_LastUpdated :: time

datatype vnet_error =
    VnetNil
  | VnetBadID id_error
  | VnetReservedVNI
  | VnetBadPeer nat id_error
  | VnetSelfPeer VnetID

definition Vnet_Clone :: "VnetState option \<Rightarrow> VnetState option" where
  "Vnet_Clone v = (case v of None \<Rightarrow> None | Some s \<Rightarrow> Some s)"

text \<open>The loop over the peers; \<open>i\<close> is the loop index that the message carries.\<close>

fun validate_peers :: "VnetID \<Rightarrow> nat \<Rightarrow> VnetID list \<Rightarrow> vnet_error option" where
  "validate_peers self i [] = None"
| "validate_peers self i (p # ps) =
     (case ValidateID p of
        Some err \<Rightarrow> Some (VnetBadPeer i err)
      | None \<Rightarrow> if p = self then Some (VnetSelfPeer self) else validate_peers self (Suc i) ps)"

definition Vnet_validate :: "VnetState option \<Rightarrow> vnet_error option" where
  "Vnet_validate v =
     (case v of
        None \<Rightarrow> Some VnetNil
      | Some s \<Rightarrow>
          (case ValidateID (vn_VnetID s) of
             Some err \<Rightarrow> Some (VnetBadID err)
           | None \<Rightarrow>
               if vn_VNI s = 0 then Some VnetReservedVNI
               else validate_peers (vn_VnetID s) 0 (vn_PeerVnetIDs s)))"

text \<open>Sorts the peers and collapses runs of duplicates in place.\<close>

definition sortDedupPeers :: "VnetState \<Rightarrow> VnetState" where
  "sortDedupPeers s = s\<lparr>vn_PeerVnetIDs := sort_collapse (vn_PeerVnetIDs s)\<rparr>"

section \<open>The registry\<close>

text \<open>The struct has one field, the inner generic registry.\<close>

type_synonym VnetRegistry = "(VnetID, VnetState) Registry"

definition Vnet_New :: VnetRegistry where
  "Vnet_New = reg_New ''vnet''"

definition Vnet_Name :: "VnetRegistry \<Rightarrow> string" where
  "Vnet_Name r = reg_Name r"

definition Vnet_Acquire :: "VnetRegistry \<Rightarrow> VnetID \<Rightarrow> chan \<times> VnetRegistry" where
  "Vnet_Acquire r key = reg_Acquire r key"

definition Vnet_Release :: "VnetRegistry \<Rightarrow> VnetID \<Rightarrow> VnetID UnderflowError option \<times> VnetRegistry" where
  "Vnet_Release r key = reg_Release r key"

text \<open>\<open>Add\<close> returns the validation error, if any, and the registry.\<close>

definition Vnet_Add :: "VnetRegistry \<Rightarrow> VnetState option \<Rightarrow> (vnet_error option \<times> VnetRegistry) go" where
  "Vnet_Add r state =
     (case Vnet_validate state of
        Some err \<Rightarrow> Inr (Some err, r)
      | None \<Rightarrow>
          (case Vnet_Clone state of
             None \<Rightarrow> Inl NilDereference
           | Some stored \<Rightarrow>
               let stored' = sortDedupPeers stored
               in go_bind (reg_Add r (vn_VnetID stored') stored') (\<lambda>r'. Inr (None, r'))))"

definition Vnet_Get :: "VnetRegistry \<Rightarrow> VnetID \<Rightarrow> VnetState option" where
  "Vnet_Get r key = (case reg_Get r key of None \<Rightarrow> None | Some v \<Rightarrow> Vnet_Clone (Some v))"

definition Vnet_Ready :: "VnetRegistry \<Rightarrow> VnetID \<Rightarrow> bool" where
  "Vnet_Ready r key = reg_Ready r key"

definition Vnet_Refcount :: "VnetRegistry \<Rightarrow> VnetID \<Rightarrow> int" where
  "Vnet_Refcount r key = reg_Refcount r key"

definition Vnet_Len :: "VnetRegistry \<Rightarrow> nat" where
  "Vnet_Len r = reg_Len r"

definition Vnet_Snapshot :: "VnetRegistry \<Rightarrow> (VnetID \<rightharpoonup> VnetState)" where
  "Vnet_Snapshot r = (\<lambda>k. case reg_Snapshot r k of None \<Rightarrow> None | Some v \<Rightarrow> Vnet_Clone (Some v))"

section \<open>What validation accepts\<close>

lemma validate_peers_None_iff:
  "validate_peers self i ps = None \<longleftrightarrow> (\<forall>p \<in> set ps. valid_id p \<and> p \<noteq> self)"
  by (induction ps arbitrary: i) (auto simp: ValidateID_None_iff [symmetric] split: option.splits)

lemma Vnet_validate_None_iff:
  "Vnet_validate (Some s) = None \<longleftrightarrow>
     valid_id (vn_VnetID s) \<and> vn_VNI s \<noteq> 0 \<and> (\<forall>p \<in> set (vn_PeerVnetIDs s). valid_id p \<and> p \<noteq> vn_VnetID s)"
  by (auto simp: Vnet_validate_def validate_peers_None_iff ValidateID_None_iff [symmetric] split: option.splits)

text \<open>The error of the peer loop names the first offending position.\<close>

lemma validate_peers_BadPeer:
  "validate_peers self i ps = Some (VnetBadPeer j err) \<longleftrightarrow>
     (\<exists>d < length ps. j = i + d \<and> ValidateID (ps ! d) = Some err \<and>
        (\<forall>p \<in> set (take d ps). valid_id p \<and> p \<noteq> self))"
proof (induction ps arbitrary: i)
  case (Cons p ps)
  have split_d: "(\<exists>d < length (p # ps). Q d) \<longleftrightarrow> Q 0 \<or> (\<exists>d < length ps. Q (Suc d))" for Q
    by (metis One_nat_def length_Cons less_Suc_eq_0_disj)
  show ?case
    unfolding split_d
    by (auto simp: Cons.IH ValidateID_None_iff [symmetric] split: option.splits)
qed simp

lemma sortDedupPeers_simps [simp]:
  "vn_VnetID (sortDedupPeers s) = vn_VnetID s" "vn_VNI (sortDedupPeers s) = vn_VNI s"
  "vn_SpecRevision (sortDedupPeers s) = vn_SpecRevision s" "vn_LastUpdated (sortDedupPeers s) = vn_LastUpdated s"
  "vn_PeerVnetIDs (sortDedupPeers s) = sorted_list_of_set (set (vn_PeerVnetIDs s))"
  by (simp_all add: sortDedupPeers_def sort_collapse_canonical)

lemma sortDedupPeers_idem: "sortDedupPeers (sortDedupPeers s) = sortDedupPeers s"
  by (simp add: sortDedupPeers_def sort_collapse_canonical)

section \<open>The contract\<close>

lemma Vnet_ops_eq:
  "Vnet_New = reg_New ''vnet''" "Vnet_Acquire = reg_Acquire" "Vnet_Release = reg_Release"
  "Vnet_Refcount = reg_Refcount" "Vnet_Get = reg_Get"
  by (simp_all add: Vnet_New_def Vnet_Acquire_def Vnet_Release_def Vnet_Refcount_def Vnet_Get_def Vnet_Clone_def
      fun_eq_iff split: option.splits)

lemma Vnet_Snapshot_eq: "Vnet_Snapshot r = Vnet_Get r"
  by (simp add: Vnet_Snapshot_def Vnet_Get_def Snapshot_is_Get fun_eq_iff)

interpretation vnet_reg: validated_registry "''vnet''" "named_wf ''vnet''" Vnet_New Vnet_Acquire Vnet_Release
  Vnet_Get Vnet_Refcount closed_chans Vnet_Add Vnet_validate vn_VnetID sortDedupPeers
  unfolding Vnet_ops_eq
proof (rule typed_registry)
  show "Vnet_Add r p = (case Vnet_validate p of
        Some e \<Rightarrow> Inr (Some e, r)
      | None \<Rightarrow> go_bind (reg_Add r (vn_VnetID (the p)) (sortDedupPeers (the p))) (\<lambda>r'. Inr (None, r')))"
    for r p
    by (cases p) (auto simp: Vnet_Add_def Vnet_Clone_def Vnet_validate_def split: option.splits)
qed (simp_all add: Vnet_validate_None_iff sortDedupPeers_idem, simp add: Vnet_validate_def)

section \<open>Properties\<close>

text \<open>C4: Whatever sequence of acquires, releases and adds (of valid, invalid or nil states) the callers of a new
  VNET registry produce, no call panics, and every state that can be read back is stored under its own
  identifier, has a valid identifier and a non-zero VNI, and lists valid peers, sorted,
  without duplicates and without the VNET itself.\<close>

theorem vnet_registry_history:
  assumes "length xs < 2 ^ 63"
  shows "\<exists>r. treg_run Vnet_Acquire Vnet_Release Vnet_Add Vnet_New xs = Inr r \<and>
    (\<forall>k s. Vnet_Get r k = Some s \<longrightarrow>
       vn_VnetID s = k \<and> valid_id k \<and> vn_VNI s \<noteq> 0 \<and>
       sorted (vn_PeerVnetIDs s) \<and> distinct (vn_PeerVnetIDs s) \<and> k \<notin> set (vn_PeerVnetIDs s) \<and>
       (\<forall>p \<in> set (vn_PeerVnetIDs s). valid_id p))"
proof -
  obtain r where r: "treg_run Vnet_Acquire Vnet_Release Vnet_Add Vnet_New xs = Inr r"
    "stored_ok Vnet_validate vn_VnetID sortDedupPeers (Vnet_Get r)"
    using vnet_reg.history_ok [OF assms] by blast
  show ?thesis
  proof (intro exI [of _ r] conjI allI impI r(1))
    fix k s
    assume "Vnet_Get r k = Some s"
    then have s: "vn_VnetID s = k" "Vnet_validate (Some s) = None" "sortDedupPeers s = s"
      using r(2) by (simp_all add: stored_ok_def)
    then have "vn_PeerVnetIDs s = sorted_list_of_set (set (vn_PeerVnetIDs s))"
      using sortDedupPeers_simps(5) [of s] by simp
    then show "sorted (vn_PeerVnetIDs s)" and "distinct (vn_PeerVnetIDs s)"
      by (metis sorted_sorted_list_of_set, metis distinct_sorted_list_of_set)
    show "vn_VnetID s = k" and "valid_id k" and "vn_VNI s \<noteq> 0" and "k \<notin> set (vn_PeerVnetIDs s)"
      and "\<forall>p \<in> set (vn_PeerVnetIDs s). valid_id p"
      using s(1,2) by (auto simp: Vnet_validate_None_iff)
  qed
qed

theorem vnet_registry_history_witness:
  "\<exists>r s. treg_run Vnet_Acquire Vnet_Release Vnet_Add Vnet_New
       [TAcquire ''a'', TAdd (Some \<lparr>vn_VnetID = ''a'', vn_VNI = 5, vn_PeerVnetIDs = [''c'', ''b'', ''c''], vn_SpecRevision = 1, vn_LastUpdated = 0\<rparr>),
        TAdd None, TRelease ''v2''] = Inr r \<and>
     Vnet_Get r ''a'' = Some s \<and> sorted (vn_PeerVnetIDs s) \<and> distinct (vn_PeerVnetIDs s)"
proof -
  let ?xs = "[TAcquire ''a'', TAdd (Some \<lparr>vn_VnetID = ''a'', vn_VNI = 5, vn_PeerVnetIDs = [''c'', ''b'', ''c''], vn_SpecRevision = 1,
      vn_LastUpdated = 0\<rparr>), TAdd None, TRelease ''v2'']"
  have got: "case treg_run Vnet_Acquire Vnet_Release Vnet_Add Vnet_New ?xs of Inl pn \<Rightarrow> False | Inr r \<Rightarrow> Vnet_Get r ''a'' \<noteq> None"
    by code_simp
  have "length ?xs < 2 ^ 63" by simp
  from vnet_registry_history [OF this] obtain r where r: "treg_run Vnet_Acquire Vnet_Release Vnet_Add Vnet_New ?xs = Inr r"
    "\<And>k s. Vnet_Get r k = Some s \<Longrightarrow> sorted (vn_PeerVnetIDs s) \<and> distinct (vn_PeerVnetIDs s)" by blast
  with got obtain s where "Vnet_Get r ''a'' = Some s" by auto
  with r show ?thesis by blast
qed

text \<open>C5: Adding a VNET state, after any history, fails exactly when validation fails, and then changes nothing.
  Otherwise reading the VNET back returns the state with its peers in the canonical order, so two
  updates that differ only in the order or multiplicity of the peers are indistinguishable; no
  other VNET and no reference count changes.\<close>

theorem vnet_add_get:
  assumes "treg_run Vnet_Acquire Vnet_Release Vnet_Add Vnet_New pre = Inr r" and "length pre < 2 ^ 63"
  shows "case Vnet_validate p of
      Some e \<Rightarrow> Vnet_Add r p = Inr (Some e, r)
    | None \<Rightarrow> (\<exists>r'. Vnet_Add r p = Inr (None, r') \<and> Vnet_Refcount r' = Vnet_Refcount r \<and>
        Vnet_Get r' = (Vnet_Get r)(vn_VnetID (the p) \<mapsto>
          (the p)\<lparr>vn_PeerVnetIDs := sorted_list_of_set (set (vn_PeerVnetIDs (the p)))\<rparr>))"
proof (cases "Vnet_validate p")
  case (Some e)
  then show ?thesis by (simp add: vnet_reg.add_reject)
next
  case None
  obtain s where s: "p = Some s" using None vnet_reg.validate_nil by (cases p) auto
  have "named_wf ''vnet'' (length pre) r" using vnet_reg.history_ok [OF assms(2)] assms(1) by simp
  from vnet_reg.add_accept [OF this, of s] None s show ?thesis
    by (auto simp: sortDedupPeers_def sort_collapse_canonical)
qed

theorem vnet_add_get_witness:
  "\<exists>r'. Vnet_Add Vnet_New (Some \<lparr>vn_VnetID = ''a'', vn_VNI = 5, vn_PeerVnetIDs = [''c'', ''b'', ''c''],
      vn_SpecRevision = 1, vn_LastUpdated = 0\<rparr>) = Inr (None, r') \<and>
    Vnet_Get r' ''a'' = Some \<lparr>vn_VnetID = ''a'', vn_VNI = 5, vn_PeerVnetIDs = [''b'', ''c''],
      vn_SpecRevision = 1, vn_LastUpdated = 0\<rparr>"
proof -
  let ?s = "\<lparr>vn_VnetID = ''a'', vn_VNI = 5, vn_PeerVnetIDs = [''c'', ''b'', ''c''],
      vn_SpecRevision = 1, vn_LastUpdated = 0\<rparr>"
  have "Vnet_validate (Some ?s) = None"
    by (simp add: Vnet_validate_def ValidateID_def MaxIDLen_def ContainsAny_def forbidden_bytes_def)
  moreover have "sorted_list_of_set (set [''c'', ''b'', ''c'']) = [''b'', ''c'']"
    unfolding sorted_list_of_set_sort_remdups by simp
  ultimately show ?thesis
    using vnet_add_get [of "[]" Vnet_New "Some ?s"] by (auto simp del: sorted_list_of_set_sort_remdups)
qed

end
