(* ===== verification/Go_Net.thy ===== *)
theory Go_Net
  imports Prelude "HOL-Library.Word"
begin

text \<open>
  The parts of Go's standard library packages net and net/netip that the typed registries call when they
  validate a value: \<open>net.ParseMAC\<close> with its helper \<open>xtoi2\<close>, and the two predicates on \<open>netip.Addr\<close>.
\<close>

section \<open>Hardware addresses\<close>

definition hex_digit :: "char \<Rightarrow> nat option" where
  "hex_digit c =
     (let n = of_char c :: nat in
      if 48 \<le> n \<and> n \<le> 57 then Some (n - 48)
      else if 97 \<le> n \<and> n \<le> 102 then Some (n - 87)
      else if 65 \<le> n \<and> n \<le> 70 then Some (n - 55)
      else None)"

text \<open>
  Two hexadecimal digits, followed by the separator \<open>e\<close> or by the end of the string. A separator of
  \<open>None\<close> stands for the byte 0 that the dotted form passes with a string of exactly two characters.
\<close>

fun xtoi2 :: "string \<Rightarrow> char option \<Rightarrow> nat option" where
  "xtoi2 (a # b # rest) e =
     (if rest \<noteq> [] \<and> Some (hd rest) \<noteq> e then None
      else case (hex_digit a, hex_digit b) of
             (Some x, Some y) \<Rightarrow> Some (x * 16 + y)
           | _ \<Rightarrow> None)"
| "xtoi2 _ e = None"

fun colon_octets :: "nat \<Rightarrow> string \<Rightarrow> char \<Rightarrow> nat list option" where
  "colon_octets 0 s e = Some []"
| "colon_octets (Suc n) s e =
     (case xtoi2 s (Some e) of
        None \<Rightarrow> None
      | Some b \<Rightarrow> map_option ((#) b) (colon_octets n (drop 3 s) e))"

fun dot_octets :: "nat \<Rightarrow> string \<Rightarrow> char \<Rightarrow> nat list option" where
  "dot_octets 0 s e = Some []"
| "dot_octets (Suc n) s e =
     (case (xtoi2 (take 2 s) None, xtoi2 (drop 2 s) (Some e)) of
        (Some b, Some b') \<Rightarrow> map_option (\<lambda>bs. b # b' # bs) (dot_octets n (drop 5 s) e)
      | _ \<Rightarrow> None)"

definition ParseMAC :: "string \<Rightarrow> nat list option" where
  "ParseMAC s =
     (if length s < 14 then None
      else if s ! 2 = CHR '':'' \<or> s ! 2 = CHR ''-'' then
        (if (length s + 1) mod 3 \<noteq> 0 then None
         else let n = (length s + 1) div 3 in
              if n \<noteq> 6 \<and> n \<noteq> 8 \<and> n \<noteq> 20 then None else colon_octets n s (s ! 2))
      else if s ! 4 = CHR ''.'' then
        (if (length s + 1) mod 5 \<noteq> 0 then None
         else let n = 2 * (length s + 1) div 5 in
              if n \<noteq> 6 \<and> n \<noteq> 8 \<and> n \<noteq> 20 then None else dot_octets (n div 2) s (s ! 4))
      else None)"

section \<open>IP addresses\<close>

text \<open>The zero \<open>Addr\<close> is no address; an IPv6 address may carry a zone.\<close>

datatype Addr = AddrZero | AddrV4 "32 word" | AddrV6 "128 word" string

definition Addr_IsValid :: "Addr \<Rightarrow> bool" where
  "Addr_IsValid a = (a \<noteq> AddrZero)"

definition Addr_IsUnspecified :: "Addr \<Rightarrow> bool" where
  "Addr_IsUnspecified a = (a = AddrV4 0 \<or> a = AddrV6 0 [])"

section \<open>What an accepted hardware address looks like\<close>

lemma hex_digit_less: "hex_digit c = Some x \<Longrightarrow> x < 16"
  by (auto simp: hex_digit_def Let_def split: if_splits)

lemma xtoi2_byte: "xtoi2 s e = Some b \<Longrightarrow> b < 256"
proof (cases "(s, e)" rule: xtoi2.cases)
  case (1 a c rest e')
  assume "xtoi2 s e = Some b"
  with 1 show ?thesis
    using hex_digit_less [of a] hex_digit_less [of c] by (fastforce split: if_splits option.splits)
qed auto

lemma colon_octets_bytes:
  "colon_octets n s e = Some bs \<Longrightarrow> length bs = n \<and> (\<forall>b \<in> set bs. b < 256)"
  by (induction n arbitrary: s bs) (auto simp: xtoi2_byte split: option.splits)

lemma dot_octets_bytes:
  "dot_octets n s e = Some bs \<Longrightarrow> length bs = 2 * n \<and> (\<forall>b \<in> set bs. b < 256)"
  by (induction n arbitrary: s bs) (auto simp: xtoi2_byte split: option.splits)

lemma ParseMAC_bytes:
  assumes "ParseMAC s = Some bs"
  shows "length bs \<in> {6, 8, 20} \<and> (\<forall>b \<in> set bs. b < 256)"
  using assms colon_octets_bytes dot_octets_bytes
  by (fastforce simp: ParseMAC_def Let_def split: if_splits)

end
