(* ===== verification/FM_Nic.thy ===== *)
theory FM_Nic
  imports Registry_Contract Go_Net
begin

text \<open>
  The registry of network interfaces (package nic, file \<^verbatim>\<open>src/FM/pkg/registry/nic/nic.go\<close>). The
  zero identifier \<open>""\<close> of an optional reference means unassigned and is not validated.
\<close>

section \<open>State and validation\<close>

record NicState =
  nic_ENIID :: ENIID
  nic_VnetID :: VnetID
  nic_MacAddress :: string
  nic_AclGroupIDs :: "AclGroupID list"
  nic_RouteGroupID :: RouteGroupID
  nic_MeterPolicyID :: MeterPolicyID
  nic_SpecRevision :: SpecRevision
  nic_LastUpdated :: time

datatype nic_error =
    NicNil
  | NicBadENIID id_error
  | NicBadVnetID id_error
  | NicMacEmpty
  | NicBadMac string
  | NicBadAclGroup nat id_error
  | NicBadRouteGroup id_error
  | NicBadMeterPolicy id_error

definition Nic_Clone :: "NicState option \<Rightarrow> NicState option" where
  "Nic_Clone v = (case v of None \<Rightarrow> None | Some s \<Rightarrow> Some s)"

text \<open>The loop over the ACL groups.\<close>

fun validate_groups :: "nat \<Rightarrow> AclGroupID list \<Rightarrow> nic_error option" where
  "validate_groups i [] = None"
| "validate_groups i (g # gs) =
     (case ValidateID g of
        Some err \<Rightarrow> Some (NicBadAclGroup i err)
      | None \<Rightarrow> validate_groups (Suc i) gs)"

text \<open>The two final checks: the references that may be unassigned.\<close>

definition validate_refs :: "NicState \<Rightarrow> nic_error option" where
  "validate_refs s =
     (case (if nic_RouteGroupID s \<noteq> [] then ValidateID (nic_RouteGroupID s) else None) of
        Some err \<Rightarrow> Some (NicBadRouteGroup err)
      | None \<Rightarrow>
          (case (if nic_MeterPolicyID s \<noteq> [] then ValidateID (nic_MeterPolicyID s) else None) of
             Some err \<Rightarrow> Some (NicBadMeterPolicy err)
           | None \<Rightarrow> None))"

definition Nic_validate :: "NicState option \<Rightarrow> nic_error option" where
  "Nic_validate v =
     (case v of
        None \<Rightarrow> Some NicNil
      | Some s \<Rightarrow>
          (case ValidateID (nic_ENIID s) of
             Some err \<Rightarrow> Some (NicBadENIID err)
           | None \<Rightarrow>
          (case ValidateID (nic_VnetID s) of
             Some err \<Rightarrow> Some (NicBadVnetID err)
           | None \<Rightarrow>
               if nic_MacAddress s = [] then Some NicMacEmpty
               else if ParseMAC (nic_MacAddress s) = None then Some (NicBadMac (nic_MacAddress s))
               else case validate_groups 0 (nic_AclGroupIDs s) of
                      Some err \<Rightarrow> Some err
                    | None \<Rightarrow> validate_refs s)))"

definition sortDedupAclGroups :: "NicState \<Rightarrow> NicState" where
  "sortDedupAclGroups s = s\<lparr>nic_AclGroupIDs := sort_collapse (nic_AclGroupIDs s)\<rparr>"

section \<open>The registry\<close>

text \<open>The struct has one field, the inner generic registry.\<close>

type_synonym NicRegistry = "(ENIID, NicState) Registry"

definition Nic_New :: NicRegistry where
  "Nic_New = reg_New ''nic''"

definition Nic_Name :: "NicRegistry \<Rightarrow> string" where
  "Nic_Name r = reg_Name r"

definition Nic_Acquire :: "NicRegistry \<Rightarrow> ENIID \<Rightarrow> chan \<times> NicRegistry" where
  "Nic_Acquire r key = reg_Acquire r key"

definition Nic_Release :: "NicRegistry \<Rightarrow> ENIID \<Rightarrow> ENIID UnderflowError option \<times> NicRegistry" where
  "Nic_Release r key = reg_Release r key"

text \<open>\<open>Add\<close> returns the validation error, if any, and the registry.\<close>

definition Nic_Add :: "NicRegistry \<Rightarrow> NicState option \<Rightarrow> (nic_error option \<times> NicRegistry) go" where
  "Nic_Add r state =
     (case Nic_validate state of
        Some err \<Rightarrow> Inr (Some err, r)
      | None \<Rightarrow>
          (case Nic_Clone state of
             None \<Rightarrow> Inl NilDereference
           | Some stored \<Rightarrow>
               let stored' = sortDedupAclGroups stored
               in go_bind (reg_Add r (nic_ENIID stored') stored') (\<lambda>r'. Inr (None, r'))))"

definition Nic_Get :: "NicRegistry \<Rightarrow> ENIID \<Rightarrow> NicState option" where
  "Nic_Get r key = (case reg_Get r key of None \<Rightarrow> None | Some v \<Rightarrow> Nic_Clone (Some v))"

definition Nic_Ready :: "NicRegistry \<Rightarrow> ENIID \<Rightarrow> bool" where
  "Nic_Ready r key = reg_Ready r key"

definition Nic_Refcount :: "NicRegistry \<Rightarrow> ENIID \<Rightarrow> int" where
  "Nic_Refcount r key = reg_Refcount r key"

definition Nic_Len :: "NicRegistry \<Rightarrow> nat" where
  "Nic_Len r = reg_Len r"

definition Nic_Snapshot :: "NicRegistry \<Rightarrow> (ENIID \<rightharpoonup> NicState)" where
  "Nic_Snapshot r = (\<lambda>k. case reg_Snapshot r k of None \<Rightarrow> None | Some v \<Rightarrow> Nic_Clone (Some v))"

section \<open>What validation accepts\<close>

lemma validate_groups_None_iff: "validate_groups i gs = None \<longleftrightarrow> (\<forall>g \<in> set gs. valid_id g)"
  by (induction gs arbitrary: i) (auto simp: ValidateID_None_iff [symmetric] split: option.splits)

lemma validate_refs_None_iff:
  "validate_refs s = None \<longleftrightarrow>
     (nic_RouteGroupID s = [] \<or> valid_id (nic_RouteGroupID s)) \<and>
     (nic_MeterPolicyID s = [] \<or> valid_id (nic_MeterPolicyID s))"
  by (auto simp: validate_refs_def ValidateID_None_iff [symmetric] split: option.splits)

lemma Nic_validate_None_iff:
  "Nic_validate (Some s) = None \<longleftrightarrow>
     valid_id (nic_ENIID s) \<and> valid_id (nic_VnetID s) \<and> ParseMAC (nic_MacAddress s) \<noteq> None \<and>
     (\<forall>g \<in> set (nic_AclGroupIDs s). valid_id g) \<and>
     (nic_RouteGroupID s = [] \<or> valid_id (nic_RouteGroupID s)) \<and>
     (nic_MeterPolicyID s = [] \<or> valid_id (nic_MeterPolicyID s))"
proof -
  have "ParseMAC [] = None" by (simp add: ParseMAC_def)
  then have "Nic_validate (Some s) = None \<longleftrightarrow>
      ValidateID (nic_ENIID s) = None \<and> ValidateID (nic_VnetID s) = None \<and>
      ParseMAC (nic_MacAddress s) \<noteq> None \<and> validate_groups 0 (nic_AclGroupIDs s) = None \<and>
      validate_refs s = None"
    by (auto simp: Nic_validate_def split: option.splits)
  then show ?thesis
    by (simp add: ValidateID_None_iff validate_groups_None_iff validate_refs_None_iff)
qed

lemma sortDedupAclGroups_simps [simp]:
  "nic_ENIID (sortDedupAclGroups s) = nic_ENIID s" "nic_VnetID (sortDedupAclGroups s) = nic_VnetID s"
  "nic_MacAddress (sortDedupAclGroups s) = nic_MacAddress s"
  "nic_RouteGroupID (sortDedupAclGroups s) = nic_RouteGroupID s"
  "nic_MeterPolicyID (sortDedupAclGroups s) = nic_MeterPolicyID s"
  "nic_AclGroupIDs (sortDedupAclGroups s) = sorted_list_of_set (set (nic_AclGroupIDs s))"
  by (simp_all add: sortDedupAclGroups_def sort_collapse_canonical)

lemma sortDedupAclGroups_idem: "sortDedupAclGroups (sortDedupAclGroups s) = sortDedupAclGroups s"
  by (simp add: sortDedupAclGroups_def sort_collapse_canonical)

section \<open>The contract\<close>

lemma Nic_ops_eq:
  "Nic_New = reg_New ''nic''" "Nic_Acquire = reg_Acquire" "Nic_Release = reg_Release"
  "Nic_Refcount = reg_Refcount" "Nic_Get = reg_Get"
  by (simp_all add: Nic_New_def Nic_Acquire_def Nic_Release_def Nic_Refcount_def Nic_Get_def Nic_Clone_def
      fun_eq_iff split: option.splits)

lemma Nic_Snapshot_eq: "Nic_Snapshot r = Nic_Get r"
  by (simp add: Nic_Snapshot_def Nic_Get_def Snapshot_is_Get fun_eq_iff)

interpretation nic_reg: validated_registry "''nic''" "named_wf ''nic''" Nic_New Nic_Acquire Nic_Release
  Nic_Get Nic_Refcount closed_chans Nic_Add Nic_validate nic_ENIID sortDedupAclGroups
  unfolding Nic_ops_eq
proof (rule typed_registry)
  show "Nic_Add r p = (case Nic_validate p of
        Some e \<Rightarrow> Inr (Some e, r)
      | None \<Rightarrow> go_bind (reg_Add r (nic_ENIID (the p)) (sortDedupAclGroups (the p))) (\<lambda>r'. Inr (None, r')))"
    for r p
    by (cases p) (auto simp: Nic_Add_def Nic_Clone_def Nic_validate_def split: option.splits)
qed (simp_all add: Nic_validate_None_iff sortDedupAclGroups_idem, simp_all add: Nic_validate_def)

section \<open>Properties\<close>

text \<open>Whatever sequence of calls the callers of a new NIC registry produce, no call panics, and every NIC that
  can be read back is stored under its own valid identifier, belongs to a VNET with a valid identifier,
  has a MAC address that parses to 6, 8 or 20 octets, lists its valid ACL groups sorted and without
  duplicates, and refers to a route group and a meter policy that are unassigned or valid.\<close>

lemma nic_registry_history:
  assumes "length xs < 2 ^ 63"
  shows "\<exists>r. treg_run Nic_Acquire Nic_Release Nic_Add Nic_New xs = Inr r \<and>
    (\<forall>k s. Nic_Get r k = Some s \<longrightarrow>
       nic_ENIID s = k \<and> valid_id k \<and> valid_id (nic_VnetID s) \<and>
       (\<exists>bs. ParseMAC (nic_MacAddress s) = Some bs \<and> length bs \<in> {6, 8, 20}) \<and>
       sorted (nic_AclGroupIDs s) \<and> distinct (nic_AclGroupIDs s) \<and>
       (\<forall>g \<in> set (nic_AclGroupIDs s). valid_id g) \<and>
       (nic_RouteGroupID s = [] \<or> valid_id (nic_RouteGroupID s)) \<and>
       (nic_MeterPolicyID s = [] \<or> valid_id (nic_MeterPolicyID s)))"
proof -
  obtain r where r: "treg_run Nic_Acquire Nic_Release Nic_Add Nic_New xs = Inr r"
    "stored_ok Nic_validate nic_ENIID sortDedupAclGroups (Nic_Get r)"
    using nic_reg.history_ok [OF assms] by blast
  show ?thesis
  proof (intro exI [of _ r] conjI allI impI r(1))
    fix k s
    assume "Nic_Get r k = Some s"
    then have s: "nic_ENIID s = k" "Nic_validate (Some s) = None" "sortDedupAclGroups s = s"
      using r(2) by (simp_all add: stored_ok_def)
    then have "nic_AclGroupIDs s = sorted_list_of_set (set (nic_AclGroupIDs s))"
      using sortDedupAclGroups_simps(6) [of s] by simp
    then show "sorted (nic_AclGroupIDs s)" and "distinct (nic_AclGroupIDs s)"
      by (metis sorted_sorted_list_of_set, metis distinct_sorted_list_of_set)
    show "\<exists>bs. ParseMAC (nic_MacAddress s) = Some bs \<and> length bs \<in> {6, 8, 20}"
      using s(2) ParseMAC_bytes by (auto simp: Nic_validate_None_iff)
    show "nic_ENIID s = k" and "valid_id k" and "valid_id (nic_VnetID s)"
      and "\<forall>g \<in> set (nic_AclGroupIDs s). valid_id g"
      and "nic_RouteGroupID s = [] \<or> valid_id (nic_RouteGroupID s)"
      and "nic_MeterPolicyID s = [] \<or> valid_id (nic_MeterPolicyID s)"
      using s(1,2) by (auto simp: Nic_validate_None_iff)
  qed
qed

lemma nic_registry_history_instance:
  "\<exists>r. treg_run Nic_Acquire Nic_Release Nic_Add Nic_New [TAdd None, TAcquire ''e'', TRelease ''e''] = Inr r"
  using nic_registry_history [of "[TAdd None, TAcquire ''e'', TRelease ''e'']"] by auto

text \<open>The MAC check accepts more than the colon-separated form: upper-case digits and the dashed and
  dotted notations of the same address pass validation as well, and the stored text is the one that was given, so
  equal addresses may be stored under different spellings.\<close>

lemma nic_mac_spellings:
  "list_all (\<lambda>m. ParseMAC m = Some [0, 0, 94, 0, 83, 1] \<and>
      Nic_validate (Some (s\<lparr>nic_MacAddress := m\<rparr>)) =
      Nic_validate (Some (s\<lparr>nic_MacAddress := ''00:00:5e:00:53:01''\<rparr>)) \<and>
      nic_MacAddress (sortDedupAclGroups (s\<lparr>nic_MacAddress := m\<rparr>)) = m)
    [''00:00:5e:00:53:01'', ''00:00:5E:00:53:01'', ''00-00-5e-00-53-01'', ''0000.5e00.5301'']"
proof -
  have "ParseMAC ''00:00:5e:00:53:01'' = Some [0, 0, 94, 0, 83, 1]"
    "ParseMAC ''00:00:5E:00:53:01'' = Some [0, 0, 94, 0, 83, 1]"
    "ParseMAC ''00-00-5e-00-53-01'' = Some [0, 0, 94, 0, 83, 1]"
    "ParseMAC ''0000.5e00.5301'' = Some [0, 0, 94, 0, 83, 1]"
    by code_simp+
  then show ?thesis by (simp add: Nic_validate_def validate_refs_def cong: option.case_cong)
qed

end
