(* ===== verification/FM_Mapping.thy ===== *)
theory FM_Mapping
  imports Registry_Contract Go_Net
begin

text \<open>
  The registry of VIP to DIP bindings (package mapping, file
  \<^verbatim>\<open>src/FM/pkg/registry/mapping/mapping.go\<close>).
\<close>

section \<open>State and validation\<close>

record MappingState =
  map_MappingID :: MappingID
  map_VnetID :: VnetID
  map_VIP :: Addr
  map_DIP :: Addr
  map_SNAT :: bool
  map_BindingTime :: time
  map_SpecRevision :: SpecRevision
  map_LastUpdated :: time

datatype mapping_error =
    MappingNil
  | MappingBadID id_error
  | MappingBadVnetID id_error
  | MappingVipUnset
  | MappingVipUnspecified Addr
  | MappingDipUnset
  | MappingDipUnspecified Addr

definition Mapping_Clone :: "MappingState option \<Rightarrow> MappingState option" where
  "Mapping_Clone v = (case v of None \<Rightarrow> None | Some s \<Rightarrow> Some s)"

definition Mapping_validate :: "MappingState option \<Rightarrow> mapping_error option" where
  "Mapping_validate v =
     (case v of
        None \<Rightarrow> Some MappingNil
      | Some s \<Rightarrow>
          (case ValidateID (map_MappingID s) of
             Some err \<Rightarrow> Some (MappingBadID err)
           | None \<Rightarrow>
          (case ValidateID (map_VnetID s) of
             Some err \<Rightarrow> Some (MappingBadVnetID err)
           | None \<Rightarrow>
               if \<not> Addr_IsValid (map_VIP s) then Some MappingVipUnset
               else if Addr_IsUnspecified (map_VIP s) then Some (MappingVipUnspecified (map_VIP s))
               else if \<not> Addr_IsValid (map_DIP s) then Some MappingDipUnset
               else if Addr_IsUnspecified (map_DIP s) then Some (MappingDipUnspecified (map_DIP s))
               else None)))"

section \<open>The registry\<close>

text \<open>The struct has one field, the inner generic registry.\<close>

type_synonym MappingRegistry = "(MappingID, MappingState) Registry"

definition Mapping_New :: MappingRegistry where
  "Mapping_New = reg_New ''mapping''"

definition Mapping_Name :: "MappingRegistry \<Rightarrow> string" where
  "Mapping_Name r = reg_Name r"

definition Mapping_Acquire :: "MappingRegistry \<Rightarrow> MappingID \<Rightarrow> chan \<times> MappingRegistry" where
  "Mapping_Acquire r key = reg_Acquire r key"

definition Mapping_Release :: "MappingRegistry \<Rightarrow> MappingID \<Rightarrow> MappingID UnderflowError option \<times> MappingRegistry" where
  "Mapping_Release r key = reg_Release r key"

text \<open>\<open>Add\<close> returns the validation error, if any, and the registry.\<close>

definition Mapping_Add :: "MappingRegistry \<Rightarrow> MappingState option \<Rightarrow> (mapping_error option \<times> MappingRegistry) go" where
  "Mapping_Add r state =
     (case Mapping_validate state of
        Some err \<Rightarrow> Inr (Some err, r)
      | None \<Rightarrow>
          (case Mapping_Clone state of
             None \<Rightarrow> Inl NilDereference
           | Some stored \<Rightarrow>
               go_bind (reg_Add r (map_MappingID stored) stored) (\<lambda>r'. Inr (None, r'))))"

definition Mapping_Get :: "MappingRegistry \<Rightarrow> MappingID \<Rightarrow> MappingState option" where
  "Mapping_Get r key = (case reg_Get r key of None \<Rightarrow> None | Some v \<Rightarrow> Mapping_Clone (Some v))"

definition Mapping_Ready :: "MappingRegistry \<Rightarrow> MappingID \<Rightarrow> bool" where
  "Mapping_Ready r key = reg_Ready r key"

definition Mapping_Refcount :: "MappingRegistry \<Rightarrow> MappingID \<Rightarrow> int" where
  "Mapping_Refcount r key = reg_Refcount r key"

definition Mapping_Len :: "MappingRegistry \<Rightarrow> nat" where
  "Mapping_Len r = reg_Len r"

definition Mapping_Snapshot :: "MappingRegistry \<Rightarrow> (MappingID \<rightharpoonup> MappingState)" where
  "Mapping_Snapshot r = (\<lambda>k. case reg_Snapshot r k of None \<Rightarrow> None | Some v \<Rightarrow> Mapping_Clone (Some v))"

section \<open>What validation accepts\<close>

lemma Mapping_validate_None_iff:
  "Mapping_validate (Some s) = None \<longleftrightarrow>
     valid_id (map_MappingID s) \<and> valid_id (map_VnetID s) \<and>
     Addr_IsValid (map_VIP s) \<and> \<not> Addr_IsUnspecified (map_VIP s) \<and>
     Addr_IsValid (map_DIP s) \<and> \<not> Addr_IsUnspecified (map_DIP s)"
  by (auto simp: Mapping_validate_def ValidateID_None_iff [symmetric] split: option.splits)

section \<open>The contract\<close>

lemma Mapping_ops_eq:
  "Mapping_New = reg_New ''mapping''" "Mapping_Acquire = reg_Acquire" "Mapping_Release = reg_Release"
  "Mapping_Refcount = reg_Refcount" "Mapping_Get = reg_Get"
  by (simp_all add: Mapping_New_def Mapping_Acquire_def Mapping_Release_def Mapping_Refcount_def Mapping_Get_def Mapping_Clone_def
      fun_eq_iff split: option.splits)

lemma Mapping_Snapshot_eq: "Mapping_Snapshot r = Mapping_Get r"
  by (simp add: Mapping_Snapshot_def Mapping_Get_def Snapshot_is_Get fun_eq_iff)

interpretation mapping_reg: validated_registry "''mapping''" "named_wf ''mapping''" Mapping_New Mapping_Acquire Mapping_Release
  Mapping_Get Mapping_Refcount closed_chans Mapping_Add Mapping_validate map_MappingID id
  unfolding Mapping_ops_eq
proof (rule typed_registry)
  show "Mapping_Add r p = (case Mapping_validate p of
        Some e \<Rightarrow> Inr (Some e, r)
      | None \<Rightarrow> go_bind (reg_Add r (map_MappingID (the p)) (id (the p))) (\<lambda>r'. Inr (None, r')))"
    for r p
    by (cases p) (auto simp: Mapping_Add_def Mapping_Clone_def Mapping_validate_def split: option.splits)
qed (simp_all add: Mapping_validate_def)

end
