(* ===== verification/FM_Acl.thy ===== *)
theory FM_Acl
  imports Registry_Contract
begin

text \<open>The registry of ACL groups (package acl, file \<^verbatim>\<open>src/FM/pkg/registry/acl/acl.go\<close>).\<close>

section \<open>State and validation\<close>

record AclGroupState =
  acl_AclGroupID :: AclGroupID
  acl_VnetID :: VnetID
  acl_RuleCount :: int
  acl_SpecRevision :: SpecRevision
  acl_LastUpdated :: time

datatype acl_error =
    AclNil
  | AclBadID id_error
  | AclBadVnetID id_error
  | AclNegativeRules int

definition Acl_Clone :: "AclGroupState option \<Rightarrow> AclGroupState option" where
  "Acl_Clone v = (case v of None \<Rightarrow> None | Some s \<Rightarrow> Some s)"

definition Acl_validate :: "AclGroupState option \<Rightarrow> acl_error option" where
  "Acl_validate v =
     (case v of
        None \<Rightarrow> Some AclNil
      | Some s \<Rightarrow>
          (case ValidateID (acl_AclGroupID s) of
             Some err \<Rightarrow> Some (AclBadID err)
           | None \<Rightarrow>
          (case ValidateID (acl_VnetID s) of
             Some err \<Rightarrow> Some (AclBadVnetID err)
           | None \<Rightarrow>
               if acl_RuleCount s < 0 then Some (AclNegativeRules (acl_RuleCount s)) else None)))"

section \<open>The registry\<close>

text \<open>The struct has one field, the inner generic registry.\<close>

type_synonym AclGroupRegistry = "(AclGroupID, AclGroupState) Registry"

definition Acl_New :: AclGroupRegistry where
  "Acl_New = reg_New ''acl''"

definition Acl_Name :: "AclGroupRegistry \<Rightarrow> string" where
  "Acl_Name r = reg_Name r"

definition Acl_Acquire :: "AclGroupRegistry \<Rightarrow> AclGroupID \<Rightarrow> chan \<times> AclGroupRegistry" where
  "Acl_Acquire r key = reg_Acquire r key"

definition Acl_Release :: "AclGroupRegistry \<Rightarrow> AclGroupID \<Rightarrow> AclGroupID UnderflowError option \<times> AclGroupRegistry" where
  "Acl_Release r key = reg_Release r key"

text \<open>\<open>Add\<close> returns the validation error, if any, and the registry.\<close>

definition Acl_Add :: "AclGroupRegistry \<Rightarrow> AclGroupState option \<Rightarrow> (acl_error option \<times> AclGroupRegistry) go" where
  "Acl_Add r state =
     (case Acl_validate state of
        Some err \<Rightarrow> Inr (Some err, r)
      | None \<Rightarrow>
          (case Acl_Clone state of
             None \<Rightarrow> Inl NilDereference
           | Some stored \<Rightarrow>
               go_bind (reg_Add r (acl_AclGroupID stored) stored) (\<lambda>r'. Inr (None, r'))))"

definition Acl_Get :: "AclGroupRegistry \<Rightarrow> AclGroupID \<Rightarrow> AclGroupState option" where
  "Acl_Get r key = (case reg_Get r key of None \<Rightarrow> None | Some v \<Rightarrow> Acl_Clone (Some v))"

definition Acl_Ready :: "AclGroupRegistry \<Rightarrow> AclGroupID \<Rightarrow> bool" where
  "Acl_Ready r key = reg_Ready r key"

definition Acl_Refcount :: "AclGroupRegistry \<Rightarrow> AclGroupID \<Rightarrow> int" where
  "Acl_Refcount r key = reg_Refcount r key"

definition Acl_Len :: "AclGroupRegistry \<Rightarrow> nat" where
  "Acl_Len r = reg_Len r"

definition Acl_Snapshot :: "AclGroupRegistry \<Rightarrow> (AclGroupID \<rightharpoonup> AclGroupState)" where
  "Acl_Snapshot r = (\<lambda>k. case reg_Snapshot r k of None \<Rightarrow> None | Some v \<Rightarrow> Acl_Clone (Some v))"

section \<open>What validation accepts\<close>

lemma Acl_validate_None_iff:
  "Acl_validate (Some s) = None \<longleftrightarrow>
     valid_id (acl_AclGroupID s) \<and> valid_id (acl_VnetID s) \<and> 0 \<le> acl_RuleCount s"
  by (auto simp: Acl_validate_def ValidateID_None_iff [symmetric] split: option.splits)

section \<open>The contract\<close>

lemma Acl_ops_eq:
  "Acl_New = reg_New ''acl''" "Acl_Acquire = reg_Acquire" "Acl_Release = reg_Release"
  "Acl_Refcount = reg_Refcount" "Acl_Get = reg_Get"
  by (simp_all add: Acl_New_def Acl_Acquire_def Acl_Release_def Acl_Refcount_def Acl_Get_def Acl_Clone_def
      fun_eq_iff split: option.splits)

lemma Acl_Snapshot_eq: "Acl_Snapshot r = Acl_Get r"
  by (simp add: Acl_Snapshot_def Acl_Get_def Snapshot_is_Get fun_eq_iff)

interpretation acl_reg: validated_registry "''acl''" "named_wf ''acl''" Acl_New Acl_Acquire Acl_Release
  Acl_Get Acl_Refcount closed_chans Acl_Add Acl_validate acl_AclGroupID id
  unfolding Acl_ops_eq
proof (rule typed_registry)
  show "Acl_Add r p = (case Acl_validate p of
        Some e \<Rightarrow> Inr (Some e, r)
      | None \<Rightarrow> go_bind (reg_Add r (acl_AclGroupID (the p)) (id (the p))) (\<lambda>r'. Inr (None, r')))"
    for r p
    by (cases p) (auto simp: Acl_Add_def Acl_Clone_def Acl_validate_def split: option.splits)
qed (simp_all add: Acl_validate_def)

end
