(* ===== verification/FM_Route.thy ===== *)
theory FM_Route
  imports Registry_Contract Go_Net
begin

text \<open>
  The registry of outbound routing groups (package route, file
  \<^verbatim>\<open>src/FM/pkg/registry/route/route.go\<close>).
\<close>

section \<open>State and validation\<close>

record RouteGroupState =
  rt_RouteGroupID :: RouteGroupID
  rt_VnetID :: VnetID
  rt_NextHop :: Addr
  rt_SpecRevision :: SpecRevision
  rt_LastUpdated :: time

datatype route_error =
    RouteNil
  | RouteBadID id_error
  | RouteBadVnetID id_error
  | RouteHopUnset
  | RouteHopUnspecified Addr

definition Route_Clone :: "RouteGroupState option \<Rightarrow> RouteGroupState option" where
  "Route_Clone v = (case v of None \<Rightarrow> None | Some s \<Rightarrow> Some s)"

definition Route_validate :: "RouteGroupState option \<Rightarrow> route_error option" where
  "Route_validate v =
     (case v of
        None \<Rightarrow> Some RouteNil
      | Some s \<Rightarrow>
          (case ValidateID (rt_RouteGroupID s) of
             Some err \<Rightarrow> Some (RouteBadID err)
           | None \<Rightarrow>
          (case ValidateID (rt_VnetID s) of
             Some err \<Rightarrow> Some (RouteBadVnetID err)
           | None \<Rightarrow>
               if \<not> Addr_IsValid (rt_NextHop s) then Some RouteHopUnset
               else if Addr_IsUnspecified (rt_NextHop s) then Some (RouteHopUnspecified (rt_NextHop s))
               else None)))"

section \<open>The registry\<close>

text \<open>The struct has one field, the inner generic registry.\<close>

type_synonym RouteGroupRegistry = "(RouteGroupID, RouteGroupState) Registry"

definition Route_New :: RouteGroupRegistry where
  "Route_New = reg_New ''route''"

definition Route_Name :: "RouteGroupRegistry \<Rightarrow> string" where
  "Route_Name r = reg_Name r"

definition Route_Acquire :: "RouteGroupRegistry \<Rightarrow> RouteGroupID \<Rightarrow> chan \<times> RouteGroupRegistry" where
  "Route_Acquire r key = reg_Acquire r key"

definition Route_Release :: "RouteGroupRegistry \<Rightarrow> RouteGroupID \<Rightarrow> RouteGroupID UnderflowError option \<times> RouteGroupRegistry" where
  "Route_Release r key = reg_Release r key"

text \<open>\<open>Add\<close> returns the validation error, if any, and the registry.\<close>

definition Route_Add :: "RouteGroupRegistry \<Rightarrow> RouteGroupState option \<Rightarrow> (route_error option \<times> RouteGroupRegistry) go" where
  "Route_Add r state =
     (case Route_validate state of
        Some err \<Rightarrow> Inr (Some err, r)
      | None \<Rightarrow>
          (case Route_Clone state of
             None \<Rightarrow> Inl NilDereference
           | Some stored \<Rightarrow>
               go_bind (reg_Add r (rt_RouteGroupID stored) stored) (\<lambda>r'. Inr (None, r'))))"

definition Route_Get :: "RouteGroupRegistry \<Rightarrow> RouteGroupID \<Rightarrow> RouteGroupState option" where
  "Route_Get r key = (case reg_Get r key of None \<Rightarrow> None | Some v \<Rightarrow> Route_Clone (Some v))"

definition Route_Ready :: "RouteGroupRegistry \<Rightarrow> RouteGroupID \<Rightarrow> bool" where
  "Route_Ready r key = reg_Ready r key"

definition Route_Refcount :: "RouteGroupRegistry \<Rightarrow> RouteGroupID \<Rightarrow> int" where
  "Route_Refcount r key = reg_Refcount r key"

definition Route_Len :: "RouteGroupRegistry \<Rightarrow> nat" where
  "Route_Len r = reg_Len r"

definition Route_Snapshot :: "RouteGroupRegistry \<Rightarrow> (RouteGroupID \<rightharpoonup> RouteGroupState)" where
  "Route_Snapshot r = (\<lambda>k. case reg_Snapshot r k of None \<Rightarrow> None | Some v \<Rightarrow> Route_Clone (Some v))"

section \<open>What validation accepts\<close>

lemma Route_validate_None_iff:
  "Route_validate (Some s) = None \<longleftrightarrow>
     valid_id (rt_RouteGroupID s) \<and> valid_id (rt_VnetID s) \<and>
     Addr_IsValid (rt_NextHop s) \<and> \<not> Addr_IsUnspecified (rt_NextHop s)"
  by (auto simp: Route_validate_def ValidateID_None_iff [symmetric] split: option.splits)

section \<open>The contract\<close>

lemma Route_ops_eq:
  "Route_New = reg_New ''route''" "Route_Acquire = reg_Acquire" "Route_Release = reg_Release"
  "Route_Refcount = reg_Refcount" "Route_Get = reg_Get"
  by (simp_all add: Route_New_def Route_Acquire_def Route_Release_def Route_Refcount_def Route_Get_def Route_Clone_def
      fun_eq_iff split: option.splits)

lemma Route_Snapshot_eq: "Route_Snapshot r = Route_Get r"
  by (simp add: Route_Snapshot_def Route_Get_def Snapshot_is_Get fun_eq_iff)

interpretation route_reg: validated_registry "''route''" "named_wf ''route''" Route_New Route_Acquire Route_Release
  Route_Get Route_Refcount closed_chans Route_Add Route_validate rt_RouteGroupID id
  unfolding Route_ops_eq
proof (rule typed_registry)
  show "Route_Add r p = (case Route_validate p of
        Some e \<Rightarrow> Inr (Some e, r)
      | None \<Rightarrow> go_bind (reg_Add r (rt_RouteGroupID (the p)) (id (the p))) (\<lambda>r'. Inr (None, r')))"
    for r p
    by (cases p) (auto simp: Route_Add_def Route_Clone_def Route_validate_def split: option.splits)
qed (simp_all add: Route_validate_def)

end
