(* ===== verification/FM_Meter.thy ===== *)
theory FM_Meter
  imports Registry_Contract "HOL-Library.Word"
begin

text \<open>The registry of meter policies (package meter, file \<^verbatim>\<open>src/FM/pkg/registry/meter/meter.go\<close>).\<close>

section \<open>State and validation\<close>

record MeterPolicyState =
  mt_MeterPolicyID :: MeterPolicyID
  mt_VnetID :: VnetID
  mt_RateBps :: "64 word"
  mt_BurstBps :: "64 word"
  mt_SpecRevision :: SpecRevision
  mt_LastUpdated :: time

datatype meter_error =
    MeterNil
  | MeterBadID id_error
  | MeterBadVnetID id_error
  | MeterZeroRate

definition Meter_Clone :: "MeterPolicyState option \<Rightarrow> MeterPolicyState option" where
  "Meter_Clone v = (case v of None \<Rightarrow> None | Some s \<Rightarrow> Some s)"

definition Meter_validate :: "MeterPolicyState option \<Rightarrow> meter_error option" where
  "Meter_validate v =
     (case v of
        None \<Rightarrow> Some MeterNil
      | Some s \<Rightarrow>
          (case ValidateID (mt_MeterPolicyID s) of
             Some err \<Rightarrow> Some (MeterBadID err)
           | None \<Rightarrow>
          (case ValidateID (mt_VnetID s) of
             Some err \<Rightarrow> Some (MeterBadVnetID err)
           | None \<Rightarrow> if mt_RateBps s = 0 then Some MeterZeroRate else None)))"

section \<open>The registry\<close>

text \<open>The struct has one field, the inner generic registry.\<close>

type_synonym MeterPolicyRegistry = "(MeterPolicyID, MeterPolicyState) Registry"

definition Meter_New :: MeterPolicyRegistry where
  "Meter_New = reg_New ''meter''"

definition Meter_Name :: "MeterPolicyRegistry \<Rightarrow> string" where
  "Meter_Name r = reg_Name r"

definition Meter_Acquire :: "MeterPolicyRegistry \<Rightarrow> MeterPolicyID \<Rightarrow> chan \<times> MeterPolicyRegistry" where
  "Meter_Acquire r key = reg_Acquire r key"

definition Meter_Release :: "MeterPolicyRegistry \<Rightarrow> MeterPolicyID \<Rightarrow> MeterPolicyID UnderflowError option \<times> MeterPolicyRegistry" where
  "Meter_Release r key = reg_Release r key"

text \<open>\<open>Add\<close> returns the validation error, if any, and the registry.\<close>

definition Meter_Add :: "MeterPolicyRegistry \<Rightarrow> MeterPolicyState option \<Rightarrow> (meter_error option \<times> MeterPolicyRegistry) go" where
  "Meter_Add r state =
     (case Meter_validate state of
        Some err \<Rightarrow> Inr (Some err, r)
      | None \<Rightarrow>
          (case Meter_Clone state of
             None \<Rightarrow> Inl NilDereference
           | Some stored \<Rightarrow>
               go_bind (reg_Add r (mt_MeterPolicyID stored) stored) (\<lambda>r'. Inr (None, r'))))"

definition Meter_Get :: "MeterPolicyRegistry \<Rightarrow> MeterPolicyID \<Rightarrow> MeterPolicyState option" where
  "Meter_Get r key = (case reg_Get r key of None \<Rightarrow> None | Some v \<Rightarrow> Meter_Clone (Some v))"

definition Meter_Ready :: "MeterPolicyRegistry \<Rightarrow> MeterPolicyID \<Rightarrow> bool" where
  "Meter_Ready r key = reg_Ready r key"

definition Meter_Refcount :: "MeterPolicyRegistry \<Rightarrow> MeterPolicyID \<Rightarrow> int" where
  "Meter_Refcount r key = reg_Refcount r key"

definition Meter_Len :: "MeterPolicyRegistry \<Rightarrow> nat" where
  "Meter_Len r = reg_Len r"

definition Meter_Snapshot :: "MeterPolicyRegistry \<Rightarrow> (MeterPolicyID \<rightharpoonup> MeterPolicyState)" where
  "Meter_Snapshot r = (\<lambda>k. case reg_Snapshot r k of None \<Rightarrow> None | Some v \<Rightarrow> Meter_Clone (Some v))"

section \<open>What validation accepts\<close>

lemma Meter_validate_None_iff:
  "Meter_validate (Some s) = None \<longleftrightarrow>
     valid_id (mt_MeterPolicyID s) \<and> valid_id (mt_VnetID s) \<and> mt_RateBps s \<noteq> 0"
  by (auto simp: Meter_validate_def ValidateID_None_iff [symmetric] split: option.splits)

section \<open>The contract\<close>

lemma Meter_ops_eq:
  "Meter_New = reg_New ''meter''" "Meter_Acquire = reg_Acquire" "Meter_Release = reg_Release"
  "Meter_Refcount = reg_Refcount" "Meter_Get = reg_Get"
  by (simp_all add: Meter_New_def Meter_Acquire_def Meter_Release_def Meter_Refcount_def Meter_Get_def Meter_Clone_def
      fun_eq_iff split: option.splits)

lemma Meter_Snapshot_eq: "Meter_Snapshot r = Meter_Get r"
  by (simp add: Meter_Snapshot_def Meter_Get_def Snapshot_is_Get fun_eq_iff)

interpretation meter_reg: validated_registry "''meter''" "named_wf ''meter''" Meter_New Meter_Acquire Meter_Release
  Meter_Get Meter_Refcount closed_chans Meter_Add Meter_validate mt_MeterPolicyID id
  unfolding Meter_ops_eq
proof (rule typed_registry)
  show "Meter_Add r p = (case Meter_validate p of
        Some e \<Rightarrow> Inr (Some e, r)
      | None \<Rightarrow> go_bind (reg_Add r (mt_MeterPolicyID (the p)) (id (the p))) (\<lambda>r'. Inr (None, r')))"
    for r p
    by (cases p) (auto simp: Meter_Add_def Meter_Clone_def Meter_validate_def split: option.splits)
qed (simp_all add: Meter_validate_def)

end
