(* ===== verification/FM_Dedup.thy ===== *)
theory FM_Dedup
  imports Prelude Complex_Main
begin

text \<open>
  The deduplication of the configuration plane (package configmanagement, files \<^verbatim>\<open>types.go\<close> and
  \<^verbatim>\<open>cache.go\<close> of \<^verbatim>\<open>src/FM/pkg/cm\<close>): the fingerprint of an event payload and the LRU cache of
  fingerprints. The linked list of \<open>container/list\<close> is a list of elements, each an address with its
  value, most recent first; a cache entry keeps the address of its element. The hash function and the
  formatting of floating-point numbers are arguments.
\<close>

section \<open>Events and fingerprints\<close>

text \<open>The dynamic types \<open>interfaceToString\<close> distinguishes; every other one gives the empty string.\<close>

datatype 'f jvalue = JString string | JFloat 'f | JBool bool | JOther

text \<open>A Go map as an association list with distinct keys, in some iteration order.\<close>

type_synonym 'f payload = "(string \<times> 'f jvalue) list"

record 'f Event =
  ev_ID :: string
  ev_VnetID :: string
  ev_Type :: string
  ev_Timestamp :: time
  ev_Payload :: "'f payload"
  ev_Fingerprint :: string

definition formatBool :: "bool \<Rightarrow> string" where
  "formatBool b = (if b then ''true'' else ''false'')"

fun interfaceToString :: "('f \<Rightarrow> string) \<Rightarrow> 'f jvalue \<Rightarrow> string" where
  "interfaceToString formatFloat (JString s) = s"
| "interfaceToString formatFloat (JFloat f) = formatFloat f"
| "interfaceToString formatFloat (JBool b) = formatBool b"
| "interfaceToString formatFloat JOther = ''''"

definition sortedKeys :: "'f payload \<Rightarrow> string list" where
  "sortedKeys m = sort (map fst m)"

text \<open>Reading an absent key of the map gives nil, which prints as the empty string.\<close>

definition payload_at :: "'f payload \<Rightarrow> string \<Rightarrow> 'f jvalue" where
  "payload_at m k = (case map_of m k of Some v \<Rightarrow> v | None \<Rightarrow> JOther)"

definition canonicalJSON :: "('f \<Rightarrow> string) \<Rightarrow> 'f payload \<Rightarrow> string" where
  "canonicalJSON formatFloat data =
     foldl (\<lambda>result k. result @ k @ '':'' @ interfaceToString formatFloat (payload_at data k) @ '';'')
       '''' (sortedKeys data)"

definition hex_char :: "nat \<Rightarrow> char" where
  "hex_char n = ''0123456789abcdef'' ! n"

definition EncodeToString :: "nat list \<Rightarrow> string" where
  "EncodeToString bs = concat (map (\<lambda>b. [hex_char (b div 16), hex_char (b mod 16)]) bs)"

definition ComputeFingerprint ::
  "(string \<Rightarrow> nat list) \<Rightarrow> ('f \<Rightarrow> string) \<Rightarrow> 'f Event \<Rightarrow> string" where
  "ComputeFingerprint sum256 formatFloat e =
     EncodeToString (sum256 (canonicalJSON formatFloat (ev_Payload e)))"

section \<open>The LRU cache\<close>

type_synonym elem = nat

record cacheEntry =
  ce_fingerprint :: string
  ce_timestamp :: time
  ce_element :: elem

record LRUCache =
  lc_maxSize :: int
  lc_data :: "string \<rightharpoonup> cacheEntry"
  lc_lru :: "(elem \<times> string) list"
  lc_nextElem :: elem
  lc_hits :: int
  lc_misses :: int
  lc_evictions :: int

text \<open>\<open>list.MoveToFront\<close>, \<open>PushFront\<close> and \<open>Back\<close> with \<open>Remove\<close>.\<close>

definition MoveToFront :: "elem \<Rightarrow> (elem \<times> string) list \<Rightarrow> (elem \<times> string) list" where
  "MoveToFront e l =
     (case filter (\<lambda>x. fst x = e) l of
        [] \<Rightarrow> l
      | x # _ \<Rightarrow> x # filter (\<lambda>y. fst y \<noteq> e) l)"

definition NewLRUCache :: "int \<Rightarrow> LRUCache" where
  "NewLRUCache maxSize =
     \<lparr>lc_maxSize = (if maxSize \<le> 0 then 10000 else maxSize), lc_data = Map.empty, lc_lru = [],
      lc_nextElem = 0, lc_hits = 0, lc_misses = 0, lc_evictions = 0\<rparr>"

definition evictLRU :: "LRUCache \<Rightarrow> LRUCache" where
  "evictLRU c =
     (if lc_lru c = [] then c
      else let elem = last (lc_lru c)
           in c\<lparr>lc_lru := butlast (lc_lru c), lc_data := (lc_data c)(snd elem := None),
                lc_evictions := i64 (lc_evictions c + 1)\<rparr>)"

definition CheckAndStore :: "time \<Rightarrow> LRUCache \<Rightarrow> string \<Rightarrow> bool \<times> LRUCache" where
  "CheckAndStore now c fingerprint =
     (case lc_data c fingerprint of
        Some entry \<Rightarrow>
          (True, c\<lparr>lc_hits := i64 (lc_hits c + 1), lc_lru := MoveToFront (ce_element entry) (lc_lru c)\<rparr>)
      | None \<Rightarrow>
          (let elem = lc_nextElem c;
               entry = \<lparr>ce_fingerprint = fingerprint, ce_timestamp = now, ce_element = elem\<rparr>;
               c' = c\<lparr>lc_misses := i64 (lc_misses c + 1), lc_nextElem := Suc elem,
                      lc_lru := (elem, fingerprint) # lc_lru c,
                      lc_data := (lc_data c)(fingerprint \<mapsto> entry)\<rparr>
           in (False, if int (length (lc_lru c')) > lc_maxSize c' then evictLRU c' else c')))"

definition LRU_Size :: "LRUCache \<Rightarrow> nat" where
  "LRU_Size c = card (dom (lc_data c))"

definition LRU_MaxSize :: "LRUCache \<Rightarrow> int" where
  "LRU_MaxSize c = lc_maxSize c"

text \<open>The hit rate is the exact quotient; the rounding of 64-bit floats is not modelled.\<close>

record CacheStats =
  cs_Size :: nat
  cs_Capacity :: int
  cs_Hits :: int
  cs_Misses :: int
  cs_Evictions :: int
  cs_HitRate :: rat

definition LRU_Stats :: "LRUCache \<Rightarrow> CacheStats" where
  "LRU_Stats c =
     (let total = i64 (lc_hits c + lc_misses c);
          hitRate = (if total > 0 then of_int (lc_hits c) / of_int total else 0)
      in \<lparr>cs_Size = card (dom (lc_data c)), cs_Capacity = lc_maxSize c, cs_Hits = lc_hits c,
          cs_Misses = lc_misses c, cs_Evictions = lc_evictions c, cs_HitRate = hitRate\<rparr>)"

definition LRU_Clear :: "LRUCache \<Rightarrow> LRUCache" where
  "LRU_Clear c =
     c\<lparr>lc_data := Map.empty, lc_lru := [], lc_hits := 0, lc_misses := 0, lc_evictions := 0\<rparr>"

section \<open>Abstract cache\<close>

text \<open>The abstract cache is the list of remembered fingerprints, most recently used first.\<close>

definition lru_abs :: "LRUCache \<Rightarrow> string list" where
  "lru_abs c = map snd (lc_lru c)"

definition spec_check :: "nat \<Rightarrow> string list \<Rightarrow> string \<Rightarrow> bool \<times> string list" where
  "spec_check n xs f = (f \<in> set xs, take n (f # removeAll f xs))"

text \<open>The distinct fingerprints of a history given most recent first, most recent first.\<close>

fun recent :: "'a list \<Rightarrow> 'a list" where
  "recent [] = []"
| "recent (x # xs) = x # removeAll x (recent xs)"

text \<open>The state after a history of checks, given oldest first.\<close>

fun dedup_run ::
  "(time \<Rightarrow> 'c \<Rightarrow> string \<Rightarrow> bool \<times> 'c) \<Rightarrow> 'c \<Rightarrow> (time \<times> string) list \<Rightarrow> 'c" where
  "dedup_run check c [] = c"
| "dedup_run check c ((now, f) # fs) = dedup_run check (snd (check now c f)) fs"

section \<open>The invariant\<close>

text \<open>The index and the list agree, element addresses and fingerprints are unique, and the list
  does not exceed the capacity.\<close>

definition lru_wf :: "LRUCache \<Rightarrow> bool" where
  "lru_wf c \<longleftrightarrow>
     0 < lc_maxSize c \<and> int (length (lc_lru c)) \<le> lc_maxSize c \<and>
     distinct (map fst (lc_lru c)) \<and> distinct (map snd (lc_lru c)) \<and>
     (\<forall>x \<in> set (lc_lru c). fst x < lc_nextElem c) \<and>
     (\<forall>f e. lc_data c f = Some e \<longrightarrow> ce_fingerprint e = f \<and> (ce_element e, f) \<in> set (lc_lru c)) \<and>
     dom (lc_data c) = snd ` set (lc_lru c)"

lemma lru_wf_New: "lru_wf (NewLRUCache n)"
  by (simp add: lru_wf_def NewLRUCache_def)

lemma lru_abs_New: "lru_abs (NewLRUCache n) = []"
  by (simp add: lru_abs_def NewLRUCache_def)

lemma lru_wf_Clear: "lru_wf c \<Longrightarrow> lru_wf (LRU_Clear c)"
  by (simp add: lru_wf_def LRU_Clear_def)

lemma LRU_Size_abs: "lru_wf c \<Longrightarrow> LRU_Size c = length (lru_abs c)"
  by (auto simp: lru_wf_def LRU_Size_def lru_abs_def distinct_card simp flip: set_map)

lemma lru_abs_props:
  assumes "lru_wf c"
  shows "distinct (lru_abs c)" and "int (length (lru_abs c)) \<le> lc_maxSize c"
    and "set (lru_abs c) = dom (lc_data c)"
  using assms by (auto simp: lru_wf_def lru_abs_def)

text \<open>Moving the element of a fingerprint to the front moves that fingerprint to the front.\<close>

lemma MoveToFront_found:
  assumes "distinct (map fst l)" and "distinct (map snd l)" and "(e, f) \<in> set l"
  shows "MoveToFront e l = (e, f) # filter (\<lambda>y. fst y \<noteq> e) l"
    and "map snd (MoveToFront e l) = f # removeAll f (map snd l)"
    and "set (MoveToFront e l) = set l" and "length (MoveToFront e l) = length l"
    and "distinct (map fst (MoveToFront e l))" and "distinct (map snd (MoveToFront e l))"
proof -
  have same: "fst x = e \<longleftrightarrow> x = (e, f)" "snd x = f \<longleftrightarrow> x = (e, f)" if "x \<in> set l" for x
    using that assms inj_onD [of fst "set l" x "(e, f)"] inj_onD [of snd "set l" x "(e, f)"]
    by (auto simp: distinct_map)
  have "set (filter (\<lambda>x. fst x = e) l) = {(e, f)}" using assms(3) same(1) by auto
  then show mv: "MoveToFront e l = (e, f) # filter (\<lambda>y. fst y \<noteq> e) l"
    by (cases "filter (\<lambda>x. fst x = e) l") (auto simp: MoveToFront_def)
  have "filter (\<lambda>y. fst y \<noteq> e) l = filter (\<lambda>y. snd y \<noteq> f) l"
    using same by (intro filter_cong) auto
  then show abs: "map snd (MoveToFront e l) = f # removeAll f (map snd l)"
    using mv by (simp add: removeAll_filter_not_eq filter_map comp_def eq_commute)
  show set_eq: "set (MoveToFront e l) = set l" using mv assms(3) same(1) by auto
  show "distinct (map snd (MoveToFront e l))" using abs assms(2) by (simp add: removeAll_filter_not_eq)
  show d: "distinct (map fst (MoveToFront e l))" using mv assms(1) by (auto simp: distinct_map_filter)
  show "length (MoveToFront e l) = length l"
    using d assms(1) set_eq by (metis distinct_card distinct_map)
qed

section \<open>Refinement\<close>

lemma CheckAndStore_hit:
  assumes wf: "lru_wf c" and hit: "lc_data c f = Some entry"
  shows "lru_wf (snd (CheckAndStore now c f)) \<and>
    lru_abs (snd (CheckAndStore now c f)) = f # removeAll f (lru_abs c)"
proof -
  have "distinct (map fst (lc_lru c))" "distinct (map snd (lc_lru c))"
    "(ce_element entry, f) \<in> set (lc_lru c)"
    using wf hit by (auto simp: lru_wf_def)
  note mv = MoveToFront_found [OF this]
  show ?thesis
    using wf hit mv(2-) by (simp add: lru_wf_def CheckAndStore_def lru_abs_def)
qed

lemma CheckAndStore_miss:
  assumes wf: "lru_wf c" and miss: "lc_data c f = None"
  shows "lru_wf (snd (CheckAndStore now c f)) \<and>
    lru_abs (snd (CheckAndStore now c f)) = take (nat (lc_maxSize c)) (f # lru_abs c)"
proof -
  let ?l = "(lc_nextElem c, f) # lc_lru c"
  have "dom (lc_data c) = snd ` set (lc_lru c)" using wf by (simp add: lru_wf_def)
  with miss have new: "f \<notin> snd ` set (lc_lru c)" by (metis domIff)
  have fresh: "lc_nextElem c \<notin> fst ` set (lc_lru c)" using wf by (auto simp: lru_wf_def)
  show ?thesis
  proof (cases "int (length ?l) > lc_maxSize c")
    case False
    then show ?thesis
      using wf miss new fresh by (auto simp: lru_wf_def CheckAndStore_def lru_abs_def Let_def)
  next
    case True
    then have len: "lc_maxSize c = int (length (lc_lru c))" and ne: "lc_lru c \<noteq> []"
      using wf by (auto simp: lru_wf_def)
    obtain l a b where l: "lc_lru c = l @ [(a, b)]" using ne by (metis append_butlast_last_id surj_pair)
    have b: "b \<notin> set (map snd l)" "b \<noteq> f" using wf new l by (auto simp: lru_wf_def)
    have mx: "nat (lc_maxSize c) = Suc (length l)" using len l by simp
    let ?e = "\<lparr>ce_fingerprint = f, ce_timestamp = now, ce_element = lc_nextElem c\<rparr>"
    have eq: "snd (CheckAndStore now c f) = c\<lparr>lc_misses := i64 (lc_misses c + 1),
        lc_nextElem := Suc (lc_nextElem c), lc_lru := (lc_nextElem c, f) # l,
        lc_data := (lc_data c)(f \<mapsto> ?e, b := None), lc_evictions := i64 (lc_evictions c + 1)\<rparr>"
      using miss l len by (simp add: CheckAndStore_def Let_def evictLRU_def)
    have "dom ((lc_data c)(f \<mapsto> ?e, b := None)) = snd ` set ((lc_nextElem c, f) # l)"
      using wf l b by (simp add: lru_wf_def) blast
    moreover have "ce_fingerprint e = g \<and> (ce_element e, g) \<in> set ((lc_nextElem c, f) # l)"
      if "((lc_data c)(f \<mapsto> ?e, b := None)) g = Some e" for g e
      using that wf l by (auto simp: lru_wf_def split: if_splits)
    ultimately show ?thesis
      using wf new fresh l len mx unfolding eq by (auto simp: lru_wf_def lru_abs_def simp del: fun_upd_apply)
  qed
qed

lemma CheckAndStore_refines:
  assumes "lru_wf c"
  shows "lru_wf (snd (CheckAndStore now c f)) \<and>
    (fst (CheckAndStore now c f), lru_abs (snd (CheckAndStore now c f))) =
      spec_check (nat (lc_maxSize c)) (lru_abs c) f"
proof (cases "lc_data c f")
  case None
  then have "f \<notin> set (lru_abs c)" using lru_abs_props(3) [OF assms] by auto
  with None CheckAndStore_miss [OF assms None] show ?thesis
    by (simp add: spec_check_def) (simp add: CheckAndStore_def Let_def)
next
  case (Some e)
  then have f: "f \<in> set (lru_abs c)" using lru_abs_props(3) [OF assms] by auto
  have "length (f # removeAll f (lru_abs c)) = length (lru_abs c)"
    using f lru_abs_props(1) [OF assms]
    by (simp add: distinct_remove1_removeAll [symmetric] length_remove1) (use length_pos_if_in_set in force)
  then have "take (nat (lc_maxSize c)) (f # removeAll f (lru_abs c)) = f # removeAll f (lru_abs c)"
    using lru_abs_props(2) [OF assms] by (intro take_all) linarith
  with Some f CheckAndStore_hit [OF assms Some] show ?thesis
    by (simp add: spec_check_def) (simp add: CheckAndStore_def)
qed

lemma CheckAndStore_maxSize: "lc_maxSize (snd (CheckAndStore now c f)) = lc_maxSize c"
  by (auto simp: CheckAndStore_def evictLRU_def Let_def split: option.splits)

text \<open>Keeping the newest \<open>n\<close> of the distinct fingerprints can be done step by step.\<close>

lemma distinct_recent [simp]: "distinct (recent xs)"
  by (induction xs) (auto simp: distinct_removeAll)

lemma set_recent [simp]: "set (recent xs) = set xs"
  by (induction xs) auto

lemma take_removeAll:
  "distinct ys \<Longrightarrow> take m (removeAll f (take (Suc m) ys)) = take m (removeAll f ys)"
proof (induction ys arbitrary: m)
  case (Cons y ys)
  show ?case
  proof (cases "y = f")
    case True
    with Cons.prems have "f \<notin> set ys" by simp
    moreover from this have "f \<notin> set (take m ys)" by (meson in_set_takeD)
    ultimately show ?thesis using True by (simp add: removeAll_id)
  next
    case False
    with Cons show ?thesis by (cases m) auto
  qed
qed simp

lemma spec_check_recent:
  assumes "0 < n"
  shows "snd (spec_check n (take n (recent h)) f) = take n (recent (f # h))"
  using assms by (cases n) (simp_all add: spec_check_def take_removeAll)

section \<open>The interface\<close>

text \<open>
  What the event pipeline relies on: a cache that remembers some fingerprints, answers whether the one it is given
  is among them and makes it the most recent, within a positive capacity.
\<close>

locale dedup_cache =
  fixes wf :: "'c \<Rightarrow> bool"
    and remembered :: "'c \<Rightarrow> string list"
    and cap :: "'c \<Rightarrow> nat"
    and check :: "time \<Rightarrow> 'c \<Rightarrow> string \<Rightarrow> bool \<times> 'c"
  assumes wf_check: "wf c \<Longrightarrow> wf (snd (check now c f))"
    and cap_check: "wf c \<Longrightarrow> cap (snd (check now c f)) = cap c"
    and cap_pos: "wf c \<Longrightarrow> 0 < cap c"
    and check_refines:
      "wf c \<Longrightarrow> (fst (check now c f), remembered (snd (check now c f))) = spec_check (cap c) (remembered c) f"
begin

lemma run_recent:
  assumes "wf c" and "remembered c = take (cap c) (recent h)"
  shows "wf (dedup_run check c fs) \<and> cap (dedup_run check c fs) = cap c \<and>
    remembered (dedup_run check c fs) = take (cap c) (recent (rev (map snd fs) @ h))"
  using assms
proof (induction fs arbitrary: c h)
  case (Cons x fs)
  obtain now f where x: "x = (now, f)" by fastforce
  let ?c = "snd (check now c f)"
  have "remembered ?c = take (cap c) (recent (f # h))"
    using check_refines [OF Cons.prems(1), of now f] spec_check_recent [OF cap_pos [OF Cons.prems(1)]]
      Cons.prems(2) by (metis snd_conv)
  with Cons.IH [of ?c "f # h"] Cons.prems(1) show ?case by (simp add: x wf_check cap_check)
qed simp

lemma duplicate_iff_recent:
  assumes "wf c" and "remembered c = []"
  shows "fst (check now (dedup_run check c fs) f) \<longleftrightarrow> f \<in> set (take (cap c) (recent (rev (map snd fs))))"
proof -
  have r: "wf (dedup_run check c fs)" "cap (dedup_run check c fs) = cap c"
    "remembered (dedup_run check c fs) = take (cap c) (recent (rev (map snd fs)))"
    using run_recent [OF assms(1), of "[]" fs] assms(2) by simp_all
  from check_refines [OF r(1), of now f] r(3) show ?thesis by (simp add: spec_check_def)
qed

end

interpretation lru: dedup_cache lru_wf lru_abs "\<lambda>c. nat (lc_maxSize c)" CheckAndStore
proof
  show "0 < nat (lc_maxSize c)" if "lru_wf c" for c
    using that by (simp add: lru_wf_def)
qed (simp_all add: CheckAndStore_refines CheckAndStore_maxSize)

section \<open>Counters\<close>

text \<open>After \<open>n\<close> checks every check was a hit or a miss, and what was stored is still there or was evicted.\<close>

definition lru_counts :: "nat \<Rightarrow> LRUCache \<Rightarrow> bool" where
  "lru_counts n c \<longleftrightarrow>
     0 \<le> lc_hits c \<and> 0 \<le> lc_evictions c \<and> lc_hits c + lc_misses c = int n \<and>
     lc_misses c = lc_evictions c + int (length (lc_lru c))"

lemma lru_counts_step:
  assumes wf: "lru_wf c" and cnt: "lru_counts n c" and n: "Suc n < 2 ^ 63"
  shows "lru_counts (Suc n) (snd (CheckAndStore now c f))"
proof -
  have inc: "i64 (lc_hits c + 1) = lc_hits c + 1" "i64 (lc_misses c + 1) = lc_misses c + 1"
    "i64 (lc_evictions c + 1) = lc_evictions c + 1"
    using cnt n by (auto simp: lru_counts_def is_i64_def intro!: i64_id)
  show ?thesis
  proof (cases "lc_data c f")
    case None
    then show ?thesis
      using cnt inc by (auto simp: lru_counts_def CheckAndStore_def evictLRU_def Let_def)
  next
    case (Some e)
    then have "length (MoveToFront (ce_element e) (lc_lru c)) = length (lc_lru c)"
      using wf by (intro MoveToFront_found(4) [of _ _ f]) (auto simp: lru_wf_def)
    with Some cnt inc show ?thesis by (auto simp: lru_counts_def CheckAndStore_def)
  qed
qed

lemma lru_counts_run:
  "lru_wf c \<Longrightarrow> lru_counts n c \<Longrightarrow> n + length fs < 2 ^ 63 \<Longrightarrow>
     lru_counts (n + length fs) (dedup_run CheckAndStore c fs)"
proof (induction fs arbitrary: c n)
  case (Cons x fs)
  obtain now f where x: "x = (now, f)" by fastforce
  have "lru_counts (Suc n) (snd (CheckAndStore now c f))"
    using Cons.prems by (intro lru_counts_step) simp_all
  with Cons.IH [of "snd (CheckAndStore now c f)" "Suc n"] Cons.prems show ?case
    by (simp add: x lru.wf_check)
qed simp

section \<open>Canonical payloads\<close>

lemma canonicalJSON_concat:
  "canonicalJSON ff m =
     concat (map (\<lambda>k. k @ '':'' @ interfaceToString ff (payload_at m k) @ '';'') (sortedKeys m))"
proof -
  have "foldl (\<lambda>r k. r @ g k) r0 ks = r0 @ concat (map g ks)" for g :: "string \<Rightarrow> string" and r0 ks
    by (induction ks arbitrary: r0) simp_all
  from this [of "\<lambda>k. k @ '':'' @ interfaceToString ff (payload_at m k) @ '';''"] show ?thesis
    by (simp add: canonicalJSON_def)
qed

section \<open>Properties\<close>

text \<open>C7: The deduplication cache answers from a sliding window. After any sequence of checks on a new cache, the next
  fingerprint is reported as a duplicate exactly when it is among the most recently checked distinct
  fingerprints, as many as the capacity; the cache then holds exactly those and never more entries
  than its capacity.\<close>

theorem lru_window:
  "(fst (CheckAndStore now (dedup_run CheckAndStore (NewLRUCache n) fs) f) \<longleftrightarrow>
     f \<in> set (take (nat (if n \<le> 0 then 10000 else n)) (recent (rev (map snd fs))))) \<and>
   LRU_Size (dedup_run CheckAndStore (NewLRUCache n) fs) =
     min (card (set (map snd fs))) (nat (if n \<le> 0 then 10000 else n))"
proof
  have cap: "nat (lc_maxSize (NewLRUCache n)) = nat (if n \<le> 0 then 10000 else n)"
    by (simp add: NewLRUCache_def)
  show "fst (CheckAndStore now (dedup_run CheckAndStore (NewLRUCache n) fs) f) \<longleftrightarrow>
     f \<in> set (take (nat (if n \<le> 0 then 10000 else n)) (recent (rev (map snd fs))))"
    using lru.duplicate_iff_recent [OF lru_wf_New lru_abs_New, where n1 = n] cap by simp
  have "length (recent (rev (map snd fs))) = card (set (map snd fs))"
    by (metis distinct_card distinct_recent set_recent set_rev)
  then show "LRU_Size (dedup_run CheckAndStore (NewLRUCache n) fs) =
     min (card (set (map snd fs))) (nat (if n \<le> 0 then 10000 else n))"
    using lru.run_recent [OF lru_wf_New, of n "[]" fs] by (simp add: LRU_Size_abs lru_abs_New cap)
qed

text \<open>The statistics of the cache add up: after any sequence of checks on a new cache, fewer than the counters can
  hold, hits and misses sum to the number of checks, misses are the evictions plus the current size, the
  size is within the capacity, and the hit rate is hits divided by checks.\<close>

lemma lru_stats_consistent:
  assumes "length fs < 2 ^ 63"
  shows "let st = LRU_Stats (dedup_run CheckAndStore (NewLRUCache n) fs) in
    cs_Hits st + cs_Misses st = int (length fs) \<and> cs_Misses st = cs_Evictions st + int (cs_Size st) \<and>
    int (cs_Size st) \<le> cs_Capacity st \<and>
    cs_HitRate st = (if fs = [] then 0 else of_int (cs_Hits st) / of_nat (length fs))"
proof -
  let ?c = "dedup_run CheckAndStore (NewLRUCache n) fs"
  have wf: "lru_wf ?c" using lru.run_recent [OF lru_wf_New, of n "[]" fs] by (simp add: lru_abs_New)
  have "lru_counts 0 (NewLRUCache n)" by (simp add: lru_counts_def NewLRUCache_def)
  then have cnt: "lru_counts (length fs) ?c"
    using lru_counts_run [OF lru_wf_New, of 0 n fs] assms by simp
  then have "lc_hits ?c + lc_misses ?c = int (length fs)" by (simp add: lru_counts_def)
  then have "i64 (lc_hits ?c + lc_misses ?c) = int (length fs)"
    using assms i64_nat_small [of "length fs"] by simp
  moreover have "card (dom (lc_data ?c)) = length (lc_lru ?c)"
    using LRU_Size_abs [OF wf] by (simp add: LRU_Size_def lru_abs_def)
  ultimately show ?thesis
    using cnt wf by (simp add: LRU_Stats_def Let_def lru_counts_def lru_wf_def)
qed

lemma lru_stats_consistent_instance:
  "cs_Hits (LRU_Stats (dedup_run CheckAndStore (NewLRUCache 1) [(0, ''a''), (1, ''b''), (2, ''b'')])) = 1 \<and>
   cs_HitRate (LRU_Stats (dedup_run CheckAndStore (NewLRUCache 1) [(0, ''a''), (1, ''b''), (2, ''b'')])) = 1 / 3"
proof -
  have "cs_Hits (LRU_Stats (dedup_run CheckAndStore (NewLRUCache 1) [(0, ''a''), (1, ''b''), (2, ''b'')])) = 1"
    by (simp add: LRU_Stats_def Let_def CheckAndStore_def NewLRUCache_def evictLRU_def MoveToFront_def i64_def)
  with lru_stats_consistent [of "[(0, ''a''), (1, ''b''), (2, ''b'')]" 1] show ?thesis by (simp add: Let_def)
qed

text \<open>A fingerprint depends on the content of the payload only, never on the order in which the map is iterated,
  whatever the hash function and the number format.\<close>

lemma fingerprint_order_independent:
  assumes "distinct (map fst m)" and "distinct (map fst m')" and "map_of m = map_of m'"
  shows "ComputeFingerprint sum256 formatFloat (e\<lparr>ev_Payload := m\<rparr>) =
    ComputeFingerprint sum256 formatFloat (e\<lparr>ev_Payload := m'\<rparr>)"
proof -
  have "set (map fst m) = set (map fst m')" by (metis assms(3) dom_map_of_conv_image_fst set_map)
  then have "sortedKeys m = sortedKeys m'"
    unfolding sortedKeys_def using assms(1,2) by (intro sorted_distinct_set_unique) simp_all
  with assms(3) show ?thesis
    by (simp add: ComputeFingerprint_def canonicalJSON_def payload_at_def)
qed

lemma fingerprint_order_independent_instance:
  "ComputeFingerprint (\<lambda>s. map of_char s) (\<lambda>n::nat. show_nat n)
      \<lparr>ev_ID = ''e'', ev_VnetID = ''v'', ev_Type = ''t'', ev_Timestamp = 0,
       ev_Payload = [(''b'', JBool True), (''a'', JString ''x'')], ev_Fingerprint = ''''\<rparr> =
   ComputeFingerprint (\<lambda>s. map of_char s) (\<lambda>n::nat. show_nat n)
      \<lparr>ev_ID = ''e'', ev_VnetID = ''v'', ev_Type = ''t'', ev_Timestamp = 0,
       ev_Payload = [(''a'', JString ''x''), (''b'', JBool True)], ev_Fingerprint = ''''\<rparr>"
  using fingerprint_order_independent
    [of "[(''b'', JBool True), (''a'', JString ''x'')]" "[(''a'', JString ''x''), (''b'', JBool True)]"
      "\<lambda>s. map of_char s" show_nat
      "\<lparr>ev_ID = ''e'', ev_VnetID = ''v'', ev_Type = ''t'', ev_Timestamp = 0, ev_Payload = [], ev_Fingerprint = ''''\<rparr>"]
  by (simp add: fun_eq_iff)

text \<open>The canonical form is not injective: a separator inside a value is not escaped and values of other types
  all print as the empty string. Two different payloads then have the same fingerprint under every
  hash function, and the second event is dropped as a duplicate of the first.\<close>

lemma fingerprint_collision:
  "ComputeFingerprint sum256 ff (e\<lparr>ev_Payload := [(''a'', JString ''1;b:2'')]\<rparr>) =
     ComputeFingerprint sum256 ff (e\<lparr>ev_Payload := [(''a'', JString ''1''), (''b'', JString ''2'')]\<rparr>) \<and>
   ComputeFingerprint sum256 ff (e\<lparr>ev_Payload := [(''a'', JOther)]\<rparr>) =
     ComputeFingerprint sum256 ff (e\<lparr>ev_Payload := [(''a'', JString '''')]\<rparr>)"
  by (simp add: ComputeFingerprint_def canonicalJSON_def sortedKeys_def payload_at_def)

end
