(* ===== verification/FM_Pipeline.thy ===== *)
theory FM_Pipeline
  imports FM_Dedup "HOL-Library.Sublist"
begin

text \<open>
  The event pipeline of the configuration plane (package configmanagement, file \<^verbatim>\<open>pipeline.go\<close> of
  \<^verbatim>\<open>src/FM/pkg/cm\<close>). The pipeline is a state machine: the methods \<open>Start\<close> and
  \<open>Stop\<close> run under the mutex and are one action each; the goroutine \<open>handleEventLoop\<close> has one action
  per case of its two select statements, so that other actions may happen between the receipt of an event and its
  forwarding. Every successful \<open>Start\<close> spawns a loop, hence the list of program counters. A panic ends
  the process. The validator, the results of the subscriber's methods and the choice among the
  ready cases of a select come from outside.
\<close>

section \<open>State\<close>

record PipelineStats =
  ps_EventsReceived :: int
  ps_EventsDuplicated :: int
  ps_EventsValidated :: int
  ps_EventsForwarded :: int
  ps_ValidationErrors :: int
  ps_SubscriptionErrors :: int
  ps_Uptime :: duration

definition zero_stats :: PipelineStats where
  "zero_stats = \<lparr>ps_EventsReceived = 0, ps_EventsDuplicated = 0, ps_EventsValidated = 0,
     ps_EventsForwarded = 0, ps_ValidationErrors = 0, ps_SubscriptionErrors = 0, ps_Uptime = 0\<rparr>"

text \<open>Where a loop is: at the outer select, at the inner select with an event to forward, or gone.\<close>

datatype 'f loop_pc = LWait | LForward "'f Event" | LExit

record 'f Pipeline =
  pl_cache :: LRUCache
  pl_running :: bool
  pl_startTime :: time
  pl_ctxDone :: bool
  pl_out :: "'f Event list"
  pl_outClosed :: bool
  pl_doneClosed :: bool
  pl_stats :: PipelineStats
  pl_loops :: "'f loop_pc list"
  pl_crashed :: "panic option"

datatype pipeline_error = AlreadyRunning | SubscribeFailed string | NotRunning | CloseFailed string

text \<open>The buffer size of the output channel.\<close>

definition out_capacity :: nat where
  "out_capacity = 1000"

section \<open>Operations\<close>

definition NewEventPipeline :: "LRUCache option \<Rightarrow> 'f Pipeline" where
  "NewEventPipeline cache =
     \<lparr>pl_cache = (case cache of None \<Rightarrow> NewLRUCache 10000 | Some c \<Rightarrow> c), pl_running = False,
      pl_startTime = 0, pl_ctxDone = False, pl_out = [], pl_outClosed = False, pl_doneClosed = False,
      pl_stats = zero_stats, pl_loops = [], pl_crashed = None\<rparr>"

text \<open>The validator that accepts every event.\<close>

definition NullValidator_Validate :: "'f Event \<Rightarrow> string option" where
  "NullValidator_Validate event = None"

text \<open>
  \<open>Start\<close> with the instant, whether the given context is already cancelled and the outcome of
  \<open>Subscribe\<close>.
\<close>

definition pl_Start ::
  "time \<Rightarrow> bool \<Rightarrow> string option \<Rightarrow> 'f Pipeline \<Rightarrow> pipeline_error option \<times> 'f Pipeline" where
  "pl_Start now ctxDone subErr p =
     (if pl_running p then (Some AlreadyRunning, p)
      else
        let p' = p\<lparr>pl_ctxDone := ctxDone, pl_running := True, pl_startTime := now, pl_stats := zero_stats\<rparr>
        in case subErr of
             Some err \<Rightarrow> (Some (SubscribeFailed err), p'\<lparr>pl_running := False\<rparr>)
           | None \<Rightarrow> (None, p'\<lparr>pl_loops := pl_loops p' @ [LWait]\<rparr>))"

text \<open>\<open>Stop\<close> with the outcome of the subscriber's \<open>Close\<close>; closing a closed channel panics.\<close>

definition pl_Stop :: "string option \<Rightarrow> 'f Pipeline \<Rightarrow> (pipeline_error option \<times> 'f Pipeline) go" where
  "pl_Stop closeErr p =
     (if \<not> pl_running p then Inr (Some NotRunning, p)
      else if pl_doneClosed p then Inl CloseOfClosedChannel
      else if pl_outClosed p then Inl CloseOfClosedChannel
      else
        Inr (map_option CloseFailed closeErr,
             p\<lparr>pl_running := False, pl_doneClosed := True, pl_outClosed := True\<rparr>))"

definition pl_Stats :: "time \<Rightarrow> 'f Pipeline \<Rightarrow> PipelineStats" where
  "pl_Stats now p = (pl_stats p)\<lparr>ps_Uptime := time_since now (pl_startTime p)\<rparr>"

text \<open>
  The body of the loop from the receipt of an event to the inner select: counting, the duplicate check and
  validation. The result says where the loop continues.
\<close>

definition handle_event ::
  "('f Event \<Rightarrow> string option) \<Rightarrow> time \<Rightarrow> 'f Event \<Rightarrow> 'f Pipeline \<Rightarrow> 'f loop_pc \<times> 'f Pipeline" where
  "handle_event validate now event p =
     (let st = pl_stats p; st1 = st\<lparr>ps_EventsReceived := i64 (ps_EventsReceived st + 1)\<rparr>;
          (dup, cache) = CheckAndStore now (pl_cache p) (ev_Fingerprint event);
          p1 = p\<lparr>pl_cache := cache\<rparr>
      in if dup
         then (LWait, p1\<lparr>pl_stats := st1\<lparr>ps_EventsDuplicated := i64 (ps_EventsDuplicated st1 + 1)\<rparr>\<rparr>)
         else case validate event of
                Some err \<Rightarrow>
                  (LWait, p1\<lparr>pl_stats := st1\<lparr>ps_ValidationErrors := i64 (ps_ValidationErrors st1 + 1)\<rparr>\<rparr>)
              | None \<Rightarrow>
                  (LForward event,
                   p1\<lparr>pl_stats := st1\<lparr>ps_EventsValidated := i64 (ps_EventsValidated st1 + 1)\<rparr>\<rparr>))"

text \<open>
  The send case of the inner select, chosen when the buffer has room or the channel is closed; a
  send on a closed channel panics.
\<close>

definition forward_event :: "'f Event \<Rightarrow> 'f Pipeline \<Rightarrow> 'f Pipeline go" where
  "forward_event event p =
     (if pl_outClosed p then Inl SendOnClosedChannel
      else let st = pl_stats p
           in Inr (p\<lparr>pl_out := pl_out p @ [event],
                     pl_stats := st\<lparr>ps_EventsForwarded := i64 (ps_EventsForwarded st + 1)\<rparr>\<rparr>))"

section \<open>The state machine\<close>

text \<open>
  The actions: the two methods, the cases of the selects of loop \<open>i\<close> (an event arrives, the
  input channel is closed, the event is sent, the done channel or the context is observed), a
  consumer reading one event, and the cancellation of the context.
\<close>

datatype 'f pl_action =
    ActStart time bool "string option"
  | ActStop "string option"
  | ActRecv nat time "'f Event"
  | ActInputClosed nat
  | ActSend nat
  | ActDone nat
  | ActCtx nat
  | ActConsume
  | ActCancel

definition set_loop :: "nat \<Rightarrow> 'f loop_pc \<Rightarrow> 'f Pipeline \<Rightarrow> 'f Pipeline" where
  "set_loop i pc p = p\<lparr>pl_loops := (pl_loops p)[i := pc]\<rparr>"

definition at_select :: "nat \<Rightarrow> 'f Pipeline \<Rightarrow> bool" where
  "at_select i p = (i < length (pl_loops p) \<and> pl_loops p ! i \<noteq> LExit)"

text \<open>One action, if it is enabled; the second component is the event a consumer reads.\<close>

fun pl_act ::
  "('f Event \<Rightarrow> string option) \<Rightarrow> 'f pl_action \<Rightarrow> 'f Pipeline \<Rightarrow> ('f Pipeline \<times> 'f Event list) option"
where
  "pl_act validate (ActStart now cd err) p = Some (snd (pl_Start now cd err p), [])"
| "pl_act validate (ActStop err) p =
     Some (case pl_Stop err p of Inl pn \<Rightarrow> p\<lparr>pl_crashed := Some pn\<rparr> | Inr (_, p') \<Rightarrow> p', [])"
| "pl_act validate (ActRecv i now event) p =
     (if i < length (pl_loops p) \<and> pl_loops p ! i = LWait
      then let (pc, p') = handle_event validate now event p in Some (set_loop i pc p', [])
      else None)"
| "pl_act validate (ActInputClosed i) p =
     (if i < length (pl_loops p) \<and> pl_loops p ! i = LWait then Some (set_loop i LExit p, []) else None)"
| "pl_act validate (ActSend i) p =
     (if i < length (pl_loops p)
      then case pl_loops p ! i of
             LForward event \<Rightarrow>
               if pl_outClosed p \<or> length (pl_out p) < out_capacity
               then Some (case forward_event event p of
                            Inl pn \<Rightarrow> p\<lparr>pl_crashed := Some pn\<rparr>
                          | Inr p' \<Rightarrow> set_loop i LWait p', [])
               else None
           | _ \<Rightarrow> None
      else None)"
| "pl_act validate (ActDone i) p =
     (if at_select i p \<and> pl_doneClosed p then Some (set_loop i LExit p, []) else None)"
| "pl_act validate (ActCtx i) p =
     (if at_select i p \<and> pl_ctxDone p then Some (set_loop i LExit p, []) else None)"
| "pl_act validate ActConsume p =
     (case pl_out p of [] \<Rightarrow> None | e # es \<Rightarrow> Some (p\<lparr>pl_out := es\<rparr>, [e]))"
| "pl_act validate ActCancel p = Some (p\<lparr>pl_ctxDone := True\<rparr>, [])"

text \<open>The reachable states, with the actions that led there and the events consumers have read.\<close>

inductive pl_reach ::
  "('f Event \<Rightarrow> string option) \<Rightarrow> LRUCache \<Rightarrow> 'f pl_action list \<Rightarrow> 'f Event list \<Rightarrow> 'f Pipeline \<Rightarrow> bool"
  for validate cache
where
  pl_init: "pl_reach validate cache [] [] (NewEventPipeline (Some cache))"
| pl_next: "pl_reach validate cache acts seen p \<Longrightarrow> pl_crashed p = None \<Longrightarrow>
    pl_act validate a p = Some (p', es) \<Longrightarrow> pl_reach validate cache (acts @ [a]) (seen @ es) p'"

inductive_cases pl_reach_snoc: "pl_reach validate cache (acts @ [a]) seen p"

text \<open>A sequence of actions from a given state, if every action is enabled in turn.\<close>

fun pl_run ::
  "('f Event \<Rightarrow> string option) \<Rightarrow> 'f pl_action list \<Rightarrow> 'f Pipeline \<Rightarrow> ('f Pipeline \<times> 'f Event list) option"
where
  "pl_run validate [] p = Some (p, [])"
| "pl_run validate (a # as) p =
     (if pl_crashed p \<noteq> None then None
      else case pl_act validate a p of
             None \<Rightarrow> None
           | Some (p', es) \<Rightarrow> map_option (\<lambda>(q, es'). (q, es @ es')) (pl_run validate as p'))"

text \<open>What the loops received, and what a sequential filter would let pass.\<close>

fun received :: "'f pl_action list \<Rightarrow> (time \<times> 'f Event) list" where
  "received [] = []"
| "received (ActRecv i now event # as) = (now, event) # received as"
| "received (_ # as) = received as"

fun accepted ::
  "('f Event \<Rightarrow> string option) \<Rightarrow> LRUCache \<Rightarrow> (time \<times> 'f Event) list \<Rightarrow> LRUCache \<times> 'f Event list"
where
  "accepted validate c [] = (c, [])"
| "accepted validate c ((now, e) # es) =
     (let (dup, c') = CheckAndStore now c (ev_Fingerprint e); (c'', out) = accepted validate c' es
      in (c'', if dup \<or> validate e \<noteq> None then out else e # out))"

definition example_event :: "string \<Rightarrow> nat Event" where
  "example_event f = \<lparr>ev_ID = f, ev_VnetID = ''v'', ev_Type = ''t'', ev_Timestamp = 0, ev_Payload = [],
     ev_Fingerprint = f\<rparr>"

section \<open>The stream invariant\<close>

lemma received_append [simp]: "received (as @ bs) = received as @ received bs"
  by (induction as rule: received.induct) simp_all

lemma accepted_append:
  "accepted validate c (xs @ ys) =
     (let (c', out) = accepted validate c xs; (c'', out') = accepted validate c' ys in (c'', out @ out'))"
proof (induction xs arbitrary: c)
  case (Cons x xs)
  then show ?case by (cases x) (auto simp: Let_def split: prod.splits)
qed (auto split: prod.splits)

text \<open>
  While nobody has stopped the pipeline there is at most one loop, and what consumers read, what is buffered and
  what the loop is about to send are exactly the accepted events, in order. Afterwards the buffer
  only drains.
\<close>

fun loops_inv :: "bool \<Rightarrow> 'f loop_pc list \<Rightarrow> 'f Event list \<Rightarrow> 'f Event list \<Rightarrow> bool" where
  "loops_inv running [] acc strm = (\<not> running \<and> acc = strm)"
| "loops_inv running [LWait] acc strm = (running \<and> acc = strm)"
| "loops_inv running [LForward e] acc strm = (running \<and> acc = strm @ [e])"
| "loops_inv running [LExit] acc strm = running"
| "loops_inv running (_ # _ # _) acc strm = False"

definition pl_inv ::
  "('f Event \<Rightarrow> string option) \<Rightarrow> LRUCache \<Rightarrow> (time \<times> 'f Event) list \<Rightarrow> 'f Event list \<Rightarrow> 'f Pipeline \<Rightarrow> bool"
where
  "pl_inv validate cache es seen p \<longleftrightarrow>
     fst (accepted validate cache es) = pl_cache p \<and> pl_outClosed p = pl_doneClosed p \<and>
     prefix (seen @ pl_out p) (snd (accepted validate cache es)) \<and>
     (\<not> pl_doneClosed p \<longrightarrow>
        loops_inv (pl_running p) (pl_loops p) (snd (accepted validate cache es)) (seen @ pl_out p))"

lemma loops_inv_single:
  "loops_inv r ls acc strm \<Longrightarrow> i < length ls \<Longrightarrow> i = 0 \<and> ls = [ls ! 0] \<and> r"
  by (cases "(r, ls, acc, strm)" rule: loops_inv.cases) auto

lemma pl_inv_init: "pl_inv validate cache [] [] (NewEventPipeline (Some cache))"
  by (simp add: pl_inv_def NewEventPipeline_def)

text \<open>The body of the loop computes one step of the sequential filter.\<close>

lemma handle_event_accepted:
  assumes "handle_event validate now e p = (pc, p')"
  shows "accepted validate (pl_cache p) [(now, e)] =
      (pl_cache p', case pc of LForward e' \<Rightarrow> [e'] | _ \<Rightarrow> [])"
    and "pl_out p' = pl_out p" "pl_outClosed p' = pl_outClosed p" "pl_doneClosed p' = pl_doneClosed p"
    and "pl_running p' = pl_running p" "pl_loops p' = pl_loops p" "pl_crashed p' = pl_crashed p"
    and "pc \<noteq> LExit" "\<And>e'. pc = LForward e' \<Longrightarrow> e' = e \<and> validate e = None"
  using assms
  by (auto simp: handle_event_def Let_def split: prod.splits option.splits if_splits)

lemma pl_inv_recv:
  assumes inv: "pl_inv validate cache es seen p" and i: "i < length (pl_loops p)" "pl_loops p ! i = LWait"
    and h: "handle_event validate now e p = (pc, p')"
  shows "pl_inv validate cache (es @ [(now, e)]) seen (set_loop i pc p')"
proof -
  note h' = handle_event_accepted [OF h]
  obtain acc where acc: "accepted validate cache es = (pl_cache p, acc)"
    using inv by (metis pl_inv_def prod.collapse)
  have app: "accepted validate cache (es @ [(now, e)]) =
      (pl_cache p', acc @ (case pc of LForward e' \<Rightarrow> [e'] | _ \<Rightarrow> []))"
    by (simp only: accepted_append acc h'(1) Let_def split_conv)
  show ?thesis
  proof (cases "pl_doneClosed p")
    case True
    with inv app acc h' show ?thesis by (auto simp: pl_inv_def set_loop_def)
  next
    case False
    then have "loops_inv (pl_running p) (pl_loops p) acc (seen @ pl_out p)" using inv acc by (simp add: pl_inv_def)
    with loops_inv_single [OF this i(1)] i have "i = 0" "pl_loops p = [LWait]" "pl_running p" "acc = seen @ pl_out p"
      by (auto simp: loops_inv.simps dest: sym)
    with False inv app h' show ?thesis by (cases pc) (auto simp: pl_inv_def set_loop_def)
  qed
qed

lemma pl_inv_send:
  assumes inv: "pl_inv validate cache es seen p" and i: "i < length (pl_loops p)" "pl_loops p ! i = LForward e"
    and f: "forward_event e p = Inr p'"
  shows "pl_inv validate cache es seen (set_loop i LWait p')"
proof -
  have c: "\<not> pl_outClosed p" using f by (auto simp: forward_event_def split: if_splits)
  then have li: "loops_inv (pl_running p) (pl_loops p) (snd (accepted validate cache es)) (seen @ pl_out p)"
    using inv by (simp add: pl_inv_def)
  from loops_inv_single [OF li i(1)] i have "i = 0" "pl_loops p = [LForward e]" by auto
  with li c inv f show ?thesis by (auto simp: pl_inv_def set_loop_def forward_event_def Let_def)
qed

lemma pl_inv_exit:
  assumes inv: "pl_inv validate cache es seen p" and i: "i < length (pl_loops p)"
  shows "pl_inv validate cache es seen (set_loop i LExit p)"
proof (cases "pl_doneClosed p")
  case False
  then have li: "loops_inv (pl_running p) (pl_loops p) (snd (accepted validate cache es)) (seen @ pl_out p)"
    using inv by (simp add: pl_inv_def)
  from loops_inv_single [OF li i] obtain x where "i = 0" "pl_loops p = [x]" "pl_running p" by auto
  with False inv show ?thesis by (simp add: pl_inv_def set_loop_def)
qed (use inv in \<open>auto simp: pl_inv_def set_loop_def\<close>)

lemma pl_inv_Start:
  assumes "pl_inv validate cache es seen p"
  shows "pl_inv validate cache es seen (snd (pl_Start now cd err p))"
proof (cases "pl_running p")
  case False
  then have "pl_doneClosed p \<or> pl_loops p = []"
    using assms loops_inv_single [of "pl_running p" "pl_loops p" _ _ 0] by (fastforce simp: pl_inv_def)
  with False assms show ?thesis
    by (cases err) (auto simp: pl_inv_def pl_Start_def Let_def)
qed (use assms in \<open>simp add: pl_Start_def\<close>)

lemma pl_inv_Stop:
  assumes "pl_inv validate cache es seen p" and "pl_Stop err p = Inr (res, p')"
  shows "pl_inv validate cache es seen p'"
  using assms by (auto simp: pl_inv_def pl_Stop_def split: if_splits)

lemma pl_inv_crash: "pl_inv validate cache es seen (p\<lparr>pl_crashed := x\<rparr>) = pl_inv validate cache es seen p"
  by (simp add: pl_inv_def)

lemma pl_inv_act:
  assumes inv: "pl_inv validate cache es seen p" and act: "pl_act validate a p = Some (p', out)"
  shows "pl_inv validate cache (es @ received [a]) (seen @ out) p'"
proof (cases a)
  case (ActStop err)
  with act inv show ?thesis by (auto simp: pl_inv_crash pl_inv_Stop split: sum.splits prod.splits)
next
  case (ActRecv i now e)
  with act inv show ?thesis by (auto simp: pl_inv_recv split: if_splits prod.splits)
next
  case (ActSend i)
  with act inv show ?thesis
    by (auto simp: pl_inv_crash pl_inv_send split: if_splits loop_pc.splits sum.splits)
next
  case ActConsume
  with act inv show ?thesis by (auto simp: pl_inv_def split: list.splits)
next
  case (ActStart now cd err)
  with act inv show ?thesis by (auto simp: pl_inv_Start)
next
  case (ActInputClosed i)
  with act inv show ?thesis by (auto simp: pl_inv_exit split: if_splits)
next
  case (ActDone i)
  with act inv show ?thesis by (auto simp: pl_inv_exit at_select_def split: if_splits)
next
  case (ActCtx i)
  with act inv show ?thesis by (auto simp: pl_inv_exit at_select_def split: if_splits)
next
  case ActCancel
  with act inv show ?thesis by (auto simp: pl_inv_def)
qed

lemma pl_reach_inv: "pl_reach validate cache acts seen p \<Longrightarrow> pl_inv validate cache (received acts) seen p"
  by (induction rule: pl_reach.induct) (auto simp: pl_inv_init intro: pl_inv_act)

lemma pl_run_reach:
  "pl_run validate bs p = Some (q, es) \<Longrightarrow> pl_reach validate cache acts seen p \<Longrightarrow>
     pl_reach validate cache (acts @ bs) (seen @ es) q"
proof (induction bs arbitrary: acts seen p es)
  case (Cons b bs)
  then obtain p' es1 es2 where step: "pl_crashed p = None" "pl_act validate b p = Some (p', es1)"
    "pl_run validate bs p' = Some (q, es2)" "es = es1 @ es2"
    by (auto split: if_splits option.splits prod.splits)
  with Cons.IH [OF step(3) pl_next [OF Cons.prems(2) step(1,2)]] show ?case by simp
qed simp

lemma pl_run_init:
  "pl_run validate acts (NewEventPipeline (Some cache)) = Some (p, es) \<Longrightarrow> pl_reach validate cache acts es p"
  using pl_run_reach [OF _ pl_init] by fastforce

lemmas pl_eval = NewEventPipeline_def pl_Start_def pl_Stop_def handle_event_def forward_event_def set_loop_def
  at_select_def out_capacity_def CheckAndStore_def NewLRUCache_def evictLRU_def MoveToFront_def
  zero_stats_def example_event_def Let_def

section \<open>Counters and crashes\<close>

definition stats_inv :: "'f Pipeline \<Rightarrow> bool" where
  "stats_inv p \<longleftrightarrow> (let st = pl_stats p in
     ps_EventsReceived st = i64 (ps_EventsDuplicated st + ps_ValidationErrors st + ps_EventsValidated st))"

lemma stats_inv_handle: "stats_inv p \<Longrightarrow> stats_inv (snd (handle_event validate now e p))"
  by (auto simp: stats_inv_def handle_event_def Let_def ac_simps split: prod.splits option.splits)

lemma stats_inv_act:
  assumes "stats_inv p" and "pl_act validate a p = Some (p', out)"
  shows "stats_inv p'"
proof (cases a)
  case (ActRecv i now e)
  then have "pl_stats p' = pl_stats (snd (handle_event validate now e p))"
    using assms(2) by (auto simp: set_loop_def split: if_splits prod.splits)
  with stats_inv_handle [OF assms(1), of validate now e] show ?thesis by (simp add: stats_inv_def)
qed (use assms in \<open>auto simp: stats_inv_def pl_Start_def pl_Stop_def forward_event_def set_loop_def
      Let_def zero_stats_def i64_def split: if_splits option.splits sum.splits loop_pc.splits list.splits\<close>)

lemma pl_reach_stats: "pl_reach validate cache acts seen p \<Longrightarrow> stats_inv p"
proof (induction rule: pl_reach.induct)
  case pl_init
  show ?case by (simp add: stats_inv_def NewEventPipeline_def zero_stats_def i64_def Let_def)
qed (rule stats_inv_act)

text \<open>Only a \<open>Stop\<close> closes the channels, and only closed channels make the process crash.\<close>

lemma pl_reach_closed:
  "pl_reach validate cache acts seen p \<Longrightarrow> (\<forall>err. ActStop err \<notin> set acts) \<Longrightarrow>
     \<not> pl_doneClosed p \<and> pl_crashed p = None"
proof (induction rule: pl_reach.induct)
  case (pl_next acts seen p a p' es)
  then have p: "\<not> pl_doneClosed p" "\<not> pl_outClosed p" "\<And>err. a \<noteq> ActStop err"
    using pl_reach_inv [OF pl_next.hyps(1)] by (auto simp: pl_inv_def)
  with pl_next.hyps(2,3) show ?case
    by (cases a) (auto simp: pl_Start_def forward_event_def set_loop_def Let_def handle_event_accepted
        split: if_splits option.splits prod.splits loop_pc.splits list.splits)
qed (simp add: NewEventPipeline_def)


text \<open>Feeding the filter events with one fingerprint lets at most the first pass.\<close>

lemma accepted_same_fingerprint:
  assumes "lru_wf c" and "f \<in> set (lru_abs c)" and "\<forall>x \<in> set es. ev_Fingerprint (snd x) = f"
  shows "snd (accepted validate c es) = []"
  using assms
proof (induction es arbitrary: c)
  case (Cons x es)
  obtain now e where x: "x = (now, e)" by fastforce
  have ref: "lru_wf (snd (CheckAndStore now c f))" "fst (CheckAndStore now c f)"
    "lru_abs (snd (CheckAndStore now c f)) = take (nat (lc_maxSize c)) (f # removeAll f (lru_abs c))"
    using CheckAndStore_refines [OF Cons.prems(1), of now f] Cons.prems(2) by (auto simp: spec_check_def)
  then have "f \<in> set (lru_abs (snd (CheckAndStore now c f)))"
    using lru.cap_pos [OF Cons.prems(1)] by (simp add: take_Cons')
  with Cons.IH [OF ref(1)] Cons.prems(3) ref(2) show ?case
    by (auto simp: x split: prod.splits)
qed simp

section \<open>Properties\<close>

text \<open>C8: The event stream is exact, for any validator and any cache. In every reachable state of a pipeline, under every interleaving of its loops with
  \<open>Start\<close>, \<open>Stop\<close>, consumers and cancellation, the events read by consumers followed by those still buffered
  are an initial part of the received events that are no duplicates and pass validation, in the order of receipt: nothing
  is invented, reordered or repeated. While the pipeline is not stopped and its loop is waiting for input,
  nothing is missing either.\<close>

theorem pipeline_stream_exact:
  assumes "pl_reach validate cache acts seen p"
  shows "prefix (seen @ pl_out p) (snd (accepted validate cache (received acts))) \<and>
    (\<not> pl_doneClosed p \<and> pl_loops p = [LWait] \<longrightarrow>
       seen @ pl_out p = snd (accepted validate cache (received acts)))"
  using pl_reach_inv [OF assms] by (auto simp: pl_inv_def)



theorem pipeline_stream_exact_witness:
  "\<exists>p. pl_reach (\<lambda>_. None) (NewLRUCache 5)
      [ActStart 7 False None, ActRecv 0 8 (example_event ''a''), ActSend 0,
       ActRecv 0 9 (example_event ''a''), ActConsume] [example_event ''a''] p \<and>
    [example_event ''a''] @ pl_out p =
      snd (accepted (\<lambda>_. None) (NewLRUCache 5) [(8, example_event ''a''), (9, example_event ''a'')])"
proof -
  let ?acts = "[ActStart 7 False None, ActRecv 0 8 (example_event ''a''), ActSend 0,
       ActRecv 0 9 (example_event ''a''), ActConsume]"
  obtain p es where run: "pl_run (\<lambda>_. None) ?acts (NewEventPipeline (Some (NewLRUCache 5))) = Some (p, es)"
    and p: "es = [example_event ''a'']" "\<not> pl_doneClosed p" "pl_loops p = [LWait]"
    by (simp add: pl_eval)
  from pl_run_init [OF run] have r: "pl_reach (\<lambda>_. None) (NewLRUCache 5) ?acts es p" by simp
  with pipeline_stream_exact [OF r] p show ?thesis by auto
qed

text \<open>Every event a loop takes is accounted for exactly once: in every reachable state the number of received events is the
  number of duplicates plus validation errors plus validated events, in 64-bit arithmetic.\<close>

lemma pipeline_stats_conserved:
  assumes "pl_reach validate cache acts seen p"
  shows "ps_EventsReceived (pl_Stats now p) =
    i64 (ps_EventsDuplicated (pl_Stats now p) + ps_ValidationErrors (pl_Stats now p) +
         ps_EventsValidated (pl_Stats now p))"
  using pl_reach_stats [OF assms] by (simp add: stats_inv_def pl_Stats_def Let_def)

lemma pipeline_stats_conserved_instance:
  "\<exists>p. pl_reach (\<lambda>_. Some ''bad'') (NewLRUCache 5)
      [ActStart 7 False None, ActRecv 0 8 (example_event ''a''), ActRecv 0 9 (example_event ''a'')] [] p \<and>
    ps_EventsReceived (pl_Stats 10 p) = 2 \<and>
    2 = i64 (ps_EventsDuplicated (pl_Stats 10 p) + ps_ValidationErrors (pl_Stats 10 p) +
         ps_EventsValidated (pl_Stats 10 p))"
proof -
  let ?acts = "[ActStart 7 False None, ActRecv 0 8 (example_event ''a''), ActRecv 0 9 (example_event ''a'')]"
  obtain p es where run: "pl_run (\<lambda>_. Some ''bad'') ?acts (NewEventPipeline (Some (NewLRUCache 5))) = Some (p, es)"
    and p: "es = []" "ps_EventsReceived (pl_stats p) = 2"
    by (simp add: pl_eval i64_def)
  from pl_run_init [OF run] have r: "pl_reach (\<lambda>_. Some ''bad'') (NewLRUCache 5) ?acts es p" by simp
  with pipeline_stats_conserved [OF r, of 10] p show ?thesis by (auto simp: pl_Stats_def)
qed

text \<open>A pipeline that nobody stops never crashes, whatever its loops, its consumers and its context do.\<close>

lemma pipeline_safe_until_stop:
  assumes "pl_reach validate cache acts seen p" and "\<forall>err. ActStop err \<notin> set acts"
  shows "pl_crashed p = None"
  using pl_reach_closed [OF assms] by simp

lemma pipeline_safe_until_stop_instance:
  "pl_crashed (NewEventPipeline (Some (NewLRUCache 3)) :: nat Pipeline) = None"
  using pipeline_safe_until_stop [OF pl_init] by simp

text \<open>Stopping is not graceful: \<open>Stop\<close> closes the output channel that the loop may be about to send on. If an event
  has just been validated when \<open>Stop\<close> runs, the send case of the loop's select is ready and
  panics. Stopping, starting and stopping again panics as well, because the done channel is never renewed.\<close>

lemma pipeline_stop_crashes:
  "(\<exists>p. pl_reach NullValidator_Validate (NewLRUCache n)
      [ActStart t False None, ActRecv 0 t' e, ActStop None, ActSend 0] [] p \<and>
      pl_crashed p = Some SendOnClosedChannel) \<and>
   (\<exists>p. pl_reach validate (NewLRUCache n)
      [ActStart t False None, ActStop None, ActStart t' False None, ActStop None] [] p \<and>
      pl_crashed p = Some CloseOfClosedChannel)"
proof -
  obtain p where "pl_run NullValidator_Validate [ActStart t False None, ActRecv 0 t' e, ActStop None, ActSend 0]
      (NewEventPipeline (Some (NewLRUCache n))) = Some (p, [])" "pl_crashed p = Some SendOnClosedChannel"
    by (simp add: pl_eval NullValidator_Validate_def)
  moreover obtain q where "pl_run validate [ActStart t False None, ActStop None, ActStart t' False None, ActStop None]
      (NewEventPipeline (Some (NewLRUCache n))) = Some (q, [])" "pl_crashed q = Some CloseOfClosedChannel"
    by (simp add: pl_eval)
  ultimately show ?thesis by (blast intro: pl_run_init)
qed

end
