(* ===== verification/FM_Subscriber.thy ===== *)
theory FM_Subscriber
  imports FM_Pipeline
begin

text \<open>
  The etcd subscriber of the configuration plane (file \<^verbatim>\<open>subscriber.go\<close> of \<^verbatim>\<open>src/FM/pkg/cm\<close>). Every call of
  \<open>Subscribe\<close> starts one goroutine per topic; the goroutines share the buffered channel \<open>eventCh\<close> and the channel
  \<open>stopCh\<close> that \<open>Close\<close> closes. The subscriber is a state machine with one action per case of the two select statements
  of \<open>watchTopic\<close>. The etcd client and its watch channels come from outside: a response is the error flag and the
  keys that changed.
\<close>

section \<open>State\<close>

record SubscriptionConfig =
  sc_ControlBrokerAddr :: string
  sc_Topics :: "string list"
  sc_MaxRetries :: int
  sc_RetryBackoff :: duration
  sc_MaxBackoff :: duration

record ('c, 'f) EtcdSubscriber =
  es_client :: 'c
  es_config :: SubscriptionConfig
  es_eventCh :: "'f Event list"
  es_stopClosed :: bool

datatype subscriber_error =
    ConfigRequired
  | ConnectFailed string
  | TopicRequired

definition event_capacity :: nat where
  "event_capacity = 100"

section \<open>Operations\<close>

text \<open>The constructor; the client is made by the library from the endpoints and the dial timeout.\<close>

definition NewEtcdSubscriber ::
  "(string list \<Rightarrow> duration \<Rightarrow> string + 'c) \<Rightarrow> SubscriptionConfig option \<Rightarrow> subscriber_error + ('c, 'f) EtcdSubscriber"
where
  "NewEtcdSubscriber newClient cfg =
     (case cfg of
        None \<Rightarrow> Inl ConfigRequired
      | Some c \<Rightarrow>
          (case newClient [sc_ControlBrokerAddr c] (5 * Second) of
             Inl err \<Rightarrow> Inl (ConnectFailed err)
           | Inr client \<Rightarrow>
               Inr \<lparr>es_client = client, es_config = c, es_eventCh = [], es_stopClosed = False\<rparr>))"

text \<open>
  The event for a changed key. \<open>watchTopic\<close> copies the key and the instant but no payload, and fingerprints the
  event it built.
\<close>

definition etcd_event ::
  "(string \<Rightarrow> nat list) \<Rightarrow> ('f \<Rightarrow> string) \<Rightarrow> time \<Rightarrow> string \<Rightarrow> 'f Event" where
  "etcd_event sum256 ff now key =
     (let evt = \<lparr>ev_ID = key, ev_VnetID = '''', ev_Type = ''CB-Event'', ev_Timestamp = now,
                 ev_Payload = [], ev_Fingerprint = ''''\<rparr>
      in evt\<lparr>ev_Fingerprint := ComputeFingerprint sum256 ff evt\<rparr>)"

text \<open>
  Where a goroutine is: at the outer select, at the inner select with an event to send and the keys of the response that
  are still to come, or gone.
\<close>

datatype 'f topic_watcher = TwSelect | TwSend "'f Event" "string list" | TwDone

text \<open>The head of the loop over the events of a response.\<close>

fun next_event ::
  "(string \<Rightarrow> nat list) \<Rightarrow> ('f \<Rightarrow> string) \<Rightarrow> time \<Rightarrow> string list \<Rightarrow> 'f topic_watcher" where
  "next_event sum256 ff now [] = TwSelect"
| "next_event sum256 ff now (key # keys) = TwSend (etcd_event sum256 ff now key) keys"

text \<open>The case of the outer select for a response: an erroneous one is skipped.\<close>

definition watch_response ::
  "(string \<Rightarrow> nat list) \<Rightarrow> ('f \<Rightarrow> string) \<Rightarrow> time \<Rightarrow> bool \<Rightarrow> string list \<Rightarrow> 'f topic_watcher" where
  "watch_response sum256 ff now failed keys = (if failed then TwSelect else next_event sum256 ff now keys)"

text \<open>The send case of the inner select, if the buffer has room.\<close>

definition watch_send :: "'f Event \<Rightarrow> ('c, 'f) EtcdSubscriber \<Rightarrow> ('c, 'f) EtcdSubscriber option" where
  "watch_send evt s =
     (if length (es_eventCh s) < event_capacity then Some (s\<lparr>es_eventCh := es_eventCh s @ [evt]\<rparr>) else None)"

text \<open>\<open>Subscribe\<close> answers with an error, or starts a goroutine per topic.\<close>

definition Etcd_Subscribe ::
  "string list \<Rightarrow> (string \<times> 'f topic_watcher) list \<Rightarrow> subscriber_error + (string \<times> 'f topic_watcher) list" where
  "Etcd_Subscribe topics ws =
     (if length topics = 0 then Inl TopicRequired else Inr (ws @ map (\<lambda>topic. (topic, TwSelect)) topics))"

text \<open>\<open>Close\<close> with the answer of the client; closing twice panics.\<close>

definition Etcd_Close ::
  "string option \<Rightarrow> ('c, 'f) EtcdSubscriber \<Rightarrow> (string option \<times> ('c, 'f) EtcdSubscriber) go" where
  "Etcd_Close clientErr s =
     (if es_stopClosed s then Inl CloseOfClosedChannel else Inr (clientErr, s\<lparr>es_stopClosed := True\<rparr>))"

section \<open>The state machine\<close>

record ('c, 'f) sub_sys =
  sb_sub :: "('c, 'f) EtcdSubscriber"
  sb_watchers :: "(string \<times> 'f topic_watcher) list"
  sb_crashed :: "panic option"

text \<open>
  The actions: the two methods, the cases of the selects of goroutine \<open>i\<close> (a response, a send with the instant at which
  the next event is built, the stop channel, the context) and a receiver taking an event.
\<close>

datatype sub_action =
    SaSubscribe "string list"
  | SaClose "string option"
  | SaResponse nat time bool "string list"
  | SaSend nat time
  | SaStop nat
  | SaCancel nat
  | SaTake

definition set_watcher :: "nat \<Rightarrow> 'f topic_watcher \<Rightarrow> ('c, 'f) sub_sys \<Rightarrow> ('c, 'f) sub_sys" where
  "set_watcher i w y = y\<lparr>sb_watchers := (sb_watchers y)[i := (fst (sb_watchers y ! i), w)]\<rparr>"

definition watcher_at :: "('c, 'f) sub_sys \<Rightarrow> nat \<Rightarrow> 'f topic_watcher" where
  "watcher_at y i = (if i < length (sb_watchers y) then snd (sb_watchers y ! i) else TwDone)"

text \<open>One action, if it is enabled; the second component is the event that is taken. Only the outer select looks at the
  context.\<close>

fun sub_act ::
  "(string \<Rightarrow> nat list) \<Rightarrow> ('f \<Rightarrow> string) \<Rightarrow> sub_action \<Rightarrow> ('c, 'f) sub_sys \<Rightarrow>
   (('c, 'f) sub_sys \<times> 'f Event list) option"
where
  "sub_act sum256 ff (SaSubscribe topics) y =
     Some (case Etcd_Subscribe topics (sb_watchers y) of Inl err \<Rightarrow> y | Inr ws \<Rightarrow> y\<lparr>sb_watchers := ws\<rparr>, [])"
| "sub_act sum256 ff (SaClose err) y =
     Some (case Etcd_Close err (sb_sub y) of
             Inl pn \<Rightarrow> y\<lparr>sb_crashed := Some pn\<rparr>
           | Inr (_, s) \<Rightarrow> y\<lparr>sb_sub := s\<rparr>, [])"
| "sub_act sum256 ff (SaResponse i now failed keys) y =
     (case watcher_at y i of
        TwSelect \<Rightarrow> Some (set_watcher i (watch_response sum256 ff now failed keys) y, [])
      | _ \<Rightarrow> None)"
| "sub_act sum256 ff (SaSend i now) y =
     (case watcher_at y i of
        TwSend evt keys \<Rightarrow>
          map_option (\<lambda>s. (set_watcher i (next_event sum256 ff now keys) (y\<lparr>sb_sub := s\<rparr>), []))
            (watch_send evt (sb_sub y))
      | _ \<Rightarrow> None)"
| "sub_act sum256 ff (SaStop i) y =
     (if watcher_at y i \<noteq> TwDone \<and> es_stopClosed (sb_sub y) then Some (set_watcher i TwDone y, []) else None)"
| "sub_act sum256 ff (SaCancel i) y =
     (case watcher_at y i of TwSelect \<Rightarrow> Some (set_watcher i TwDone y, []) | _ \<Rightarrow> None)"
| "sub_act sum256 ff SaTake y =
     (case es_eventCh (sb_sub y) of
        [] \<Rightarrow> None
      | e # es \<Rightarrow> Some (y\<lparr>sb_sub := (sb_sub y)\<lparr>es_eventCh := es\<rparr>\<rparr>, [e]))"

text \<open>The reachable states of a new subscriber, with the actions and the events taken from the channel.\<close>

inductive sub_reach ::
  "(string \<Rightarrow> nat list) \<Rightarrow> ('f \<Rightarrow> string) \<Rightarrow> ('c, 'f) EtcdSubscriber \<Rightarrow> sub_action list \<Rightarrow> 'f Event list \<Rightarrow>
   ('c, 'f) sub_sys \<Rightarrow> bool"
  for sum256 ff s0
where
  sub_init: "sub_reach sum256 ff s0 [] [] \<lparr>sb_sub = s0, sb_watchers = [], sb_crashed = None\<rparr>"
| sub_next: "sub_reach sum256 ff s0 acts taken y \<Longrightarrow> sb_crashed y = None \<Longrightarrow>
    sub_act sum256 ff a y = Some (y', es) \<Longrightarrow> sub_reach sum256 ff s0 (acts @ [a]) (taken @ es) y'"

text \<open>A sequence of actions, if every action is enabled in turn.\<close>

fun sub_run ::
  "(string \<Rightarrow> nat list) \<Rightarrow> ('f \<Rightarrow> string) \<Rightarrow> sub_action list \<Rightarrow> ('c, 'f) sub_sys \<Rightarrow>
   (('c, 'f) sub_sys \<times> 'f Event list) option"
where
  "sub_run sum256 ff [] y = Some (y, [])"
| "sub_run sum256 ff (a # as) y =
     (if sb_crashed y \<noteq> None then None
      else case sub_act sum256 ff a y of
             None \<Rightarrow> None
           | Some (y', es) \<Rightarrow> map_option (\<lambda>(z, es'). (z, es @ es')) (sub_run sum256 ff as y'))"

text \<open>The keys that the responses without an error gave to goroutine \<open>i\<close>.\<close>

fun given :: "nat \<Rightarrow> sub_action list \<Rightarrow> string list" where
  "given i [] = []"
| "given i (SaResponse j now failed keys # as) = (if j = i \<and> \<not> failed then keys @ given i as else given i as)"
| "given i (_ # as) = given i as"

text \<open>The keys of the events of goroutine \<open>i\<close> in a sequence of events tagged with their senders.\<close>

definition sent_by :: "nat \<Rightarrow> (nat \<times> 'f Event) list \<Rightarrow> string list" where
  "sent_by i hist = map (\<lambda>x. ev_ID (snd x)) (filter (\<lambda>x. fst x = i) hist)"

text \<open>The keys a goroutine has been given and has not sent.\<close>

fun unsent :: "'f topic_watcher \<Rightarrow> string list" where
  "unsent (TwSend evt keys) = ev_ID evt # keys"
| "unsent _ = []"

definition example_subscriber :: "(nat, nat) EtcdSubscriber" where
  "example_subscriber = \<lparr>es_client = 0, es_config = \<lparr>sc_ControlBrokerAddr = ''etcd:2379'', sc_Topics = [], sc_MaxRetries = 0,
     sc_RetryBackoff = 0, sc_MaxBackoff = 0\<rparr>, es_eventCh = [], es_stopClosed = False\<rparr>"

section \<open>The stream invariant\<close>


lemma given_append [simp]: "given i (as @ bs) = given i as @ given i bs"
  by (induction i as rule: given.induct) simp_all

lemma given_other: "(\<And>j now failed keys. a \<noteq> SaResponse j now failed keys) \<Longrightarrow> given i [a] = []"
  by (cases a) auto

lemma sent_by_append [simp]: "sent_by i (hist @ hist') = sent_by i hist @ sent_by i hist'"
  by (simp add: sent_by_def)

lemma sent_by_single [simp]: "sent_by i [(j, e)] = (if j = i then [ev_ID e] else [])"
  by (simp add: sent_by_def)

lemma watcher_at_bound: "watcher_at y i \<noteq> TwDone \<Longrightarrow> i < length (sb_watchers y)"
  by (auto simp: watcher_at_def split: if_splits)

lemma watcher_at_set [simp]:
  "watcher_at (set_watcher i w y) j = (if j = i \<and> i < length (sb_watchers y) then w else watcher_at y j)"
  by (auto simp: watcher_at_def set_watcher_def nth_list_update)

lemma set_watcher_simps [simp]:
  "sb_sub (set_watcher i w y) = sb_sub y"
  "sb_crashed (set_watcher i w y) = sb_crashed y"
  "length (sb_watchers (set_watcher i w y)) = length (sb_watchers y)"
  "watcher_at (y\<lparr>sb_sub := s\<rparr>) = watcher_at y"
  "watcher_at (y\<lparr>sb_crashed := c\<rparr>) = watcher_at y"
  by (auto simp: set_watcher_def watcher_at_def fun_eq_iff)

lemma etcd_event_ID [simp]: "ev_ID (etcd_event sum256 ff now key) = key"
  by (simp add: etcd_event_def Let_def)

lemma etcd_event_fingerprint:
  "ev_Fingerprint (etcd_event sum256 ff now key) = EncodeToString (sum256 '''')"
  by (simp add: etcd_event_def ComputeFingerprint_def canonicalJSON_def sortedKeys_def Let_def)

text \<open>An event that the subscriber built.\<close>

definition from_etcd :: "(string \<Rightarrow> nat list) \<Rightarrow> ('f \<Rightarrow> string) \<Rightarrow> 'f Event \<Rightarrow> bool" where
  "from_etcd sum256 ff e \<longleftrightarrow> (\<exists>now. e = etcd_event sum256 ff now (ev_ID e))"

fun pending_ok :: "(string \<Rightarrow> nat list) \<Rightarrow> ('f \<Rightarrow> string) \<Rightarrow> 'f topic_watcher \<Rightarrow> bool" where
  "pending_ok sum256 ff (TwSend evt keys) = from_etcd sum256 ff evt"
| "pending_ok sum256 ff _ = True"

lemma from_etcd_event [simp]: "from_etcd sum256 ff (etcd_event sum256 ff now key)"
  by (auto simp: from_etcd_def)

lemma next_event_simps [simp]:
  "unsent (next_event sum256 ff now keys) = keys" "pending_ok sum256 ff (next_event sum256 ff now keys)"
  by (cases keys; simp)+

text \<open>A history of the sends explains the channel: it is what was taken followed by the buffer, and for every goroutine the
  keys it sent followed by those it still holds are the keys it was given.\<close>

definition sub_inv ::
  "(string \<Rightarrow> nat list) \<Rightarrow> ('f \<Rightarrow> string) \<Rightarrow> sub_action list \<Rightarrow> 'f Event list \<Rightarrow> (nat \<times> 'f Event) list \<Rightarrow>
   ('c, 'f) sub_sys \<Rightarrow> bool"
where
  "sub_inv sum256 ff acts taken hist y \<longleftrightarrow>
     map snd hist = taken @ es_eventCh (sb_sub y) \<and> length (es_eventCh (sb_sub y)) \<le> event_capacity \<and>
     (\<forall>x \<in> set hist. from_etcd sum256 ff (snd x)) \<and>
     (\<forall>i. pending_ok sum256 ff (watcher_at y i)) \<and>
     (\<forall>i. prefix (sent_by i hist) (given i acts)) \<and>
     (\<forall>i. watcher_at y i \<noteq> TwDone \<longrightarrow> sent_by i hist @ unsent (watcher_at y i) = given i acts) \<and>
     (\<forall>i. length (sb_watchers y) \<le> i \<longrightarrow> given i acts = [])"

lemma sub_inv_live:
  "sub_inv sum256 ff acts taken hist y \<Longrightarrow> watcher_at y i \<noteq> TwDone \<Longrightarrow>
    sent_by i hist @ unsent (watcher_at y i) = given i acts"
  by (simp add: sub_inv_def)

lemma sub_inv_pending: "sub_inv sum256 ff acts taken hist y \<Longrightarrow> pending_ok sum256 ff (watcher_at y i)"
  by (simp add: sub_inv_def)

lemma sub_inv_absent:
  assumes "sub_inv sum256 ff acts taken hist y" and "length (sb_watchers y) \<le> i"
  shows "given i acts = [] \<and> sent_by i hist = []"
proof -
  have "given i acts = []" "prefix (sent_by i hist) (given i acts)" using assms unfolding sub_inv_def by blast+
  then show ?thesis by simp
qed

lemma sub_inv_send:
  assumes inv: "sub_inv sum256 ff acts taken hist y" and at: "watcher_at y i = TwSend evt keys"
    and room: "length (es_eventCh (sb_sub y)) < event_capacity"
  shows "sub_inv sum256 ff (acts @ [SaSend i now]) taken (hist @ [(i, evt)])
    (set_watcher i (next_event sum256 ff now keys) (y\<lparr>sb_sub := (sb_sub y)\<lparr>es_eventCh := es_eventCh (sb_sub y) @ [evt]\<rparr>\<rparr>))"
proof -
  have b: "i < length (sb_watchers y)" using watcher_at_bound [of y i] at by simp
  have "from_etcd sum256 ff evt" "sent_by i hist @ ev_ID evt # keys = given i acts"
    using sub_inv_pending [OF inv, of i] sub_inv_live [OF inv, of i] at by simp_all
  moreover from this(2) have "prefix (sent_by i hist @ [ev_ID evt]) (given i acts)" by (metis append_Cons append_Nil append_assoc prefixI)
  ultimately show ?thesis using inv b room by (auto simp: sub_inv_def)
qed

lemma sub_inv_response:
  assumes inv: "sub_inv sum256 ff acts taken hist y" and at: "watcher_at y i = TwSelect"
  shows "sub_inv sum256 ff (acts @ [SaResponse i now failed keys]) taken hist
    (set_watcher i (watch_response sum256 ff now failed keys) y)"
proof -
  have b: "i < length (sb_watchers y)" using watcher_at_bound [of y i] at by simp
  have "sent_by i hist = given i acts" using sub_inv_live [OF inv, of i] at by simp
  then show ?thesis using inv b
    by (auto simp: sub_inv_def watch_response_def)
qed

lemma sub_inv_quiet:
  assumes "sub_inv sum256 ff acts taken hist y" "\<And>j. given j [a] = []"
    and "es_eventCh (sb_sub y') = es_eventCh (sb_sub y)" "length (sb_watchers y) \<le> length (sb_watchers y')"
    and "\<And>j. watcher_at y' j = watcher_at y j \<or> watcher_at y' j = TwDone \<or>
      (length (sb_watchers y) \<le> j \<and> watcher_at y' j = TwSelect)"
  shows "sub_inv sum256 ff (acts @ [a]) taken hist y'"
proof -
  have "pending_ok sum256 ff (watcher_at y' j)" for j using assms(1) assms(5) [of j] by (auto simp: sub_inv_def)
  moreover have "sent_by j hist @ unsent (watcher_at y' j) = given j acts" if "watcher_at y' j \<noteq> TwDone" for j
    using sub_inv_live [OF assms(1), of j] sub_inv_absent [OF assms(1), of j] assms(5) [of j] that by auto
  ultimately show ?thesis using assms(1-4) by (auto simp: sub_inv_def)
qed


lemma sub_inv_take:
  assumes "sub_inv sum256 ff acts taken hist y" "es_eventCh (sb_sub y) = e # es"
  shows "sub_inv sum256 ff (acts @ [SaTake]) (taken @ [e]) hist (y\<lparr>sb_sub := (sb_sub y)\<lparr>es_eventCh := es\<rparr>\<rparr>)"
  using assms by (simp add: sub_inv_def)

lemma watcher_at_subscribe:
  "watcher_at (y\<lparr>sb_watchers := sb_watchers y @ map (\<lambda>topic. (topic, TwSelect)) topics\<rparr>) j =
    (if length (sb_watchers y) \<le> j \<and> j < length (sb_watchers y) + length topics then TwSelect else watcher_at y j)"
  by (auto simp: watcher_at_def nth_append)

lemma sub_act_inv:
  assumes inv: "sub_inv sum256 ff acts taken hist y" and act: "sub_act sum256 ff a y = Some (y', es)"
  shows "\<exists>hist'. sub_inv sum256 ff (acts @ [a]) (taken @ es) hist' y'"
proof (cases a)
  case (SaSend i now)
  with act obtain evt keys where "watcher_at y i = TwSend evt keys" "es = []"
      "length (es_eventCh (sb_sub y)) < event_capacity"
      "y' = set_watcher i (next_event sum256 ff now keys)
         (y\<lparr>sb_sub := (sb_sub y)\<lparr>es_eventCh := es_eventCh (sb_sub y) @ [evt]\<rparr>\<rparr>)"
    by (auto simp: watch_send_def split: topic_watcher.splits if_splits)
  then show ?thesis using sub_inv_send [OF inv, of i evt keys now] SaSend by auto
next
  case (SaResponse i now failed keys)
  with act show ?thesis using sub_inv_response [OF inv, of i now failed keys] by (auto split: topic_watcher.splits)
next
  case SaTake
  with act show ?thesis using sub_inv_take [OF inv] by (auto split: list.splits)
next
  case (SaSubscribe topics)
  with act have y': "es = []" "y' = (if topics = [] then y
      else y\<lparr>sb_watchers := sb_watchers y @ map (\<lambda>topic. (topic, TwSelect)) topics\<rparr>)"
    by (auto simp: Etcd_Subscribe_def)
  have "sub_inv sum256 ff (acts @ [a]) taken hist y'"
    using SaSubscribe by (intro sub_inv_quiet [OF inv]) (auto simp: y' watcher_at_subscribe)
  with y' show ?thesis by auto
next
  case (SaClose err)
  with act have y': "es = []" "y' = (if es_stopClosed (sb_sub y) then y\<lparr>sb_crashed := Some CloseOfClosedChannel\<rparr>
      else y\<lparr>sb_sub := (sb_sub y)\<lparr>es_stopClosed := True\<rparr>\<rparr>)"
    by (auto simp: Etcd_Close_def)
  have "sub_inv sum256 ff (acts @ [a]) taken hist y'"
    using SaClose by (intro sub_inv_quiet [OF inv]) (auto simp: y')
  with y' show ?thesis by auto
next
  case (SaStop i)
  with act have "es = []" "sub_inv sum256 ff (acts @ [a]) taken hist y'"
    by (auto intro!: sub_inv_quiet [OF inv] split: if_splits)
  then show ?thesis by auto
next
  case (SaCancel i)
  with act have "es = []" "sub_inv sum256 ff (acts @ [a]) taken hist y'"
    by (auto intro!: sub_inv_quiet [OF inv] split: topic_watcher.splits if_splits)
  then show ?thesis by auto
qed

lemma sub_reach_inv:
  assumes "sub_reach sum256 ff s0 acts taken y" and "es_eventCh s0 = []"
  shows "\<exists>hist. sub_inv sum256 ff acts taken hist y"
  using assms
proof (induction rule: sub_reach.induct)
  case sub_init
  then have "sub_inv sum256 ff [] [] [] \<lparr>sb_sub = s0, sb_watchers = [], sb_crashed = None\<rparr>"
    by (simp add: sub_inv_def watcher_at_def sent_by_def)
  then show ?case ..
qed (blast dest: sub_act_inv)

lemma sub_run_reach:
  assumes "sub_run sum256 ff as y = Some (z, es)" and "sub_reach sum256 ff s0 acts taken y"
  shows "sub_reach sum256 ff s0 (acts @ as) (taken @ es) z"
  using assms
proof (induction as arbitrary: y acts taken es)
  case (Cons a as)
  then obtain y' e1 e2 where "sb_crashed y = None" "sub_act sum256 ff a y = Some (y', e1)"
      "sub_run sum256 ff as y' = Some (z, e2)" "es = e1 @ e2"
    by (auto split: if_splits option.splits)
  with Cons.IH [of y' e2 "acts @ [a]" "taken @ e1"] Cons.prems(2) show ?case by (auto intro: sub_next)
qed simp

section \<open>Stopping\<close>

lemma sub_act_stop:
  "sub_act sum256 ff a y = Some (y', es) \<Longrightarrow> es_stopClosed (sb_sub y) \<Longrightarrow> es_stopClosed (sb_sub y')"
  by (cases a) (auto simp: Etcd_Subscribe_def Etcd_Close_def watch_send_def split: topic_watcher.splits if_splits list.splits)

text \<open>Once the subscriber is closed, stopping the goroutines one by one is always possible and ends all of them; no
  goroutine is left behind a full buffer.\<close>

lemma stop_all:
  assumes "es_stopClosed (sb_sub y)" and "sb_crashed y = None" and "distinct js"
    and "\<forall>j \<in> set js. watcher_at y j \<noteq> TwDone"
  shows "\<exists>z. sub_run sum256 ff (map SaStop js) y = Some (z, []) \<and>
    (\<forall>i. watcher_at z i = (if i \<in> set js then TwDone else watcher_at y i))"
  using assms
proof (induction js arbitrary: y)
  case (Cons j js)
  let ?y = "set_watcher j TwDone y"
  have b: "j < length (sb_watchers y)" using watcher_at_bound [of y j] Cons.prems(4) by simp
  have "\<exists>z. sub_run sum256 ff (map SaStop js) ?y = Some (z, []) \<and>
      (\<forall>i. watcher_at z i = (if i \<in> set js then TwDone else watcher_at ?y i))"
    using Cons.prems by (intro Cons.IH) auto
  then show ?case using Cons.prems b by auto
qed simp

section \<open>Properties\<close>

text \<open>The channel of the subscriber is exact. Under every interleaving of its goroutines with calls of
  \<open>Subscribe\<close> and \<open>Close\<close> and with its receiver, the events taken from the channel followed by those in its buffer are an
  interleaving of what the goroutines sent, and every goroutine sent an initial part of the keys that its error-free
  responses gave it, in their order. A goroutine that still runs has lost nothing: what it sent and what it holds are all
  these keys. The buffer never exceeds its capacity.\<close>

lemma subscriber_stream_exact:
  assumes "NewEtcdSubscriber newClient cfg = Inr s0" and "sub_reach sum256 ff s0 acts taken y"
  shows "length (es_eventCh (sb_sub y)) \<le> event_capacity \<and>
    (\<exists>hist. map snd hist = taken @ es_eventCh (sb_sub y) \<and>
      (\<forall>i. prefix (sent_by i hist) (given i acts) \<and>
        (watcher_at y i \<noteq> TwDone \<longrightarrow> sent_by i hist @ unsent (watcher_at y i) = given i acts)))"
proof -
  have "es_eventCh s0 = []" using assms(1) by (auto simp: NewEtcdSubscriber_def split: option.splits sum.splits)
  from sub_reach_inv [OF assms(2) this] show ?thesis unfolding sub_inv_def by blast
qed

lemma subscriber_stream_exact_instance:
  "\<exists>y taken. sub_reach (\<lambda>_. []) (\<lambda>_. '''') example_subscriber
      [SaSubscribe [''a'', ''b''], SaResponse 1 7 False [''b1'', ''b2''], SaResponse 0 8 False [''a1''], SaSend 1 9,
       SaSend 0 10, SaTake] taken y \<and>
    (\<exists>hist. map snd hist = taken @ es_eventCh (sb_sub y) \<and> sent_by 0 hist = [''a1''] \<and>
      sent_by 1 hist @ unsent (watcher_at y 1) = [''b1'', ''b2''])"
proof -
  let ?acts = "[SaSubscribe [''a'', ''b''], SaResponse 1 7 False [''b1'', ''b2''], SaResponse 0 8 False [''a1''], SaSend 1 9,
       SaSend 0 10, SaTake]"
  have new: "NewEtcdSubscriber (\<lambda>_ _. Inr 0) (Some (es_config example_subscriber)) = Inr example_subscriber"
    by (simp add: NewEtcdSubscriber_def example_subscriber_def)
  obtain y taken where run: "sub_run (\<lambda>_. []) (\<lambda>_. '''') ?acts
        \<lparr>sb_sub = example_subscriber, sb_watchers = [], sb_crashed = None\<rparr> = Some (y, taken)"
    and y: "watcher_at y 0 = TwSelect" "watcher_at y 1 \<noteq> TwDone"
    by (simp add: Etcd_Subscribe_def watcher_at_def set_watcher_def watch_response_def watch_send_def event_capacity_def
        example_subscriber_def)
  from sub_run_reach [OF run sub_init] have r: "sub_reach (\<lambda>_. []) (\<lambda>_. '''') example_subscriber ?acts taken y" by simp
  from subscriber_stream_exact [OF new r] obtain hist where "map snd hist = taken @ es_eventCh (sb_sub y)"
    and h: "\<And>i. watcher_at y i \<noteq> TwDone \<Longrightarrow> sent_by i hist @ unsent (watcher_at y i) = given i ?acts" by blast
  moreover have "sent_by 0 hist = [''a1'']" "sent_by 1 hist @ unsent (watcher_at y 1) = [''b1'', ''b2'']"
    using h [of 0] h [of 1] y by simp_all
  ultimately show ?thesis using r by blast
qed

text \<open>After \<open>Close\<close> every goroutine can leave, even one that waits at a full buffer, and once all have taken that case none
  is left. A second \<open>Close\<close> panics.\<close>

lemma subscriber_close:
  assumes "es_stopClosed (sb_sub y)" and "sb_crashed y = None"
  shows "(\<exists>js z. sub_run sum256 ff (map SaStop js) y = Some (z, []) \<and> (\<forall>i. watcher_at z i = TwDone)) \<and>
    Etcd_Close err (sb_sub y) = Inl CloseOfClosedChannel"
proof -
  let ?js = "filter (\<lambda>j. watcher_at y j \<noteq> TwDone) [0..<length (sb_watchers y)]"
  have "watcher_at y i = TwDone" if "i \<notin> set ?js" for i using that watcher_at_bound [of y i] by auto
  with stop_all [OF assms, of ?js sum256 ff] show ?thesis using assms(1) by (fastforce simp: Etcd_Close_def)
qed

end
