(* ===== verification/FM_ConfigPlane.thy ===== *)
theory FM_ConfigPlane
  imports FM_Subscriber
begin

text \<open>
  The configuration plane as one system: the pipeline (\<^verbatim>\<open>pipeline.go\<close>) on top of the etcd subscriber
  (\<^verbatim>\<open>subscriber.go\<close> of \<^verbatim>\<open>src/FM/pkg/cm\<close>). The pipeline's \<open>Start\<close> subscribes to one topic and hands its context to
  the goroutine of that topic; its loop receives from the subscriber's channel, so the receipt of an event is one action of
  both machines; its \<open>Stop\<close> closes the subscriber. All other actions interleave. Every run of the whole is a
  run of each part, so what is proved about the parts holds here.
\<close>

section \<open>The composed system\<close>

text \<open>Goroutine \<open>i\<close> belongs to the \<open>i\<close>-th successful \<open>Start\<close>; the list says which of their contexts are done.\<close>

record ('c, 'f) config_plane =
  cp_sub :: "('c, 'f) sub_sys"
  cp_pl :: "'f Pipeline"
  cp_ctxs :: "bool list"

definition new_config_plane :: "('c, 'f) EtcdSubscriber \<Rightarrow> LRUCache \<Rightarrow> ('c, 'f) config_plane" where
  "new_config_plane s0 cache =
     \<lparr>cp_sub = \<lparr>sb_sub = s0, sb_watchers = [], sb_crashed = None\<rparr>, cp_pl = NewEventPipeline (Some cache), cp_ctxs = []\<rparr>"

definition cp_crashed :: "('c, 'f) config_plane \<Rightarrow> bool" where
  "cp_crashed z \<longleftrightarrow> sb_crashed (cp_sub z) \<noteq> None \<or> pl_crashed (cp_pl z) \<noteq> None"

definition cp_Start :: "time \<Rightarrow> bool \<Rightarrow> ('c, 'f) config_plane \<Rightarrow> ('c, 'f) config_plane" where
  "cp_Start now ctxDone z =
     (if pl_running (cp_pl z) then z
      else case Etcd_Subscribe [''*''] (sb_watchers (cp_sub z)) of
             Inl err \<Rightarrow> z\<lparr>cp_pl := snd (pl_Start now ctxDone (Some ''at least one topic required'') (cp_pl z))\<rparr>
           | Inr ws \<Rightarrow>
               z\<lparr>cp_sub := (cp_sub z)\<lparr>sb_watchers := ws\<rparr>, cp_pl := snd (pl_Start now ctxDone None (cp_pl z)),
                 cp_ctxs := cp_ctxs z @ [ctxDone]\<rparr>)"

text \<open>\<open>Stop\<close> with the answer of the etcd client to its \<open>Close\<close>: the pipeline's channels are closed first, then the subscriber.\<close>

definition cp_Stop :: "string option \<Rightarrow> ('c, 'f) config_plane \<Rightarrow> ('c, 'f) config_plane" where
  "cp_Stop clientErr z =
     (if \<not> pl_running (cp_pl z) then z
      else case pl_Stop clientErr (cp_pl z) of
             Inl pn \<Rightarrow> z\<lparr>cp_pl := (cp_pl z)\<lparr>pl_crashed := Some pn\<rparr>\<rparr>
           | Inr (err, p) \<Rightarrow>
               (case Etcd_Close clientErr (sb_sub (cp_sub z)) of
                  Inl pn \<Rightarrow> z\<lparr>cp_pl := p, cp_sub := (cp_sub z)\<lparr>sb_crashed := Some pn\<rparr>\<rparr>
                | Inr (_, s) \<Rightarrow> z\<lparr>cp_pl := p, cp_sub := (cp_sub z)\<lparr>sb_sub := s\<rparr>\<rparr>))"

datatype cp_action =
    CpStart time bool
  | CpStop "string option"
  | CpResponse nat time bool "string list"
  | CpPut nat time
  | CpWatchStop nat
  | CpWatchCancel nat
  | CpRecv nat time
  | CpForward nat
  | CpDone nat
  | CpCtx nat
  | CpConsume
  | CpCancel

definition lift_sub ::
  "(('c, 'f) sub_sys \<times> 'f Event list) option \<Rightarrow> ('c, 'f) config_plane \<Rightarrow>
   (('c, 'f) config_plane \<times> 'f Event list) option" where
  "lift_sub r z = map_option (\<lambda>(y, _). (z\<lparr>cp_sub := y\<rparr>, [])) r"

definition lift_pl ::
  "('f Pipeline \<times> 'f Event list) option \<Rightarrow> ('c, 'f) config_plane \<Rightarrow> (('c, 'f) config_plane \<times> 'f Event list) option" where
  "lift_pl r z = map_option (\<lambda>(p, es). (z\<lparr>cp_pl := p\<rparr>, es)) r"

text \<open>The loop receives the event at the head of the subscriber's channel.\<close>

definition cp_recv ::
  "(string \<Rightarrow> nat list) \<Rightarrow> ('f \<Rightarrow> string) \<Rightarrow> ('f Event \<Rightarrow> string option) \<Rightarrow> nat \<Rightarrow> time \<Rightarrow> ('c, 'f) config_plane \<Rightarrow>
   (('c, 'f) config_plane \<times> 'f Event list) option" where
  "cp_recv sum256 ff validate i now z =
     (case sub_act sum256 ff SaTake (cp_sub z) of
        Some (y, [e]) \<Rightarrow> lift_pl (pl_act validate (ActRecv i now e) (cp_pl z)) (z\<lparr>cp_sub := y\<rparr>)
      | _ \<Rightarrow> None)"

text \<open>One action, if it is enabled; the second component is the event a consumer reads. \<open>CpCancel\<close> cancels the context
  of the last \<open>Start\<close>.\<close>

fun cp_act ::
  "(string \<Rightarrow> nat list) \<Rightarrow> ('f \<Rightarrow> string) \<Rightarrow> ('f Event \<Rightarrow> string option) \<Rightarrow> cp_action \<Rightarrow> ('c, 'f) config_plane \<Rightarrow>
   (('c, 'f) config_plane \<times> 'f Event list) option"
where
  "cp_act sum256 ff validate (CpStart now cd) z = Some (cp_Start now cd z, [])"
| "cp_act sum256 ff validate (CpStop err) z = Some (cp_Stop err z, [])"
| "cp_act sum256 ff validate (CpResponse i now failed keys) z =
     lift_sub (sub_act sum256 ff (SaResponse i now failed keys) (cp_sub z)) z"
| "cp_act sum256 ff validate (CpPut i now) z = lift_sub (sub_act sum256 ff (SaSend i now) (cp_sub z)) z"
| "cp_act sum256 ff validate (CpWatchStop i) z = lift_sub (sub_act sum256 ff (SaStop i) (cp_sub z)) z"
| "cp_act sum256 ff validate (CpWatchCancel i) z =
     (if i < length (cp_ctxs z) \<and> cp_ctxs z ! i then lift_sub (sub_act sum256 ff (SaCancel i) (cp_sub z)) z else None)"
| "cp_act sum256 ff validate (CpRecv i now) z = cp_recv sum256 ff validate i now z"
| "cp_act sum256 ff validate (CpForward i) z = lift_pl (pl_act validate (ActSend i) (cp_pl z)) z"
| "cp_act sum256 ff validate (CpDone i) z = lift_pl (pl_act validate (ActDone i) (cp_pl z)) z"
| "cp_act sum256 ff validate (CpCtx i) z = lift_pl (pl_act validate (ActCtx i) (cp_pl z)) z"
| "cp_act sum256 ff validate CpConsume z = lift_pl (pl_act validate ActConsume (cp_pl z)) z"
| "cp_act sum256 ff validate CpCancel z =
     lift_pl (pl_act validate ActCancel (cp_pl z)) (z\<lparr>cp_ctxs := (cp_ctxs z)[length (cp_ctxs z) - 1 := True]\<rparr>)"

fun cp_run ::
  "(string \<Rightarrow> nat list) \<Rightarrow> ('f \<Rightarrow> string) \<Rightarrow> ('f Event \<Rightarrow> string option) \<Rightarrow> cp_action list \<Rightarrow> ('c, 'f) config_plane \<Rightarrow>
   (('c, 'f) config_plane \<times> 'f Event list) option"
where
  "cp_run sum256 ff validate [] z = Some (z, [])"
| "cp_run sum256 ff validate (a # as) z =
     (if cp_crashed z then None
      else case cp_act sum256 ff validate a z of
             None \<Rightarrow> None
           | Some (z', es) \<Rightarrow> map_option (\<lambda>(w, es'). (w, es @ es')) (cp_run sum256 ff validate as z'))"

inductive cp_reach ::
  "(string \<Rightarrow> nat list) \<Rightarrow> ('f \<Rightarrow> string) \<Rightarrow> ('f Event \<Rightarrow> string option) \<Rightarrow> ('c, 'f) EtcdSubscriber \<Rightarrow> LRUCache \<Rightarrow>
   cp_action list \<Rightarrow> 'f Event list \<Rightarrow> ('c, 'f) config_plane \<Rightarrow> bool"
  for sum256 ff validate s0 cache
where
  cp_init: "cp_reach sum256 ff validate s0 cache [] [] (new_config_plane s0 cache)"
| cp_next: "cp_reach sum256 ff validate s0 cache acts seen z \<Longrightarrow> \<not> cp_crashed z \<Longrightarrow>
    cp_act sum256 ff validate a z = Some (z', es) \<Longrightarrow> cp_reach sum256 ff validate s0 cache (acts @ [a]) (seen @ es) z'"

text \<open>The keys that etcd reported to goroutine \<open>i\<close> without an error.\<close>

fun reported :: "nat \<Rightarrow> cp_action list \<Rightarrow> string list" where
  "reported i [] = []"
| "reported i (CpResponse j now failed keys # as) = (if j = i \<and> \<not> failed then keys @ reported i as else reported i as)"
| "reported i (_ # as) = reported i as"

text \<open>The events that the loop receives in a run, in order.\<close>

fun head_taken :: "cp_action \<Rightarrow> ('c, 'f) config_plane \<Rightarrow> 'f Event list" where
  "head_taken (CpRecv i now) z = take 1 (es_eventCh (sb_sub (cp_sub z)))"
| "head_taken _ z = []"

fun loop_received ::
  "(string \<Rightarrow> nat list) \<Rightarrow> ('f \<Rightarrow> string) \<Rightarrow> ('f Event \<Rightarrow> string option) \<Rightarrow> cp_action list \<Rightarrow> ('c, 'f) config_plane \<Rightarrow> 'f Event list"
where
  "loop_received sum256 ff validate [] z = []"
| "loop_received sum256 ff validate (a # as) z =
     head_taken a z @ (case cp_act sum256 ff validate a z of None \<Rightarrow> [] | Some (z', es) \<Rightarrow> loop_received sum256 ff validate as z')"

section \<open>The parts of a run\<close>

lemma reported_append [simp]: "reported i (as @ bs) = reported i as @ reported i bs"
  by (induction i as rule: reported.induct) simp_all

lemma reported_sub [simp]:
  "given i [SaResponse j now failed keys] = reported i [CpResponse j now failed keys]"
  by simp

lemma sub_run_one: "sub_act sum256 ff a y = Some (y', es) \<Longrightarrow> sb_crashed y = None \<Longrightarrow> sub_run sum256 ff [a] y = Some (y', es)"
  by simp

lemma pl_run_one: "pl_act validate a p = Some (p', es) \<Longrightarrow> pl_crashed p = None \<Longrightarrow> pl_run validate [a] p = Some (p', es)"
  by simp

text \<open>What an action of the whole is for each of the parts.\<close>

definition parts_of ::
  "(string \<Rightarrow> nat list) \<Rightarrow> ('f \<Rightarrow> string) \<Rightarrow> ('f Event \<Rightarrow> string option) \<Rightarrow> cp_action \<Rightarrow>
   ('c, 'f) config_plane \<Rightarrow> ('c, 'f) config_plane \<Rightarrow> 'f Event list \<Rightarrow> bool"
where
  "parts_of sum256 ff validate a z z' es \<longleftrightarrow>
     (\<exists>sas pas. sub_run sum256 ff sas (cp_sub z) = Some (cp_sub z', map snd (received pas)) \<and>
        pl_run validate pas (cp_pl z) = Some (cp_pl z', es) \<and> (\<forall>i. given i sas = reported i [a]) \<and>
        map snd (received pas) = head_taken a z)"

lemma parts_ofI:
  assumes "sub_run sum256 ff sas (cp_sub z) = Some (cp_sub z', map snd (received pas))"
    and "pl_run validate pas (cp_pl z) = Some (cp_pl z', es)" and "\<And>i. given i sas = reported i [a]"
    and "map snd (received pas) = head_taken a z"
  shows "parts_of sum256 ff validate a z z' es"
  unfolding parts_of_def using assms by blast

lemma parts_of_sub:
  assumes "lift_sub (sub_act sum256 ff b (cp_sub z)) z = Some (z', es)" "sb_crashed (cp_sub z) = None"
    and "b \<noteq> SaTake" and "\<And>i. given i [b] = reported i [a]" and "head_taken a z = []"
  shows "parts_of sum256 ff validate a z z' es"
proof -
  obtain y out where b: "sub_act sum256 ff b (cp_sub z) = Some (y, out)" "z' = z\<lparr>cp_sub := y\<rparr>" "es = []"
    using assms(1) by (auto simp: lift_sub_def)
  have "out = []" using b(1) assms(3) by (cases b) (auto split: topic_watcher.splits if_splits)
  with b sub_run_one [OF b(1) assms(2)] show ?thesis by (intro parts_ofI [where sas = "[b]" and pas = "[]"]) (auto simp: assms(4,5))
qed

lemma parts_of_pl:
  assumes "lift_pl (pl_act validate b (cp_pl z)) w = Some (z', es)" "pl_crashed (cp_pl z) = None" "cp_sub w = cp_sub z"
    and "received [b] = []" and "\<And>i. reported i [a] = []" and "head_taken a z = []"
  shows "parts_of sum256 ff validate a z z' es"
proof -
  obtain p where p: "pl_act validate b (cp_pl z) = Some (p, es)" "z' = w\<lparr>cp_pl := p\<rparr>"
    using assms(1) by (auto simp: lift_pl_def)
  with pl_run_one [OF p(1) assms(2)] assms(3-6) show ?thesis by (intro parts_ofI [where sas = "[]" and pas = "[b]"]) auto
qed

lemma parts_of_recv:
  assumes "cp_recv sum256 ff validate i now z = Some (z', es)" "\<not> cp_crashed z"
  shows "parts_of sum256 ff validate (CpRecv i now) z z' es"
proof -
  obtain y e p where *: "sub_act sum256 ff SaTake (cp_sub z) = Some (y, [e])" "pl_act validate (ActRecv i now e) (cp_pl z) = Some (p, es)"
    "z' = z\<lparr>cp_sub := y, cp_pl := p\<rparr>"
    using assms(1) by (auto simp: cp_recv_def lift_pl_def split: option.splits list.splits)
  have "sb_crashed (cp_sub z) = None" "pl_crashed (cp_pl z) = None" using assms(2) by (simp_all add: cp_crashed_def)
  moreover have "take 1 (es_eventCh (sb_sub (cp_sub z))) = [e]" using *(1) by (auto split: list.splits)
  ultimately show ?thesis using sub_run_one [OF *(1)] pl_run_one [OF *(2)] *(3)
    by (intro parts_ofI [where sas = "[SaTake]" and pas = "[ActRecv i now e]"]) auto
qed

lemma parts_of_Start:
  assumes "\<not> cp_crashed z"
  shows "parts_of sum256 ff validate (CpStart now cd) z (cp_Start now cd z) []"
proof (cases "pl_running (cp_pl z)")
  case True
  then show ?thesis by (intro parts_ofI [where sas = "[]" and pas = "[]"]) (auto simp: cp_Start_def)
next
  case False
  with assms show ?thesis
    by (intro parts_ofI [where sas = "[SaSubscribe [''*'']]" and pas = "[ActStart now cd None]"])
      (auto simp: cp_Start_def cp_crashed_def Etcd_Subscribe_def)
qed

lemma parts_of_Stop:
  assumes "\<not> cp_crashed z"
  shows "parts_of sum256 ff validate (CpStop err) z (cp_Stop err z) []"
proof (cases "pl_Stop err (cp_pl z)")
  case (Inl pn)
  with assms show ?thesis
    by (intro parts_ofI [where sas = "[]" and pas = "[ActStop err]"])
      (auto simp: cp_Stop_def cp_crashed_def pl_Stop_def split: if_splits)
next
  case (Inr r)
  show ?thesis
  proof (cases "pl_running (cp_pl z)")
    case True
    with Inr assms show ?thesis
      by (intro parts_ofI [where sas = "[SaClose err]" and pas = "[ActStop err]"])
        (auto simp: cp_Stop_def cp_crashed_def split: sum.splits prod.splits)
  qed (intro parts_ofI [where sas = "[]" and pas = "[]"], auto simp: cp_Stop_def)
qed

lemma cp_act_parts:
  assumes "cp_act sum256 ff validate a z = Some (z', es)" "\<not> cp_crashed z"
  shows "parts_of sum256 ff validate a z z' es"
proof -
  have ok: "sb_crashed (cp_sub z) = None" "pl_crashed (cp_pl z) = None" using assms(2) by (simp_all add: cp_crashed_def)
  show ?thesis
    using assms
    by (cases a) (auto intro: parts_of_recv parts_of_Start parts_of_Stop parts_of_sub [OF _ ok(1)] parts_of_pl [OF _ ok(2)]
        simp del: sub_act.simps pl_act.simps split: if_splits)
qed

lemma cp_reach_run:
  assumes "cp_reach sum256 ff validate s0 cache acts seen z"
  shows "loop_received sum256 ff validate (acts @ bs) (new_config_plane s0 cache) =
    loop_received sum256 ff validate acts (new_config_plane s0 cache) @ loop_received sum256 ff validate bs z"
  using assms by (induction arbitrary: bs rule: cp_reach.induct) simp_all

lemma cp_reach_parts:
  assumes "cp_reach sum256 ff validate s0 cache acts seen z"
  shows "\<exists>sacts pacts. sub_reach sum256 ff s0 sacts (map snd (received pacts)) (cp_sub z) \<and>
    pl_reach validate cache pacts seen (cp_pl z) \<and> (\<forall>i. given i sacts = reported i acts) \<and>
    map snd (received pacts) = loop_received sum256 ff validate acts (new_config_plane s0 cache)"
  using assms
proof (induction rule: cp_reach.induct)
  case cp_init
  show ?case
    by (intro exI [of _ "[]"]) (auto simp: new_config_plane_def intro: sub_init pl_init)
next
  case (cp_next acts seen z a z' es)
  then obtain sacts pacts where 1: "sub_reach sum256 ff s0 sacts (map snd (received pacts)) (cp_sub z)"
    "pl_reach validate cache pacts seen (cp_pl z)" "\<forall>i. given i sacts = reported i acts"
    "map snd (received pacts) = loop_received sum256 ff validate acts (new_config_plane s0 cache)" by blast
  obtain sas pas where 2: "sub_run sum256 ff sas (cp_sub z) = Some (cp_sub z', map snd (received pas))"
    "pl_run validate pas (cp_pl z) = Some (cp_pl z', es)" "\<forall>i. given i sas = reported i [a]" "map snd (received pas) = head_taken a z"
    using cp_act_parts [OF cp_next.hyps(3,2)] by (auto simp: parts_of_def)
  have "loop_received sum256 ff validate (acts @ [a]) (new_config_plane s0 cache) = map snd (received (pacts @ pas))"
    using cp_reach_run [OF cp_next.hyps(1), of "[a]"] cp_next.hyps(3) by (simp add: 1(4) 2(4))
  with sub_run_reach [OF 2(1) 1(1)] pl_run_reach [OF 2(2) 1(2)] 1(3) 2(3) show ?case
    by (intro exI [of _ "sacts @ sas"] exI [of _ "pacts @ pas"]) simp
qed

section \<open>Only the first event passes\<close>

lemma accepted_first:
  assumes "\<forall>x \<in> set es. ev_Fingerprint (snd x) = f"
  shows "snd (accepted validate (NewLRUCache n) es) = filter (\<lambda>e. validate e = None) (take 1 (map snd es))"
proof (cases es)
  case (Cons x rest)
  obtain now e where x: "x = (now, e)" by fastforce
  let ?c = "snd (CheckAndStore now (NewLRUCache n) f)"
  have "lru_wf ?c" "lru_abs ?c = take (nat (lc_maxSize (NewLRUCache n))) [f]" "\<not> fst (CheckAndStore now (NewLRUCache n) f)"
    using CheckAndStore_refines [OF lru_wf_New, of now n f] by (simp_all add: spec_check_def lru_abs_New)
  moreover from this have "snd (accepted validate ?c rest) = []"
    using lru.cap_pos [OF lru_wf_New, of n] assms Cons
    by (intro accepted_same_fingerprint) (auto simp: take_Cons')
  ultimately show ?thesis using assms by (auto simp: Cons x split: prod.splits)
qed simp

text \<open>Everything about the channel and the stream of a reachable state that the properties use.\<close>

lemma cp_reach_stream:
  assumes reach: "cp_reach sum256 ff validate s0 (NewLRUCache n) acts seen z" and new: "es_eventCh s0 = []"
  obtains hist k where "map snd (take k hist) = loop_received sum256 ff validate acts (new_config_plane s0 (NewLRUCache n))"
    "k \<le> length hist" "map snd (drop k hist) = es_eventCh (sb_sub (cp_sub z))"
    "\<And>i. prefix (sent_by i hist) (reported i acts)"
    "\<And>i. watcher_at (cp_sub z) i \<noteq> TwDone \<Longrightarrow> sent_by i hist @ unsent (watcher_at (cp_sub z) i) = reported i acts"
    "prefix (seen @ pl_out (cp_pl z)) (filter (\<lambda>e. validate e = None) (take 1 (map snd (take k hist))))"
    "\<not> pl_doneClosed (cp_pl z) \<Longrightarrow> pl_loops (cp_pl z) = [LWait] \<Longrightarrow>
       seen @ pl_out (cp_pl z) = filter (\<lambda>e. validate e = None) (take 1 (map snd (take k hist)))"
proof -
  obtain sacts pacts where parts: "sub_reach sum256 ff s0 sacts (map snd (received pacts)) (cp_sub z)"
    "pl_reach validate (NewLRUCache n) pacts seen (cp_pl z)" "\<forall>i. given i sacts = reported i acts"
    "map snd (received pacts) = loop_received sum256 ff validate acts (new_config_plane s0 (NewLRUCache n))"
    using cp_reach_parts [OF reach] by blast
  obtain hist where hist: "sub_inv sum256 ff sacts (map snd (received pacts)) hist (cp_sub z)"
    using sub_reach_inv [OF parts(1) new] ..
  let ?k = "length (received pacts)"
  have eq: "map snd hist = map snd (received pacts) @ es_eventCh (sb_sub (cp_sub z))" using hist by (simp add: sub_inv_def)
  have k: "map snd (take ?k hist) = map snd (received pacts)" "map snd (drop ?k hist) = es_eventCh (sb_sub (cp_sub z))"
    by (simp_all add: take_map [symmetric] drop_map [symmetric] eq)
  have "\<forall>x \<in> set hist. from_etcd sum256 ff (snd x)" using hist by (simp add: sub_inv_def)
  then have "\<forall>e \<in> set (map snd hist). from_etcd sum256 ff e" by simp
  then have "\<forall>x \<in> set (received pacts). from_etcd sum256 ff (snd x)" unfolding eq by simp
  then have "\<forall>x \<in> set (received pacts). ev_Fingerprint (snd x) = EncodeToString (sum256 '''')"
    by (metis from_etcd_def etcd_event_fingerprint)
  note first = accepted_first [OF this, of validate n]
  have inv: "pl_inv validate (NewLRUCache n) (received pacts) seen (cp_pl z)" by (rule pl_reach_inv [OF parts(2)])
  show thesis
  proof (rule that [of ?k hist])
    show "map snd (take ?k hist) = loop_received sum256 ff validate acts (new_config_plane s0 (NewLRUCache n))" by (simp only: k(1) parts(4))
    show "?k \<le> length hist" using arg_cong [OF eq, of length] by simp
    show "map snd (drop ?k hist) = es_eventCh (sb_sub (cp_sub z))" by (rule k(2))
    show "prefix (sent_by i hist) (reported i acts)" for i using hist parts(3) by (simp add: sub_inv_def)
    show "sent_by i hist @ unsent (watcher_at (cp_sub z) i) = reported i acts" if "watcher_at (cp_sub z) i \<noteq> TwDone" for i
      using sub_inv_live [OF hist that] parts(3) by simp
  qed (use inv first in \<open>auto simp: pl_inv_def k(1)\<close>)
qed

section \<open>Stopping\<close>

text \<open>The pipeline's done channel and the subscriber's stop channel are closed together.\<close>

lemma sub_act_stopClosed: "sub_act sum256 ff b y = Some (y', es) \<Longrightarrow> (\<forall>err. b \<noteq> SaClose err) \<Longrightarrow>
    es_stopClosed (sb_sub y') = es_stopClosed (sb_sub y)"
  by (cases b) (auto simp: Etcd_Subscribe_def watch_send_def split: topic_watcher.splits if_splits list.splits)

lemma pl_act_doneClosed: "pl_act validate b p = Some (p', es) \<Longrightarrow> (\<forall>err. b \<noteq> ActStop err) \<Longrightarrow> pl_doneClosed p' = pl_doneClosed p"
  by (cases b) (auto simp: pl_Start_def forward_event_def set_loop_def Let_def handle_event_accepted
        split: if_splits option.splits prod.splits loop_pc.splits list.splits sum.splits)

definition closed_together :: "('c, 'f) config_plane \<Rightarrow> bool" where
  "closed_together z \<longleftrightarrow> pl_doneClosed (cp_pl z) = es_stopClosed (sb_sub (cp_sub z))"

lemma closed_together_sub:
  assumes "lift_sub (sub_act sum256 ff b (cp_sub z)) z = Some (z', es)" "\<forall>err. b \<noteq> SaClose err"
  shows "closed_together z' = closed_together z"
  using assms by (auto simp: lift_sub_def closed_together_def dest: sub_act_stopClosed)

lemma closed_together_pl:
  assumes "lift_pl (pl_act validate b (cp_pl z)) w = Some (z', es)" "\<forall>err. b \<noteq> ActStop err"
    and "es_stopClosed (sb_sub (cp_sub w)) = es_stopClosed (sb_sub (cp_sub z))"
  shows "closed_together z' = closed_together z"
  using assms by (auto simp: lift_pl_def closed_together_def dest: pl_act_doneClosed)

lemma closed_together_act:
  assumes "cp_act sum256 ff validate a z = Some (z', es)" "closed_together z"
  shows "cp_crashed z' \<or> closed_together z'"
proof (cases a)
  case (CpRecv i now)
  with assms show ?thesis
    by (auto simp: cp_recv_def closed_together_pl simp del: pl_act.simps split: list.splits)
next
  case (CpStart now cd)
  with assms show ?thesis by (auto simp: cp_Start_def closed_together_def Etcd_Subscribe_def pl_Start_def Let_def split: if_splits)
next
  case (CpStop err)
  with assms show ?thesis
    by (auto simp: cp_Stop_def closed_together_def cp_crashed_def Etcd_Close_def pl_Stop_def split: if_splits sum.splits)
qed (use assms in \<open>auto simp: closed_together_sub closed_together_pl simp del: sub_act.simps pl_act.simps split: if_splits\<close>)

lemma cp_reach_closed:
  assumes "cp_reach sum256 ff validate s0 cache acts seen z" "\<not> es_stopClosed s0"
  shows "cp_crashed z \<or> closed_together z"
  using assms
proof (induction rule: cp_reach.induct)
  case cp_init
  then show ?case by (simp add: closed_together_def new_config_plane_def NewEventPipeline_def)
qed (blast dest: closed_together_act)

section \<open>Progress\<close>

text \<open>If every state with a positive measure has an action of a given kind that lowers it, there is a run of such actions
  to measure zero.\<close>

lemma cp_descend:
  fixes m :: "('c, 'f) config_plane \<Rightarrow> nat"
  assumes step: "\<And>z. Q z \<Longrightarrow> 0 < m z \<Longrightarrow>
      \<not> cp_crashed z \<and> (\<exists>a z' es. A a \<and> cp_act sum256 ff validate a z = Some (z', es) \<and> Q z' \<and> m z' < m z)"
    and "Q z"
  shows "\<exists>bs z' es. cp_run sum256 ff validate bs z = Some (z', es) \<and> (\<forall>b \<in> set bs. A b) \<and> Q z' \<and> m z' = 0"
  using assms(2)
proof (induction "m z" arbitrary: z rule: less_induct)
  case less
  show ?case
  proof (cases "m z = 0")
    case True
    with less.prems show ?thesis by (intro exI [of _ "[]"]) auto
  next
    case False
    with step [OF less.prems] obtain a z1 es1 where 1: "\<not> cp_crashed z" "A a" "cp_act sum256 ff validate a z = Some (z1, es1)"
      "Q z1" "m z1 < m z" by auto
    from less.hyps [OF 1(5,4)] obtain bs z' es where "cp_run sum256 ff validate bs z1 = Some (z', es)" "\<forall>b \<in> set bs. A b"
      "Q z'" "m z' = 0" by blast
    with 1 show ?thesis by (intro exI [of _ "a # bs"]) auto
  qed
qed

lemma cp_run_reach:
  assumes "cp_run sum256 ff validate bs z = Some (z', es)" and "cp_reach sum256 ff validate s0 cache acts seen z"
  shows "cp_reach sum256 ff validate s0 cache (acts @ bs) (seen @ es) z'"
  using assms
proof (induction bs arbitrary: z acts seen es)
  case (Cons b bs)
  then obtain z1 e1 e2 where "\<not> cp_crashed z" "cp_act sum256 ff validate b z = Some (z1, e1)"
      "cp_run sum256 ff validate bs z1 = Some (z', e2)" "es = e1 @ e2"
    by (auto split: if_splits option.splits)
  with Cons.IH [of z1 e2 "acts @ [b]" "seen @ e1"] Cons.prems(2) show ?case by (auto intro: cp_next)
qed simp

lemma cp_run_init:
  "cp_run sum256 ff validate acts (new_config_plane s0 cache) = Some (z, es) \<Longrightarrow> cp_reach sum256 ff validate s0 cache acts es z"
  using cp_run_reach [OF _ cp_init] by fastforce

subsection \<open>Delivery\<close>

text \<open>The pipeline is up: not stopped, and its loop has not left.\<close>

definition cp_serving :: "('c, 'f) config_plane \<Rightarrow> bool" where
  "cp_serving z \<longleftrightarrow> \<not> cp_crashed z \<and> \<not> pl_doneClosed (cp_pl z) \<and> at_select 0 (cp_pl z)"

text \<open>The actions that move events along.\<close>

fun moves :: "cp_action \<Rightarrow> bool" where
  "moves (CpPut i now) = True"
| "moves (CpRecv i now) = True"
| "moves (CpForward i) = True"
| "moves CpConsume = True"
| "moves _ = False"

definition sub_backlog :: "('c, 'f) sub_sys \<Rightarrow> nat" where
  "sub_backlog y = 4 * sum_list (map (\<lambda>w. length (unsent (snd w))) (sb_watchers y)) + 3 * length (es_eventCh (sb_sub y))"

fun forwarding :: "'f loop_pc list \<Rightarrow> nat" where
  "forwarding [LForward e] = 1"
| "forwarding _ = 0"

definition pl_backlog :: "'f Pipeline \<Rightarrow> nat" where
  "pl_backlog p = 2 * forwarding (pl_loops p) + length (pl_out p)"

definition backlog :: "('c, 'f) config_plane \<Rightarrow> nat" where
  "backlog z = sub_backlog (cp_sub z) + pl_backlog (cp_pl z)"

text \<open>The shape of a serving state, and which goroutines are gone.\<close>

definition one_loop :: "(nat \<Rightarrow> bool) \<Rightarrow> ('c, 'f) config_plane \<Rightarrow> bool" where
  "one_loop gone z \<longleftrightarrow> \<not> cp_crashed z \<and> \<not> pl_doneClosed (cp_pl z) \<and> \<not> pl_outClosed (cp_pl z) \<and>
     (pl_loops (cp_pl z) = [LWait] \<or> (\<exists>e. pl_loops (cp_pl z) = [LForward e])) \<and>
     (\<forall>i. (watcher_at (cp_sub z) i = TwDone) = gone i)"

lemma next_event_running [simp]: "next_event sum256 ff now keys \<noteq> TwDone"
  by (cases keys) simp_all

lemma step_put:
  assumes "one_loop gone z" "es_eventCh (sb_sub (cp_sub z)) = []" "0 < sum_list (map (\<lambda>w. length (unsent (snd w))) (sb_watchers (cp_sub z)))"
  shows "\<exists>a z' es. moves a \<and> cp_act sum256 ff validate a z = Some (z', es) \<and> one_loop gone z' \<and> backlog z' < backlog z"
proof -
  let ?y = "cp_sub z"
  obtain i where i: "i < length (sb_watchers ?y)" "unsent (snd (sb_watchers ?y ! i)) \<noteq> []"
    using assms(3) by (auto simp: sum_list_eq_0_iff in_set_conv_nth simp flip: neq0_conv)
  then obtain evt keys where at: "snd (sb_watchers ?y ! i) = TwSend evt keys" by (cases "snd (sb_watchers ?y ! i)") auto
  let ?z = "z\<lparr>cp_sub := set_watcher i (next_event sum256 ff 0 keys) (?y\<lparr>sb_sub := (sb_sub ?y)\<lparr>es_eventCh := [evt]\<rparr>\<rparr>)\<rparr>"
  have "cp_act sum256 ff validate (CpPut i 0) z = Some (?z, [])"
    using i at assms(2) by (simp add: lift_sub_def watcher_at_def watch_send_def event_capacity_def)
  moreover have "one_loop gone ?z"
  proof -
    have w: "watcher_at ?y i \<noteq> TwDone" using i at by (simp add: watcher_at_def)
    have "(watcher_at (cp_sub ?z) j = TwDone) = gone j" for j
      using w i(1) assms(1) by (cases "j = i") (simp_all add: one_loop_def)
    moreover have "cp_crashed ?z = cp_crashed z" by (simp add: cp_crashed_def)
    ultimately show ?thesis using assms(1) by (simp add: one_loop_def)
  qed
  moreover have "backlog ?z < backlog z"
    using sum_list_map_update [OF i(1), of "\<lambda>w. length (unsent (snd w))"
        "(fst (sb_watchers ?y ! i), next_event sum256 ff 0 keys)"] at assms(2)
    by (simp add: backlog_def sub_backlog_def set_watcher_def)
  ultimately show ?thesis by (intro exI [of _ "CpPut i 0"]) auto
qed

lemma step_recv:
  assumes "one_loop gone z" "pl_loops (cp_pl z) = [LWait]" "es_eventCh (sb_sub (cp_sub z)) \<noteq> []"
  shows "\<exists>a z' es. moves a \<and> cp_act sum256 ff validate a z = Some (z', es) \<and> one_loop gone z' \<and> backlog z' < backlog z"
proof -
  obtain e es where ch: "es_eventCh (sb_sub (cp_sub z)) = e # es" using assms(3) by (cases "es_eventCh (sb_sub (cp_sub z))") auto
  obtain pc p where h: "handle_event validate 0 e (cp_pl z) = (pc, p)" by fastforce
  note h' = handle_event_accepted [OF h]
  let ?z = "z\<lparr>cp_sub := (cp_sub z)\<lparr>sb_sub := (sb_sub (cp_sub z))\<lparr>es_eventCh := es\<rparr>\<rparr>, cp_pl := set_loop 0 pc p\<rparr>"
  have "cp_act sum256 ff validate (CpRecv 0 0) z = Some (?z, [])"
    using assms(2) ch h by (simp add: cp_recv_def lift_pl_def)
  moreover have "one_loop gone ?z" using assms(1,2) h' by (cases pc) (auto simp: one_loop_def cp_crashed_def set_loop_def)
  moreover have "backlog ?z < backlog z"
    using assms(2) ch h' by (cases pc) (auto simp: backlog_def sub_backlog_def pl_backlog_def set_loop_def)
  ultimately show ?thesis by (intro exI [of _ "CpRecv 0 0"]) auto
qed

lemma step_consume:
  assumes "one_loop gone z" "pl_out (cp_pl z) \<noteq> []"
  shows "\<exists>a z' es. moves a \<and> cp_act sum256 ff validate a z = Some (z', es) \<and> one_loop gone z' \<and> backlog z' < backlog z"
proof -
  obtain e es where out: "pl_out (cp_pl z) = e # es" using assms(2) by (cases "pl_out (cp_pl z)") auto
  let ?z = "z\<lparr>cp_pl := (cp_pl z)\<lparr>pl_out := es\<rparr>\<rparr>"
  have "cp_act sum256 ff validate CpConsume z = Some (?z, [e])" using out by (simp add: lift_pl_def)
  moreover have "one_loop gone ?z" "backlog ?z < backlog z"
    using assms(1) out by (auto simp: one_loop_def cp_crashed_def backlog_def pl_backlog_def)
  ultimately show ?thesis by (intro exI [of _ CpConsume]) auto
qed

lemma step_forward:
  assumes "one_loop gone z" "pl_loops (cp_pl z) = [LForward e]" "length (pl_out (cp_pl z)) < out_capacity"
  shows "\<exists>a z' es. moves a \<and> cp_act sum256 ff validate a z = Some (z', es) \<and> one_loop gone z' \<and> backlog z' < backlog z"
proof -
  obtain p where f: "forward_event e (cp_pl z) = Inr p" "pl_out p = pl_out (cp_pl z) @ [e]" "pl_loops p = pl_loops (cp_pl z)"
    "pl_doneClosed p = pl_doneClosed (cp_pl z)" "pl_outClosed p = pl_outClosed (cp_pl z)" "pl_crashed p = pl_crashed (cp_pl z)"
    using assms(1) by (simp add: one_loop_def forward_event_def Let_def)
  let ?z = "z\<lparr>cp_pl := set_loop 0 LWait p\<rparr>"
  have "cp_act sum256 ff validate (CpForward 0) z = Some (?z, [])" using assms(2,3) f(1) by (simp add: lift_pl_def)
  moreover have "one_loop gone ?z" "backlog ?z < backlog z"
    using assms(1,2) f by (auto simp: one_loop_def cp_crashed_def backlog_def pl_backlog_def set_loop_def)
  ultimately show ?thesis by (intro exI [of _ "CpForward 0"]) auto
qed

lemma step_any:
  assumes "one_loop gone z" "0 < backlog z"
  shows "\<exists>a z' es. moves a \<and> cp_act sum256 ff validate a z = Some (z', es) \<and> one_loop gone z' \<and> backlog z' < backlog z"
proof (cases "pl_loops (cp_pl z) = [LWait]")
  case True
  consider "es_eventCh (sb_sub (cp_sub z)) \<noteq> []" | "pl_out (cp_pl z) \<noteq> []" |
      "es_eventCh (sb_sub (cp_sub z)) = []" "0 < sum_list (map (\<lambda>w. length (unsent (snd w))) (sb_watchers (cp_sub z)))"
    using assms(2) True by (auto simp: backlog_def sub_backlog_def pl_backlog_def)
  then show ?thesis using step_recv [OF assms(1) True] step_consume [OF assms(1)] step_put [OF assms(1)] by cases blast+
next
  case False
  then obtain e where "pl_loops (cp_pl z) = [LForward e]" using assms(1) by (auto simp: one_loop_def)
  moreover have "pl_out (cp_pl z) \<noteq> []" if "\<not> length (pl_out (cp_pl z)) < out_capacity"
    using that by (auto simp: out_capacity_def)
  ultimately show ?thesis using step_forward [OF assms(1)] step_consume [OF assms(1)] by blast
qed

lemma backlog_zero:
  assumes "one_loop gone z" "backlog z = 0"
  shows "es_eventCh (sb_sub (cp_sub z)) = []" "pl_out (cp_pl z) = []" "pl_loops (cp_pl z) = [LWait]" "\<And>i. unsent (watcher_at (cp_sub z) i) = []"
proof -
  have "\<forall>w \<in> set (sb_watchers (cp_sub z)). unsent (snd w) = []"
    using assms(2) by (auto simp: backlog_def sub_backlog_def sum_list_eq_0_iff)
  then show "unsent (watcher_at (cp_sub z) i) = []" for i by (simp add: watcher_at_def)
qed (use assms in \<open>auto simp: one_loop_def backlog_def sub_backlog_def pl_backlog_def\<close>)

lemma cp_drain:
  assumes "one_loop gone z"
  shows "\<exists>bs z' es. cp_run sum256 ff validate bs z = Some (z', es) \<and> (\<forall>b \<in> set bs. moves b) \<and> one_loop gone z' \<and> backlog z' = 0"
proof (rule cp_descend [where A = moves and Q = "one_loop gone"])
  show "\<not> cp_crashed w \<and> (\<exists>a z' es. moves a \<and> cp_act sum256 ff validate a w = Some (z', es) \<and> one_loop gone z' \<and> backlog z' < backlog w)"
    if "one_loop gone w" "0 < backlog w" for w
    using step_any [OF that] that(1) by (simp add: one_loop_def)
qed (rule assms)

lemma cp_serving_one_loop:
  assumes "cp_reach sum256 ff validate s0 cache acts seen z" "cp_serving z"
  shows "one_loop (\<lambda>i. watcher_at (cp_sub z) i = TwDone) z"
proof -
  obtain pacts where "pl_reach validate cache pacts seen (cp_pl z)" using cp_reach_parts [OF assms(1)] by blast
  then have inv: "pl_inv validate cache (received pacts) seen (cp_pl z)" by (rule pl_reach_inv)
  with assms(2) have "loops_inv (pl_running (cp_pl z)) (pl_loops (cp_pl z)) (snd (accepted validate cache (received pacts))) (seen @ pl_out (cp_pl z))"
    "0 < length (pl_loops (cp_pl z))" by (auto simp: pl_inv_def cp_serving_def at_select_def)
  with loops_inv_single have "pl_loops (cp_pl z) = [pl_loops (cp_pl z) ! 0]" by blast
  moreover have "pl_loops (cp_pl z) ! 0 \<noteq> LExit" using assms(2) by (simp add: cp_serving_def at_select_def)
  ultimately show ?thesis using assms(2) inv
    by (cases "pl_loops (cp_pl z) ! 0") (auto simp: one_loop_def cp_serving_def pl_inv_def)
qed

lemma reported_moves: "\<forall>b \<in> set bs. moves b \<Longrightarrow> reported i bs = []"
proof (induction bs)
  case (Cons b bs)
  then show ?case by (cases b) auto
qed simp

subsection \<open>Leaving\<close>

text \<open>The cases in which a goroutine sees a closed channel and returns.\<close>

fun leaves :: "cp_action \<Rightarrow> bool" where
  "leaves (CpWatchStop i) = True"
| "leaves (CpDone i) = True"
| "leaves _ = False"

definition goroutines :: "('c, 'f) config_plane \<Rightarrow> nat" where
  "goroutines z = length (filter (\<lambda>w. snd w \<noteq> TwDone) (sb_watchers (cp_sub z))) +
     length (filter (\<lambda>l. l \<noteq> LExit) (pl_loops (cp_pl z)))"

definition stopped :: "('c, 'f) config_plane \<Rightarrow> bool" where
  "stopped z \<longleftrightarrow> \<not> cp_crashed z \<and> pl_doneClosed (cp_pl z) \<and> es_stopClosed (sb_sub (cp_sub z))"

lemma goroutines_zero:
  "goroutines z = 0 \<longleftrightarrow> (\<forall>w \<in> set (sb_watchers (cp_sub z)). snd w = TwDone) \<and> (\<forall>l \<in> set (pl_loops (cp_pl z)). l = LExit)"
  by (auto simp: goroutines_def filter_empty_conv)

lemma leave_watcher:
  assumes "stopped z" "i < length (sb_watchers (cp_sub z))" "snd (sb_watchers (cp_sub z) ! i) \<noteq> TwDone"
  shows "\<exists>a z' es. leaves a \<and> cp_act sum256 ff validate a z = Some (z', es) \<and> stopped z' \<and> goroutines z' < goroutines z"
proof -
  let ?z = "z\<lparr>cp_sub := set_watcher i TwDone (cp_sub z)\<rparr>"
  have "cp_act sum256 ff validate (CpWatchStop i) z = Some (?z, [])"
    using assms by (simp add: lift_sub_def watcher_at_def stopped_def)
  moreover have "stopped ?z" using assms(1) by (simp add: stopped_def cp_crashed_def)
  moreover have "goroutines ?z < goroutines z"
    using filter_update_length [OF assms(2), of "\<lambda>w. snd w \<noteq> TwDone" "(fst (sb_watchers (cp_sub z) ! i), TwDone)"] assms(3)
    by (simp add: goroutines_def set_watcher_def)
  ultimately show ?thesis by (intro exI [of _ "CpWatchStop i"]) auto
qed

lemma leave_loop:
  assumes "stopped z" "i < length (pl_loops (cp_pl z))" "pl_loops (cp_pl z) ! i \<noteq> LExit"
  shows "\<exists>a z' es. leaves a \<and> cp_act sum256 ff validate a z = Some (z', es) \<and> stopped z' \<and> goroutines z' < goroutines z"
proof -
  let ?z = "z\<lparr>cp_pl := set_loop i LExit (cp_pl z)\<rparr>"
  have "cp_act sum256 ff validate (CpDone i) z = Some (?z, [])"
    using assms by (simp add: lift_pl_def at_select_def stopped_def)
  moreover have "stopped ?z" using assms(1) by (simp add: stopped_def cp_crashed_def set_loop_def)
  moreover have "goroutines ?z < goroutines z"
    using filter_update_length [OF assms(2), of "\<lambda>l. l \<noteq> LExit" LExit] assms(3)
    by (simp add: goroutines_def set_loop_def)
  ultimately show ?thesis by (intro exI [of _ "CpDone i"]) auto
qed

lemma cp_leave_all:
  assumes "stopped z"
  shows "\<exists>bs z' es. cp_run sum256 ff validate bs z = Some (z', es) \<and> (\<forall>b \<in> set bs. leaves b) \<and> stopped z' \<and> goroutines z' = 0"
proof (rule cp_descend [where A = leaves and Q = stopped])
  fix w :: "('a, 'b) config_plane"
  assume w: "stopped w" "0 < goroutines w"
  then obtain i where "i < length (sb_watchers (cp_sub w)) \<and> snd (sb_watchers (cp_sub w) ! i) \<noteq> TwDone \<or>
      i < length (pl_loops (cp_pl w)) \<and> pl_loops (cp_pl w) ! i \<noteq> LExit"
    using goroutines_zero [of w] by (fastforce simp: in_set_conv_nth)
  with w(1) leave_watcher leave_loop have
    "\<exists>a z' es. leaves a \<and> cp_act sum256 ff validate a w = Some (z', es) \<and> stopped z' \<and> goroutines z' < goroutines w" by blast
  with w(1) show "\<not> cp_crashed w \<and>
      (\<exists>a z' es. leaves a \<and> cp_act sum256 ff validate a w = Some (z', es) \<and> stopped z' \<and> goroutines z' < goroutines w)"
    by (simp add: stopped_def)
qed (rule assms)

section \<open>Properties\<close>

lemma new_subscriber: "NewEtcdSubscriber newClient cfg = Inr s0 \<Longrightarrow> es_eventCh s0 = [] \<and> \<not> es_stopClosed s0"
  by (auto simp: NewEtcdSubscriber_def split: option.splits sum.splits)

lemma new_example: "NewEtcdSubscriber (\<lambda>_ _. Inr 0) (Some (es_config example_subscriber)) = Inr example_subscriber"
  by (simp add: NewEtcdSubscriber_def example_subscriber_def)

text \<open>Etcd reports three keys, two of them are put into the channel, and the loop receives the first.\<close>

definition plane_schedule :: "cp_action list" where
  "plane_schedule = [CpStart 1 False, CpResponse 0 2 False [''a'', ''b'', ''c''], CpPut 0 3, CpPut 0 4, CpRecv 0 5]"

text \<open>C9: From etcd to the consumers of the pipeline, the configuration plane lets one event pass and no more. Under every
  interleaving of the watching goroutine, the loop, consumers, \<open>Start\<close>, \<open>Stop\<close> and cancellation there is a history of
  what was put into the subscriber's channel: it begins with what the loop received and ends with what is buffered, and every goroutine put
  in an initial part of the keys that etcd reported to it, in order, a running goroutine all of them but those it still
  holds. But all these events have the same fingerprint, so the consumers and the output buffer hold at most the very first of
  them, and nothing ever if that one does not pass validation; while the loop waits and nobody has stopped it they hold exactly that.\<close>

theorem config_plane_exact:
  assumes "NewEtcdSubscriber newClient cfg = Inr s0"
    and "cp_reach sum256 ff validate s0 (NewLRUCache n) acts seen z"
  shows "\<exists>hist k. map snd (take k hist) = loop_received sum256 ff validate acts (new_config_plane s0 (NewLRUCache n)) \<and>
    k \<le> length hist \<and> map snd (drop k hist) = es_eventCh (sb_sub (cp_sub z)) \<and>
    (\<forall>i. prefix (sent_by i hist) (reported i acts) \<and>
      (watcher_at (cp_sub z) i \<noteq> TwDone \<longrightarrow> sent_by i hist @ unsent (watcher_at (cp_sub z) i) = reported i acts)) \<and>
    prefix (seen @ pl_out (cp_pl z)) (filter (\<lambda>e. validate e = None) (take 1 (map snd (take k hist)))) \<and>
    (\<not> pl_doneClosed (cp_pl z) \<and> pl_loops (cp_pl z) = [LWait] \<longrightarrow>
       seen @ pl_out (cp_pl z) = filter (\<lambda>e. validate e = None) (take 1 (map snd (take k hist))))"
  by (rule cp_reach_stream [OF assms(2) conjunct1 [OF new_subscriber [OF assms(1)]]]) blast

theorem config_plane_exact_witness:
  "\<exists>z. cp_reach (\<lambda>_. []) (\<lambda>_. '''') NullValidator_Validate example_subscriber (NewLRUCache 5)
      (plane_schedule @ [CpForward 0, CpRecv 0 6, CpConsume]) [etcd_event (\<lambda>_. []) (\<lambda>_. '''') 2 ''a''] z \<and>
    length (pl_out (cp_pl z)) = 0"
proof -
  let ?r = "cp_run (\<lambda>_. []) (\<lambda>_. '''') NullValidator_Validate (plane_schedule @ [CpForward 0, CpRecv 0 6, CpConsume])
      (new_config_plane example_subscriber (NewLRUCache 5))"
  have "case ?r of None \<Rightarrow> False | Some (z, es) \<Rightarrow> es = [etcd_event (\<lambda>_. []) (\<lambda>_. '''') 2 ''a'']" by code_simp
  then obtain z where z: "?r = Some (z, [etcd_event (\<lambda>_. []) (\<lambda>_. '''') 2 ''a''])" by (auto split: option.splits)
  from config_plane_exact [OF new_example cp_run_init [OF z]] obtain q :: "nat Event list"
    where "prefix ([etcd_event (\<lambda>_. []) (\<lambda>_. '''') 2 ''a''] @ pl_out (cp_pl z)) (filter (\<lambda>e. NullValidator_Validate e = None) (take 1 q))"
    by blast
  then have "length ([etcd_event (\<lambda>_. []) (\<lambda>_. '''') 2 ''a''] @ pl_out (cp_pl z)) \<le> length (take 1 q)"
    using prefix_length_le length_filter_le le_trans by blast
  with cp_run_init [OF z] show ?thesis by (intro exI [of _ z]) simp
qed

text \<open>C10: Nothing gets stuck on the way while the pipeline is up. From every reachable state in which the pipeline is not stopped and
  its loop has not left there is a continuation, by sends, receipts and reads alone, after which the same goroutines are running as before,
  none of them holds a key that it has not sent, no event is left in any buffer, and the events that the loop has received in the whole run are
  exactly these: for every goroutine that is still running, all the keys that etcd had reported to it, in their order, and for one that has
  returned an initial part of them. The consumers have read the first of these events if it is valid, and nothing else.\<close>

theorem config_plane_delivers:
  assumes "NewEtcdSubscriber newClient cfg = Inr s0"
    and "cp_reach sum256 ff validate s0 (NewLRUCache n) acts seen z" and "cp_serving z"
  shows "\<exists>bs more z' hist. cp_reach sum256 ff validate s0 (NewLRUCache n) (acts @ bs) (seen @ more) z' \<and>
    (\<forall>b \<in> set bs. moves b) \<and> es_eventCh (sb_sub (cp_sub z')) = [] \<and> pl_out (cp_pl z') = [] \<and>
    (\<forall>i. (watcher_at (cp_sub z') i = TwDone) = (watcher_at (cp_sub z) i = TwDone)) \<and>
    map snd hist = loop_received sum256 ff validate (acts @ bs) (new_config_plane s0 (NewLRUCache n)) \<and>
    (\<forall>i. prefix (sent_by i hist) (reported i acts)) \<and>
    (\<forall>i. watcher_at (cp_sub z) i \<noteq> TwDone \<longrightarrow> unsent (watcher_at (cp_sub z') i) = [] \<and> sent_by i hist = reported i acts) \<and>
    seen @ more = filter (\<lambda>e. validate e = None) (take 1 (map snd hist))"
proof -
  obtain bs z' more where run: "cp_run sum256 ff validate bs z = Some (z', more)" "\<forall>b \<in> set bs. moves b"
    "one_loop (\<lambda>i. watcher_at (cp_sub z) i = TwDone) z'" "backlog z' = 0"
    using cp_drain [OF cp_serving_one_loop [OF assms(2,3)]] by blast
  note empty = backlog_zero [OF run(3,4)]
  have reach: "cp_reach sum256 ff validate s0 (NewLRUCache n) (acts @ bs) (seen @ more) z'" by (rule cp_run_reach [OF run(1) assms(2)])
  have gone: "(watcher_at (cp_sub z') i = TwDone) = (watcher_at (cp_sub z) i = TwDone)" for i using run(3) by (simp add: one_loop_def)
  obtain hist k where hist: "map snd (take k hist) = loop_received sum256 ff validate (acts @ bs) (new_config_plane s0 (NewLRUCache n))"
    "k \<le> length hist" "map snd (drop k hist) = es_eventCh (sb_sub (cp_sub z'))" "\<And>i. prefix (sent_by i hist) (reported i (acts @ bs))"
    "\<And>i. watcher_at (cp_sub z') i \<noteq> TwDone \<Longrightarrow> sent_by i hist @ unsent (watcher_at (cp_sub z') i) = reported i (acts @ bs)"
    "\<not> pl_doneClosed (cp_pl z') \<Longrightarrow> pl_loops (cp_pl z') = [LWait] \<Longrightarrow>
       (seen @ more) @ pl_out (cp_pl z') = filter (\<lambda>e. validate e = None) (take 1 (map snd (take k hist)))"
    using cp_reach_stream [OF reach conjunct1 [OF new_subscriber [OF assms(1)]]] by metis
  have k: "k = length hist" using hist(2,3) empty(1) by simp
  moreover have "\<not> pl_doneClosed (cp_pl z')" using run(3) by (simp add: one_loop_def)
  ultimately have "seen @ more = filter (\<lambda>e. validate e = None) (take 1 (map snd hist))" using hist(6) empty(2,3) by simp
  moreover have "sent_by i hist = reported i acts" if "watcher_at (cp_sub z) i \<noteq> TwDone" for i
    using hist(5) [of i] that gone empty(4) [of i] reported_moves [OF run(2)] by simp
  moreover have "\<forall>i. prefix (sent_by i hist) (reported i acts)" using hist(4) reported_moves [OF run(2)] by simp
  moreover have "map snd hist = loop_received sum256 ff validate (acts @ bs) (new_config_plane s0 (NewLRUCache n))" using hist(1) k by simp
  ultimately show ?thesis using reach run(2) empty(1,2,4) gone by blast
qed

theorem config_plane_delivers_witness:
  "\<exists>bs more z' hist. cp_reach (\<lambda>_. []) (\<lambda>_. '''') NullValidator_Validate example_subscriber (NewLRUCache 5) (plane_schedule @ bs) more z' \<and>
     map snd hist = loop_received (\<lambda>_. []) (\<lambda>_. '''') NullValidator_Validate (plane_schedule @ bs)
       (new_config_plane example_subscriber (NewLRUCache 5)) \<and>
     sent_by 0 hist = [''a'', ''b'', ''c''] \<and> more = take 1 (map snd hist)"
proof -
  let ?r = "cp_run (\<lambda>_. []) (\<lambda>_. '''') NullValidator_Validate plane_schedule (new_config_plane example_subscriber (NewLRUCache 5))"
  have "case ?r of None \<Rightarrow> False | Some (z, es) \<Rightarrow> es = [] \<and> cp_serving z \<and> watcher_at (cp_sub z) 0 \<noteq> TwDone" by code_simp
  then obtain z where z: "?r = Some (z, [])" "cp_serving z" "watcher_at (cp_sub z) 0 \<noteq> TwDone" by (auto split: option.splits)
  have "reported 0 plane_schedule = [''a'', ''b'', ''c'']" by code_simp
  with config_plane_delivers [OF new_example cp_run_init [OF z(1)] z(2)] z(3) show ?thesis
    by (simp add: NullValidator_Validate_def) metis
qed

text \<open>C11: Stopping leaves no goroutine behind. \<open>Stop\<close> closes the pipeline's channels and the subscriber; from every reachable state after it in which
  nothing has panicked there is a continuation in which every watching goroutine and every loop sees a closed channel and returns,
  also those that hold an event at a full channel, and no step of it panics.\<close>

theorem config_plane_stops:
  assumes "NewEtcdSubscriber newClient cfg = Inr s0" and "cp_reach sum256 ff validate s0 (NewLRUCache n) acts seen z"
    and "\<not> cp_crashed z" and "pl_doneClosed (cp_pl z)"
  shows "\<exists>bs more z'. cp_reach sum256 ff validate s0 (NewLRUCache n) (acts @ bs) (seen @ more) z' \<and> (\<forall>b \<in> set bs. leaves b) \<and>
    \<not> cp_crashed z' \<and> (\<forall>w \<in> set (sb_watchers (cp_sub z')). snd w = TwDone) \<and> (\<forall>l \<in> set (pl_loops (cp_pl z')). l = LExit)"
proof -
  have "stopped z"
    using cp_reach_closed [OF assms(2)] new_subscriber [OF assms(1)] assms(3,4) by (simp add: stopped_def closed_together_def)
  then obtain bs z' more where "cp_run sum256 ff validate bs z = Some (z', more)" "\<forall>b \<in> set bs. leaves b" "stopped z'" "goroutines z' = 0"
    using cp_leave_all by blast
  with cp_run_reach [OF _ assms(2)] show ?thesis unfolding goroutines_zero stopped_def by blast
qed

theorem config_plane_stops_witness:
  "\<exists>bs more z'. cp_reach (\<lambda>_. []) (\<lambda>_. '''') NullValidator_Validate example_subscriber (NewLRUCache 5)
      ((plane_schedule @ [CpStop None]) @ bs) more z' \<and> (\<forall>w \<in> set (sb_watchers (cp_sub z')). snd w = TwDone)"
proof -
  let ?r = "cp_run (\<lambda>_. []) (\<lambda>_. '''') NullValidator_Validate (plane_schedule @ [CpStop None])
      (new_config_plane example_subscriber (NewLRUCache 5))"
  have "case ?r of None \<Rightarrow> False | Some (z, es) \<Rightarrow> es = [] \<and> \<not> cp_crashed z \<and> pl_doneClosed (cp_pl z)" by code_simp
  then obtain z where z: "?r = Some (z, [])" "\<not> cp_crashed z" "pl_doneClosed (cp_pl z)" by (auto split: option.splits)
  from config_plane_stops [OF new_example cp_run_init [OF z(1)] z(2,3)] show ?thesis by auto
qed

end
