(* ===== verification/FM_GoalState.thy ===== *)
theory FM_GoalState
  imports Prelude "HOL-Library.Countable"
begin

text \<open>
  Goal state management (package goalstatemanagement, files \<^verbatim>\<open>types.go\<close>, \<^verbatim>\<open>aggregator.go\<close>, \<^verbatim>\<open>composer.go\<close>,
  \<^verbatim>\<open>cache.go\<close> and \<^verbatim>\<open>manager.go\<close> of \<^verbatim>\<open>src/FM/pkg/gm\<close>): aggregation of the constructs of a VNET, one
  goal state per construct, the cache of goal states by fingerprint, and the manager.

  A Go map is a finite map; wherever the code ranges over one, the order of its keys is an argument,
  because Go leaves it open. A context is the Boolean that says whether it is done. The
  fingerprint of a goal state, the hexadecimal SHA-256 of the JSON text of four fields, is the argument
  \<open>digest\<close> applied to those fields.
\<close>

section \<open>Data\<close>

record Route =
  gr_Destination :: string
  gr_NextHop :: string
  gr_Metric :: int

record ACLRule =
  ga_ID :: string
  ga_Action :: string
  ga_Protocol :: string
  ga_SrcIP :: string
  ga_DstIP :: string
  ga_SrcPort :: int
  ga_DstPort :: int

record VIPMapping =
  gv_VIP :: string
  gv_DIP :: string

record PerENIGoalState =
  gs_ENI_ID :: string
  gs_Routes :: "Route list"
  gs_ACLs :: "ACLRule list"
  gs_VIPMappings :: "VIPMapping list"
  gs_Fingerprint :: string
  gs_Version :: int
  gs_LastUpdated :: time

record ConstructState =
  ct_ID :: string
  ct_VnetID :: string
  ct_Status :: string
  ct_ConfigVersion :: int
  ct_TenantID :: string
  ct_ConstructType :: string
  ct_LastUpdated :: time
  ct_ReplicaID :: string

record ReplicaState =
  rp_ID :: string
  rp_VnetID :: string
  rp_Status :: string
  rp_HealthOK :: bool

record AggregatedState =
  ag_VnetID :: string
  ag_Constructs :: "ConstructState list"
  ag_Replicas :: "ReplicaState list"

record ManagerStats =
  gst_VNETsProcessed :: int
  gst_GoalStatesGenerated :: int
  gst_CacheHits :: int
  gst_CacheMisses :: int
  gst_AggregationErrors :: int
  gst_GenerationErrors :: int

section \<open>Aggregation\<close>

type_synonym constructs = "string \<rightharpoonup> ConstructState"

datatype aggregate_error = AggregationCancelled | VnetRequired

text \<open>The constructor replaces a nil map by an empty one.\<close>

definition NewVNETAggregator :: "constructs option \<Rightarrow> constructs" where
  "NewVNETAggregator m = (case m of None \<Rightarrow> Map.empty | Some m' \<Rightarrow> m')"

definition Aggregate ::
  "string list \<Rightarrow> bool \<Rightarrow> constructs \<Rightarrow> string \<Rightarrow> aggregate_error + AggregatedState" where
  "Aggregate order ctxDone m vnetID =
     (if ctxDone then Inl AggregationCancelled
      else if vnetID = '''' then Inl VnetRequired
      else Inr \<lparr>ag_VnetID = vnetID,
                ag_Constructs = filter (\<lambda>c. ct_VnetID c = vnetID) (List.map_filter m order),
                ag_Replicas = []\<rparr>)"

definition AddConstruct :: "constructs \<Rightarrow> ConstructState option \<Rightarrow> constructs" where
  "AddConstruct m construct =
     (case construct of
        Some c \<Rightarrow> if ct_ID c \<noteq> '''' then m(ct_ID c \<mapsto> c) else m
      | None \<Rightarrow> m)"

section \<open>Generation\<close>

datatype generate_error = GenerationCancelled | AggregatedStateRequired

type_synonym digest = "string \<times> string \<times> string \<times> int \<Rightarrow> string"

definition goal_state :: "digest \<Rightarrow> ConstructState \<Rightarrow> PerENIGoalState" where
  "goal_state digest c =
     \<lparr>gs_ENI_ID = ct_ID c, gs_Routes = [], gs_ACLs = [], gs_VIPMappings = [],
      gs_Fingerprint = digest (ct_ID c, ct_VnetID c, ct_Status c, ct_ConfigVersion c),
      gs_Version = ct_ConfigVersion c, gs_LastUpdated = 0\<rparr>"

definition Generate ::
  "digest \<Rightarrow> bool \<Rightarrow> AggregatedState option \<Rightarrow> generate_error + PerENIGoalState list" where
  "Generate digest ctxDone agg =
     (if ctxDone then Inl GenerationCancelled
      else case agg of
             None \<Rightarrow> Inl AggregatedStateRequired
           | Some a \<Rightarrow> Inr (map (goal_state digest) (ag_Constructs a)))"

section \<open>The cache\<close>

record GsCacheStats =
  gc_Size :: int
  gc_Hits :: int
  gc_Misses :: int
  gc_Evicted :: int

record GoalStateCache =
  gc_cache :: "string \<rightharpoonup> PerENIGoalState"
  gc_stats :: GsCacheStats

definition NewGoalStateCache :: GoalStateCache where
  "NewGoalStateCache =
     \<lparr>gc_cache = Map.empty, gc_stats = \<lparr>gc_Size = 0, gc_Hits = 0, gc_Misses = 0, gc_Evicted = 0\<rparr>\<rparr>"

definition gc_Get :: "GoalStateCache \<Rightarrow> string \<Rightarrow> PerENIGoalState option \<times> GoalStateCache" where
  "gc_Get c fingerprint =
     (let st = gc_stats c in
      case gc_cache c fingerprint of
        Some state \<Rightarrow> (Some state, c\<lparr>gc_stats := st\<lparr>gc_Hits := i64 (gc_Hits st + 1)\<rparr>\<rparr>)
      | None \<Rightarrow> (None, c\<lparr>gc_stats := st\<lparr>gc_Misses := i64 (gc_Misses st + 1)\<rparr>\<rparr>))"

definition gc_Set :: "GoalStateCache \<Rightarrow> string \<Rightarrow> PerENIGoalState \<Rightarrow> GoalStateCache" where
  "gc_Set c fingerprint state =
     (let m = (gc_cache c)(fingerprint \<mapsto> state)
      in c\<lparr>gc_cache := m, gc_stats := (gc_stats c)\<lparr>gc_Size := int (card (dom m))\<rparr>\<rparr>)"

definition gc_Clear :: "GoalStateCache \<Rightarrow> GoalStateCache" where
  "gc_Clear c =
     (let st = gc_stats c
      in c\<lparr>gc_cache := Map.empty,
           gc_stats := st\<lparr>gc_Evicted := i64 (gc_Evicted st + int (card (dom (gc_cache c)))), gc_Size := 0\<rparr>\<rparr>)"

definition gc_Stats :: "GoalStateCache \<Rightarrow> GsCacheStats" where
  "gc_Stats c = gc_stats c"

section \<open>The manager\<close>

record GoalStateManager =
  gm_constructs :: constructs
  gm_cache :: GoalStateCache
  gm_running :: bool
  gm_ctxDone :: bool
  gm_stats :: ManagerStats

datatype gm_error =
    GmAlreadyRunning
  | GmNotRunning
  | GmCancelled
  | GmStopped
  | GmConstructRequired
  | GmAggregationFailed aggregate_error
  | GmGenerationFailed generate_error

definition NewGoalStateManager :: "constructs \<Rightarrow> GoalStateCache \<Rightarrow> GoalStateManager" where
  "NewGoalStateManager agg cache =
     \<lparr>gm_constructs = agg, gm_cache = cache, gm_running = False, gm_ctxDone = False,
      gm_stats = \<lparr>gst_VNETsProcessed = 0, gst_GoalStatesGenerated = 0, gst_CacheHits = 0,
        gst_CacheMisses = 0, gst_AggregationErrors = 0, gst_GenerationErrors = 0\<rparr>\<rparr>"

text \<open>The manager's own context is derived from the one given to \<open>Start\<close>.\<close>

definition gm_Start :: "bool \<Rightarrow> GoalStateManager \<Rightarrow> gm_error option \<times> GoalStateManager" where
  "gm_Start ctxDone m =
     (if gm_running m then (Some GmAlreadyRunning, m)
      else (None, m\<lparr>gm_ctxDone := ctxDone, gm_running := True\<rparr>))"

definition gm_Stop :: "GoalStateManager \<Rightarrow> gm_error option \<times> GoalStateManager" where
  "gm_Stop m =
     (if \<not> gm_running m then (Some GmNotRunning, m)
      else (None, m\<lparr>gm_ctxDone := True, gm_running := False\<rparr>))"

text \<open>
  The handler of a construct change, for a manager whose aggregator is \<open>aggregate\<close>. \<open>ctxDone\<close> says whether the
  caller's context is done at its three checks: at entry, in the aggregation and in the generation. \<open>ownFirst\<close> is the choice of the
  select when both contexts are done.
\<close>

definition handle_change ::
  "(string \<Rightarrow> aggregate_error + AggregatedState) \<Rightarrow> digest \<Rightarrow> (nat \<Rightarrow> bool) \<Rightarrow> bool \<Rightarrow> ConstructState option \<Rightarrow> GoalStateManager \<Rightarrow>
     gm_error option \<times> GoalStateManager" where
  "handle_change aggregate digest ctxDone ownFirst construct m =
     (if \<not> gm_running m then (Some GmNotRunning, m)
      else if ctxDone 0 \<and> \<not> (gm_ctxDone m \<and> ownFirst) then (Some GmCancelled, m)
      else if gm_ctxDone m then (Some GmStopped, m)
      else case construct of
        None \<Rightarrow> (Some GmConstructRequired, m)
      | Some c \<Rightarrow>
          (let st = gm_stats m in
           case aggregate (ct_VnetID c) of
             Inl err \<Rightarrow>
               (Some (GmAggregationFailed err),
                m\<lparr>gm_stats := st\<lparr>gst_AggregationErrors := i64 (gst_AggregationErrors st + 1)\<rparr>\<rparr>)
           | Inr agg \<Rightarrow>
               (let st1 = st\<lparr>gst_VNETsProcessed := i64 (gst_VNETsProcessed st + 1)\<rparr> in
                case Generate digest (ctxDone 2) (Some agg) of
                  Inl err \<Rightarrow>
                    (Some (GmGenerationFailed err),
                     m\<lparr>gm_stats := st1\<lparr>gst_GenerationErrors := i64 (gst_GenerationErrors st1 + 1)\<rparr>\<rparr>)
                | Inr states \<Rightarrow>
                    (None,
                     m\<lparr>gm_stats := st1\<lparr>gst_GoalStatesGenerated :=
                          i64 (gst_GoalStatesGenerated st1 + int (length states))\<rparr>,
                       gm_cache := foldl (\<lambda>k s. gc_Set k (gs_Fingerprint s) s) (gm_cache m) states\<rparr>))))"

text \<open>The handler with the aggregator of virtual networks; \<open>order\<close> is the iteration order of the construct map.\<close>

definition HandleConstructChange ::
  "digest \<Rightarrow> string list \<Rightarrow> (nat \<Rightarrow> bool) \<Rightarrow> bool \<Rightarrow> ConstructState option \<Rightarrow> GoalStateManager \<Rightarrow>
     gm_error option \<times> GoalStateManager" where
  "HandleConstructChange digest order ctxDone ownFirst construct m =
     handle_change (Aggregate order (ctxDone 1) (gm_constructs m)) digest ctxDone ownFirst construct m"

text \<open>The search of the cache for an interface; \<open>order\<close> is the iteration order of the cache map.\<close>

definition GetGoalState ::
  "string list \<Rightarrow> string \<Rightarrow> GoalStateManager \<Rightarrow> PerENIGoalState option \<times> GoalStateManager" where
  "GetGoalState order eniID m =
     (if eniID = '''' then (None, m)
      else let st = gm_stats m in
        case List.find (\<lambda>s. gs_ENI_ID s = eniID) (List.map_filter (gc_cache (gm_cache m)) order) of
          Some s \<Rightarrow> (Some s, m\<lparr>gm_stats := st\<lparr>gst_CacheHits := i64 (gst_CacheHits st + 1)\<rparr>\<rparr>)
        | None \<Rightarrow> (None, m\<lparr>gm_stats := st\<lparr>gst_CacheMisses := i64 (gst_CacheMisses st + 1)\<rparr>\<rparr>))"

definition gm_Stats :: "GoalStateManager \<Rightarrow> ManagerStats" where
  "gm_Stats m = gm_stats m"

text \<open>Example data.\<close>

definition example_construct :: "string \<Rightarrow> int \<Rightarrow> ConstructState" where
  "example_construct i n =
     \<lparr>ct_ID = i, ct_VnetID = ''v'', ct_Status = ''up'', ct_ConfigVersion = n, ct_TenantID = '''',
      ct_ConstructType = '''', ct_LastUpdated = 0, ct_ReplicaID = ''''\<rparr>"

definition example_digest :: digest where
  "example_digest x = replicate (to_nat x) CHR ''0''"

definition example_manager :: "constructs \<Rightarrow> GoalStateManager" where
  "example_manager m = snd (gm_Start False (NewGoalStateManager m NewGoalStateCache))"

section \<open>Iteration orders\<close>

text \<open>An iteration of a map visits every key exactly once.\<close>

definition enumerates :: "'k list \<Rightarrow> ('k \<rightharpoonup> 'v) \<Rightarrow> bool" where
  "enumerates order m \<longleftrightarrow> distinct order \<and> set order = dom m"

lemma map_filter_values: "set (List.map_filter m order) = {v. \<exists>k \<in> set order. m k = Some v}"
  by (force simp: List.map_filter_def)

lemma enumerates_values: "enumerates order m \<Longrightarrow> set (List.map_filter m order) = ran m"
  by (auto simp: map_filter_values enumerates_def ran_def)

section \<open>The handler\<close>

lemma gc_cache_Set: "gc_cache (gc_Set c f s) = (gc_cache c)(f \<mapsto> s)"
  by (simp add: gc_Set_def Let_def)

lemma foldl_gc_Set:
  "gc_cache (foldl (\<lambda>k s. gc_Set k (gs_Fingerprint s) s) c ss) =
     gc_cache c ++ map_of (rev (map (\<lambda>s. (gs_Fingerprint s, s)) ss))"
  by (induction ss arbitrary: c) (simp_all add: gc_cache_Set)

lemma map_of_goal_states:
  assumes "inj digest" and "c \<in> set cs"
  shows "map_of (rev (map (\<lambda>s. (gs_Fingerprint s, s)) (map (goal_state digest) cs)))
    (digest (ct_ID c, ct_VnetID c, ct_Status c, ct_ConfigVersion c)) = Some (goal_state digest c)"
    (is "map_of ?xs ?f = _")
proof -
  have "(?f, goal_state digest c) \<in> set ?xs" using assms(2) by (auto simp: goal_state_def image_iff intro!: bexI [of _ c])
  from weak_map_of_SomeI [OF this] obtain s where s: "map_of ?xs ?f = Some s" ..
  from map_of_SomeD [OF s] have "(?f, s) \<in> set ?xs" .
  then obtain c' where "s = goal_state digest c'" "gs_Fingerprint s = ?f" by auto
  then have "s = goal_state digest c" using assms(1) by (auto simp: goal_state_def inj_eq)
  with s show ?thesis by simp
qed

lemma HandleConstructChange_ok:
  assumes "gm_running m" and "\<not> gm_ctxDone m" and "ct_VnetID c \<noteq> ''''"
  shows "HandleConstructChange digest order (\<lambda>_. False) b (Some c) m =
    (None, m\<lparr>gm_stats := (gm_stats m)\<lparr>gst_VNETsProcessed := i64 (gst_VNETsProcessed (gm_stats m) + 1),
        gst_GoalStatesGenerated := i64 (gst_GoalStatesGenerated (gm_stats m) +
          int (length (filter (\<lambda>x. ct_VnetID x = ct_VnetID c) (List.map_filter (gm_constructs m) order))))\<rparr>,
      gm_cache := foldl (\<lambda>k s. gc_Set k (gs_Fingerprint s) s) (gm_cache m)
        (map (goal_state digest) (filter (\<lambda>x. ct_VnetID x = ct_VnetID c) (List.map_filter (gm_constructs m) order)))\<rparr>)"
  using assms by (simp add: HandleConstructChange_def handle_change_def Aggregate_def Generate_def Let_def)

lemma find_map_filter_None:
  "enumerates order m \<Longrightarrow> List.find P (List.map_filter m order) = None \<longleftrightarrow> (\<forall>v \<in> ran m. \<not> P v)"
  by (auto simp: find_None_iff enumerates_values)

lemma inj_example_digest: "inj example_digest"
  by (auto simp: inj_def example_digest_def dest: arg_cong [of _ _ length])

lemmas example_manager_simps =
  example_manager_def gm_Start_def NewGoalStateManager_def NewGoalStateCache_def example_construct_def

section \<open>Properties\<close>

text \<open>A running manager handles a construct change by caching the goal state of every known construct of that VNET,
  whatever the iteration order: it reports success, each of these goal states can be read under its
  fingerprint, and the entries under all other fingerprints are untouched. The digest is assumed to be
  free of collisions.\<close>

lemma construct_change_caches_vnet:
  assumes "gm_running m" and "\<not> gm_ctxDone m" and "ct_VnetID c \<noteq> ''''" and "enumerates order (gm_constructs m)"
    and "inj digest"
    and "HandleConstructChange digest order (\<lambda>_. False) b (Some c) m = (err, m')"
  shows "err = None \<and>
    (\<forall>c' \<in> ran (gm_constructs m). ct_VnetID c' = ct_VnetID c \<longrightarrow>
       gc_cache (gm_cache m') (gs_Fingerprint (goal_state digest c')) = Some (goal_state digest c')) \<and>
    (\<forall>f. (\<forall>c' \<in> ran (gm_constructs m). ct_VnetID c' = ct_VnetID c \<longrightarrow> gs_Fingerprint (goal_state digest c') \<noteq> f) \<longrightarrow>
       gc_cache (gm_cache m') f = gc_cache (gm_cache m) f)"
proof -
  let ?cs = "filter (\<lambda>x. ct_VnetID x = ct_VnetID c) (List.map_filter (gm_constructs m) order)"
  let ?new = "map_of (rev (map (\<lambda>s. (gs_Fingerprint s, s)) (map (goal_state digest) ?cs)))"
  have cs: "set ?cs = {c' \<in> ran (gm_constructs m). ct_VnetID c' = ct_VnetID c}"
    using enumerates_values [OF assms(4)] by auto
  have cache: "gc_cache (gm_cache m') = gc_cache (gm_cache m) ++ ?new" and err: "err = None"
    using assms(6) HandleConstructChange_ok [OF assms(1-3), of digest order b]
    by (auto simp: foldl_gc_Set)
  have "?new (gs_Fingerprint (goal_state digest c')) = Some (goal_state digest c')" if "c' \<in> set ?cs" for c'
    using map_of_goal_states [OF assms(5) that] by (simp add: goal_state_def)
  moreover have "?new f = None" if "\<forall>c' \<in> set ?cs. gs_Fingerprint (goal_state digest c') \<noteq> f" for f
    using that unfolding map_of_eq_None_iff by auto
  ultimately show ?thesis
    using err unfolding cache cs by (auto simp: map_add_def split: option.splits)
qed

lemma construct_change_caches_vnet_instance:
  "gc_cache (gm_cache (snd (HandleConstructChange example_digest [''e''] (\<lambda>_. False) False
      (Some (example_construct ''x'' 9)) (example_manager [''e'' \<mapsto> example_construct ''e'' 1]))))
     (gs_Fingerprint (goal_state example_digest (example_construct ''e'' 1))) =
   Some (goal_state example_digest (example_construct ''e'' 1))"
proof -
  let ?m = "example_manager [''e'' \<mapsto> example_construct ''e'' 1]"
  have "gm_running ?m" "\<not> gm_ctxDone ?m" "ct_VnetID (example_construct ''x'' 9) \<noteq> ''''"
    "enumerates [''e''] (gm_constructs ?m)" "example_construct ''e'' 1 \<in> ran (gm_constructs ?m)"
    by (simp_all add: example_manager_simps enumerates_def)
  then show ?thesis
    using construct_change_caches_vnet [OF _ _ _ _ inj_example_digest prod.collapse [symmetric],
        of ?m "example_construct ''x'' 9" "[''e'']" False]
    by (simp add: example_construct_def)
qed

text \<open>The handler never stores the construct it is told about: its effect depends on the VNET of that construct
  only. A construct the aggregator does not know yet therefore gets no goal state, and looking it up
  afterwards fails.\<close>

lemma construct_change_not_applied:
  assumes "\<forall>c' \<in> ran (gm_constructs m). ct_ID c' \<noteq> ct_ID c" and "gc_cache (gm_cache m) = Map.empty"
    and "HandleConstructChange digest order ctxDone b (Some c) m = (err, m')"
    and "enumerates order (gm_constructs m)" and "enumerates order' (gc_cache (gm_cache m'))"
  shows "fst (GetGoalState order' (ct_ID c) m') = None"
proof -
  let ?cs = "filter (\<lambda>x. ct_VnetID x = ct_VnetID c) (List.map_filter (gm_constructs m) order)"
  have "gc_cache (gm_cache m') = Map.empty \<or>
      gc_cache (gm_cache m') = map_of (rev (map (\<lambda>s. (gs_Fingerprint s, s)) (map (goal_state digest) ?cs)))"
    using assms(2,3)
    by (auto simp: HandleConstructChange_def handle_change_def Aggregate_def Generate_def Let_def foldl_gc_Set
        split: if_splits sum.splits)
  moreover have "ran (map_of (rev (map (\<lambda>s. (gs_Fingerprint s, s)) (map (goal_state digest) ?cs))))
      \<subseteq> goal_state digest ` set ?cs"
    by (auto simp: ran_def dest!: map_of_SomeD)
  ultimately have "\<forall>s \<in> ran (gc_cache (gm_cache m')). gs_ENI_ID s \<noteq> ct_ID c"
    using assms(1) enumerates_values [OF assms(4)] by (auto simp: goal_state_def)
  then have "List.find (\<lambda>s. gs_ENI_ID s = ct_ID c) (List.map_filter (gc_cache (gm_cache m')) order') = None"
    by (simp add: find_map_filter_None [OF assms(5)])
  then show ?thesis by (simp add: GetGoalState_def Let_def)
qed

lemma construct_change_not_applied_instance:
  "fst (GetGoalState [] ''x'' (snd (HandleConstructChange example_digest [] (\<lambda>_. False) False
     (Some (example_construct ''x'' 9)) (example_manager Map.empty)))) = None"
proof -
  have "gm_constructs (example_manager Map.empty) = Map.empty"
    "gc_cache (gm_cache (example_manager Map.empty)) = Map.empty"
    "gc_cache (gm_cache (snd (HandleConstructChange example_digest [] (\<lambda>_. False) False
       (Some (example_construct ''x'' 9)) (example_manager Map.empty)))) = Map.empty"
    by (simp_all add: example_manager_simps HandleConstructChange_def handle_change_def Aggregate_def Generate_def
        List.map_filter_def Let_def)
  then show ?thesis
    using construct_change_not_applied [where m = "example_manager Map.empty" and c = "example_construct ''x'' 9"
        and digest = example_digest and order = "[]" and ctxDone = "\<lambda>_. False" and b = False and order' = "[]",
        OF _ _ prod.collapse [symmetric]]
    by (simp add: enumerates_def example_construct_def)
qed

text \<open>After an update the old goal state of an interface stays in the cache beside the new one, and the lookup by
  interface returns whichever the map iteration meets first: for a construct whose version was raised from 1 to 2
  both answers occur.\<close>

lemma stale_goal_state_served:
  assumes "digest (''e'', ''v'', ''up'', 1) \<noteq> digest (''e'', ''v'', ''up'', 2)"
  shows "let c1 = example_construct ''e'' 1; c2 = example_construct ''e'' 2;
           m0 = snd (gm_Start False (NewGoalStateManager (AddConstruct Map.empty (Some c1)) NewGoalStateCache));
           m1 = snd (HandleConstructChange digest [''e''] (\<lambda>_. False) False (Some c1) m0);
           m2 = m1\<lparr>gm_constructs := AddConstruct (gm_constructs m1) (Some c2)\<rparr>;
           m3 = snd (HandleConstructChange digest [''e''] (\<lambda>_. False) False (Some c2) m2)
       in \<exists>o1 o2. enumerates o1 (gc_cache (gm_cache m3)) \<and> enumerates o2 (gc_cache (gm_cache m3)) \<and>
            fst (GetGoalState o1 ''e'' m3) = Some (goal_state digest c1) \<and>
            fst (GetGoalState o2 ''e'' m3) = Some (goal_state digest c2)"
proof -
  let ?f1 = "digest (''e'', ''v'', ''up'', 1)" and ?f2 = "digest (''e'', ''v'', ''up'', 2)"
  show ?thesis
    using assms unfolding Let_def
    by (intro exI [of _ "[?f1, ?f2]"] exI [of _ "[?f2, ?f1]"])
      (auto simp: example_manager_simps AddConstruct_def HandleConstructChange_def handle_change_def Aggregate_def Generate_def
        gc_Set_def Let_def goal_state_def GetGoalState_def List.map_filter_def enumerates_def)
qed

lemma stale_goal_state_served_instance:
  "let m0 = snd (gm_Start False (NewGoalStateManager
          (AddConstruct Map.empty (Some (example_construct ''e'' 1))) NewGoalStateCache));
       m1 = snd (HandleConstructChange example_digest [''e''] (\<lambda>_. False) False (Some (example_construct ''e'' 1)) m0);
       m2 = m1\<lparr>gm_constructs := AddConstruct (gm_constructs m1) (Some (example_construct ''e'' 2))\<rparr>;
       m3 = snd (HandleConstructChange example_digest [''e''] (\<lambda>_. False) False (Some (example_construct ''e'' 2)) m2)
   in \<exists>o1. fst (GetGoalState o1 ''e'' m3) = Some (goal_state example_digest (example_construct ''e'' 1))"
  using stale_goal_state_served [of example_digest] inj_example_digest by (auto simp: Let_def inj_eq)

end
