(* ===== verification/FM_GoalSystem.thy ===== *)
theory FM_GoalSystem
  imports FM_GoalState
begin

text \<open>
  The goal state manager under concurrency (\<^verbatim>\<open>manager.go\<close> of \<^verbatim>\<open>src/FM/pkg/gm\<close>). \<open>HandleConstructChange\<close> holds the mutex of the
  manager only while it reads whether the manager runs and while it counts, and the mutex of the cache only for one \<open>Set\<close>;
  so any number of calls, starts, stops and lookups interleave. One step is the code between two accesses to shared state. The
  constructs of the aggregator do not change: its map has no mutex, and only tests add to it.
\<close>

section \<open>Calls as threads\<close>

datatype cg_pc =
    CgSelect
  | CgAggregate string
  | CgAggregateFailed aggregate_error
  | CgCountVnet AggregatedState
  | CgGenerate AggregatedState
  | CgGenerateFailed generate_error
  | CgCountStates
  | CgCache "PerENIGoalState list"
  | CgReturned "gm_error option"

record cthread =
  cg_construct :: "ConstructState option"
  cg_states :: "PerENIGoalState list"
  cg_pc :: cg_pc

text \<open>The check at the entry of the call.\<close>

definition change_begin :: "ConstructState option \<Rightarrow> GoalStateManager \<Rightarrow> cthread" where
  "change_begin construct m =
     \<lparr>cg_construct = construct, cg_states = [], cg_pc = (if gm_running m then CgSelect else CgReturned (Some GmNotRunning))\<rparr>"

definition upd_gm_stats :: "(ManagerStats \<Rightarrow> ManagerStats) \<Rightarrow> GoalStateManager \<Rightarrow> GoalStateManager" where
  "upd_gm_stats f m = m\<lparr>gm_stats := f (gm_stats m)\<rparr>"

text \<open>The select at the beginning: the contexts of the caller and of the manager.\<close>

definition select_contexts :: "bool \<Rightarrow> bool \<Rightarrow> ConstructState option \<Rightarrow> GoalStateManager \<Rightarrow> cg_pc" where
  "select_contexts ctxDone ownFirst construct m =
     (if ctxDone \<and> \<not> (gm_ctxDone m \<and> ownFirst) then CgReturned (Some GmCancelled)
      else if gm_ctxDone m then CgReturned (Some GmStopped)
      else case construct of
             None \<Rightarrow> CgReturned (Some GmConstructRequired)
           | Some c \<Rightarrow> CgAggregate (ct_VnetID c))"

text \<open>
  The next step of a call. \<open>ctxDone\<close> says whether the context of the caller is done, \<open>ownFirst\<close> is the choice of the select if both
  contexts are, \<open>order\<close> the iteration order of the construct map.
\<close>

fun change_step :: "digest \<Rightarrow> bool \<Rightarrow> bool \<Rightarrow> string list \<Rightarrow> cthread \<Rightarrow> cg_pc \<Rightarrow> GoalStateManager \<Rightarrow> cthread \<times> GoalStateManager" where
  "change_step digest ctxDone ownFirst order th CgSelect m =
     (th\<lparr>cg_pc := select_contexts ctxDone ownFirst (cg_construct th) m\<rparr>, m)"
| "change_step digest ctxDone ownFirst order th (CgAggregate vnetID) m =
     (th\<lparr>cg_pc :=
        (case Aggregate order ctxDone (gm_constructs m) vnetID of
           Inl err \<Rightarrow> CgAggregateFailed err
         | Inr agg \<Rightarrow> CgCountVnet agg)\<rparr>, m)"
| "change_step digest ctxDone ownFirst order th (CgAggregateFailed err) m =
     (th\<lparr>cg_pc := CgReturned (Some (GmAggregationFailed err))\<rparr>,
      upd_gm_stats (\<lambda>st. st\<lparr>gst_AggregationErrors := i64 (gst_AggregationErrors st + 1)\<rparr>) m)"
| "change_step digest ctxDone ownFirst order th (CgCountVnet agg) m =
     (th\<lparr>cg_pc := CgGenerate agg\<rparr>,
      upd_gm_stats (\<lambda>st. st\<lparr>gst_VNETsProcessed := i64 (gst_VNETsProcessed st + 1)\<rparr>) m)"
| "change_step digest ctxDone ownFirst order th (CgGenerate agg) m =
     (case Generate digest ctxDone (Some agg) of
        Inl err \<Rightarrow> th\<lparr>cg_pc := CgGenerateFailed err\<rparr>
      | Inr states \<Rightarrow> th\<lparr>cg_states := states, cg_pc := CgCountStates\<rparr>, m)"
| "change_step digest ctxDone ownFirst order th (CgGenerateFailed err) m =
     (th\<lparr>cg_pc := CgReturned (Some (GmGenerationFailed err))\<rparr>,
      upd_gm_stats (\<lambda>st. st\<lparr>gst_GenerationErrors := i64 (gst_GenerationErrors st + 1)\<rparr>) m)"
| "change_step digest ctxDone ownFirst order th CgCountStates m =
     (th\<lparr>cg_pc := CgCache (cg_states th)\<rparr>,
      upd_gm_stats (\<lambda>st. st\<lparr>gst_GoalStatesGenerated := i64 (gst_GoalStatesGenerated st + int (length (cg_states th)))\<rparr>) m)"
| "change_step digest ctxDone ownFirst order th (CgCache []) m = (th\<lparr>cg_pc := CgReturned None\<rparr>, m)"
| "change_step digest ctxDone ownFirst order th (CgCache (s # ss)) m =
     (th\<lparr>cg_pc := CgCache ss\<rparr>, m\<lparr>gm_cache := gc_Set (gm_cache m) (gs_Fingerprint s) s\<rparr>)"
| "change_step digest ctxDone ownFirst order th (CgReturned r) m = (th, m)"

section \<open>The manager and its callers\<close>

record goalsys =
  gy_manager :: GoalStateManager
  gy_threads :: "cthread list"

datatype gy_action =
    GyStart bool
  | GyStop
  | GyGet "string list" string
  | GyChange "ConstructState option"
  | GyStep nat bool bool "string list"

fun cg_done :: "cg_pc \<Rightarrow> bool" where
  "cg_done (CgReturned r) = True"
| "cg_done _ = False"

fun gy_act :: "digest \<Rightarrow> gy_action \<Rightarrow> goalsys \<Rightarrow> goalsys option" where
  "gy_act digest (GyStart ctxDone) y = Some (y\<lparr>gy_manager := snd (gm_Start ctxDone (gy_manager y))\<rparr>)"
| "gy_act digest GyStop y = Some (y\<lparr>gy_manager := snd (gm_Stop (gy_manager y))\<rparr>)"
| "gy_act digest (GyGet order eniID) y = Some (y\<lparr>gy_manager := snd (GetGoalState order eniID (gy_manager y))\<rparr>)"
| "gy_act digest (GyChange construct) y =
     Some (y\<lparr>gy_threads := gy_threads y @ [change_begin construct (gy_manager y)]\<rparr>)"
| "gy_act digest (GyStep i ctxDone ownFirst order) y =
     (if i < length (gy_threads y) \<and> \<not> cg_done (cg_pc (gy_threads y ! i))
      then Some (case change_step digest ctxDone ownFirst order (gy_threads y ! i) (cg_pc (gy_threads y ! i)) (gy_manager y) of
                   (th, m) \<Rightarrow> \<lparr>gy_manager = m, gy_threads = (gy_threads y)[i := th]\<rparr>)
      else None)"

fun gy_run :: "digest \<Rightarrow> gy_action list \<Rightarrow> goalsys \<Rightarrow> goalsys option" where
  "gy_run digest [] y = Some y"
| "gy_run digest (a # as) y = (case gy_act digest a y of None \<Rightarrow> None | Some y' \<Rightarrow> gy_run digest as y')"

definition new_goalsys :: "constructs \<Rightarrow> goalsys" where
  "new_goalsys K = \<lparr>gy_manager = NewGoalStateManager K NewGoalStateCache, gy_threads = []\<rparr>"

text \<open>Every iteration of the construct map visits all of it.\<close>

fun gy_iterates :: "constructs \<Rightarrow> gy_action \<Rightarrow> bool" where
  "gy_iterates K (GyStep i ctxDone ownFirst order) \<longleftrightarrow> enumerates order K"
| "gy_iterates K _ \<longleftrightarrow> True"

inductive gy_reach :: "digest \<Rightarrow> constructs \<Rightarrow> goalsys \<Rightarrow> bool" for digest K where
  gy_init: "gy_reach digest K (new_goalsys K)"
| gy_next: "gy_reach digest K y \<Longrightarrow> gy_iterates K a \<Longrightarrow> gy_act digest a y = Some y' \<Longrightarrow> gy_reach digest K y'"

section \<open>What the counters and the cache stand for\<close>

text \<open>The calls that each counter has counted.\<close>

fun vnet_counted :: "cg_pc \<Rightarrow> bool" where
  "vnet_counted (CgGenerate agg) = True"
| "vnet_counted (CgGenerateFailed err) = True"
| "vnet_counted CgCountStates = True"
| "vnet_counted (CgCache ss) = True"
| "vnet_counted (CgReturned None) = True"
| "vnet_counted (CgReturned (Some (GmGenerationFailed err))) = True"
| "vnet_counted _ = False"

fun states_counted :: "cg_pc \<Rightarrow> bool" where
  "states_counted (CgCache ss) = True"
| "states_counted (CgReturned None) = True"
| "states_counted _ = False"

fun aggregation_failed :: "cg_pc \<Rightarrow> bool" where
  "aggregation_failed (CgReturned (Some (GmAggregationFailed err))) = True"
| "aggregation_failed _ = False"

fun generation_failed :: "cg_pc \<Rightarrow> bool" where
  "generation_failed (CgReturned (Some (GmGenerationFailed err))) = True"
| "generation_failed _ = False"

definition calls_that :: "(cg_pc \<Rightarrow> bool) \<Rightarrow> goalsys \<Rightarrow> nat" where
  "calls_that P y = length (filter (\<lambda>th. P (cg_pc th)) (gy_threads y))"

definition states_made :: "goalsys \<Rightarrow> nat" where
  "states_made y = sum_list (map (\<lambda>th. if states_counted (cg_pc th) then length (cg_states th) else 0) (gy_threads y))"

text \<open>The goal states that a call has put into the cache so far.\<close>

fun cached_by :: "cg_pc \<Rightarrow> PerENIGoalState list \<Rightarrow> PerENIGoalState list" where
  "cached_by (CgCache ss) states = take (length states - length ss) states"
| "cached_by (CgReturned None) states = states"
| "cached_by _ states = []"

definition known :: "digest \<Rightarrow> constructs \<Rightarrow> string \<Rightarrow> PerENIGoalState set" where
  "known digest K v = goal_state digest ` {c \<in> ran K. ct_VnetID c = v}"

section \<open>Invariant\<close>

definition total :: "(cthread \<Rightarrow> nat) \<Rightarrow> cthread list \<Rightarrow> nat" where
  "total w ths = sum_list (map w ths)"

definition one_if :: "(cg_pc \<Rightarrow> bool) \<Rightarrow> cthread \<Rightarrow> nat" where
  "one_if P th = (if P (cg_pc th) then 1 else 0)"

definition states_of :: "cthread \<Rightarrow> nat" where
  "states_of th = (if states_counted (cg_pc th) then length (cg_states th) else 0)"

lemma calls_that_total: "calls_that P y = total (one_if P) (gy_threads y)"
proof -
  have "length (filter (\<lambda>th. P (cg_pc th)) ths) = total (one_if P) ths" for ths
    by (induction ths) (simp_all add: total_def one_if_def)
  then show ?thesis by (simp add: calls_that_def)
qed

lemma states_made_total: "states_made y = total states_of (gy_threads y)"
  by (simp add: states_made_def total_def states_of_def [abs_def])

text \<open>A counter that grows by what the step of a call adds.\<close>

lemma counter_update:
  assumes "x = i64 (int (total w ths))" "i < length ths" "x' = i64 (x + d)" "int (w th) = int (w (ths ! i)) + d"
  shows "x' = i64 (int (total w (ths[i := th])))"
proof -
  have "total w (ths[i := th]) + w (ths ! i) = total w ths + w th"
    using sum_list_map_update [OF assms(2), of w th] by (simp add: total_def)
  then have "int (total w (ths[i := th])) = int (total w ths) + d" using assms(4) by linarith
  then show ?thesis using assms(1,3) by simp
qed

fun change_ok :: "digest \<Rightarrow> constructs \<Rightarrow> ConstructState option \<Rightarrow> PerENIGoalState list \<Rightarrow> cg_pc \<Rightarrow> bool" where
  "change_ok digest K construct states (CgAggregate v) \<longleftrightarrow> (\<exists>c. construct = Some c \<and> v = ct_VnetID c)"
| "change_ok digest K construct states (CgCountVnet agg) \<longleftrightarrow>
     (\<exists>c. construct = Some c \<and> ct_VnetID c \<noteq> '''' \<and> goal_state digest ` set (ag_Constructs agg) = known digest K (ct_VnetID c))"
| "change_ok digest K construct states (CgGenerate agg) \<longleftrightarrow>
     (\<exists>c. construct = Some c \<and> ct_VnetID c \<noteq> '''' \<and> goal_state digest ` set (ag_Constructs agg) = known digest K (ct_VnetID c))"
| "change_ok digest K construct states CgCountStates \<longleftrightarrow>
     (\<exists>c. construct = Some c \<and> ct_VnetID c \<noteq> '''' \<and> set states = known digest K (ct_VnetID c))"
| "change_ok digest K construct states (CgCache ss) \<longleftrightarrow>
     (\<exists>c. construct = Some c \<and> ct_VnetID c \<noteq> '''' \<and> set states = known digest K (ct_VnetID c)) \<and> (\<exists>done. states = done @ ss)"
| "change_ok digest K construct states (CgReturned None) \<longleftrightarrow>
     (\<exists>c. construct = Some c \<and> ct_VnetID c \<noteq> '''' \<and> set states = known digest K (ct_VnetID c))"
| "change_ok digest K construct states _ \<longleftrightarrow> True"

definition cached :: "cthread list \<Rightarrow> PerENIGoalState set" where
  "cached ths = (\<Union>th \<in> set ths. set (cached_by (cg_pc th) (cg_states th)))"

definition gm_counters_ok :: "goalsys \<Rightarrow> bool" where
  "gm_counters_ok y \<longleftrightarrow> (let st = gm_stats (gy_manager y); ths = gy_threads y in
     gst_VNETsProcessed st = i64 (int (total (one_if vnet_counted) ths)) \<and>
     gst_GoalStatesGenerated st = i64 (int (total states_of ths)) \<and>
     gst_AggregationErrors st = i64 (int (total (one_if aggregation_failed) ths)) \<and>
     gst_GenerationErrors st = i64 (int (total (one_if generation_failed) ths)))"

definition gy_inv :: "digest \<Rightarrow> constructs \<Rightarrow> goalsys \<Rightarrow> bool" where
  "gy_inv digest K y \<longleftrightarrow> gm_constructs (gy_manager y) = K \<and> gm_counters_ok y \<and>
     (\<forall>th \<in> set (gy_threads y). change_ok digest K (cg_construct th) (cg_states th) (cg_pc th)) \<and>
     (\<forall>f s. gc_cache (gm_cache (gy_manager y)) f = Some s \<longleftrightarrow> s \<in> cached (gy_threads y) \<and> gs_Fingerprint s = f) \<and>
     gc_Size (gc_stats (gm_cache (gy_manager y))) = int (card (dom (gc_cache (gm_cache (gy_manager y)))))"

lemma select_not_counted:
  "vnet_counted (select_contexts cd own c m) = False" "states_counted (select_contexts cd own c m) = False"
  "aggregation_failed (select_contexts cd own c m) = False" "generation_failed (select_contexts cd own c m) = False"
  "cached_by (select_contexts cd own c m) ss = []" "change_ok digest K c ss (select_contexts cd own c m)"
  by (simp_all add: select_contexts_def split: option.split)

text \<open>The digest has no collision among the known constructs.\<close>

definition separates :: "digest \<Rightarrow> constructs \<Rightarrow> bool" where
  "separates digest K \<longleftrightarrow> inj_on digest ((\<lambda>c. (ct_ID c, ct_VnetID c, ct_Status c, ct_ConfigVersion c)) ` ran K)"

lemma known_fingerprint:
  assumes "separates digest K" "s \<in> known digest K v" "s' \<in> known digest K v'" "gs_Fingerprint s = gs_Fingerprint s'"
  shows "s = s'"
proof -
  obtain c c' where c: "c \<in> ran K" "s = goal_state digest c" "c' \<in> ran K" "s' = goal_state digest c'" using assms(2,3) by (auto simp: known_def)
  have "(ct_ID c, ct_VnetID c, ct_Status c, ct_ConfigVersion c) = (ct_ID c', ct_VnetID c', ct_Status c', ct_ConfigVersion c')"
    using assms(4) c by (intro inj_onD [OF assms(1) [unfolded separates_def]]) (auto simp: goal_state_def)
  with c show ?thesis by (simp add: goal_state_def)
qed

lemma cached_by_vnet:
  assumes "change_ok digest K construct states pc" "s \<in> set (cached_by pc states)"
  shows "\<exists>c. construct = Some c \<and> s \<in> known digest K (ct_VnetID c)"
  using assms by (cases "(digest, K, construct, states, pc)" rule: change_ok.cases) (auto dest: in_set_takeD)

lemma cached_known:
  assumes "\<forall>th \<in> set ths. change_ok digest K (cg_construct th) (cg_states th) (cg_pc th)" "s \<in> cached ths"
  shows "\<exists>v. s \<in> known digest K v"
  using assms cached_by_vnet unfolding cached_def by blast

lemma cached_update:
  assumes "i < length ths" "set (cached_by (cg_pc (ths ! i)) (cg_states (ths ! i))) \<subseteq> set (cached_by (cg_pc th) (cg_states th))"
  shows "cached (ths[i := th]) = cached ths \<union> set (cached_by (cg_pc th) (cg_states th))"
proof -
  let ?rest = "set (take i ths) \<union> set (drop (Suc i) ths)"
  have "set ths = insert (ths ! i) ?rest" by (subst id_take_nth_drop [OF assms(1)]) simp
  moreover have "set (ths[i := th]) = insert th ?rest" using assms(1) by (simp add: upd_conv_take_nth_drop)
  ultimately show ?thesis unfolding cached_def using assms(2) by auto
qed

text \<open>One step of a call.\<close>

lemma change_step_stats:
  assumes "change_step digest cd own order th (cg_pc th) m = (th', m')" "\<not> cg_done (cg_pc th)" "gm_stats m = st" "gm_stats m' = st'"
    and fixed: "i64 (gst_VNETsProcessed st) = gst_VNETsProcessed st" "i64 (gst_GoalStatesGenerated st) = gst_GoalStatesGenerated st"
      "i64 (gst_AggregationErrors st) = gst_AggregationErrors st" "i64 (gst_GenerationErrors st) = gst_GenerationErrors st"
  shows "gst_VNETsProcessed st' = i64 (gst_VNETsProcessed st + (int (one_if vnet_counted th') - int (one_if vnet_counted th))) \<and>
    gst_GoalStatesGenerated st' = i64 (gst_GoalStatesGenerated st + (int (states_of th') - int (states_of th))) \<and>
    gst_AggregationErrors st' = i64 (gst_AggregationErrors st + (int (one_if aggregation_failed th') - int (one_if aggregation_failed th))) \<and>
    gst_GenerationErrors st' = i64 (gst_GenerationErrors st + (int (one_if generation_failed th') - int (one_if generation_failed th)))"
proof (cases "cg_pc th")
  case CgSelect
  then show ?thesis using assms by (auto simp: one_if_def states_of_def select_not_counted)
next
  case (CgAggregate v)
  then show ?thesis using assms by (auto simp: one_if_def states_of_def split: sum.splits)
next
  case (CgAggregateFailed e)
  then show ?thesis using assms by (auto simp: upd_gm_stats_def one_if_def states_of_def)
next
  case (CgCountVnet a)
  then show ?thesis using assms by (auto simp: upd_gm_stats_def one_if_def states_of_def)
next
  case (CgGenerate a)
  then show ?thesis using assms by (auto simp: one_if_def states_of_def split: sum.splits)
next
  case (CgGenerateFailed e)
  then show ?thesis using assms by (auto simp: upd_gm_stats_def one_if_def states_of_def)
next
  case CgCountStates
  then show ?thesis using assms by (auto simp: upd_gm_stats_def one_if_def states_of_def)
next
  case (CgCache ss)
  then show ?thesis using assms by (cases ss) (auto simp: one_if_def states_of_def)
qed (use assms(2) in simp)

lemma step_counters:
  assumes ok: "gm_counters_ok y" and i: "i < length (gy_threads y)"
    and step: "change_step digest cd own order (gy_threads y ! i) (cg_pc (gy_threads y ! i)) (gy_manager y) = (th, m')"
    and run: "\<not> cg_done (cg_pc (gy_threads y ! i))"
  shows "gm_counters_ok \<lparr>gy_manager = m', gy_threads = (gy_threads y)[i := th]\<rparr>"
proof -
  let ?st = "gm_stats (gy_manager y)"
  have x: "gst_VNETsProcessed ?st = i64 (int (total (one_if vnet_counted) (gy_threads y)))"
    "gst_GoalStatesGenerated ?st = i64 (int (total states_of (gy_threads y)))"
    "gst_AggregationErrors ?st = i64 (int (total (one_if aggregation_failed) (gy_threads y)))"
    "gst_GenerationErrors ?st = i64 (int (total (one_if generation_failed) (gy_threads y)))"
    using ok by (simp_all add: gm_counters_ok_def Let_def)
  then have "i64 (gst_VNETsProcessed ?st) = gst_VNETsProcessed ?st" "i64 (gst_GoalStatesGenerated ?st) = gst_GoalStatesGenerated ?st"
    "i64 (gst_AggregationErrors ?st) = gst_AggregationErrors ?st" "i64 (gst_GenerationErrors ?st) = gst_GenerationErrors ?st"
    by simp_all
  from change_step_stats [OF step run refl refl this] have d:
    "gst_VNETsProcessed (gm_stats m') = i64 (gst_VNETsProcessed ?st + (int (one_if vnet_counted th) - int (one_if vnet_counted (gy_threads y ! i))))"
    "gst_GoalStatesGenerated (gm_stats m') = i64 (gst_GoalStatesGenerated ?st + (int (states_of th) - int (states_of (gy_threads y ! i))))"
    "gst_AggregationErrors (gm_stats m') = i64 (gst_AggregationErrors ?st + (int (one_if aggregation_failed th) - int (one_if aggregation_failed (gy_threads y ! i))))"
    "gst_GenerationErrors (gm_stats m') = i64 (gst_GenerationErrors ?st + (int (one_if generation_failed th) - int (one_if generation_failed (gy_threads y ! i))))"
    by blast+
  have "int (w th) = int (w (gy_threads y ! i)) + (int (w th) - int (w (gy_threads y ! i)))" for w :: "cthread \<Rightarrow> nat" by simp
  note u = counter_update [OF x(1) i d(1) this] counter_update [OF x(2) i d(2) this] counter_update [OF x(3) i d(3) this]
    counter_update [OF x(4) i d(4) this]
  show ?thesis using u by (simp add: gm_counters_ok_def Let_def)
qed

lemma step_change_ok:
  assumes ok: "change_ok digest K (cg_construct th) (cg_states th) (cg_pc th)"
    and step: "change_step digest cd own order th (cg_pc th) m = (th', m')" and K: "gm_constructs m = K" "enumerates order K"
  shows "change_ok digest K (cg_construct th') (cg_states th') (cg_pc th') \<and> gm_constructs m' = K"
proof -
  have agg: "goal_state digest ` {c \<in> set (List.map_filter K order). ct_VnetID c = v} = known digest K v" for v
    using enumerates_values [OF K(2)] by (simp add: known_def)
  show ?thesis
    using ok step K(1) agg
    by (cases "(digest, cd, own, order, th, cg_pc th, m)" rule: change_step.cases)
      (auto simp: upd_gm_stats_def Aggregate_def Generate_def select_not_counted split: sum.splits if_splits)
qed

lemma step_cached_by:
  assumes ok: "change_ok digest K (cg_construct th) (cg_states th) (cg_pc th)"
    and step: "change_step digest cd own order th (cg_pc th) m = (th', m')" and run: "\<not> cg_done (cg_pc th)"
  obtains (set) s where "gm_cache m' = gc_Set (gm_cache m) (gs_Fingerprint s) s"
      "set (cached_by (cg_pc th') (cg_states th')) = insert s (set (cached_by (cg_pc th) (cg_states th)))"
    | (same) "gm_cache m' = gm_cache m" "cached_by (cg_pc th') (cg_states th') = cached_by (cg_pc th) (cg_states th)"
proof (cases "cg_pc th")
  case (CgCache ss)
  then obtain "done" where d: "cg_states th = done @ ss" using ok by auto
  show ?thesis
  proof (cases ss)
    case Nil
    with CgCache step d same show ?thesis by auto
  next
    case (Cons s ss')
    with CgCache step d have "cached_by (cg_pc th') (cg_states th') = done @ [s]" "cached_by (cg_pc th) (cg_states th) = done"
      "gm_cache m' = gc_Set (gm_cache m) (gs_Fingerprint s) s" by auto
    then show ?thesis by (intro set [of s]) auto
  qed
next
  case CgSelect
  with step same show ?thesis by (auto simp: select_not_counted)
next
  case (CgAggregate v)
  with step same show ?thesis by (auto split: sum.splits)
next
  case (CgGenerate a)
  with step same show ?thesis by (auto split: sum.splits)
next
  case CgCountStates
  with step same show ?thesis by (auto simp: upd_gm_stats_def)
qed (use step run same in \<open>auto simp: upd_gm_stats_def\<close>)

definition cache_ok :: "cthread list \<Rightarrow> GoalStateCache \<Rightarrow> bool" where
  "cache_ok ths c \<longleftrightarrow> (\<forall>f s. gc_cache c f = Some s \<longleftrightarrow> s \<in> cached ths \<and> gs_Fingerprint s = f) \<and>
     gc_Size (gc_stats c) = int (card (dom (gc_cache c)))"

lemma cache_ok_Set:
  assumes "separates digest K" "cache_ok ths c" "cached ths' = insert s (cached ths)" "\<forall>x \<in> cached ths'. \<exists>v. x \<in> known digest K v"
  shows "cache_ok ths' (gc_Set c (gs_Fingerprint s) s)"
proof -
  have same: "x = s" if x: "x \<in> cached ths'" "gs_Fingerprint x = gs_Fingerprint s" for x
  proof -
    have "s \<in> cached ths'" using assms(3) by simp
    then obtain v' where v': "s \<in> known digest K v'" using assms(4) by meson
    obtain v where v: "x \<in> known digest K v" using assms(4) x(1) by meson
    show ?thesis by (rule known_fingerprint [OF assms(1) v v' x(2)])
  qed
  have "gc_cache (gc_Set c (gs_Fingerprint s) s) f = Some x \<longleftrightarrow> x \<in> cached ths' \<and> gs_Fingerprint x = f" for f x
    using assms(2,3) same [of x] by (auto simp: gc_cache_Set cache_ok_def)
  then show ?thesis by (simp add: cache_ok_def) (simp add: gc_Set_def Let_def)
qed

lemma gy_inv_thread:
  assumes inv: "gy_inv digest K y" and inj: "separates digest K" and order: "enumerates order K"
    and i: "i < length (gy_threads y)" "\<not> cg_done (cg_pc (gy_threads y ! i))"
    and step: "change_step digest cd own order (gy_threads y ! i) (cg_pc (gy_threads y ! i)) (gy_manager y) = (th, m')"
  shows "gy_inv digest K \<lparr>gy_manager = m', gy_threads = (gy_threads y)[i := th]\<rparr>"
proof -
  let ?th = "gy_threads y ! i" and ?ths = "(gy_threads y)[i := th]"
  have K: "gm_constructs (gy_manager y) = K" and counters: "gm_counters_ok y" and ok: "cache_ok (gy_threads y) (gm_cache (gy_manager y))"
    and threads: "\<forall>th \<in> set (gy_threads y). change_ok digest K (cg_construct th) (cg_states th) (cg_pc th)"
    using inv unfolding gy_inv_def cache_ok_def by blast+
  have old: "change_ok digest K (cg_construct ?th) (cg_states ?th) (cg_pc ?th)" using threads i(1) by (meson nth_mem)
  have new: "change_ok digest K (cg_construct th) (cg_states th) (cg_pc th)" "gm_constructs m' = K"
    using step_change_ok [OF old step K order] by blast+
  have threads': "\<forall>th \<in> set ?ths. change_ok digest K (cg_construct th) (cg_states th) (cg_pc th)"
    using threads new(1) set_update_subset_insert [of "gy_threads y" i th] by blast
  have sub: "set (cached_by (cg_pc ?th) (cg_states ?th)) \<subseteq> cached (gy_threads y)"
    unfolding cached_def using nth_mem [OF i(1)] by blast
  have "cache_ok ?ths (gm_cache m')"
    using old step i(2)
  proof (cases rule: step_cached_by)
    case (set s)
    have "cached ?ths = insert s (cached (gy_threads y))"
      using cached_update [OF i(1), of th] set(2) sub by (simp add: subset_insertI) blast
    with cache_ok_Set [OF inj ok] cached_known [OF threads'] show ?thesis unfolding set(1) by blast
  next
    case same
    have "cached ?ths = cached (gy_threads y)"
      using cached_update [OF i(1), of th] same(2) sub by (simp add: Un_absorb2)
    with ok show ?thesis unfolding same(1) cache_ok_def by simp
  qed
  with new(2) threads' step_counters [OF counters i(1) step i(2)] show ?thesis by (simp add: gy_inv_def cache_ok_def)
qed

lemma GetGoalState_frame:
  "gm_constructs (snd (GetGoalState order eni m)) = gm_constructs m" "gm_cache (snd (GetGoalState order eni m)) = gm_cache m"
  "gst_VNETsProcessed (gm_stats (snd (GetGoalState order eni m))) = gst_VNETsProcessed (gm_stats m)"
  "gst_GoalStatesGenerated (gm_stats (snd (GetGoalState order eni m))) = gst_GoalStatesGenerated (gm_stats m)"
  "gst_AggregationErrors (gm_stats (snd (GetGoalState order eni m))) = gst_AggregationErrors (gm_stats m)"
  "gst_GenerationErrors (gm_stats (snd (GetGoalState order eni m))) = gst_GenerationErrors (gm_stats m)"
  by (auto simp: GetGoalState_def Let_def split: option.split)

lemma lifecycle_frame:
  "gm_constructs (snd (gm_Start cd m)) = gm_constructs m" "gm_constructs (snd (gm_Stop m)) = gm_constructs m"
  "gm_cache (snd (gm_Start cd m)) = gm_cache m" "gm_cache (snd (gm_Stop m)) = gm_cache m"
  "gm_stats (snd (gm_Start cd m)) = gm_stats m" "gm_stats (snd (gm_Stop m)) = gm_stats m"
  by (simp_all add: gm_Start_def gm_Stop_def)

lemma gy_inv_act:
  assumes inv: "gy_inv digest K y" and inj: "separates digest K" and it: "gy_iterates K a" and act: "gy_act digest a y = Some y'"
  shows "gy_inv digest K y'"
proof (cases a)
  case (GyStep i cd own order)
  with act obtain th m' where "i < length (gy_threads y)" "\<not> cg_done (cg_pc (gy_threads y ! i))"
    "change_step digest cd own order (gy_threads y ! i) (cg_pc (gy_threads y ! i)) (gy_manager y) = (th, m')"
    "y' = \<lparr>gy_manager = m', gy_threads = (gy_threads y)[i := th]\<rparr>"
    by (auto split: if_splits prod.splits)
  with gy_inv_thread [OF inv inj _, of order i cd own th m'] it GyStep show ?thesis by simp
next
  case (GyChange c)
  have "cached_by (cg_pc (change_begin c m)) (cg_states (change_begin c m)) = []" "one_if vnet_counted (change_begin c m) = 0"
    "one_if aggregation_failed (change_begin c m) = 0" "one_if generation_failed (change_begin c m) = 0" "states_of (change_begin c m) = 0"
    "change_ok digest K (cg_construct (change_begin c m)) (cg_states (change_begin c m)) (cg_pc (change_begin c m))" for m
    by (simp_all add: change_begin_def one_if_def states_of_def)
  with inv act GyChange show ?thesis by (auto simp: gy_inv_def gm_counters_ok_def cached_def total_def Let_def)
next
  case (GyGet order eni)
  with inv act show ?thesis by (auto simp: gy_inv_def gm_counters_ok_def GetGoalState_frame Let_def)
qed (use inv act in \<open>auto simp: gy_inv_def gm_counters_ok_def lifecycle_frame Let_def\<close>)

lemma gy_reach_inv: "gy_reach digest K y \<Longrightarrow> separates digest K \<Longrightarrow> gy_inv digest K y"
proof (induction rule: gy_reach.induct)
  case gy_init
  show ?case
    by (simp add: gy_inv_def gm_counters_ok_def new_goalsys_def NewGoalStateManager_def NewGoalStateCache_def cached_def total_def i64_def)
next
  case (gy_next y a y')
  then show ?case using gy_inv_act by blast
qed

lemma gy_run_reach:
  "gy_run digest as y = Some y' \<Longrightarrow> list_all (gy_iterates K) as \<Longrightarrow> gy_reach digest K y \<Longrightarrow> gy_reach digest K y'"
proof (induction "as" arbitrary: y)
  case (Cons a "as")
  then obtain y1 where "gy_act digest a y = Some y1" "gy_run digest as y1 = Some y'" by (auto split: option.splits)
  with Cons.IH [of y1] Cons.prems(2,3) gy_next show ?case by auto
qed simp

section \<open>One call alone is \<open>HandleConstructChange\<close>\<close>

definition alone :: "digest \<Rightarrow> string list \<Rightarrow> goalsys \<Rightarrow> goalsys \<Rightarrow> bool" where
  "alone digest order y y' \<longleftrightarrow> (\<exists>bs. gy_run digest bs y = Some y' \<and> (\<forall>b \<in> set bs. \<exists>i cd own. b = GyStep i cd own order))"

lemma alone_refl: "alone digest order y y"
  unfolding alone_def by (intro exI [of _ "[]"]) simp

text \<open>The last call takes a step.\<close>

lemma alone_step:
  assumes "change_step digest cd own order th (cg_pc th) m = (th', m')" "\<not> cg_done (cg_pc th)"
    and "alone digest order \<lparr>gy_manager = m', gy_threads = ths @ [th']\<rparr> y'"
  shows "alone digest order \<lparr>gy_manager = m, gy_threads = ths @ [th]\<rparr> y'"
proof -
  obtain bs where "gy_run digest bs \<lparr>gy_manager = m', gy_threads = ths @ [th']\<rparr> = Some y'"
    "\<forall>b \<in> set bs. \<exists>i cd own. b = GyStep i cd own order" using assms(3) by (auto simp: alone_def)
  then show ?thesis unfolding alone_def using assms(1,2)
    by (intro exI [of _ "GyStep (length ths) cd own order # bs"]) simp
qed

lemma alone_cache:
  "cg_pc th = CgCache ss \<Longrightarrow>
     alone digest order \<lparr>gy_manager = m, gy_threads = ths @ [th]\<rparr>
       \<lparr>gy_manager = m\<lparr>gm_cache := foldl (\<lambda>k s. gc_Set k (gs_Fingerprint s) s) (gm_cache m) ss\<rparr>,
        gy_threads = ths @ [th\<lparr>cg_pc := CgReturned None\<rparr>]\<rparr>"
proof (induction ss arbitrary: th m)
  case Nil
  then show ?case
    by (intro alone_step [of digest False False order th m "th\<lparr>cg_pc := CgReturned None\<rparr>" m ths]) (simp_all add: alone_refl)
next
  case (Cons s ss)
  have "alone digest order \<lparr>gy_manager = m\<lparr>gm_cache := gc_Set (gm_cache m) (gs_Fingerprint s) s\<rparr>, gy_threads = ths @ [th\<lparr>cg_pc := CgCache ss\<rparr>]\<rparr>
      \<lparr>gy_manager = m\<lparr>gm_cache := foldl (\<lambda>k s. gc_Set k (gs_Fingerprint s) s) (gm_cache m) (s # ss)\<rparr>,
        gy_threads = ths @ [th\<lparr>cg_pc := CgReturned None\<rparr>]\<rparr>"
    using Cons.IH [of "th\<lparr>cg_pc := CgCache ss\<rparr>" "m\<lparr>gm_cache := gc_Set (gm_cache m) (gs_Fingerprint s) s\<rparr>"] by simp
  then show ?case using Cons.prems
    by (intro alone_step [of digest False False order th m "th\<lparr>cg_pc := CgCache ss\<rparr>" "m\<lparr>gm_cache := gc_Set (gm_cache m) (gs_Fingerprint s) s\<rparr>" ths]) simp_all
qed

text \<open>The last call returns \<open>r\<close> and leaves the manager \<open>m'\<close>.\<close>

definition ends :: "digest \<Rightarrow> string list \<Rightarrow> cthread list \<Rightarrow> cthread \<Rightarrow> GoalStateManager \<Rightarrow> gm_error option \<Rightarrow> GoalStateManager \<Rightarrow> bool" where
  "ends digest order ths th m r m' \<longleftrightarrow>
     (\<exists>th'. alone digest order \<lparr>gy_manager = m, gy_threads = ths @ [th]\<rparr> \<lparr>gy_manager = m', gy_threads = ths @ [th']\<rparr> \<and>
        cg_pc th' = CgReturned r \<and> cg_construct th' = cg_construct th)"

lemma ends_done: "cg_pc th = CgReturned r \<Longrightarrow> ends digest order ths th m r m"
  unfolding ends_def by (intro exI [of _ th]) (simp add: alone_refl)

lemma ends_step:
  assumes "ends digest order ths th' m' r m''" "change_step digest cd own order th (cg_pc th) m = (th', m')"
    and "\<not> cg_done (cg_pc th)" "cg_construct th' = cg_construct th"
  shows "ends digest order ths th m r m''"
  using assms alone_step [OF assms(2,3)] unfolding ends_def by metis

lemma ends_cache:
  "cg_pc th = CgCache ss \<Longrightarrow>
     ends digest order ths th m None (m\<lparr>gm_cache := foldl (\<lambda>k s. gc_Set k (gs_Fingerprint s) s) (gm_cache m) ss\<rparr>)"
  unfolding ends_def using alone_cache [of th ss digest order m ths] by (intro exI [of _ "th\<lparr>cg_pc := CgReturned None\<rparr>"]) simp

lemma ends_generate:
  assumes pc: "cg_pc th = CgGenerate agg"
  shows "ends digest order ths th m
    (case Generate digest cd (Some agg) of Inl err \<Rightarrow> Some (GmGenerationFailed err) | Inr states \<Rightarrow> None)
    (case Generate digest cd (Some agg) of
       Inl err \<Rightarrow> upd_gm_stats (\<lambda>st. st\<lparr>gst_GenerationErrors := i64 (gst_GenerationErrors st + 1)\<rparr>) m
     | Inr states \<Rightarrow>
         (upd_gm_stats (\<lambda>st. st\<lparr>gst_GoalStatesGenerated := i64 (gst_GoalStatesGenerated st + int (length states))\<rparr>) m)
           \<lparr>gm_cache := foldl (\<lambda>k s. gc_Set k (gs_Fingerprint s) s) (gm_cache m) states\<rparr>)"
proof (cases "Generate digest cd (Some agg)")
  case (Inl err)
  let ?m = "upd_gm_stats (\<lambda>st. st\<lparr>gst_GenerationErrors := i64 (gst_GenerationErrors st + 1)\<rparr>) m"
  have "ends digest order ths (th\<lparr>cg_pc := CgReturned (Some (GmGenerationFailed err))\<rparr>) ?m (Some (GmGenerationFailed err)) ?m"
    by (rule ends_done) simp
  then have "ends digest order ths (th\<lparr>cg_pc := CgGenerateFailed err\<rparr>) m (Some (GmGenerationFailed err)) ?m"
    by (rule ends_step [where cd = False and own = False]) simp_all
  then have "ends digest order ths th m (Some (GmGenerationFailed err)) ?m"
    by (rule ends_step [where cd = cd and own = False]) (simp_all add: pc Inl)
  then show ?thesis by (simp add: Inl)
next
  case (Inr states)
  let ?m = "upd_gm_stats (\<lambda>st. st\<lparr>gst_GoalStatesGenerated := i64 (gst_GoalStatesGenerated st + int (length states))\<rparr>) m"
  let ?m' = "?m\<lparr>gm_cache := foldl (\<lambda>k s. gc_Set k (gs_Fingerprint s) s) (gm_cache ?m) states\<rparr>"
  have "ends digest order ths (th\<lparr>cg_states := states, cg_pc := CgCache states\<rparr>) ?m None ?m'"
    by (rule ends_cache) simp
  then have "ends digest order ths (th\<lparr>cg_states := states, cg_pc := CgCountStates\<rparr>) m None ?m'"
    by (rule ends_step [where cd = False and own = False]) simp_all
  then have "ends digest order ths th m None ?m'"
    by (rule ends_step [where cd = cd and own = False]) (simp_all add: pc Inr)
  moreover have "gm_cache ?m = gm_cache m" by (simp add: upd_gm_stats_def)
  ultimately show ?thesis by (simp add: Inr)
qed

lemma ends_aggregate:
  assumes pc: "cg_pc th = CgAggregate (ct_VnetID c)" and ctx: "gm_running m" "\<not> gm_ctxDone m" "\<not> cd 0"
  shows "ends digest order ths th m (fst (HandleConstructChange digest order cd own (Some c) m))
    (snd (HandleConstructChange digest order cd own (Some c) m))"
proof (cases "Aggregate order (cd 1) (gm_constructs m) (ct_VnetID c)")
  case (Inl err)
  let ?m = "upd_gm_stats (\<lambda>st. st\<lparr>gst_AggregationErrors := i64 (gst_AggregationErrors st + 1)\<rparr>) m"
  have "ends digest order ths (th\<lparr>cg_pc := CgReturned (Some (GmAggregationFailed err))\<rparr>) ?m (Some (GmAggregationFailed err)) ?m"
    by (rule ends_done) simp
  then have "ends digest order ths (th\<lparr>cg_pc := CgAggregateFailed err\<rparr>) m (Some (GmAggregationFailed err)) ?m"
    by (rule ends_step [where cd = False and own = False]) simp_all
  then have "ends digest order ths th m (Some (GmAggregationFailed err)) ?m"
    by (rule ends_step [where cd = "cd 1" and own = False]) (simp_all add: pc Inl del: One_nat_def)
  then show ?thesis using ctx Inl by (simp add: HandleConstructChange_def handle_change_def upd_gm_stats_def Let_def del: One_nat_def)
next
  case (Inr agg)
  let ?m = "upd_gm_stats (\<lambda>st. st\<lparr>gst_VNETsProcessed := i64 (gst_VNETsProcessed st + 1)\<rparr>) m"
  let ?r = "HandleConstructChange digest order cd own (Some c) m"
  have "ends digest order ths (th\<lparr>cg_pc := CgGenerate agg\<rparr>) ?m (fst ?r) (snd ?r)"
    using ends_generate [of "th\<lparr>cg_pc := CgGenerate agg\<rparr>" agg digest order ths ?m "cd 2"] ctx Inr
    by (cases "Generate digest (cd 2) (Some agg)")
      (simp_all add: HandleConstructChange_def handle_change_def upd_gm_stats_def Let_def del: One_nat_def)
  then have "ends digest order ths (th\<lparr>cg_pc := CgCountVnet agg\<rparr>) m (fst ?r) (snd ?r)"
    by (rule ends_step [where cd = False and own = False]) simp_all
  then show ?thesis
    by (rule ends_step [where cd = "cd 1" and own = False]) (simp_all add: pc Inr del: One_nat_def)
qed

lemma ends_change:
  "ends digest order ths (change_begin construct m) m (fst (HandleConstructChange digest order cd own construct m))
     (snd (HandleConstructChange digest order cd own construct m))"
proof (cases "gm_running m")
  case False
  then have "HandleConstructChange digest order cd own construct m = (Some GmNotRunning, m)"
    by (simp add: HandleConstructChange_def handle_change_def)
  moreover have "cg_pc (change_begin construct m) = CgReturned (Some GmNotRunning)" using False by (simp add: change_begin_def)
  ultimately show ?thesis by (simp add: ends_done)
next
  case True
  let ?th = "(change_begin construct m)\<lparr>cg_pc := select_contexts (cd 0) own construct m\<rparr>"
  let ?r = "HandleConstructChange digest order cd own construct m"
  have "ends digest order ths ?th m (fst ?r) (snd ?r)"
  proof (cases "\<not> cd 0 \<and> \<not> gm_ctxDone m \<and> construct \<noteq> None")
    case go: True
    then obtain c where "construct = Some c" by auto
    then show ?thesis using ends_aggregate [of ?th c m cd digest order ths own] go True by (simp add: select_contexts_def)
  next
    case False
    then have "select_contexts (cd 0) own construct m = CgReturned (fst ?r)" "snd ?r = m"
      using True by (auto simp: select_contexts_def HandleConstructChange_def handle_change_def)
    then show ?thesis using ends_done [of ?th "fst ?r" digest order ths m] by simp
  qed
  then show ?thesis
    by (rule ends_step [where cd = "cd 0" and own = own]) (use True in \<open>simp_all add: change_begin_def\<close>)
qed

text \<open>A call that runs alone in a manager that was just started.\<close>

lemma one_change_reached:
  assumes K: "K = [''e'' \<mapsto> example_construct ''e'' 1]"
  shows "\<exists>y th. gy_reach digest K y \<and> gy_threads y = [th] \<and> cg_pc th = CgReturned None \<and> cg_construct th = Some (example_construct ''x'' 9)"
proof -
  let ?y = "\<lparr>gy_manager = example_manager K, gy_threads = []\<rparr>" and ?c = "Some (example_construct ''x'' 9)"
  have "gy_act digest (GyStart False) (new_goalsys K) = Some ?y" by (simp add: new_goalsys_def example_manager_def)
  then have y: "gy_reach digest K ?y" using gy_next [OF gy_init, of K "GyStart False"] by simp
  have m: "gm_running (example_manager K)" "\<not> gm_ctxDone (example_manager K)" "ct_VnetID (example_construct ''x'' 9) \<noteq> []"
    by (simp_all add: example_manager_simps)
  have "gy_act digest (GyChange ?c) ?y = Some \<lparr>gy_manager = example_manager K, gy_threads = [change_begin ?c (example_manager K)]\<rparr>"
    by simp
  from gy_next [OF y _ this] have y1: "gy_reach digest K \<lparr>gy_manager = example_manager K, gy_threads = [change_begin ?c (example_manager K)]\<rparr>"
    by simp
  obtain bs th where *: "gy_run digest bs \<lparr>gy_manager = example_manager K, gy_threads = [change_begin ?c (example_manager K)]\<rparr> =
      Some \<lparr>gy_manager = snd (HandleConstructChange digest [''e''] (\<lambda>_. False) False ?c (example_manager K)), gy_threads = [th]\<rparr>"
    "cg_pc th = CgReturned None" "cg_construct th = ?c" "\<forall>b \<in> set bs. \<exists>i c own. b = GyStep i c own [''e'']"
    using ends_change [of digest "[''e'']" "[]" ?c "example_manager K" "\<lambda>_. False" False] HandleConstructChange_ok [OF m, of digest "[''e'']" False]
    by (auto simp: ends_def alone_def change_begin_def)
  have "list_all (gy_iterates K) bs" using *(4) by (auto simp: list_all_iff K enumerates_def)
  from gy_run_reach [OF *(1) this y1] *(2,3) show ?thesis by (intro exI conjI) auto
qed

section \<open>Properties\<close>

text \<open>C24: Construct changes that are handled concurrently, with any lookups, starts and stops between their steps, are counted exactly and
  cached exactly. The four counters are the numbers of calls that aggregated, of goal states generated, and of calls that failed in either
  phase, in 64-bit arithmetic; a call that returned without an error has cached the goal state of every known construct of its virtual network;
  every cached goal state is that of a known construct of a virtual network for which a call was made, under its
  fingerprint; and the reported size is the number of entries. The digest is assumed to give no two known constructs that differ in a field it
  covers the same fingerprint.\<close>

theorem goal_changes_exact:
  assumes "gy_reach digest K y" and "inj_on digest ((\<lambda>c. (ct_ID c, ct_VnetID c, ct_Status c, ct_ConfigVersion c)) ` ran K)"
  shows "gst_VNETsProcessed (gm_stats (gy_manager y)) = i64 (int (calls_that vnet_counted y)) \<and>
    gst_GoalStatesGenerated (gm_stats (gy_manager y)) = i64 (int (states_made y)) \<and>
    gst_AggregationErrors (gm_stats (gy_manager y)) = i64 (int (calls_that aggregation_failed y)) \<and>
    gst_GenerationErrors (gm_stats (gy_manager y)) = i64 (int (calls_that generation_failed y)) \<and>
    (\<forall>th \<in> set (gy_threads y). cg_pc th = CgReturned None \<longrightarrow>
       (\<exists>c. cg_construct th = Some c \<and>
         (\<forall>c' \<in> ran K. ct_VnetID c' = ct_VnetID c \<longrightarrow>
            gc_cache (gm_cache (gy_manager y)) (gs_Fingerprint (goal_state digest c')) = Some (goal_state digest c')))) \<and>
    (\<forall>f s. gc_cache (gm_cache (gy_manager y)) f = Some s \<longrightarrow>
       gs_Fingerprint s = f \<and> (\<exists>th \<in> set (gy_threads y). \<exists>c c'. cg_construct th = Some c \<and> c' \<in> ran K \<and>
         ct_VnetID c' = ct_VnetID c \<and> s = goal_state digest c')) \<and>
    gc_Size (gc_stats (gm_cache (gy_manager y))) = int (card (dom (gc_cache (gm_cache (gy_manager y)))))"
proof -
  let ?cache = "gc_cache (gm_cache (gy_manager y))"
  have inv: "gy_inv digest K y" by (rule gy_reach_inv [OF assms [folded separates_def]])
  then have cache: "?cache f = Some s \<longleftrightarrow> s \<in> cached (gy_threads y) \<and> gs_Fingerprint s = f" for f s
    unfolding gy_inv_def by blast
  have ok: "change_ok digest K (cg_construct th) (cg_states th) (cg_pc th)" if "th \<in> set (gy_threads y)" for th
    using inv that unfolding gy_inv_def by blast
  have "\<exists>c. cg_construct th = Some c \<and> (\<forall>c' \<in> ran K. ct_VnetID c' = ct_VnetID c \<longrightarrow>
      ?cache (gs_Fingerprint (goal_state digest c')) = Some (goal_state digest c'))"
    if th: "th \<in> set (gy_threads y)" "cg_pc th = CgReturned None" for th
  proof -
    obtain c where c: "cg_construct th = Some c" "set (cg_states th) = known digest K (ct_VnetID c)" using ok [OF th(1)] th(2) by auto
    have "set (cg_states th) \<subseteq> cached (gy_threads y)" unfolding cached_def using th by force
    with c show ?thesis unfolding cache by (auto simp: known_def)
  qed
  moreover have "\<exists>th \<in> set (gy_threads y). \<exists>c c'. cg_construct th = Some c \<and> c' \<in> ran K \<and> ct_VnetID c' = ct_VnetID c \<and>
      s = goal_state digest c'" if s: "s \<in> cached (gy_threads y)" for s
  proof -
    obtain th where th: "th \<in> set (gy_threads y)" "s \<in> set (cached_by (cg_pc th) (cg_states th))" using s by (auto simp: cached_def)
    obtain c where "cg_construct th = Some c" "s \<in> known digest K (ct_VnetID c)" using cached_by_vnet [OF ok [OF th(1)] th(2)] by blast
    with th(1) show ?thesis by (auto simp: known_def)
  qed
  moreover have "gm_counters_ok y" "gc_Size (gc_stats (gm_cache (gy_manager y))) = int (card (dom ?cache))"
    using inv unfolding gy_inv_def by blast+
  ultimately show ?thesis
    using cache by (auto simp: gm_counters_ok_def calls_that_total states_made_total Let_def)
qed

theorem goal_changes_exact_witness:
  "\<exists>y. gy_reach example_digest [''e'' \<mapsto> example_construct ''e'' 1] y \<and> gst_VNETsProcessed (gm_stats (gy_manager y)) = 1 \<and>
     gc_cache (gm_cache (gy_manager y)) (gs_Fingerprint (goal_state example_digest (example_construct ''e'' 1))) =
       Some (goal_state example_digest (example_construct ''e'' 1))"
proof -
  let ?K = "[''e'' \<mapsto> example_construct ''e'' 1]"
  obtain y th where y: "gy_reach example_digest ?K y" and th: "gy_threads y = [th]" "cg_pc th = CgReturned None"
    "cg_construct th = Some (example_construct ''x'' 9)"
    using one_change_reached [OF refl] by blast
  have "gst_VNETsProcessed (gm_stats (gy_manager y)) = 1"
    using goal_changes_exact [OF y inj_on_subset [OF inj_example_digest subset_UNIV]] th by (simp add: calls_that_def i64_def)
  moreover have "gc_cache (gm_cache (gy_manager y)) (gs_Fingerprint (goal_state example_digest (example_construct ''e'' 1))) =
       Some (goal_state example_digest (example_construct ''e'' 1))"
    using goal_changes_exact [OF y inj_on_subset [OF inj_example_digest subset_UNIV]] th by (simp add: example_construct_def)
  ultimately show ?thesis using y by blast
qed

text \<open>The calls as threads refine the sequential \<open>HandleConstructChange\<close>. From any state of the manager and any calls under way,
  whatever the handler computes (its error or success, the counters, the cache) on any branch is computed by a new call whose steps
  nobody interrupts, for every choice of the iteration order, of the moments at which the contexts are done, and of the select.\<close>

lemma change_alone:
  "\<exists>bs th. gy_run digest (GyChange construct # bs) y =
      Some \<lparr>gy_manager = snd (HandleConstructChange digest order cd own construct (gy_manager y)), gy_threads = gy_threads y @ [th]\<rparr> \<and>
    cg_pc th = CgReturned (fst (HandleConstructChange digest order cd own construct (gy_manager y))) \<and> cg_construct th = construct \<and>
    list_all (\<lambda>b. \<exists>i c own. b = GyStep i c own order) bs"
proof -
  have y: "y\<lparr>gy_threads := ths\<rparr> = \<lparr>gy_manager = gy_manager y, gy_threads = ths\<rparr>" for ths by (cases y) simp
  have "cg_construct (change_begin construct m) = construct" for m by (simp add: change_begin_def)
  with ends_change [of digest order "gy_threads y" construct "gy_manager y" cd own]
  obtain bs th where "gy_run digest bs \<lparr>gy_manager = gy_manager y, gy_threads = gy_threads y @ [change_begin construct (gy_manager y)]\<rparr> =
      Some \<lparr>gy_manager = snd (HandleConstructChange digest order cd own construct (gy_manager y)), gy_threads = gy_threads y @ [th]\<rparr>"
    "cg_pc th = CgReturned (fst (HandleConstructChange digest order cd own construct (gy_manager y)))" "cg_construct th = construct"
    "\<forall>b \<in> set bs. \<exists>i c own. b = GyStep i c own order"
    by (auto simp: ends_def alone_def)
  then show ?thesis by (intro exI [of _ bs] exI [of _ th]) (simp add: y list_all_iff)
qed

end
