(* ===== verification/Go_Float.thy ===== *)
theory Go_Float
  imports Prelude Complex_Main
begin

text \<open>
  Floating-point numbers are modelled by rationals, without rounding. This theory holds the conversion
  between durations and numbers that both retry policies, the token bucket and the health monitor use.
\<close>

text \<open>Conversion of a number to a duration: truncation towards zero, for numbers within range.\<close>

definition to_duration :: "rat \<Rightarrow> duration" where
  "to_duration x = (if x < 0 then - \<lfloor>- x\<rfloor> else \<lfloor>x\<rfloor>)"

text \<open>The method \<open>Seconds\<close> of a duration.\<close>

definition duration_Seconds :: "duration \<Rightarrow> rat" where
  "duration_Seconds d = of_int d / of_int Second"

lemma to_duration_bounds:
  "0 \<le> x \<Longrightarrow> 0 \<le> to_duration x \<and> of_int (to_duration x) \<le> x \<and> x < of_int (to_duration x) + 1"
  by (simp add: to_duration_def floor_less_iff) linarith

lemma to_duration_abs: "\<bar>of_int (to_duration x)\<bar> \<le> \<bar>x\<bar>"
proof (cases "x < 0")
  case True
  then have "0 \<le> (of_int \<lfloor>- x\<rfloor> :: rat)" "of_int \<lfloor>- x\<rfloor> \<le> - x" by simp_all
  with True show ?thesis by (simp add: to_duration_def)
qed (simp add: to_duration_def)

lemma duration_Seconds_mono: "d \<le> e \<Longrightarrow> duration_Seconds d \<le> duration_Seconds e"
  by (simp add: duration_Seconds_def Second_def)

lemma duration_Seconds_nonneg: "0 \<le> d \<Longrightarrow> 0 \<le> duration_Seconds d"
  by (simp add: duration_Seconds_def Second_def)

lemma duration_Seconds_add: "duration_Seconds (d + e) = duration_Seconds d + duration_Seconds e"
  by (simp add: duration_Seconds_def add_divide_distrib)

end
