(* ===== verification/Metric_Calls.thy ===== *)
theory Metric_Calls
  imports Go_Float
begin

text \<open>
  The calls that both programs make to the Prometheus client library. A metric is seen by how it was declared, and an operation
  of the program by the sequence of calls it makes. The library panics when the number of label values differs from the number of
  label names declared, which is what \<open>call_ok\<close> rules out together with a call to a metric of another kind. The two locales are the
  contract of code that records metrics: all of its calls are acceptable, and, where it also keeps its own counters, they agree with
  the number of increments it asked for.
\<close>

datatype metric_kind = KCounter | KHistogram | KGauge

record metric =
  mt_kind :: metric_kind
  mt_namespace :: string
  mt_name :: string
  mt_help :: string
  mt_labels :: "string list"
  mt_buckets :: "rat list"

datatype metric_call =
    MInc metric "string list"
  | MAdd metric "string list" rat
  | MObserve metric "string list" rat
  | MSet metric "string list" rat

fun call_ok :: "metric_call \<Rightarrow> bool" where
  "call_ok (MInc m ls) \<longleftrightarrow> mt_kind m = KCounter \<and> length ls = length (mt_labels m)"
| "call_ok (MAdd m ls v) \<longleftrightarrow> mt_kind m = KCounter \<and> length ls = length (mt_labels m) \<and> 0 \<le> v"
| "call_ok (MObserve m ls v) \<longleftrightarrow> mt_kind m = KHistogram \<and> length ls = length (mt_labels m)"
| "call_ok (MSet m ls v) \<longleftrightarrow> mt_kind m = KGauge \<and> length ls = length (mt_labels m)"

fun is_inc :: "metric \<Rightarrow> metric_call \<Rightarrow> bool" where
  "is_inc m (MInc m' ls) \<longleftrightarrow> m = m'"
| "is_inc m _ \<longleftrightarrow> False"

definition incs :: "metric \<Rightarrow> metric_call list \<Rightarrow> nat" where
  "incs m cs = length (filter (is_inc m) cs)"

text \<open>A history of operations, with all calls in order.\<close>

fun emit_all :: "('o \<Rightarrow> 's \<Rightarrow> metric_call list \<times> 's) \<Rightarrow> 'o list \<Rightarrow> 's \<Rightarrow> metric_call list \<times> 's" where
  "emit_all step [] s = ([], s)"
| "emit_all step (opn # ops) s =
     (let (cs, s1) = step opn s; (ds, s2) = emit_all step ops s1 in (cs @ ds, s2))"

lemma incs_simps [simp]: "incs m [] = 0" "incs m (cs @ ds) = incs m cs + incs m ds"
  by (simp_all add: incs_def)

locale emitter =
  fixes step :: "'o \<Rightarrow> 's \<Rightarrow> metric_call list \<times> 's"
    and inv :: "'s \<Rightarrow> bool"
  assumes step_inv: "inv s \<Longrightarrow> inv (snd (step opn s))"
    and step_calls: "inv s \<Longrightarrow> c \<in> set (fst (step opn s)) \<Longrightarrow> call_ok c"
begin

lemma emit_all_inv: "inv s \<Longrightarrow> inv (snd (emit_all step ops s))"
  by (induction ops arbitrary: s) (simp_all add: case_prod_beta Let_def step_inv)

lemma emit_all_calls: "inv s \<Longrightarrow> c \<in> set (fst (emit_all step ops s)) \<Longrightarrow> call_ok c"
proof (induction ops arbitrary: s)
  case (Cons opn ops)
  obtain cs s1 where 1: "step opn s = (cs, s1)" by (cases "step opn s")
  obtain ds s2 where 2: "emit_all step ops s1 = (ds, s2)" by (cases "emit_all step ops s1")
  have "inv s1" using step_inv [OF Cons.prems(1), of opn] 1 by simp
  with Cons.IH [of s1] Cons.prems step_calls [OF Cons.prems(1), of c opn] 1 2 show ?case by auto
qed simp

end

locale counting_emitter = emitter +
  fixes count :: "'k \<Rightarrow> 's \<Rightarrow> int"
    and counted :: "'k \<Rightarrow> 's \<Rightarrow> metric"
  assumes step_count: "inv s \<Longrightarrow> count k (snd (step opn s)) = i64 (count k s + int (incs (counted k s) (fst (step opn s))))"
    and step_counted: "counted k (snd (step opn s)) = counted k s"
begin

lemma emit_all_count:
  "inv s \<Longrightarrow> count k s = i64 n \<Longrightarrow>
     count k (snd (emit_all step ops s)) = i64 (n + int (incs (counted k s) (fst (emit_all step ops s))))"
proof (induction ops arbitrary: s n)
  case (Cons opn ops)
  obtain cs s1 where 1: "step opn s = (cs, s1)" by (cases "step opn s")
  obtain ds s2 where 2: "emit_all step ops s1 = (ds, s2)" by (cases "emit_all step ops s1")
  have i: "inv s1" "counted k s1 = counted k s"
    using step_inv [OF Cons.prems(1), of opn] step_counted [of k opn s] 1 by auto
  have c: "count k s1 = i64 (n + int (incs (counted k s) cs))"
    using step_count [OF Cons.prems(1), of k opn] Cons.prems(2) 1 by simp
  from Cons.IH [OF i(1) c] i(2) 1 2 show ?case by (simp add: Let_def ac_simps)
qed simp

end

end
