(* ===== verification/FM_Observability.thy ===== *)
theory FM_Observability
  imports Metric_Calls FM_Pipeline
begin

text \<open>
  Observability of the fabric manager: \<^verbatim>\<open>context.go\<close>, \<^verbatim>\<open>logging.go\<close>, \<^verbatim>\<open>metrics.go\<close> and \<^verbatim>\<open>tracing.go\<close> of
  \<^verbatim>\<open>src/FM/pkg/observability\<close>, and the package variables of the packages cm, gm and dal through which they reach
  it (\<^verbatim>\<open>logging.go\<close>, \<^verbatim>\<open>metrics.go\<close> and \<^verbatim>\<open>tracing.go\<close> there). The zap, Prometheus and OpenTelemetry libraries are seen by the
  calls made to them; random numbers, the formatting of a value by \<open>%v\<close> and the outcomes of the libraries' constructors are
  arguments. The last part says how the counters of the event pipeline and the metrics it asks for agree.
\<close>

section \<open>Trace identifiers\<close>

text \<open>A context carries values under keys, the innermost first; \<open>None\<close> is a value that is no string.\<close>

type_synonym fm_ctx = "(string \<times> string option) list"

definition traceIDKey :: string where
  "traceIDKey = ''trace_id''"

definition WithTraceID :: "fm_ctx \<Rightarrow> string \<Rightarrow> fm_ctx" where
  "WithTraceID ctx traceID = (traceIDKey, Some traceID) # ctx"

definition hex_char :: "nat \<Rightarrow> char" where
  "hex_char d = char_of (if d < 10 then 48 + d else 87 + d)"

fun show_hex :: "nat \<Rightarrow> string" where
  "show_hex n = (if n < 16 then [hex_char n] else show_hex (n div 16) @ [hex_char (n mod 16)])"

declare show_hex.simps [simp del]

text \<open>The verb \<open>%016x\<close> applied to \<open>rand.Int63()\<close>, whose outcome is \<open>r\<close>.\<close>

definition generateTraceID :: "nat \<Rightarrow> string" where
  "generateTraceID r = (let h = show_hex r in replicate (16 - length h) CHR ''0'' @ h)"

definition TraceIDFromContext :: "nat \<Rightarrow> fm_ctx \<Rightarrow> string" where
  "TraceIDFromContext r ctx =
     (case map_of ctx traceIDKey of
        Some (Some traceID) \<Rightarrow> if traceID \<noteq> '''' then traceID else generateTraceID r
      | _ \<Rightarrow> generateTraceID r)"

text \<open>Reading a hexadecimal number back.\<close>

definition hex_value :: "char \<Rightarrow> nat" where
  "hex_value c = (if of_char c < (58::nat) then of_char c - 48 else of_char c - 87)"

definition parse_hex :: "string \<Rightarrow> nat" where
  "parse_hex s = foldl (\<lambda>n c. 16 * n + hex_value c) 0 s"

section \<open>Logging\<close>

datatype fm_base = BaseDevelopment | BaseProduction
datatype fm_level = DebugLevel | InfoLevel | WarnLevel | ErrorLevel

record fm_log_config =
  lc_base :: fm_base
  lc_level :: fm_level
  lc_encoding :: string
  lc_outputs :: "string list"
  lc_errorOutputs :: "string list"

definition level_config :: "string \<Rightarrow> fm_base \<times> fm_level" where
  "level_config level =
     (if level = ''debug'' then (BaseDevelopment, DebugLevel)
      else if level = ''info'' then (BaseProduction, InfoLevel)
      else if level = ''warn'' then (BaseProduction, WarnLevel)
      else if level = ''error'' then (BaseProduction, ErrorLevel)
      else (BaseProduction, InfoLevel))"

record fm_structured =
  fl_config :: fm_log_config
  fl_traceID :: string

definition fm_NewStructuredLogger :: "(fm_log_config \<Rightarrow> string option) \<Rightarrow> string \<Rightarrow> string + fm_structured" where
  "fm_NewStructuredLogger build level =
     (let (base, lv) = level_config level;
          config = \<lparr>lc_base = base, lc_level = lv, lc_encoding = ''json'', lc_outputs = [''stdout''], lc_errorOutputs = [''stderr'']\<rparr>
      in case build config of
           Some err \<Rightarrow> Inl (''failed to build zap logger: '' @ err)
         | None \<Rightarrow> Inr \<lparr>fl_config = config, fl_traceID = ''''\<rparr>)"

text \<open>A field of a log entry is a string, or any value of the caller.\<close>

datatype 'v fm_field = FString string string | FAny string 'v

fun key_pairs :: "('v \<Rightarrow> string) \<Rightarrow> 'v list \<Rightarrow> 'v fm_field list" where
  "key_pairs sprintv (k # v # kvs) = FAny (sprintv k) v # key_pairs sprintv kvs"
| "key_pairs sprintv _ = []"

definition toFields :: "('v \<Rightarrow> string) \<Rightarrow> 'v list \<Rightarrow> fm_structured \<Rightarrow> 'v fm_field list" where
  "toFields sprintv keyvals sl =
     (if fl_traceID sl \<noteq> '''' then [FString ''trace_id'' (fl_traceID sl)] else []) @ key_pairs sprintv keyvals"

text \<open>The loggers that code may hold, and the entries that a call hands to zap.\<close>

datatype fm_logger = NoOpLogger | Structured fm_structured

type_synonym 'v log_entry = "fm_level \<times> string \<times> 'v fm_field list"

fun fm_log :: "('v \<Rightarrow> string) \<Rightarrow> fm_level \<Rightarrow> string \<Rightarrow> 'v list \<Rightarrow> fm_logger \<Rightarrow> 'v log_entry list" where
  "fm_log sprintv level msg keyvals NoOpLogger = []"
| "fm_log sprintv level msg keyvals (Structured sl) = [(level, msg, toFields sprintv keyvals sl)]"

definition fm_Info :: "('v \<Rightarrow> string) \<Rightarrow> string \<Rightarrow> 'v list \<Rightarrow> fm_logger \<Rightarrow> 'v log_entry list" where
  "fm_Info sprintv msg keyvals l = fm_log sprintv InfoLevel msg keyvals l"

definition fm_Error :: "('v \<Rightarrow> string) \<Rightarrow> string \<Rightarrow> 'v list \<Rightarrow> fm_logger \<Rightarrow> 'v log_entry list" where
  "fm_Error sprintv msg keyvals l = fm_log sprintv ErrorLevel msg keyvals l"

definition fm_Debug :: "('v \<Rightarrow> string) \<Rightarrow> string \<Rightarrow> 'v list \<Rightarrow> fm_logger \<Rightarrow> 'v log_entry list" where
  "fm_Debug sprintv msg keyvals l = fm_log sprintv DebugLevel msg keyvals l"

fun WithContext :: "nat \<Rightarrow> fm_ctx \<Rightarrow> fm_logger \<Rightarrow> fm_logger" where
  "WithContext r ctx NoOpLogger = NoOpLogger"
| "WithContext r ctx (Structured sl) = Structured (sl\<lparr>fl_traceID := TraceIDFromContext r ctx\<rparr>)"

section \<open>Metrics\<close>

definition new_counter :: "string \<Rightarrow> string \<Rightarrow> metric" where
  "new_counter name hlp =
     \<lparr>mt_kind = KCounter, mt_namespace = '''', mt_name = name, mt_help = hlp, mt_labels = [], mt_buckets = []\<rparr>"

definition new_histogram :: "string \<Rightarrow> string \<Rightarrow> rat list \<Rightarrow> metric" where
  "new_histogram name hlp buckets =
     \<lparr>mt_kind = KHistogram, mt_namespace = '''', mt_name = name, mt_help = hlp, mt_labels = [], mt_buckets = buckets\<rparr>"

definition latency_buckets :: "rat list" where
  "latency_buckets = [1 / 1000, 5 / 1000, 1 / 100, 5 / 100, 1 / 10, 5 / 10, 1, 5]"

record MetricsRegistry =
  mr_CMEventsReceived :: metric
  mr_CMEventsDuplicated :: metric
  mr_CMEventsForwarded :: metric
  mr_CMValidationErrors :: metric
  mr_DMEventsProcessed :: metric
  mr_DMConsistencyChecks :: metric
  mr_DMConsistencyViolations :: metric
  mr_DMConstructsStored :: metric
  mr_GMGoalStatesGenerated :: metric
  mr_GMCacheHits :: metric
  mr_GMCacheMisses :: metric
  mr_DALProgramAttempts :: metric
  mr_DALProgramSuccesses :: metric
  mr_DALProgramFailures :: metric
  mr_CMPipelineLatency :: metric
  mr_DMProcessLatency :: metric
  mr_GMCompositeLatency :: metric
  mr_DALProgramLatency :: metric

definition NewMetricsRegistry :: MetricsRegistry where
  "NewMetricsRegistry = \<lparr>
      mr_CMEventsReceived = new_counter ''fm_cm_events_received_total'' ''Total events received by Config Management'',
      mr_CMEventsDuplicated = new_counter ''fm_cm_events_duplicated_total'' ''Total duplicate events filtered by Config Management'',
      mr_CMEventsForwarded = new_counter ''fm_cm_events_forwarded_total'' ''Total events forwarded by Config Management'',
      mr_CMValidationErrors = new_counter ''fm_cm_validation_errors_total'' ''Total validation errors in Config Management'',
      mr_DMEventsProcessed = new_counter ''fm_dm_events_processed_total'' ''Total events processed by Data Management'',
      mr_DMConsistencyChecks = new_counter ''fm_dm_consistency_checks_total'' ''Total consistency checks performed'',
      mr_DMConsistencyViolations = new_counter ''fm_dm_consistency_violations_total'' ''Total consistency violations detected'',
      mr_DMConstructsStored = new_counter ''fm_dm_constructs_stored_total'' ''Total constructs stored in registry'',
      mr_GMGoalStatesGenerated = new_counter ''fm_gm_goal_states_generated_total'' ''Total goal states generated by Goal State Management'',
      mr_GMCacheHits = new_counter ''fm_gm_cache_hits_total'' ''Total goal state cache hits'',
      mr_GMCacheMisses = new_counter ''fm_gm_cache_misses_total'' ''Total goal state cache misses'',
      mr_DALProgramAttempts = new_counter ''fm_dal_program_attempts_total'' ''Total device programming attempts'',
      mr_DALProgramSuccesses = new_counter ''fm_dal_program_successes_total'' ''Total successful device programming operations'',
      mr_DALProgramFailures = new_counter ''fm_dal_program_failures_total'' ''Total failed device programming operations'',
      mr_CMPipelineLatency = new_histogram ''fm_cm_pipeline_latency_seconds'' ''Event pipeline processing latency in seconds'' latency_buckets,
      mr_DMProcessLatency = new_histogram ''fm_dm_process_latency_seconds'' ''Data management event processing latency in seconds'' latency_buckets,
      mr_GMCompositeLatency = new_histogram ''fm_gm_composite_latency_seconds'' ''Goal state composition latency in seconds'' latency_buckets,
      mr_DALProgramLatency = new_histogram ''fm_dal_program_latency_seconds'' ''Device programming latency in seconds'' latency_buckets\<rparr>"

text \<open>A nil metric is ignored.\<close>

definition IncrementCounter :: "metric option \<Rightarrow> metric_call list" where
  "IncrementCounter counter = (case counter of None \<Rightarrow> [] | Some c \<Rightarrow> [MInc c []])"

definition IncrementCounterBy :: "metric option \<Rightarrow> rat \<Rightarrow> metric_call list" where
  "IncrementCounterBy counter v = (case counter of None \<Rightarrow> [] | Some c \<Rightarrow> [MAdd c [] v])"

definition RecordLatency :: "metric option \<Rightarrow> rat \<Rightarrow> metric_call list" where
  "RecordLatency histogram seconds = (case histogram of None \<Rightarrow> [] | Some h \<Rightarrow> [MObserve h [] seconds])"

definition GetCounterValue :: "metric option \<Rightarrow> rat" where
  "GetCounterValue counter = (case counter of None \<Rightarrow> 0 | Some c \<Rightarrow> 0)"

section \<open>Tracing\<close>

record TracingContext =
  tx_endpoint :: string
  tx_service :: string
  tx_version :: string
  tx_tracer :: string

text \<open>\<open>newExporter\<close> and \<open>newResource\<close> are the outcomes of the two constructors of the library.\<close>

definition NewTracingContext :: "string option \<Rightarrow> string option \<Rightarrow> string \<Rightarrow> string \<Rightarrow> string + TracingContext" where
  "NewTracingContext newExporter newResource jaegerEndpoint serviceName =
     (case newExporter of
        Some err \<Rightarrow> Inl (''failed to create OTLP exporter: '' @ err)
      | None \<Rightarrow>
          (case newResource of
             Some err \<Rightarrow> Inl (''failed to create resource: '' @ err)
           | None \<Rightarrow> Inr \<lparr>tx_endpoint = jaegerEndpoint, tx_service = serviceName, tx_version = ''1.0.0'',
                           tx_tracer = ''github.com/dashfabric/fm''\<rparr>))"

text \<open>The library's \<open>Start\<close> of a tracer.\<close>

definition StartSpan :: "(string \<Rightarrow> fm_ctx \<Rightarrow> string \<Rightarrow> fm_ctx \<times> 's) \<Rightarrow> fm_ctx \<Rightarrow> string \<Rightarrow> TracingContext \<Rightarrow> fm_ctx \<times> 's" where
  "StartSpan tracerStart ctx name tc = tracerStart (tx_tracer tc) ctx name"

section \<open>Package variables\<close>

text \<open>The variables that each of the packages cm, gm and dal has, with the values they start with.\<close>

record PackageVars =
  pv_logger :: fm_logger
  pv_metrics :: "MetricsRegistry option"
  pv_tracing :: "TracingContext option"

definition initial_vars :: PackageVars where
  "initial_vars = \<lparr>pv_logger = NoOpLogger, pv_metrics = None, pv_tracing = None\<rparr>"

text \<open>A nil argument leaves the variable as it is.\<close>

definition SetLogger :: "fm_logger option \<Rightarrow> PackageVars \<Rightarrow> PackageVars" where
  "SetLogger logger v = (case logger of None \<Rightarrow> v | Some l \<Rightarrow> v\<lparr>pv_logger := l\<rparr>)"

definition SetMetricsRegistry :: "MetricsRegistry option \<Rightarrow> PackageVars \<Rightarrow> PackageVars" where
  "SetMetricsRegistry registry v = (case registry of None \<Rightarrow> v | Some r \<Rightarrow> v\<lparr>pv_metrics := Some r\<rparr>)"

definition SetTracingContext :: "TracingContext option \<Rightarrow> PackageVars \<Rightarrow> PackageVars" where
  "SetTracingContext tc v = (case tc of None \<Rightarrow> v | Some t \<Rightarrow> v\<lparr>pv_tracing := Some t\<rparr>)"

text \<open>\<open>spanFromContext\<close> is the library's span of a context, which does nothing when tracing is not set up.\<close>

definition startSpan ::
  "(string \<Rightarrow> fm_ctx \<Rightarrow> string \<Rightarrow> fm_ctx \<times> 's) \<Rightarrow> (fm_ctx \<Rightarrow> 's) \<Rightarrow> fm_ctx \<Rightarrow> string \<Rightarrow> PackageVars \<Rightarrow> fm_ctx \<times> 's" where
  "startSpan tracerStart spanFromContext ctx name v =
     (case pv_tracing v of
        Some tc \<Rightarrow> StartSpan tracerStart ctx name tc
      | None \<Rightarrow> (ctx, spanFromContext ctx))"

text \<open>The three packages of the program, and their setters and spans.\<close>

record Packages =
  pk_cm :: PackageVars
  pk_gm :: PackageVars
  pk_dal :: PackageVars

definition initial_packages :: Packages where
  "initial_packages = \<lparr>pk_cm = initial_vars, pk_gm = initial_vars, pk_dal = initial_vars\<rparr>"

definition cm_SetLogger :: "fm_logger option \<Rightarrow> Packages \<Rightarrow> Packages" where
  "cm_SetLogger logger pk = pk\<lparr>pk_cm := SetLogger logger (pk_cm pk)\<rparr>"

definition cm_SetMetricsRegistry :: "MetricsRegistry option \<Rightarrow> Packages \<Rightarrow> Packages" where
  "cm_SetMetricsRegistry registry pk = pk\<lparr>pk_cm := SetMetricsRegistry registry (pk_cm pk)\<rparr>"

definition cm_SetTracingContext :: "TracingContext option \<Rightarrow> Packages \<Rightarrow> Packages" where
  "cm_SetTracingContext tc pk = pk\<lparr>pk_cm := SetTracingContext tc (pk_cm pk)\<rparr>"

definition cm_startSpan ::
  "(string \<Rightarrow> fm_ctx \<Rightarrow> string \<Rightarrow> fm_ctx \<times> 's) \<Rightarrow> (fm_ctx \<Rightarrow> 's) \<Rightarrow> fm_ctx \<Rightarrow> string \<Rightarrow> Packages \<Rightarrow> fm_ctx \<times> 's" where
  "cm_startSpan tracerStart spanFromContext ctx name pk = startSpan tracerStart spanFromContext ctx name (pk_cm pk)"

definition gm_SetLogger :: "fm_logger option \<Rightarrow> Packages \<Rightarrow> Packages" where
  "gm_SetLogger logger pk = pk\<lparr>pk_gm := SetLogger logger (pk_gm pk)\<rparr>"

definition gm_SetMetricsRegistry :: "MetricsRegistry option \<Rightarrow> Packages \<Rightarrow> Packages" where
  "gm_SetMetricsRegistry registry pk = pk\<lparr>pk_gm := SetMetricsRegistry registry (pk_gm pk)\<rparr>"

definition gm_SetTracingContext :: "TracingContext option \<Rightarrow> Packages \<Rightarrow> Packages" where
  "gm_SetTracingContext tc pk = pk\<lparr>pk_gm := SetTracingContext tc (pk_gm pk)\<rparr>"

definition gm_startSpan ::
  "(string \<Rightarrow> fm_ctx \<Rightarrow> string \<Rightarrow> fm_ctx \<times> 's) \<Rightarrow> (fm_ctx \<Rightarrow> 's) \<Rightarrow> fm_ctx \<Rightarrow> string \<Rightarrow> Packages \<Rightarrow> fm_ctx \<times> 's" where
  "gm_startSpan tracerStart spanFromContext ctx name pk = startSpan tracerStart spanFromContext ctx name (pk_gm pk)"

definition dal_SetLogger :: "fm_logger option \<Rightarrow> Packages \<Rightarrow> Packages" where
  "dal_SetLogger logger pk = pk\<lparr>pk_dal := SetLogger logger (pk_dal pk)\<rparr>"

definition dal_SetMetricsRegistry :: "MetricsRegistry option \<Rightarrow> Packages \<Rightarrow> Packages" where
  "dal_SetMetricsRegistry registry pk = pk\<lparr>pk_dal := SetMetricsRegistry registry (pk_dal pk)\<rparr>"

definition dal_SetTracingContext :: "TracingContext option \<Rightarrow> Packages \<Rightarrow> Packages" where
  "dal_SetTracingContext tc pk = pk\<lparr>pk_dal := SetTracingContext tc (pk_dal pk)\<rparr>"

definition dal_startSpan ::
  "(string \<Rightarrow> fm_ctx \<Rightarrow> string \<Rightarrow> fm_ctx \<times> 's) \<Rightarrow> (fm_ctx \<Rightarrow> 's) \<Rightarrow> fm_ctx \<Rightarrow> string \<Rightarrow> Packages \<Rightarrow> fm_ctx \<times> 's" where
  "dal_startSpan tracerStart spanFromContext ctx name pk = startSpan tracerStart spanFromContext ctx name (pk_dal pk)"

definition with_registry :: "(MetricsRegistry \<Rightarrow> metric) \<Rightarrow> PackageVars \<Rightarrow> metric_call list" where
  "with_registry sel v = (case pv_metrics v of None \<Rightarrow> [] | Some r \<Rightarrow> IncrementCounter (Some (sel r)))"

definition incrementEventsReceived :: "PackageVars \<Rightarrow> metric_call list" where
  "incrementEventsReceived v = with_registry mr_CMEventsReceived v"

definition incrementEventsDuplicated :: "PackageVars \<Rightarrow> metric_call list" where
  "incrementEventsDuplicated v = with_registry mr_CMEventsDuplicated v"

definition incrementEventsForwarded :: "PackageVars \<Rightarrow> metric_call list" where
  "incrementEventsForwarded v = with_registry mr_CMEventsForwarded v"

definition incrementValidationErrors :: "PackageVars \<Rightarrow> metric_call list" where
  "incrementValidationErrors v = with_registry mr_CMValidationErrors v"

definition incrementGoalStatesGenerated :: "PackageVars \<Rightarrow> metric_call list" where
  "incrementGoalStatesGenerated v = with_registry mr_GMGoalStatesGenerated v"

definition incrementCacheHits :: "PackageVars \<Rightarrow> metric_call list" where
  "incrementCacheHits v = with_registry mr_GMCacheHits v"

definition incrementCacheMisses :: "PackageVars \<Rightarrow> metric_call list" where
  "incrementCacheMisses v = with_registry mr_GMCacheMisses v"

definition incrementProgramAttempts :: "PackageVars \<Rightarrow> metric_call list" where
  "incrementProgramAttempts v = with_registry mr_DALProgramAttempts v"

definition incrementProgramSuccesses :: "PackageVars \<Rightarrow> metric_call list" where
  "incrementProgramSuccesses v = with_registry mr_DALProgramSuccesses v"

definition incrementProgramFailures :: "PackageVars \<Rightarrow> metric_call list" where
  "incrementProgramFailures v = with_registry mr_DALProgramFailures v"

section \<open>The pipeline and its metrics\<close>

text \<open>The metric calls of the body of the event loop, for an event received and for an event sent.\<close>

definition handle_event_calls ::
  "PackageVars \<Rightarrow> ('f Event \<Rightarrow> string option) \<Rightarrow> time \<Rightarrow> 'f Event \<Rightarrow> 'f Pipeline \<Rightarrow> metric_call list" where
  "handle_event_calls v validate now event p =
     incrementEventsReceived v @
     (if fst (CheckAndStore now (pl_cache p) (ev_Fingerprint event)) then incrementEventsDuplicated v
      else case validate event of Some err \<Rightarrow> incrementValidationErrors v | None \<Rightarrow> [])"

definition forward_event_calls :: "PackageVars \<Rightarrow> 'f Pipeline \<Rightarrow> metric_call list" where
  "forward_event_calls v p = (if pl_outClosed p then [] else incrementEventsForwarded v)"

text \<open>The steps of a pipeline that runs: those of its loops and of its consumers, and the cancellation of its context.\<close>

datatype 'f loop_op = LRecv nat time "'f Event" | LInputClosed nat | LSend nat | LDone nat | LCtx nat | LConsume | LCancel

fun loop_action :: "'f loop_op \<Rightarrow> 'f pl_action" where
  "loop_action (LRecv i now e) = ActRecv i now e"
| "loop_action (LInputClosed i) = ActInputClosed i"
| "loop_action (LSend i) = ActSend i"
| "loop_action (LDone i) = ActDone i"
| "loop_action (LCtx i) = ActCtx i"
| "loop_action LConsume = ActConsume"
| "loop_action LCancel = ActCancel"

fun loop_calls :: "PackageVars \<Rightarrow> ('f Event \<Rightarrow> string option) \<Rightarrow> 'f loop_op \<Rightarrow> 'f Pipeline \<Rightarrow> metric_call list" where
  "loop_calls v validate (LRecv i now e) p = handle_event_calls v validate now e p"
| "loop_calls v validate (LSend i) p = forward_event_calls v p"
| "loop_calls v validate _ p = []"

text \<open>A step that is not enabled does not happen.\<close>

definition loop_step ::
  "PackageVars \<Rightarrow> ('f Event \<Rightarrow> string option) \<Rightarrow> 'f loop_op \<Rightarrow> 'f Pipeline \<Rightarrow> metric_call list \<times> 'f Pipeline" where
  "loop_step v validate opn p =
     (case pl_act validate (loop_action opn) p of
        None \<Rightarrow> ([], p)
      | Some (p', es) \<Rightarrow> (loop_calls v validate opn p, p'))"

datatype cm_counter = CmReceived | CmDuplicated | CmForwarded | CmInvalid

fun cm_count :: "cm_counter \<Rightarrow> 'f Pipeline \<Rightarrow> int" where
  "cm_count CmReceived p = ps_EventsReceived (pl_stats p)"
| "cm_count CmDuplicated p = ps_EventsDuplicated (pl_stats p)"
| "cm_count CmForwarded p = ps_EventsForwarded (pl_stats p)"
| "cm_count CmInvalid p = ps_ValidationErrors (pl_stats p)"

fun cm_metric :: "cm_counter \<Rightarrow> metric" where
  "cm_metric CmReceived = mr_CMEventsReceived NewMetricsRegistry"
| "cm_metric CmDuplicated = mr_CMEventsDuplicated NewMetricsRegistry"
| "cm_metric CmForwarded = mr_CMEventsForwarded NewMetricsRegistry"
| "cm_metric CmInvalid = mr_CMValidationErrors NewMetricsRegistry"

definition cm_counters_ok :: "'f Pipeline \<Rightarrow> bool" where
  "cm_counters_ok p \<longleftrightarrow> (\<forall>k. is_i64 (cm_count k p))"

text \<open>The variables of the package cm once the program has set them up.\<close>

definition cm_vars :: "fm_logger \<Rightarrow> TracingContext option \<Rightarrow> PackageVars" where
  "cm_vars logger tracing = \<lparr>pv_logger = logger, pv_metrics = Some NewMetricsRegistry, pv_tracing = tracing\<rparr>"

lemmas package_setters =
  cm_SetLogger_def gm_SetLogger_def dal_SetLogger_def SetLogger_def
  cm_SetMetricsRegistry_def gm_SetMetricsRegistry_def dal_SetMetricsRegistry_def SetMetricsRegistry_def
  cm_SetTracingContext_def gm_SetTracingContext_def dal_SetTracingContext_def SetTracingContext_def

section \<open>Trace identifiers have sixteen digits\<close>

lemma hex_value_digit: "d < 16 \<Longrightarrow> hex_value (hex_char d) = d"
  by (auto simp: hex_value_def hex_char_def)

lemma parse_hex_snoc: "parse_hex (s @ [c]) = 16 * parse_hex s + hex_value c"
  by (simp add: parse_hex_def)

lemma parse_show_hex: "parse_hex (show_hex n) = n"
proof (induction n rule: show_hex.induct)
  case (1 n)
  show ?case
  proof (cases "n < 16")
    case True
    then show ?thesis by (simp add: show_hex.simps [of n] parse_hex_def hex_value_digit)
  next
    case False
    with 1 show ?thesis by (simp add: show_hex.simps [of n] parse_hex_snoc hex_value_digit)
  qed
qed

lemma parse_hex_zeros: "parse_hex (replicate k CHR ''0'' @ s) = parse_hex s"
proof (induction k)
  case (Suc k)
  have "hex_value CHR ''0'' = 0" by (simp add: hex_value_def)
  then have "foldl (\<lambda>n c. 16 * n + hex_value c) 0 (CHR ''0'' # t) = foldl (\<lambda>n c. 16 * n + hex_value c) 0 t" for t by simp
  with Suc show ?case unfolding parse_hex_def replicate_Suc append_Cons by metis
qed simp

lemma show_hex_length: "n < 16 ^ Suc k \<Longrightarrow> length (show_hex n) \<le> Suc k"
proof (induction k arbitrary: n)
  case (Suc k)
  show ?case
  proof (cases "n < 16")
    case False
    then have "n div 16 < 16 ^ Suc k" using Suc.prems by (simp add: less_mult_imp_div_less mult.commute)
    with Suc.IH [of "n div 16"] False show ?thesis by (simp add: show_hex.simps [of n])
  qed (simp add: show_hex.simps [of n])
qed (simp add: show_hex.simps)

section \<open>Metrics of the pipeline\<close>

lemma cm_metric_inj: "cm_metric j = cm_metric k \<longleftrightarrow> j = k"
  by (cases j; cases k) (simp_all add: NewMetricsRegistry_def new_counter_def)

lemmas cm_call_defs = handle_event_calls_def forward_event_calls_def incrementEventsReceived_def incrementEventsDuplicated_def
  incrementEventsForwarded_def incrementValidationErrors_def with_registry_def cm_vars_def IncrementCounter_def

lemma incs_cm_calls:
  "incs (cm_metric k) (with_registry mr_CMEventsReceived (cm_vars l t)) = (if k = CmReceived then 1 else 0)"
  "incs (cm_metric k) (with_registry mr_CMEventsDuplicated (cm_vars l t)) = (if k = CmDuplicated then 1 else 0)"
  "incs (cm_metric k) (with_registry mr_CMEventsForwarded (cm_vars l t)) = (if k = CmForwarded then 1 else 0)"
  "incs (cm_metric k) (with_registry mr_CMValidationErrors (cm_vars l t)) = (if k = CmInvalid then 1 else 0)"
  by (cases k; simp add: cm_call_defs incs_def NewMetricsRegistry_def new_counter_def)+

lemmas incs_increments = incs_cm_calls [folded incrementEventsReceived_def incrementEventsDuplicated_def
  incrementEventsForwarded_def incrementValidationErrors_def]

lemma handle_event_count:
  "cm_counters_ok p \<Longrightarrow> cm_count k (snd (handle_event validate now e p)) =
     i64 (cm_count k p + int (incs (cm_metric k) (handle_event_calls (cm_vars l t) validate now e p)))"
  by (cases k; cases "CheckAndStore now (pl_cache p) (ev_Fingerprint e)")
    (auto simp: handle_event_def handle_event_calls_def incs_increments Let_def i64_id cm_counters_ok_def
      simp del: cm_metric.simps split: option.split dest: spec [of _ CmReceived] spec [of _ CmDuplicated]
      spec [of _ CmForwarded] spec [of _ CmInvalid])

lemma cm_count_set_loop [simp]: "cm_count k (set_loop i pc p) = cm_count k p"
  by (cases k) (simp_all add: set_loop_def)

lemma loop_step_count:
  assumes "cm_counters_ok p"
  shows "cm_count k (snd (loop_step (cm_vars l t) validate opn p)) =
    i64 (cm_count k p + int (incs (cm_metric k) (fst (loop_step (cm_vars l t) validate opn p))))"
proof -
  have id: "i64 (cm_count k p) = cm_count k p" using assms by (simp add: cm_counters_ok_def i64_id)
  show ?thesis
  proof (cases opn)
    case (LRecv i now e)
    show ?thesis
    proof (cases "i < length (pl_loops p) \<and> pl_loops p ! i = LWait")
      case True
      obtain pc p1 where h: "handle_event validate now e p = (pc, p1)" by fastforce
      with handle_event_count [OF assms, of k validate now e l t] LRecv True show ?thesis by (simp add: loop_step_def)
    next
      case False
      with LRecv id show ?thesis by (auto simp: loop_step_def)
    qed
  next
    case (LSend i)
    show ?thesis
    proof (cases "pl_outClosed p")
      case True
      have "cm_count k (p\<lparr>pl_crashed := c\<rparr>) = cm_count k p" for c by (cases k) simp_all
      with True LSend id show ?thesis
        by (auto simp: loop_step_def forward_event_def forward_event_calls_def split: loop_pc.split)
    next
      case False
      have "cm_count k (p\<lparr>pl_out := out, pl_stats := (pl_stats p)\<lparr>ps_EventsForwarded := x\<rparr>\<rparr>) =
          (if k = CmForwarded then x else cm_count k p)" for out x
        by (cases k) simp_all
      with False LSend id show ?thesis
        by (auto simp: loop_step_def forward_event_def forward_event_calls_def Let_def incs_increments simp del: cm_metric.simps
            split: loop_pc.split)
    qed
  next
    case LConsume
    have "cm_count k (p\<lparr>pl_out := out\<rparr>) = cm_count k p" for out by (cases k) simp_all
    with LConsume id show ?thesis by (auto simp: loop_step_def split: list.split)
  next
    case LCancel
    have "cm_count k (p\<lparr>pl_ctxDone := True\<rparr>) = cm_count k p" by (cases k) simp_all
    with LCancel id show ?thesis by (simp add: loop_step_def)
  qed (use id in \<open>auto simp: loop_step_def\<close>)
qed

lemma loop_step_calls: "c \<in> set (fst (loop_step (cm_vars l t) validate opn p)) \<Longrightarrow> call_ok c"
  by (cases opn)
    (auto simp: loop_step_def cm_call_defs NewMetricsRegistry_def new_counter_def split: option.splits if_splits prod.splits)

interpretation cm_metrics: counting_emitter "loop_step (cm_vars l t) validate" cm_counters_ok cm_count "\<lambda>k p. cm_metric k"
  for l t validate
proof unfold_locales
  fix p opn c k
  show "cm_counters_ok p \<Longrightarrow> cm_counters_ok (snd (loop_step (cm_vars l t) validate opn p))"
    by (simp add: cm_counters_ok_def [of "snd x" for x] loop_step_count i64_range)
  show "cm_counters_ok p \<Longrightarrow> c \<in> set (fst (loop_step (cm_vars l t) validate opn p)) \<Longrightarrow> call_ok c"
    by (rule loop_step_calls)
  show "cm_counters_ok p \<Longrightarrow> cm_count k (snd (loop_step (cm_vars l t) validate opn p)) =
      i64 (cm_count k p + int (incs (cm_metric k) (fst (loop_step (cm_vars l t) validate opn p))))"
    by (rule loop_step_count)
qed simp

section \<open>Properties\<close>

text \<open>From a start of the event pipeline on, whatever its loops and consumers do and in whatever order, each of the
  counters of received, duplicate, invalid and forwarded events equals the number of increments of the corresponding metric, modulo
  the wrap-around of 64 bits, and the metrics library accepts every call.\<close>

lemma cm_metrics_agree:
  "let p = snd (pl_Start now ctxDone None (NewEventPipeline cache :: 'f Pipeline));
       (cs, p') = emit_all (loop_step (cm_vars logger tracing) validate) ops p
   in list_all call_ok cs \<and> (\<forall>k. cm_count k p' = i64 (int (incs (cm_metric k) cs)))"
proof -
  let ?p = "snd (pl_Start now ctxDone None (NewEventPipeline cache :: 'f Pipeline))"
  obtain cs p' where r: "emit_all (loop_step (cm_vars logger tracing) validate) ops ?p = (cs, p')" by fastforce
  have z: "cm_count k ?p = i64 0" for k
    by (cases k) (simp_all add: pl_Start_def NewEventPipeline_def zero_stats_def i64_def)
  then have ok: "cm_counters_ok ?p" by (simp add: cm_counters_ok_def is_i64_def i64_def)
  have "cm_count k p' = i64 (int (incs (cm_metric k) cs))" for k
    using cm_metrics.emit_all_count [OF ok z, of k logger tracing validate ops] r by simp
  moreover have "list_all call_ok cs"
    using cm_metrics.emit_all_calls [OF ok, of _ logger tracing validate ops] r by (auto simp: list_all_iff)
  ultimately show ?thesis by (simp add: r)
qed

text \<open>A generated trace identifier has exactly sixteen hexadecimal digits and determines the random number it was made from; a
  context that was given an identifier yields it, unless it is empty.\<close>

lemma trace_id_roundtrip:
  assumes "r < 2 ^ 63"
  shows "length (generateTraceID r) = 16 \<and> parse_hex (generateTraceID r) = r \<and>
    TraceIDFromContext r (WithTraceID ctx s) = (if s = '''' then generateTraceID r else s)"
proof -
  have "r < 16 ^ Suc 15" using assms by (rule less_trans) simp
  then have "length (show_hex r) \<le> 16" using show_hex_length [of r 15] by simp
  then show ?thesis
    by (auto simp: generateTraceID_def Let_def parse_hex_zeros parse_show_hex TraceIDFromContext_def WithTraceID_def)
qed

lemma trace_id_roundtrip_instance:
  "parse_hex (generateTraceID 48879) = 48879 \<and> length (generateTraceID 48879) = 16"
  using trace_id_roundtrip [of 48879] by simp

end
