(* ===== verification/Breaker_Contract.thy ===== *)
theory Breaker_Contract
  imports Prelude "HOL-Library.Sublist"
begin

text \<open>
  The interface of a circuit breaker, shared by the two implementations of the repository (package resilience
  of the Fabric Manager and package reliability of the gateway): permission to call, recording of a
  success, recording of a failure. The clients' lemmas say when a breaker trips, that it
  rejects while it is open, and how it recovers; both implementations are interpretations.
\<close>

datatype CircuitState = StateClosed | StateOpen | StateHalfOpen

fun CircuitState_String :: "CircuitState \<Rightarrow> string" where
  "CircuitState_String StateClosed = ''CLOSED''"
| "CircuitState_String StateOpen = ''OPEN''"
| "CircuitState_String StateHalfOpen = ''HALF_OPEN''"

text \<open>
  Recording a sequence of outcomes, each with its instant, for as long as the breaker stays closed.
\<close>

fun record_closed ::
  "('b \<Rightarrow> CircuitState) \<Rightarrow> ('b \<Rightarrow> 'b) \<Rightarrow> (time \<Rightarrow> 'b \<Rightarrow> 'b) \<Rightarrow> 'b \<Rightarrow> (time \<times> bool) list \<Rightarrow> 'b"
where
  "record_closed st ok bad b [] = b"
| "record_closed st ok bad b ((t, r) # rs) =
     (if st b = StateClosed then record_closed st ok bad (if r then ok b else bad t b) rs else b)"

text \<open>A counter of consecutive failures that starts at \<open>c\<close> reaches \<open>n\<close>.\<close>

fun trips :: "nat \<Rightarrow> nat \<Rightarrow> bool list \<Rightarrow> bool" where
  "trips n c [] = False"
| "trips n c (True # rs) = trips n 0 rs"
| "trips n c (False # rs) = (n \<le> Suc c \<or> trips n (Suc c) rs)"

lemma prefix_replicate: "m \<le> n \<Longrightarrow> prefix (replicate n x) ys \<Longrightarrow> prefix (replicate m x) ys"
  by (metis le_add_diff_inverse prefixI prefix_order.trans replicate_add)

lemma trips_iff_aux:
  "c < n \<Longrightarrow> trips n c rs \<longleftrightarrow> prefix (replicate (n - c) False) rs \<or> sublist (replicate n False) rs"
proof (induction n c rs rule: trips.induct)
  case (2 n c rs)
  then show ?case by (cases "n - c"; cases n) (auto simp: sublist_Cons_right)
next
  case (3 n c rs)
  show ?case
  proof (cases "n \<le> Suc c")
    case True
    with "3.prems" have "n - c = 1" by simp
    then show ?thesis using True by simp
  next
    case False
    then obtain d where d: "n - c = Suc d" "n - Suc c = d" by (metis Suc_diff_Suc "3.prems")
    obtain k where k: "n = Suc k" "d \<le> k" using "3.prems" d by (cases n) auto
    from 3 False d show ?thesis
      using prefix_replicate [OF k(2), of False rs] by (auto simp: k(1) sublist_Cons_right)
  qed
qed simp

lemma trips_iff: "0 < n \<Longrightarrow> trips n 0 rs \<longleftrightarrow> sublist (replicate n False) rs"
  using trips_iff_aux [of 0 n rs] by (auto simp: prefix_imp_sublist)

locale circuit_breaker =
  fixes wf :: "'b \<Rightarrow> bool"
    and st :: "'b \<Rightarrow> CircuitState"
    and thr :: "'b \<Rightarrow> nat"
    and fails :: "'b \<Rightarrow> nat"
    and sthr :: "'b \<Rightarrow> nat"
    and succs :: "'b \<Rightarrow> nat"
    and over :: "time \<Rightarrow> 'b \<Rightarrow> bool"
    and admit :: "time \<Rightarrow> 'b \<Rightarrow> bool \<times> 'b"
    and ok :: "'b \<Rightarrow> 'b"
    and bad :: "time \<Rightarrow> 'b \<Rightarrow> 'b"
  assumes closed_bound: "wf b \<Longrightarrow> st b = StateClosed \<Longrightarrow> fails b < thr b"
    and closed_ok: "wf b \<Longrightarrow> st b = StateClosed \<Longrightarrow>
      wf (ok b) \<and> st (ok b) = StateClosed \<and> fails (ok b) = 0 \<and> thr (ok b) = thr b"
    and closed_bad: "wf b \<Longrightarrow> st b = StateClosed \<Longrightarrow>
      (if Suc (fails b) < thr b
       then wf (bad t b) \<and> st (bad t b) = StateClosed \<and> fails (bad t b) = Suc (fails b) \<and> thr (bad t b) = thr b
       else st (bad t b) = StateOpen)"
    and half_bound: "wf b \<Longrightarrow> st b = StateHalfOpen \<Longrightarrow> succs b < sthr b"
    and half_ok: "wf b \<Longrightarrow> st b = StateHalfOpen \<Longrightarrow>
      (if Suc (succs b) < sthr b
       then wf (ok b) \<and> st (ok b) = StateHalfOpen \<and> succs (ok b) = Suc (succs b) \<and> sthr (ok b) = sthr b
       else st (ok b) = StateClosed)"
    and admit_not_open: "st b \<noteq> StateOpen \<Longrightarrow> admit now b = (True, b)"
    and admit_wait: "st b = StateOpen \<Longrightarrow> \<not> over now b \<Longrightarrow> admit now b = (False, b)"
    and admit_over: "wf b \<Longrightarrow> st b = StateOpen \<Longrightarrow> over now b \<Longrightarrow>
      \<exists>b'. admit now b = (True, b') \<and> wf b' \<and> st b' = StateHalfOpen \<and> succs b' = 0 \<and> sthr b' = sthr b"
begin

lemma record_trips:
  assumes "wf b" and "st b = StateClosed"
  shows "st (record_closed st ok bad b rs) =
    (if trips (thr b) (fails b) (map snd rs) then StateOpen else StateClosed)"
  using assms
proof (induction rs arbitrary: b)
  case (Cons x rs)
  obtain t r where x: "x = (t, r)" by fastforce
  show ?case
  proof (cases r)
    case True
    with closed_ok [OF Cons.prems] Cons.IH [of "ok b"] Cons.prems(2) show ?thesis by (simp add: x)
  next
    case False
    show ?thesis
    proof (cases "Suc (fails b) < thr b")
      case True
      with closed_bad [OF Cons.prems, of t] Cons.IH [of "bad t b"] Cons.prems(2) False show ?thesis
        by (simp add: x)
    next
      case trip: False
      with closed_bad [OF Cons.prems, of t] have o: "st (bad t b) = StateOpen" by simp
      then have "record_closed st ok bad (bad t b) rs = bad t b" by (cases rs) auto
      with o trip False Cons.prems(2) show ?thesis by (simp add: x)
    qed
  qed
qed simp

text \<open>A fresh breaker trips exactly on as many consecutive failures as its threshold says.\<close>

lemma opens_iff:
  assumes "wf b" and "st b = StateClosed" and "fails b = 0"
  shows "st (record_closed st ok bad b rs) = StateOpen \<longleftrightarrow>
    sublist (replicate (thr b) False) (map snd rs)"
  using record_trips [OF assms(1,2)] closed_bound [OF assms(1,2)] assms(3) by (simp add: trips_iff)

lemma half_open_closes:
  assumes "wf b" and "st b = StateHalfOpen"
  shows "k < sthr b - succs b \<Longrightarrow> st ((ok ^^ k) b) = StateHalfOpen"
    and "st ((ok ^^ (sthr b - succs b)) b) = StateClosed"
proof -
  have step: "wf ((ok ^^ k) b) \<and> st ((ok ^^ k) b) = StateHalfOpen \<and> succs ((ok ^^ k) b) = succs b + k \<and>
      sthr ((ok ^^ k) b) = sthr b" if "k < sthr b - succs b" for k
    using that
  proof (induction k)
    case (Suc k)
    then have "Suc (succs ((ok ^^ k) b)) < sthr ((ok ^^ k) b)" by simp
    with Suc half_ok [of "(ok ^^ k) b"] show ?case by simp
  qed (use assms in simp)
  then show "k < sthr b - succs b \<Longrightarrow> st ((ok ^^ k) b) = StateHalfOpen" by blast
  obtain k where k: "sthr b - succs b = Suc k" using half_bound [OF assms] by (metis Suc_diff_Suc)
  with step [of k] half_ok [of "(ok ^^ k) b"] show "st ((ok ^^ (sthr b - succs b)) b) = StateClosed" by auto
qed

text \<open>After the timeout a call is let through, and enough successes in a row close the breaker.\<close>

lemma recovers:
  assumes "wf b" and "st b = StateOpen" and "over now b"
  shows "fst (admit now b) \<and> st ((ok ^^ sthr b) (snd (admit now b))) = StateClosed"
proof -
  obtain b' where b': "admit now b = (True, b')" "wf b'" "st b' = StateHalfOpen" "succs b' = 0" "sthr b' = sthr b"
    using admit_over [OF assms] by blast
  with half_open_closes(2) [OF b'(2,3)] show ?thesis by simp
qed

end

end
