(* ===== verification/FM_Resilience.thy ===== *)
theory FM_Resilience
  imports Breaker_Contract Go_Float
begin

text \<open>
  The resilience primitives of the Fabric Manager (package resilience, files \<^verbatim>\<open>circuit_breaker.go\<close>,
  \<^verbatim>\<open>retry.go\<close> and \<^verbatim>\<open>timeout.go\<close> of \<^verbatim>\<open>src/FM/pkg/resilience\<close>). The function a caller protects is a state
  transformer that returns an error or nil; the instants of \<open>time.Now\<close>, the random number of the jitter and the
  moments at which a context is cancelled are arguments. Floating-point numbers are
  rationals, and the conversion to a duration truncates.
\<close>

section \<open>Circuit breaker\<close>

record CircuitBreaker =
  cb_state :: CircuitState
  cb_failureCount :: int
  cb_failureThreshold :: int
  cb_successCount :: int
  cb_successThreshold :: int
  cb_lastFailureTime :: time
  cb_timeout :: duration

definition NewCircuitBreaker :: "int \<Rightarrow> int \<Rightarrow> duration \<Rightarrow> CircuitBreaker" where
  "NewCircuitBreaker failureThreshold successThreshold timeout =
     \<lparr>cb_state = StateClosed, cb_failureCount = 0,
      cb_failureThreshold = (if failureThreshold < 1 then 5 else failureThreshold),
      cb_successCount = 0,
      cb_successThreshold = (if successThreshold < 1 then 2 else successThreshold),
      cb_lastFailureTime = 0,
      cb_timeout = (if timeout < 1 then 30 * Second else timeout)\<rparr>"

definition recordFailure :: "time \<Rightarrow> CircuitBreaker \<Rightarrow> CircuitBreaker" where
  "recordFailure now cb =
     (let cb' = cb\<lparr>cb_lastFailureTime := now, cb_failureCount := i64 (cb_failureCount cb + 1),
                   cb_successCount := 0\<rparr>
      in if cb_failureCount cb' \<ge> cb_failureThreshold cb' then cb'\<lparr>cb_state := StateOpen\<rparr> else cb')"

definition recordSuccess :: "CircuitBreaker \<Rightarrow> CircuitBreaker" where
  "recordSuccess cb =
     (let cb' = cb\<lparr>cb_failureCount := 0, cb_successCount := i64 (cb_successCount cb + 1)\<rparr>
      in if cb_state cb' = StateHalfOpen \<and> cb_successCount cb' \<ge> cb_successThreshold cb'
         then cb'\<lparr>cb_state := StateClosed\<rparr> else cb')"

text \<open>The lines of \<open>Call\<close> before the function is executed: the transition to half-open and the rejection.\<close>

definition cb_admit :: "time \<Rightarrow> CircuitBreaker \<Rightarrow> bool \<times> CircuitBreaker" where
  "cb_admit now cb =
     (let cb' = (if cb_state cb = StateOpen \<and> time_since now (cb_lastFailureTime cb) > cb_timeout cb
                 then cb\<lparr>cb_state := StateHalfOpen, cb_successCount := 0\<rparr> else cb)
      in (cb_state cb' \<noteq> StateOpen, cb'))"

text \<open>The text of the error of a rejected call.\<close>

definition open_error :: string where
  "open_error = ''circuit breaker open: service unavailable''"

text \<open>
  \<open>Call\<close> at an instant, with the instant at which a failure would be recorded. The mutex is held while the
  function runs.
\<close>

definition cb_Call ::
  "time \<Rightarrow> time \<Rightarrow> ('s \<Rightarrow> string option \<times> 's) \<Rightarrow> CircuitBreaker \<Rightarrow> 's \<Rightarrow> string option \<times> CircuitBreaker \<times> 's"
where
  "cb_Call now now' fn cb s =
     (let (allowed, cb') = cb_admit now cb
      in if \<not> allowed then (Some open_error, cb', s)
         else let (err, s') = fn s
              in (err, if err \<noteq> None then recordFailure now' cb' else recordSuccess cb', s'))"

definition cb_State :: "CircuitBreaker \<Rightarrow> CircuitState" where
  "cb_State cb = cb_state cb"

definition cb_Reset :: "CircuitBreaker \<Rightarrow> CircuitBreaker" where
  "cb_Reset cb =
     cb\<lparr>cb_state := StateClosed, cb_failureCount := 0, cb_successCount := 0, cb_lastFailureTime := 0\<rparr>"

section \<open>Retry\<close>

record RetryPolicy =
  rp_MaxRetries :: int
  rp_InitialBackoff :: duration
  rp_MaxBackoff :: duration
  rp_BackoffMultiplier :: rat
  rp_JitterFraction :: rat

definition DefaultRetryPolicy :: RetryPolicy where
  "DefaultRetryPolicy =
     \<lparr>rp_MaxRetries = 3, rp_InitialBackoff = 100 * Millisecond, rp_MaxBackoff = 10 * Second,
      rp_BackoffMultiplier = 2, rp_JitterFraction = 1 / 10\<rparr>"

text \<open>The backoff of an attempt, for the random number \<open>r\<close> between 0 and 1.\<close>

definition calculateBackoff :: "rat \<Rightarrow> RetryPolicy \<Rightarrow> nat \<Rightarrow> duration" where
  "calculateBackoff r rp attempt =
     (let raw = to_duration (of_int (rp_InitialBackoff rp) * rp_BackoffMultiplier rp ^ attempt);
          backoff = (if raw > rp_MaxBackoff rp then rp_MaxBackoff rp else raw);
          jitter = to_duration (of_int backoff * rp_JitterFraction rp * (r * 2 - 1))
      in i64 (backoff + jitter))"

datatype retry_result = RetryOk | RetryCancelled string | RetryExhausted "string option"

text \<open>
  The loop of \<open>Attempt\<close> from attempt number \<open>attempt\<close> on. \<open>before\<close> and \<open>during\<close> give the error of the
  context if it is seen as done before an attempt or during the wait after it.
\<close>

function attempt_loop ::
  "(nat \<Rightarrow> string option) \<Rightarrow> (nat \<Rightarrow> string option) \<Rightarrow> int \<Rightarrow> ('s \<Rightarrow> string option \<times> 's) \<Rightarrow> nat \<Rightarrow> string option \<Rightarrow> 's \<Rightarrow>
     retry_result \<times> 's"
where
  "attempt_loop before during mx fn attempt lastErr s =
     (if int attempt \<le> mx then
        case before attempt of
          Some ctxErr \<Rightarrow> (RetryCancelled ctxErr, s)
        | None \<Rightarrow>
            (case fn s of
               (None, s') \<Rightarrow> (RetryOk, s')
             | (Some err, s') \<Rightarrow>
                 (case (if int attempt < mx then during attempt else None) of
                    Some ctxErr \<Rightarrow> (RetryCancelled ctxErr, s')
                  | None \<Rightarrow> attempt_loop before during mx fn (Suc attempt) (Some err) s'))
      else (RetryExhausted lastErr, s))"
  by pat_completeness auto
termination
  by (relation "measure (\<lambda>(before, during, mx, fn, attempt, lastErr, s). nat (mx + 1 - int attempt))") auto

declare attempt_loop.simps [simp del]

definition Attempt ::
  "(nat \<Rightarrow> string option) \<Rightarrow> (nat \<Rightarrow> string option) \<Rightarrow> RetryPolicy \<Rightarrow> ('s \<Rightarrow> string option \<times> 's) \<Rightarrow> 's \<Rightarrow> retry_result \<times> 's"
where
  "Attempt before during rp fn s = attempt_loop before during (rp_MaxRetries rp) fn 0 None s"

text \<open>\<open>AttemptAsync\<close> sends the result of \<open>Attempt\<close> on a channel with room for it.\<close>

definition AttemptAsync ::
  "(nat \<Rightarrow> string option) \<Rightarrow> (nat \<Rightarrow> string option) \<Rightarrow> RetryPolicy \<Rightarrow> ('s \<Rightarrow> string option \<times> 's) \<Rightarrow> 's \<Rightarrow> retry_result list \<times> 's"
where
  "AttemptAsync before during rp fn s =
     (let (res, s') = Attempt before during rp fn s in ([res], s'))"

text \<open>The text of the returned error; nil has none.\<close>

fun retry_error :: "retry_result \<Rightarrow> string option" where
  "retry_error RetryOk = None"
| "retry_error (RetryCancelled e) = Some (''retry cancelled: '' @ e)"
| "retry_error (RetryExhausted (Some e)) = Some (''max retries exceeded (last error: '' @ e @ '')'')"
| "retry_error (RetryExhausted None) = Some ''max retries exceeded (last error: %!w(<nil>))''"

section \<open>Timeouts and error classes\<close>

record TimeoutManager =
  tm_totalTimeout :: duration
  tm_stageTimeouts :: "string \<rightharpoonup> duration"

definition NewTimeoutManager :: "duration \<Rightarrow> TimeoutManager" where
  "NewTimeoutManager totalTimeout = \<lparr>tm_totalTimeout = totalTimeout, tm_stageTimeouts = Map.empty\<rparr>"

definition SetStageTimeout :: "TimeoutManager \<Rightarrow> string \<Rightarrow> duration \<Rightarrow> TimeoutManager" where
  "SetStageTimeout tm stage timeout =
     tm\<lparr>tm_stageTimeouts := (tm_stageTimeouts tm)(stage \<mapsto> timeout)\<rparr>"

text \<open>The duration \<open>WithTimeout\<close> gives to the derived context.\<close>

definition tm_WithTimeout :: "TimeoutManager \<Rightarrow> string \<Rightarrow> duration" where
  "tm_WithTimeout tm stage =
     (let timeout = (case tm_stageTimeouts tm stage of Some t \<Rightarrow> t | None \<Rightarrow> tm_totalTimeout tm)
      in if timeout = 0 then 30 * Second else timeout)"

definition tm_IsExceeded :: "bool \<Rightarrow> bool" where
  "tm_IsExceeded ctxDone = ctxDone"

datatype ErrorType = ErrorTypeTransient | ErrorTypePermanent | ErrorTypeTimeout | ErrorTypeCircuitOpen

definition transientPatterns :: "string list" where
  "transientPatterns =
     [''connection refused'', ''network unreachable'', ''temporary failure'', ''temporarily unavailable'',
      ''deadline exceeded'']"

definition ClassifyError :: "string option \<Rightarrow> ErrorType" where
  "ClassifyError err =
     (case err of
        None \<Rightarrow> ErrorTypePermanent
      | Some errStr \<Rightarrow>
          if errStr = ''circuit breaker open: service unavailable'' then ErrorTypeCircuitOpen
          else if errStr = ''context deadline exceeded'' \<or> errStr = ''i/o timeout'' then ErrorTypeTimeout
          else if errStr \<in> set transientPatterns then ErrorTypeTransient
          else ErrorTypePermanent)"

definition IsRetryable :: "string option \<Rightarrow> bool" where
  "IsRetryable err = (ClassifyError err = ErrorTypeTransient)"

text \<open>The texts of the errors that the package declares for all pipeline stages.\<close>

definition ErrorCatalog :: "string list" where
  "ErrorCatalog =
     [''device programming failed'', ''device programming timeout'', ''device not ready'', ''device unreachable'',
      ''plugin not found'', ''plugin initialization failed'', ''plugin execution failed'', ''plugin crashed'',
      ''vendor not supported'', ''vendor unreachable'', ''vendor quota exceeded'', ''vendor authentication failed'',
      ''invalid configuration'', ''missing required configuration'',
      ''consistency violation detected'', ''consistency check failed'',
      ''worker pool exhausted'', ''job queue full'', ''resource limit exceeded'']"

section \<open>The breaker satisfies the contract\<close>

definition cb_wf :: "CircuitBreaker \<Rightarrow> bool" where
  "cb_wf cb \<longleftrightarrow>
     1 \<le> cb_failureThreshold cb \<and> cb_failureThreshold cb < 2 ^ 63 \<and>
     1 \<le> cb_successThreshold cb \<and> cb_successThreshold cb < 2 ^ 63 \<and>
     (cb_state cb = StateClosed \<longrightarrow> 0 \<le> cb_failureCount cb \<and> cb_failureCount cb < cb_failureThreshold cb) \<and>
     (cb_state cb = StateHalfOpen \<longrightarrow> 0 \<le> cb_successCount cb \<and> cb_successCount cb < cb_successThreshold cb)"

lemma cb_wf_New: "ft < 2 ^ 63 \<Longrightarrow> sth < 2 ^ 63 \<Longrightarrow> cb_wf (NewCircuitBreaker ft sth tmo)"
  by (simp add: cb_wf_def NewCircuitBreaker_def)

interpretation fm_cb: circuit_breaker cb_wf cb_state "\<lambda>cb. nat (cb_failureThreshold cb)"
  "\<lambda>cb. nat (cb_failureCount cb)" "\<lambda>cb. nat (cb_successThreshold cb)" "\<lambda>cb. nat (cb_successCount cb)"
  "\<lambda>now cb. time_since now (cb_lastFailureTime cb) > cb_timeout cb" cb_admit recordSuccess recordFailure
proof (unfold_locales, goal_cases)
  case (3 b t)
  then have "i64 (cb_failureCount b + 1) = cb_failureCount b + 1"
    by (auto simp: cb_wf_def intro: i64_succ)
  with 3 show ?case by (auto simp: recordFailure_def cb_wf_def Let_def nat_less_iff Suc_nat_eq_nat_zadd1)
next
  case (5 b)
  then have "i64 (cb_successCount b + 1) = cb_successCount b + 1"
    by (auto simp: cb_wf_def intro: i64_succ)
  with 5 show ?case by (auto simp: recordSuccess_def cb_wf_def Let_def nat_less_iff Suc_nat_eq_nat_zadd1)
qed (auto simp: cb_wf_def recordSuccess_def cb_admit_def Let_def)


section \<open>Calls\<close>

text \<open>A call of a function with a fixed outcome.\<close>

definition call_with :: "time \<Rightarrow> string option \<Rightarrow> CircuitBreaker \<Rightarrow> CircuitBreaker" where
  "call_with t e cb = fst (snd (cb_Call t t (\<lambda>s. (e, s)) cb ()))"

lemma call_with_admit:
  "call_with t e cb =
     (if fst (cb_admit t cb)
      then if e = None then recordSuccess (snd (cb_admit t cb)) else recordFailure t (snd (cb_admit t cb))
      else snd (cb_admit t cb))"
  by (auto simp: call_with_def cb_Call_def Let_def split: prod.splits)


lemma record_state:
  "cb_lastFailureTime (recordFailure t cb) = t" "cb_timeout (recordFailure t cb) = cb_timeout cb"
  "cb_timeout (recordSuccess cb) = cb_timeout cb"
  "cb_lastFailureTime (recordSuccess cb) = cb_lastFailureTime cb"
  by (auto simp: recordFailure_def recordSuccess_def Let_def split: if_splits)

lemma closed_record:
  assumes "cb_state cb = StateClosed"
  shows "cb_state (recordSuccess cb) = StateClosed"
    and "cb_state (recordFailure t cb) = StateClosed \<or> cb_state (recordFailure t cb) = StateOpen"
  using assms by (simp_all add: recordFailure_def recordSuccess_def Let_def)

text \<open>Within a window no longer than the timeout, calls are just recordings until the breaker opens.\<close>

lemma calls_in_window:
  assumes "\<forall>x \<in> set rs. T \<le> fst x \<and> fst x \<le> T + cb_timeout cb"
    and "cb_state cb = StateClosed \<or> cb_state cb = StateOpen \<and> T \<le> cb_lastFailureTime cb"
    and "0 \<le> cb_timeout cb" and "cb_timeout cb < 2 ^ 63"
  shows "foldl (\<lambda>cb (t, e). call_with t e cb) cb rs =
    record_closed cb_state recordSuccess recordFailure cb (map (\<lambda>(t, e). (t, e = None)) rs)"
  using assms
proof (induction rs arbitrary: cb)
  case (Cons x rs)
  obtain t e where x: "x = (t, e)" by fastforce
  show ?case
  proof (cases "cb_state cb = StateClosed")
    case True
    then have c: "call_with t e cb = (if e = None then recordSuccess cb else recordFailure t cb)"
      by (simp add: call_with_admit cb_admit_def Let_def)
    have "cb_state (call_with t e cb) = StateClosed \<or>
        cb_state (call_with t e cb) = StateOpen \<and> T \<le> cb_lastFailureTime (call_with t e cb)"
      using c closed_record [OF True] Cons.prems(1) by (auto simp: x record_state)
    moreover have "cb_timeout (call_with t e cb) = cb_timeout cb" by (simp add: c record_state)
    ultimately have "foldl (\<lambda>cb (t, e). call_with t e cb) (call_with t e cb) rs =
        record_closed cb_state recordSuccess recordFailure (call_with t e cb) (map (\<lambda>(t, e). (t, e = None)) rs)"
      using Cons.prems(1,3,4) by (intro Cons.IH) simp_all
    then show ?thesis using True by (simp add: x c)
  next
    case False
    with Cons.prems have o: "cb_state cb = StateOpen" "T \<le> cb_lastFailureTime cb" by auto
    have "\<not> time_since t (cb_lastFailureTime cb) > cb_timeout cb"
      using Cons.prems(1,3,4) o(2) x
      by (auto simp: time_since_def time_sub_def min_duration_def max_duration_def)
    then have c: "call_with t e cb = cb" using o by (simp add: call_with_admit cb_admit_def Let_def)
    have "foldl (\<lambda>cb (t, e). call_with t e cb) cb rs =
        record_closed cb_state recordSuccess recordFailure cb (map (\<lambda>(t, e). (t, e = None)) rs)"
      using Cons.prems by (intro Cons.IH) auto
    moreover have "record_closed cb_state recordSuccess recordFailure cb ys = cb" for ys
      using o by (cases ys) auto
    ultimately show ?thesis using False by (simp add: x c)
  qed
qed simp


section \<open>Attempts\<close>

text \<open>A function whose outcome depends on how often it was called before.\<close>

definition numbered :: "(nat \<Rightarrow> string option) \<Rightarrow> nat \<Rightarrow> string option \<times> nat" where
  "numbered res i = (res i, Suc i)"

lemma attempt_loop_numbered:
  "a \<le> Suc m \<Longrightarrow> attempt_loop (\<lambda>_. None) (\<lambda>_. None) (int m) (numbered res) a lastErr a =
     (case List.find (\<lambda>i. res i = None) [a..<Suc m] of
        Some k \<Rightarrow> (RetryOk, Suc k)
      | None \<Rightarrow> (RetryExhausted (if a = Suc m then lastErr else res m), Suc m))"
proof (induction "Suc m - a" arbitrary: a lastErr)
  case 0
  then show ?case by (simp add: attempt_loop.simps)
next
  case (Suc n)
  then have a: "a \<le> m" by simp
  then have upt: "[a..<Suc m] = a # [Suc a..<Suc m]" by (simp add: upt_conv_Cons del: upt_Suc)
  show ?case
  proof (cases "res a")
    case None
    then show ?thesis using a unfolding upt by (subst attempt_loop.simps) (simp add: numbered_def)
  next
    case (Some e)
    have "attempt_loop (\<lambda>_. None) (\<lambda>_. None) (int m) (numbered res) a lastErr a =
        attempt_loop (\<lambda>_. None) (\<lambda>_. None) (int m) (numbered res) (Suc a) (Some e) (Suc a)"
      using a Some by (subst attempt_loop.simps) (simp add: numbered_def)
    with Suc.hyps(1) [of "Suc a" "Some e"] Suc.hyps(2) a Some show ?thesis
      unfolding upt by (auto split: option.splits)
  qed
qed

text \<open>However the context behaves, the function runs at most once more than the number of retries.\<close>

lemma attempt_loop_calls:
  "snd (attempt_loop before during mx (\<lambda>i. (res i, Suc i)) a lastErr i) \<le> i + nat (mx + 1 - int a)"
proof (induction "nat (mx + 1 - int a)" arbitrary: a lastErr i)
  case 0
  then show ?case by (subst attempt_loop.simps) simp
next
  case (Suc n)
  then have a: "int a \<le> mx" "n = nat (mx + 1 - int (Suc a))" by simp_all
  have "snd (attempt_loop before during mx (\<lambda>i. (res i, Suc i)) (Suc a) l (Suc i)) \<le> i + nat (mx + 1 - int a)"
    for l
    using Suc.hyps(1) [OF a(2), of l "Suc i"] a Suc.hyps(2) by simp
  then show ?case
    using a by (subst attempt_loop.simps) (auto split: option.splits)
qed


section \<open>Properties\<close>

text \<open>C13: Within any span no longer than its timeout, a new circuit breaker opens exactly if as many consecutive calls fail as
  its failure threshold says (5 if the configured one is below 1); successes in between start the
  count again.\<close>

theorem fm_breaker_trips:
  assumes "ft < 2 ^ 63" and "sth < 2 ^ 63" and "tmo < 2 ^ 63"
    and "\<forall>x \<in> set rs. T \<le> fst x \<and> fst x \<le> T + cb_timeout (NewCircuitBreaker ft sth tmo)"
  shows "cb_State (foldl (\<lambda>cb (t, e). call_with t e cb) (NewCircuitBreaker ft sth tmo) rs) = StateOpen \<longleftrightarrow>
    sublist (replicate (nat (if ft < 1 then 5 else ft)) False) (map (\<lambda>(t, e). e = None) rs)"
proof -
  let ?b = "NewCircuitBreaker ft sth tmo"
  have b: "cb_state ?b = StateClosed" "cb_failureCount ?b = 0" "0 \<le> cb_timeout ?b" "cb_timeout ?b < 2 ^ 63"
    "cb_failureThreshold ?b = (if ft < 1 then 5 else ft)"
    using assms(3) by (simp_all add: NewCircuitBreaker_def Second_def)
  have m: "map snd (map (\<lambda>(t, e). (t, e = None)) rs) = map (\<lambda>(t, e). e = None) rs"
    by (simp add: comp_def case_prod_beta')
  have "cb_state (record_closed cb_state recordSuccess recordFailure ?b (map (\<lambda>(t, e). (t, e = None)) rs)) =
      StateOpen \<longleftrightarrow> sublist (replicate (nat (cb_failureThreshold ?b)) False) (map (\<lambda>(t, e). e = None) rs)"
    using fm_cb.opens_iff [OF cb_wf_New [OF assms(1,2)], of tmo "map (\<lambda>(t, e). (t, e = None)) rs"] b(1,2)
    unfolding m by simp
  then show ?thesis
    using calls_in_window [OF assms(4) _ b(3,4)] b(1) by (simp add: cb_State_def b(5))
qed

theorem fm_breaker_trips_witness:
  "cb_State (foldl (\<lambda>cb (t, e). call_with t e cb) (NewCircuitBreaker 2 1 100)
     [(1, Some ''x''), (2, None), (3, Some ''x''), (4, Some ''y'')]) = StateOpen"
proof -
  have "sublist (replicate (nat 2) False) [False, True, False, False]"
    by (simp add: numeral_2_eq_2 sublist_Cons_right)
  then show ?thesis
    using fm_breaker_trips [of 2 1 100 "[(1, Some ''x''), (2, None), (3, Some ''x''), (4, Some ''y'')]" 0]
    by (simp add: NewCircuitBreaker_def)
qed



text \<open>A half-open breaker that sees successes and failures in turn neither closes nor opens again: a success resets the
  failure counter, so that with thresholds of at least two a single failure does not reopen it, however often
  this repeats.\<close>

lemma fm_half_open_flaps:
  assumes "cb_wf cb" and "cb_State cb = StateHalfOpen" and "cb_successCount cb = 0"
    and "2 \<le> cb_failureThreshold cb" and "2 \<le> cb_successThreshold cb"
  shows "cb_State (((\<lambda>b. call_with t (Some e) (call_with t None b)) ^^ n) cb) = StateHalfOpen"
proof -
  have step: "call_with t (Some e) (call_with t None b) = b\<lparr>cb_failureCount := 1, cb_successCount := 0, cb_lastFailureTime := t\<rparr>"
    if "cb_state b = StateHalfOpen" "cb_successCount b = 0" "2 \<le> cb_failureThreshold b" "2 \<le> cb_successThreshold b" for b
    using that by (simp add: call_with_admit cb_admit_def recordSuccess_def recordFailure_def Let_def i64_def)
  have "let b = ((\<lambda>b. call_with t (Some e) (call_with t None b)) ^^ n) cb in
      cb_state b = StateHalfOpen \<and> cb_successCount b = 0 \<and> 2 \<le> cb_failureThreshold b \<and> 2 \<le> cb_successThreshold b"
    using assms by (induction n) (auto simp: cb_State_def Let_def step)
  then show ?thesis by (simp add: cb_State_def Let_def)
qed

lemma fm_half_open_flaps_instance:
  "cb_State (((\<lambda>b. call_with 9 (Some ''x'') (call_with 9 None b)) ^^ 1000)
     ((NewCircuitBreaker 5 2 100)\<lparr>cb_state := StateHalfOpen\<rparr>)) = StateHalfOpen"
  using fm_half_open_flaps [of "(NewCircuitBreaker 5 2 100)\<lparr>cb_state := StateHalfOpen\<rparr>" 1000 9 "''x''"]
  by (simp add: cb_wf_def NewCircuitBreaker_def cb_State_def)

text \<open>C25: Without cancellation, a retried function is called until its first success and at most one time more than
  the number of retries; if all calls fail, the last error is reported. With cancellation it is never
  called more often.\<close>

theorem retry_outcome:
  "Attempt (\<lambda>_. None) (\<lambda>_. None) (rp\<lparr>rp_MaxRetries := int m\<rparr>) (numbered res) 0 =
     (case List.find (\<lambda>i. res i = None) [0..<Suc m] of
        Some k \<Rightarrow> (RetryOk, Suc k)
      | None \<Rightarrow> (RetryExhausted (res m), Suc m)) \<and>
   snd (Attempt before during (rp\<lparr>rp_MaxRetries := int m\<rparr>) (numbered res) 0) \<le> Suc m"
proof
  show "snd (Attempt before during (rp\<lparr>rp_MaxRetries := int m\<rparr>) (numbered res) 0) \<le> Suc m"
    using attempt_loop_calls [of before during "int m" res 0 None 0]
    by (simp add: Attempt_def numbered_def [abs_def] nat_add_distrib)
qed (simp add: Attempt_def attempt_loop_numbered)

text \<open>Under the default policy the wait before every retry is within ten per cent of the exponential schedule of 100
  milliseconds doubled per attempt and capped at ten seconds, whatever the random number.\<close>

lemma default_backoff_bounds:
  assumes "0 \<le> r" and "r \<le> 1" and "n \<le> 36"
  shows "let base = min (100 * Millisecond * 2 ^ n) (10 * Second) in
    9 * base \<le> 10 * calculateBackoff r DefaultRetryPolicy n \<and>
    10 * calculateBackoff r DefaultRetryPolicy n \<le> 11 * base"
proof -
  define base where "base = min (100 * Millisecond * 2 ^ n) (10 * Second)"
  define j where "j = to_duration (of_int base * (1 / 10) * (r * 2 - 1))"
  have base: "0 \<le> base" "base \<le> 10 * Second" by (auto simp: base_def Millisecond_def Second_def)
  have "of_int (100 * Millisecond) * 2 ^ n = (of_int (100 * Millisecond * 2 ^ n) :: rat)" by simp
  moreover have "\<not> (of_int (100 * Millisecond * 2 ^ n) :: rat) < 0" by (simp add: Millisecond_def)
  ultimately have "to_duration (of_int (100 * Millisecond) * 2 ^ n) = 100 * Millisecond * 2 ^ n"
    unfolding to_duration_def by (simp only: if_False floor_of_int)
  then have eq: "calculateBackoff r DefaultRetryPolicy n = i64 (base + j)"
    by (simp add: calculateBackoff_def DefaultRetryPolicy_def base_def j_def Let_def min_def)
  have "\<bar>r * 2 - 1\<bar> \<le> 1" using assms(1,2) by auto
  then have "\<bar>of_int base * (1 / 10) * (r * 2 - 1)\<bar> \<le> of_int base * (1 / 10)"
    using base(1) by (simp add: abs_mult mult_left_le)
  with to_duration_abs have "\<bar>of_int j\<bar> \<le> (of_int base * (1 / 10) :: rat)"
    unfolding j_def by (rule order_trans)
  then have "of_int (10 * \<bar>j\<bar>) \<le> (of_int base :: rat)" by simp
  then have "10 * \<bar>j\<bar> \<le> base" by (simp only: of_int_le_iff)
  then have "9 * base \<le> 10 * (base + j)" "10 * (base + j) \<le> 11 * base" by (simp_all add: abs_if split: if_splits)
  moreover from this have "i64 (base + j) = base + j"
    using base by (intro i64_id) (simp add: is_i64_def Second_def)
  ultimately show ?thesis unfolding base_def [symmetric] Let_def eq by simp
qed

lemma default_backoff_bounds_instance:
  "9 * min (100 * Millisecond * 2 ^ 2) (10 * Second) \<le> 10 * calculateBackoff (1 / 3) DefaultRetryPolicy 2"
  using default_backoff_bounds [of "1 / 3" 2] by (simp add: Let_def)

text \<open>The classification of errors compares whole texts: an error that merely contains a transient pattern, such as a
  dial error or the error that a retry reports, is permanent and not retryable.\<close>

lemma classify_exact_match:
  "IsRetryable (Some ''connection refused'') \<and>
   ClassifyError (Some ''dial tcp 10.0.0.1:50051: connection refused'') = ErrorTypePermanent \<and>
   ClassifyError (retry_error (RetryExhausted (Some ''connection refused''))) = ErrorTypePermanent \<and>
   ClassifyError (Some open_error) = ErrorTypeCircuitOpen"
  by (simp add: IsRetryable_def ClassifyError_def transientPatterns_def open_error_def)

text \<open>The classification does not know the errors that the package itself declares: each of them counts as permanent, the
  timeout of a device and unreachable devices and vendors included, and none is retryable.\<close>

lemma catalog_permanent: "\<forall>e \<in> set ErrorCatalog. ClassifyError (Some e) = ErrorTypePermanent \<and> \<not> IsRetryable (Some e)"
  by code_simp

text \<open>Nor does it see through the wrapping of the retry loop: an error that is retryable by itself is permanent once \<open>Attempt\<close> has
  given up on it.\<close>

lemma wrapped_not_retryable: "\<not> IsRetryable (retry_error (RetryExhausted (Some e)))" "\<not> IsRetryable (retry_error (RetryCancelled e))"
  by (simp_all add: IsRetryable_def ClassifyError_def transientPatterns_def)

end
