(* ===== verification/FM_Dal.thy ===== *)
theory FM_Dal
  imports FM_GoalState FM_Resilience
begin

text \<open>
  The DPU abstraction layer up to the dispatcher (package dpuabstraction, files \<^verbatim>\<open>types.go\<close>, \<^verbatim>\<open>registry.go\<close>,
  \<^verbatim>\<open>factory.go\<close>, \<^verbatim>\<open>custom.go\<close> and \<^verbatim>\<open>dispatcher.go\<close> of \<^verbatim>\<open>src/FM/pkg/dal\<close>). A vendor plugin is a record with its
  programming function, which transforms the state of the devices \<open>'s\<close>; it is given the error of its context, if that is
  done. One dispatch is one step; the instants and the cancellations it meets are the record
  \<open>dispatch_env\<close>.
\<close>

section \<open>Plugins and their registry\<close>

record ProgramResult =
  pr_ENI_ID :: string
  pr_Success :: bool
  pr_Error :: string
  pr_AppliedVersion :: int
  pr_Duration :: duration

record 's Plugin =
  pg_Name :: string
  pg_Vendor :: string
  pg_Program :: "string option \<Rightarrow> PerENIGoalState \<Rightarrow> 's \<Rightarrow> (string + ProgramResult) \<times> 's"

type_synonym 's PluginRegistry = "string \<rightharpoonup> 's Plugin"

definition NewPluginRegistry :: "'s PluginRegistry" where
  "NewPluginRegistry = Map.empty"

definition pr_Register :: "'s PluginRegistry \<Rightarrow> string \<Rightarrow> 's Plugin option \<Rightarrow> string option \<times> 's PluginRegistry" where
  "pr_Register r vendor plugin =
     (if vendor = '''' then (Some ''vendor name required'', r)
      else case plugin of
             None \<Rightarrow> (Some ''plugin required'', r)
           | Some p \<Rightarrow>
               if r vendor \<noteq> None then (Some (''plugin already registered for vendor: '' @ vendor), r)
               else (None, r(vendor \<mapsto> p)))"

definition pr_Get :: "'s PluginRegistry \<Rightarrow> string \<Rightarrow> string + 's Plugin" where
  "pr_Get r vendor =
     (if vendor = '''' then Inl ''vendor name required''
      else case r vendor of
             None \<Rightarrow> Inl (''plugin not found for vendor: '' @ vendor)
           | Some p \<Rightarrow> Inr p)"

text \<open>The vendors in the iteration order of the map.\<close>

definition pr_ListVendors :: "string list \<Rightarrow> 's PluginRegistry \<Rightarrow> string list" where
  "pr_ListVendors order r = filter (\<lambda>v. r v \<noteq> None) order"

definition pr_Clear :: "'s PluginRegistry \<Rightarrow> 's PluginRegistry" where
  "pr_Clear r = Map.empty"

section \<open>The custom plugin and the factory\<close>

definition custom_Program :: "string option \<Rightarrow> PerENIGoalState \<Rightarrow> 's \<Rightarrow> (string + ProgramResult) \<times> 's" where
  "custom_Program ctxErr goal s =
     (case ctxErr of
        Some e \<Rightarrow> (Inl (''programming cancelled: '' @ e), s)
      | None \<Rightarrow>
          (Inr \<lparr>pr_ENI_ID = gs_ENI_ID goal, pr_Success = True, pr_Error = '''',
                pr_AppliedVersion = gs_Version goal, pr_Duration = 0\<rparr>, s))"

definition NewCustomPlugin :: "'s Plugin" where
  "NewCustomPlugin = \<lparr>pg_Name = ''Custom'', pg_Vendor = ''Custom'', pg_Program = custom_Program\<rparr>"

definition CreatePlugin :: "'s PluginRegistry \<Rightarrow> string \<Rightarrow> (string + 's Plugin) \<times> 's PluginRegistry" where
  "CreatePlugin r vendor =
     (if vendor = '''' then (Inl ''vendor name required'', r)
      else if vendor = ''Custom'' then
        (case pr_Register r vendor (Some NewCustomPlugin) of
           (Some err, r') \<Rightarrow> (Inl (''plugin registration failed: '' @ err), r')
         | (None, r') \<Rightarrow> (Inr NewCustomPlugin, r'))
      else if vendor = ''Intel'' then (Inl ''Intel vendor not yet implemented'', r)
      else if vendor = ''Nvidia'' then (Inl ''Nvidia vendor not yet implemented'', r)
      else (Inl (''unknown vendor: '' @ vendor), r))"

definition InitializeDefaultPlugins :: "'s PluginRegistry \<Rightarrow> string option \<times> 's PluginRegistry" where
  "InitializeDefaultPlugins r =
     (case CreatePlugin r ''Custom'' of
        (Inl err, r') \<Rightarrow> (Some (''failed to initialize Custom vendor: '' @ err), r')
      | (Inr p, r') \<Rightarrow> (None, r'))"

section \<open>The dispatcher\<close>

record DispatcherStats =
  dst_GoalsDispatched :: int
  dst_SuccessCount :: int
  dst_FailureCount :: int
  dst_TimeoutCount :: int
  dst_RetryCount :: int
  dst_CircuitOpenCount :: int
  dst_FallbackActivated :: int

record 's Dispatcher =
  ds_registry :: "'s PluginRegistry"
  ds_stats :: DispatcherStats
  ds_circuitBreakers :: "string \<rightharpoonup> CircuitBreaker"
  ds_retryPolicy :: RetryPolicy
  ds_timeoutManager :: TimeoutManager
  ds_vendorFallbacks :: "string \<rightharpoonup> string list"

definition NewPluginDispatcher :: "'s PluginRegistry \<Rightarrow> 's Dispatcher" where
  "NewPluginDispatcher registry =
     \<lparr>ds_registry = registry,
      ds_stats = \<lparr>dst_GoalsDispatched = 0, dst_SuccessCount = 0, dst_FailureCount = 0, dst_TimeoutCount = 0,
        dst_RetryCount = 0, dst_CircuitOpenCount = 0, dst_FallbackActivated = 0\<rparr>,
      ds_circuitBreakers = Map.empty, ds_retryPolicy = DefaultRetryPolicy,
      ds_timeoutManager = NewTimeoutManager (30 * Second),
      ds_vendorFallbacks = [''Intel'' \<mapsto> [''Custom''], ''Nvidia'' \<mapsto> [''Custom''], ''Custom'' \<mapsto> []]\<rparr>"

text \<open>
  What a dispatch meets: the instants of the breaker, the error of the caller's context before an attempt and during a
  wait, and the error of the context of each attempt's programming stage.
\<close>

record dispatch_env =
  en_now :: time
  en_later :: time
  en_before :: "nat \<Rightarrow> string option"
  en_during :: "nat \<Rightarrow> string option"
  en_stage :: "nat \<Rightarrow> string option"

text \<open>
  The innermost function: look the plugin up, program the device, count a retryable error. The state
  is the number of attempts so far (each has a stage context of its own), the retry counter, the variable \<open>result\<close> and the devices.
\<close>

definition program_once ::
  "'s PluginRegistry \<Rightarrow> (nat \<Rightarrow> string option) \<Rightarrow> string \<Rightarrow> PerENIGoalState \<Rightarrow>
     nat \<times> int \<times> ProgramResult option \<times> 's \<Rightarrow> string option \<times> nat \<times> int \<times> ProgramResult option \<times> 's"
where
  "program_once registry stageErr vendor goal x =
     (case x of (k, retries, result, s) \<Rightarrow>
        (case pr_Get registry vendor of
           Inl lookupErr \<Rightarrow> (Some (''vendor plugin lookup failed: '' @ lookupErr), Suc k, retries, result, s)
         | Inr plugin \<Rightarrow>
             (case pg_Program plugin (stageErr k) goal s of
                (Inl programErr, s') \<Rightarrow>
                  (Some programErr, Suc k,
                   if IsRetryable (Some programErr) then i64 (retries + 1) else retries, None, s')
              | (Inr r, s') \<Rightarrow>
                  (if \<not> pr_Success r then Some (''programming failed: '' @ pr_Error r) else None,
                   Suc k, retries, Some r, s'))))"

definition dispatchWithResilience ::
  "dispatch_env \<Rightarrow> string \<Rightarrow> PerENIGoalState \<Rightarrow> 's Dispatcher \<Rightarrow> 's \<Rightarrow>
     (string + ProgramResult option) \<times> 's Dispatcher \<times> 's"
where
  "dispatchWithResilience env vendor goal d s =
     (let cb = (case ds_circuitBreakers d vendor of
                  Some cb \<Rightarrow> cb | None \<Rightarrow> NewCircuitBreaker 5 2 (30 * Second));
          d1 = d\<lparr>ds_circuitBreakers := (ds_circuitBreakers d)(vendor \<mapsto> cb)\<rparr>;
          st = ds_stats d1
      in if cb_State cb = StateOpen
         then (Inl (''circuit breaker open for vendor '' @ vendor),
               d1\<lparr>ds_stats := st\<lparr>dst_CircuitOpenCount := i64 (dst_CircuitOpenCount st + 1)\<rparr>\<rparr>, s)
         else
           let fn = (\<lambda>x. let (res, x') = Attempt (en_before env) (en_during env) (ds_retryPolicy d1)
                            (program_once (ds_registry d1) (en_stage env) vendor goal) x
                         in (retry_error res, x'));
               (err, cb', (k, retries, result, s')) =
                 cb_Call (en_now env) (en_later env) fn cb (0, dst_RetryCount st, None, s);
               d2 = d1\<lparr>ds_circuitBreakers := (ds_circuitBreakers d1)(vendor \<mapsto> cb'),
                       ds_stats := st\<lparr>dst_RetryCount := retries\<rparr>\<rparr>;
               st2 = ds_stats d2
           in case err of
                Some e \<Rightarrow> (Inl e, d2, s')
              | None \<Rightarrow>
                  (Inr result,
                   d2\<lparr>ds_stats := st2\<lparr>dst_SuccessCount := i64 (dst_SuccessCount st2 + 1)\<rparr>\<rparr>, s'))"

text \<open>The loop over the fallback vendors, with the error to report if all fail.\<close>

fun try_fallbacks ::
  "dispatch_env \<Rightarrow> PerENIGoalState \<Rightarrow> string list \<Rightarrow> string \<Rightarrow> 's Dispatcher \<Rightarrow> 's \<Rightarrow>
     (string + ProgramResult option) \<times> 's Dispatcher \<times> 's"
where
  "try_fallbacks env goal [] err d s = (Inl err, d, s)"
| "try_fallbacks env goal (f # fs) err d s =
     (let st = ds_stats d;
          d1 = d\<lparr>ds_stats := st\<lparr>dst_FallbackActivated := i64 (dst_FallbackActivated st + 1)\<rparr>\<rparr>
      in case dispatchWithResilience env f goal d1 s of
           (Inr result, d2, s') \<Rightarrow> (Inr result, d2, s')
         | (Inl e, d2, s') \<Rightarrow> try_fallbacks env goal fs e d2 s')"

definition Dispatch ::
  "string option \<Rightarrow> dispatch_env \<Rightarrow> PerENIGoalState option \<Rightarrow> 's Dispatcher \<Rightarrow> 's \<Rightarrow>
     (string + ProgramResult option) \<times> 's Dispatcher \<times> 's"
where
  "Dispatch ctxErr env goal d s =
     (case ctxErr of
        Some e \<Rightarrow> (Inl (''dispatch cancelled: '' @ e), d, s)
      | None \<Rightarrow>
          (case goal of
             None \<Rightarrow> (Inl ''goal state required'', d, s)
           | Some g \<Rightarrow>
               (let st = ds_stats d;
                    d1 = d\<lparr>ds_stats := st\<lparr>dst_GoalsDispatched := i64 (dst_GoalsDispatched st + 1)\<rparr>\<rparr>;
                    vendor = ''Custom''
                in case dispatchWithResilience env vendor g d1 s of
                     (Inr result, d2, s') \<Rightarrow> (Inr result, d2, s')
                   | (Inl err, d2, s') \<Rightarrow>
                       (case try_fallbacks env g
                               (case ds_vendorFallbacks d2 vendor of Some fs \<Rightarrow> fs | None \<Rightarrow> []) err d2 s' of
                          (Inr result, d3, s'') \<Rightarrow> (Inr result, d3, s'')
                        | (Inl e, d3, s'') \<Rightarrow>
                            (Inl e,
                             d3\<lparr>ds_stats := (ds_stats d3)\<lparr>dst_FailureCount :=
                                  i64 (dst_FailureCount (ds_stats d3) + 1)\<rparr>\<rparr>, s'')))))"

definition ds_Stats :: "'s Dispatcher \<Rightarrow> DispatcherStats" where
  "ds_Stats d = ds_stats d"

definition ResetCircuitBreaker :: "string \<Rightarrow> 's Dispatcher \<Rightarrow> 's Dispatcher" where
  "ResetCircuitBreaker vendor d =
     (case ds_circuitBreakers d vendor of
        Some cb \<Rightarrow> d\<lparr>ds_circuitBreakers := (ds_circuitBreakers d)(vendor \<mapsto> cb_Reset cb)\<rparr>
      | None \<Rightarrow> d)"

text \<open>A history of dispatches, with the results in order.\<close>

fun dispatch_run ::
  "(string option \<times> dispatch_env \<times> PerENIGoalState option) list \<Rightarrow> 's Dispatcher \<Rightarrow> 's \<Rightarrow>
     (string + ProgramResult option) list \<times> 's Dispatcher \<times> 's"
where
  "dispatch_run [] d s = ([], d, s)"
| "dispatch_run ((ctxErr, env, goal) # xs) d s =
     (let (r, d', s') = Dispatch ctxErr env goal d s; (rs, d'', s'') = dispatch_run xs d' s'
      in (r # rs, d'', s''))"

definition example_env :: dispatch_env where
  "example_env = \<lparr>en_now = 10, en_later = 11, en_before = (\<lambda>_. None), en_during = (\<lambda>_. None), en_stage = (\<lambda>_. None)\<rparr>"

definition failing_plugin :: "nat Plugin" where
  "failing_plugin = \<lparr>pg_Name = ''Custom'', pg_Vendor = ''Custom'', pg_Program = (\<lambda>e g s. (Inl ''boom'', Suc s))\<rparr>"

definition example_goal :: PerENIGoalState where
  "example_goal = \<lparr>gs_ENI_ID = ''e'', gs_Routes = [], gs_ACLs = [], gs_VIPMappings = [], gs_Fingerprint = ''f'',
     gs_Version = 7, gs_LastUpdated = 0\<rparr>"

section \<open>The invariant of a dispatcher\<close>

text \<open>The fallback table of the constructor is never changed; every dispatched goal is counted once more.\<close>

definition ds_inv :: "'s Dispatcher \<Rightarrow> bool" where
  "ds_inv d \<longleftrightarrow> ds_vendorFallbacks d ''Custom'' = Some [] \<and>
     dst_GoalsDispatched (ds_stats d) = i64 (dst_SuccessCount (ds_stats d) + dst_FailureCount (ds_stats d))"

lemma ds_inv_New: "ds_inv (NewPluginDispatcher r)"
  by (simp add: ds_inv_def NewPluginDispatcher_def i64_def)

lemma dispatchWithResilience_frame:
  assumes "dispatchWithResilience env vendor goal d s = (r, d', s')"
  shows "ds_vendorFallbacks d' = ds_vendorFallbacks d" and "ds_registry d' = ds_registry d"
    and "ds_retryPolicy d' = ds_retryPolicy d"
    and "dst_GoalsDispatched (ds_stats d') = dst_GoalsDispatched (ds_stats d)"
    and "dst_FailureCount (ds_stats d') = dst_FailureCount (ds_stats d)"
    and "dst_SuccessCount (ds_stats d') =
      (case r of Inr _ \<Rightarrow> i64 (dst_SuccessCount (ds_stats d) + 1) | Inl _ \<Rightarrow> dst_SuccessCount (ds_stats d))"
  using assms
  by (auto simp: dispatchWithResilience_def Let_def split: if_splits prod.splits option.splits)

lemma Dispatch_inv:
  assumes "ds_inv d" and "Dispatch ctxErr env goal d s = (r, d', s')"
  shows "ds_inv d'"
proof (cases "ctxErr = None \<and> goal \<noteq> None")
  case False
  then have "d' = d" using assms(2) by (auto simp: Dispatch_def split: option.splits)
  with assms(1) show ?thesis by simp
next
  case True
  then obtain g where g: "ctxErr = None" "goal = Some g" by auto
  let ?d1 = "d\<lparr>ds_stats := (ds_stats d)\<lparr>dst_GoalsDispatched := i64 (dst_GoalsDispatched (ds_stats d) + 1)\<rparr>\<rparr>"
  obtain r2 d2 s2 where d2: "dispatchWithResilience env ''Custom'' g ?d1 s = (r2, d2, s2)"
    by (metis prod.exhaust)
  note frame = dispatchWithResilience_frame [OF d2]
  show ?thesis
    using assms g d2 frame
    by (cases r2) (auto simp: Dispatch_def ds_inv_def Let_def add.commute add.left_commute)
qed

lemma dispatch_run_inv: "ds_inv d \<Longrightarrow> dispatch_run xs d s = (rs, d', s') \<Longrightarrow> ds_inv d'"
proof (induction xs arbitrary: d s rs)
  case (Cons x xs)
  obtain c env g where x: "x = (c, env, g)" by (metis prod.exhaust)
  obtain r d1 s1 where d1: "Dispatch c env g d s = (r, d1, s1)" by (metis prod.exhaust)
  obtain rs' where "dispatch_run xs d1 s1 = (rs', d', s')"
    using Cons.prems(2) by (auto simp: x d1 split: prod.splits)
  with Cons.IH Dispatch_inv [OF Cons.prems(1) d1] show ?case by blast
qed simp

section \<open>Work done by one dispatch\<close>

text \<open>A measure that one attempt raises by at most one is raised by at most one per attempt.\<close>

lemma attempt_loop_measure:
  assumes "\<And>x. f (snd (fn x)) \<le> f x + 1"
  shows "f (snd (attempt_loop before during mx fn a lastErr x)) \<le> f x + nat (mx + 1 - int a)"
proof (induction "nat (mx + 1 - int a)" arbitrary: a lastErr x)
  case 0
  then show ?case by (subst attempt_loop.simps) simp
next
  case (Suc n)
  then have a: "int a \<le> mx" "n = nat (mx + 1 - int (Suc a))" "nat (mx + 1 - int a) = Suc n" by simp_all
  obtain e x' where fn: "fn x = (e, x')" by fastforce
  have "f x' \<le> f x + 1" using assms [of x] fn by simp
  moreover have "f (snd (attempt_loop before during mx fn (Suc a) l x')) \<le> f x' + n" for l
    using Suc.hyps(1) [OF a(2), of l x'] a(2) by simp
  ultimately have "f (snd (attempt_loop before during mx fn (Suc a) l x')) \<le> f x + Suc n" "f x' \<le> f x + Suc n" for l
    by (metis add_Suc_right add_le_mono1 add.commute order_trans plus_1_eq_Suc, simp)
  then show ?case
    unfolding a(3) using a(1) fn by (subst attempt_loop.simps) (auto split: option.splits)
qed

lemma dispatchWithResilience_measure:
  assumes "\<And>p e g s. ds_registry d vendor = Some p \<Longrightarrow> f (snd (pg_Program p e g s)) \<le> f s + 1"
    and "rp_MaxRetries (ds_retryPolicy d) = int m"
    and "dispatchWithResilience env vendor goal d s = (r, d', s')"
  shows "f s' \<le> f s + Suc m"
proof -
  let ?fn = "program_once (ds_registry d) (en_stage env) vendor goal"
  let ?f = "\<lambda>(k, retries, result, s). f s"
  have step: "?f (snd (?fn x)) \<le> ?f x + 1" for x
    using assms(1)
    by (auto simp: program_once_def pr_Get_def split: prod.splits option.splits sum.splits if_splits)
       (metis snd_conv)+
  have "?f (snd (Attempt (en_before env) (en_during env) (ds_retryPolicy d) ?fn x)) \<le> ?f x + Suc m" for x
    using attempt_loop_measure [of ?f ?fn "en_before env" "en_during env" "int m" 0 None x, OF step]
    by (simp add: Attempt_def assms(2) nat_add_distrib)
  note bound = this [of "(0, dst_RetryCount (ds_stats d), None, s)"]
  obtain q k retries result s2 where A: "Attempt (en_before env) (en_during env) (ds_retryPolicy d) ?fn
      (0, dst_RetryCount (ds_stats d), None, s) = (q, k, retries, result, s2)"
    by (metis prod.exhaust)
  have "s' = s \<or> s' = s2"
    using assms(3) A
    by (auto simp: dispatchWithResilience_def cb_Call_def Let_def split: if_splits prod.splits option.splits)
  with bound A show ?thesis by auto
qed

section \<open>Properties\<close>

text \<open>Once the circuit breaker of the vendor is open, dispatching fails for good. The dispatcher asks for the state of the
  breaker before it calls it, so the breaker never gets the call that would let it try again after its
  timeout: in every later sequence of dispatches, at whatever time, every dispatch fails, no device is
  programmed and the breaker stays as it is.\<close>

lemma dispatch_open_forever:
  assumes "ds_circuitBreakers d ''Custom'' = Some cb" and "cb_State cb = StateOpen"
    and "ds_vendorFallbacks d ''Custom'' = Some []" and "dispatch_run xs d s = (rs, d', s')"
  shows "s' = s \<and> ds_circuitBreakers d' ''Custom'' = Some cb \<and> (\<forall>r \<in> set rs. \<exists>e. r = Inl e)"
  using assms
proof (induction xs arbitrary: d s rs)
  case (Cons x xs)
  obtain c env g where x: "x = (c, env, g)" by (metis prod.exhaust)
  obtain r d1 s1 where d1: "Dispatch c env g d s = (r, d1, s1)" by (metis prod.exhaust)
  obtain rs' where rs': "dispatch_run xs d1 s1 = (rs', d', s')" "rs = r # rs'"
    using Cons.prems(4) by (auto simp: x d1 split: prod.splits)
  have "s1 = s" "ds_circuitBreakers d1 ''Custom'' = Some cb" "ds_vendorFallbacks d1 ''Custom'' = Some []"
    "\<exists>e. r = Inl e"
    using d1 Cons.prems(1-3)
    by (auto simp: Dispatch_def dispatchWithResilience_def Let_def split: option.splits)
  with Cons.IH [OF _ Cons.prems(2) _ rs'(1)] rs'(2) show ?case by simp
qed simp

text \<open>One dispatch of a new dispatcher programs the device at most four times, whatever the plugin answers and however the
  contexts behave: the number of plugin runs is bounded by the three retries plus one, even though every error is
  retried, permanent or not.\<close>

lemma dispatch_bounded_work:
  assumes "\<And>p e g s. registry ''Custom'' = Some p \<Longrightarrow> runs (snd (pg_Program p e g s)) \<le> runs s + (1::nat)"
    and "Dispatch ctxErr env goal (NewPluginDispatcher registry) s = (r, d', s')"
  shows "runs s' \<le> runs s + 4"
proof (cases "ctxErr = None \<and> goal \<noteq> None")
  case False
  then show ?thesis using assms(2) by (auto simp: Dispatch_def split: option.splits)
next
  case True
  let ?d = "(NewPluginDispatcher registry)\<lparr>ds_stats := (ds_stats (NewPluginDispatcher registry))\<lparr>dst_GoalsDispatched :=
      i64 (dst_GoalsDispatched (ds_stats (NewPluginDispatcher registry)) + 1)\<rparr>\<rparr>"
  obtain g where g: "goal = Some g" using True by auto
  obtain r2 d2 s2 where d2: "dispatchWithResilience env ''Custom'' g ?d s = (r2, d2, s2)"
    by (metis prod.exhaust)
  have "ds_registry ?d = registry" "rp_MaxRetries (ds_retryPolicy ?d) = int 3"
    by (simp_all add: NewPluginDispatcher_def DefaultRetryPolicy_def)
  then have "runs s2 \<le> runs s + Suc 3"
    using dispatchWithResilience_measure [OF _ _ d2, of runs 3] assms(1) by simp
  moreover have "ds_vendorFallbacks d2 ''Custom'' = Some []"
    using dispatchWithResilience_frame(1) [OF d2] by (simp add: NewPluginDispatcher_def)
  then have "s' = s2"
    using assms(2) True g d2 by (cases r2) (auto simp: Dispatch_def Let_def)
  ultimately show ?thesis by simp
qed

lemma dispatch_bounded_work_instance:
  "snd (snd (Dispatch None example_env (Some example_goal)
     (NewPluginDispatcher [''Custom'' \<mapsto> failing_plugin]) 3)) \<le> 7"
proof -
  obtain r d' s' where run: "Dispatch None example_env (Some example_goal)
      (NewPluginDispatcher [''Custom'' \<mapsto> failing_plugin]) 3 = (r, d', s')"
    by (metis prod.exhaust)
  have "id (snd (pg_Program p e g s)) \<le> id s + 1" if "[''Custom'' \<mapsto> failing_plugin] ''Custom'' = Some p" for p e g s
    using that by (auto simp: failing_plugin_def)
  from dispatch_bounded_work [OF this run] run show ?thesis by simp
qed

text \<open>With the default plugins of the factory, a dispatch whose contexts are alive and whose breaker is not open
  succeeds and reports the interface and the version of the goal state it was given.\<close>

lemma dispatch_custom_succeeds:
  assumes "ds_registry d = snd (InitializeDefaultPlugins NewPluginRegistry)"
    and "0 \<le> rp_MaxRetries (ds_retryPolicy d)" and "en_before env 0 = None" and "en_stage env 0 = None"
    and "\<And>cb. ds_circuitBreakers d ''Custom'' = Some cb \<Longrightarrow> cb_State cb \<noteq> StateOpen"
  shows "fst (Dispatch None env (Some goal) d s) =
    Inr (Some \<lparr>pr_ENI_ID = gs_ENI_ID goal, pr_Success = True, pr_Error = '''',
      pr_AppliedVersion = gs_Version goal, pr_Duration = 0\<rparr>)"
proof -
  let ?r = "\<lparr>pr_ENI_ID = gs_ENI_ID goal, pr_Success = True, pr_Error = '''',
      pr_AppliedVersion = gs_Version goal, pr_Duration = 0\<rparr>"
  have "pr_Get (ds_registry d) ''Custom'' = Inr NewCustomPlugin"
    using assms(1)
    by (simp add: InitializeDefaultPlugins_def CreatePlugin_def pr_Register_def NewPluginRegistry_def pr_Get_def)
  then have once: "program_once (ds_registry d) (en_stage env) ''Custom'' goal (0, n, q, s) = (None, 1, n, Some ?r, s)" for n q
    using assms(4) by (simp add: program_once_def NewCustomPlugin_def custom_Program_def)
  have att: "Attempt (en_before env) (en_during env) (ds_retryPolicy d)
      (program_once (ds_registry d) (en_stage env) ''Custom'' goal) (0, n, q, s) = (RetryOk, 1, n, Some ?r, s)" for n q
    using assms(2,3) once by (simp add: Attempt_def) (subst attempt_loop.simps, simp)
  have new: "cb_State (NewCircuitBreaker 5 2 (30 * Second)) \<noteq> StateOpen"
    by (simp add: cb_State_def NewCircuitBreaker_def)
  show ?thesis
    using assms(5) att new
    by (cases "ds_circuitBreakers d ''Custom''")
      (auto simp: Dispatch_def dispatchWithResilience_def cb_Call_def cb_admit_def cb_State_def Let_def
        split: prod.splits)
qed

lemma dispatch_custom_succeeds_instance:
  "fst (Dispatch None example_env (Some example_goal)
     (NewPluginDispatcher (snd (InitializeDefaultPlugins NewPluginRegistry))) ()) =
   Inr (Some \<lparr>pr_ENI_ID = ''e'', pr_Success = True, pr_Error = '''', pr_AppliedVersion = 7, pr_Duration = 0\<rparr>)"
  using dispatch_custom_succeeds
    [of "NewPluginDispatcher (snd (InitializeDefaultPlugins NewPluginRegistry))" example_env example_goal "()"]
  by (simp add: NewPluginDispatcher_def DefaultRetryPolicy_def example_env_def example_goal_def)

text \<open>The dispatcher's counters add up: after any history of dispatches, however they end, the number of dispatched
  goals is the number of successes plus the number of failures, in 64-bit arithmetic.\<close>

lemma dispatch_stats_conserved:
  "case dispatch_run xs (NewPluginDispatcher registry) s of (rs, d, s') \<Rightarrow>
     dst_GoalsDispatched (ds_Stats d) = i64 (dst_SuccessCount (ds_Stats d) + dst_FailureCount (ds_Stats d))"
proof -
  obtain rs d s' where run: "dispatch_run xs (NewPluginDispatcher registry) s = (rs, d, s')"
    by (metis prod.exhaust)
  with dispatch_run_inv [OF ds_inv_New run] show ?thesis by (simp add: ds_inv_def ds_Stats_def)
qed

end
