(* ===== verification/FM_Pool.thy ===== *)
theory FM_Pool
  imports FM_Dal "HOL-Library.Multiset"
begin

text \<open>
  The worker pool and the manager of the DPU abstraction layer (package dpuabstraction, files \<^verbatim>\<open>pool.go\<close> and
  \<^verbatim>\<open>manager.go\<close> of \<^verbatim>\<open>src/FM/pkg/dal\<close>). The pool is a state machine: \<open>Start\<close>, \<open>Shutdown\<close> and the first part of
  \<open>Submit\<close> are one action each, entering its second select is another, the send of a job a third (a caller may wait
  there while the queue is full), and a worker takes a job, delivers its result or leaves. Every call of \<open>Submit\<close> makes
  one result channel; channels are numbered in the order of their creation. Every start derives a context of its own,
  numbered likewise: the field \<open>ctx\<close> is the last of them, and a caller that waits in a select waits for the one it read there.
\<close>

section \<open>State\<close>

record goalJob =
  jb_goal :: PerENIGoalState
  jb_chan :: nat

datatype worker = WIdle | WBusy goalJob | WExit

text \<open>
  A caller of \<open>Submit\<close> that has a job to send; once it is in its second select it waits for the context it read there.
\<close>

record submitter =
  sb_job :: goalJob
  sb_ctx :: "nat option"

fun worker_jobs :: "worker \<Rightarrow> goalJob list" where
  "worker_jobs (WBusy j) = [j]"
| "worker_jobs _ = []"

record Pool =
  pp_workers :: nat
  pp_running :: bool
  pp_ctxs :: "bool list"
  pp_queue :: "goalJob list"
  pp_queueClosed :: bool
  pp_waiting :: "submitter list"
  pp_threads :: "worker list"
  pp_sent :: "(nat \<times> ProgramResult option) list"
  pp_closed :: "nat list"
  pp_next :: nat
  pp_crashed :: "panic option"

datatype pool_error = PoolAlreadyRunning | PoolNotRunning

section \<open>Operations\<close>

definition NewPluginPool :: "int \<Rightarrow> Pool" where
  "NewPluginPool workers =
     \<lparr>pp_workers = (if workers < 1 then 4 else nat workers), pp_running = False, pp_ctxs = [],
      pp_queue = [], pp_queueClosed = False, pp_waiting = [], pp_threads = [], pp_sent = [], pp_closed = [],
      pp_next = 0, pp_crashed = None\<rparr>"

definition queue_capacity :: "Pool \<Rightarrow> nat" where
  "queue_capacity p = pp_workers p * 2"

text \<open>The contexts that are done; the pool's own is the one of the last start.\<close>

definition ctx_done :: "nat \<Rightarrow> Pool \<Rightarrow> bool" where
  "ctx_done k p \<longleftrightarrow> k < length (pp_ctxs p) \<and> pp_ctxs p ! k"

definition pool_ctx :: "Pool \<Rightarrow> nat" where
  "pool_ctx p = length (pp_ctxs p) - 1"

definition cancel_ctx :: "nat \<Rightarrow> Pool \<Rightarrow> Pool" where
  "cancel_ctx k p = p\<lparr>pp_ctxs := (pp_ctxs p)[k := True]\<rparr>"

definition pool_Start :: "bool \<Rightarrow> Pool \<Rightarrow> pool_error option \<times> Pool" where
  "pool_Start ctxDone p =
     (if pp_running p then (Some PoolAlreadyRunning, p)
      else (None, p\<lparr>pp_ctxs := pp_ctxs p @ [ctxDone], pp_running := True,
                    pp_threads := pp_threads p @ replicate (pp_workers p) WIdle\<rparr>))"

definition pool_Shutdown :: "Pool \<Rightarrow> (pool_error option \<times> Pool) go" where
  "pool_Shutdown p =
     (if \<not> pp_running p then Inr (Some PoolNotRunning, p)
      else if pp_queueClosed p then Inl CloseOfClosedChannel
      else Inr (None, (cancel_ctx (pool_ctx p) p)\<lparr>pp_queueClosed := True, pp_running := False\<rparr>))"

text \<open>
  \<open>Submit\<close> up to its second select: the call is rejected with a closed channel, or it has a job to send.
\<close>

definition submit_begin :: "bool \<Rightarrow> PerENIGoalState option \<Rightarrow> Pool \<Rightarrow> Pool" where
  "submit_begin ctxDone goal p =
     (let c = pp_next p; p1 = p\<lparr>pp_next := Suc c\<rparr>; rejected = p1\<lparr>pp_closed := pp_closed p1 @ [c]\<rparr>
      in if \<not> pp_running p then rejected
         else case goal of
                None \<Rightarrow> rejected
              | Some g \<Rightarrow>
                  if ctxDone \<or> ctx_done (pool_ctx p) p then rejected
                  else p1\<lparr>pp_waiting := pp_waiting p1 @ [\<lparr>sb_job = \<lparr>jb_goal = g, jb_chan = c\<rparr>, sb_ctx = None\<rparr>]\<rparr>)"

text \<open>The \<open>i\<close>-th waiting call enters its second select and reads the pool's context there.\<close>

definition submit_select :: "nat \<Rightarrow> Pool \<Rightarrow> Pool" where
  "submit_select i p = p\<lparr>pp_waiting := (pp_waiting p)[i := (pp_waiting p ! i)\<lparr>sb_ctx := Some (pool_ctx p)\<rparr>]\<rparr>"

text \<open>The send case of that select.\<close>

definition submit_send :: "nat \<Rightarrow> Pool \<Rightarrow> Pool go" where
  "submit_send i p =
     (if pp_queueClosed p then Inl SendOnClosedChannel
      else Inr (p\<lparr>pp_queue := pp_queue p @ [sb_job (pp_waiting p ! i)],
                  pp_waiting := take i (pp_waiting p) @ drop (Suc i) (pp_waiting p)\<rparr>))"

text \<open>The case in which the context it waits for is done.\<close>

definition submit_cancel :: "nat \<Rightarrow> Pool \<Rightarrow> Pool" where
  "submit_cancel i p =
     p\<lparr>pp_closed := pp_closed p @ [jb_chan (sb_job (pp_waiting p ! i))],
       pp_waiting := take i (pp_waiting p) @ drop (Suc i) (pp_waiting p)\<rparr>"

text \<open>A worker turns the outcome of the dispatch into a result.\<close>

definition job_result :: "goalJob \<Rightarrow> string + ProgramResult option \<Rightarrow> ProgramResult option" where
  "job_result job outcome =
     (case outcome of
        Inl err \<Rightarrow> Some \<lparr>pr_ENI_ID = gs_ENI_ID (jb_goal job), pr_Success = False, pr_Error = err,
                        pr_AppliedVersion = 0, pr_Duration = 0\<rparr>
      | Inr result \<Rightarrow> result)"

definition set_worker :: "nat \<Rightarrow> worker \<Rightarrow> Pool \<Rightarrow> Pool" where
  "set_worker i w p = p\<lparr>pp_threads := (pp_threads p)[i := w]\<rparr>"

section \<open>The state machine\<close>

datatype pool_action =
    PStart bool
  | PShutdown
  | PCtxCancel nat
  | PSubmit bool "PerENIGoalState option"
  | PSelect nat
  | PSend nat
  | PCancel nat
  | PTake nat
  | PLeave nat
  | PDeliver nat "string + ProgramResult option"
  | PAbandon nat

fun pool_act :: "pool_action \<Rightarrow> Pool \<Rightarrow> Pool option" where
  "pool_act (PStart ctxDone) p = Some (snd (pool_Start ctxDone p))"
| "pool_act PShutdown p =
     Some (case pool_Shutdown p of Inl pn \<Rightarrow> p\<lparr>pp_crashed := Some pn\<rparr> | Inr (_, p') \<Rightarrow> p')"
| "pool_act (PCtxCancel k) p = (if k < length (pp_ctxs p) then Some (cancel_ctx k p) else None)"
| "pool_act (PSubmit ctxDone goal) p = Some (submit_begin ctxDone goal p)"
| "pool_act (PSelect i) p =
     (if i < length (pp_waiting p) \<and> sb_ctx (pp_waiting p ! i) = None then Some (submit_select i p) else None)"
| "pool_act (PSend i) p =
     (if i < length (pp_waiting p) \<and> sb_ctx (pp_waiting p ! i) \<noteq> None \<and>
         (pp_queueClosed p \<or> length (pp_queue p) < queue_capacity p)
      then Some (case submit_send i p of Inl pn \<Rightarrow> p\<lparr>pp_crashed := Some pn\<rparr> | Inr p' \<Rightarrow> p')
      else None)"
| "pool_act (PCancel i) p =
     (if i < length (pp_waiting p) \<and> (case sb_ctx (pp_waiting p ! i) of Some k \<Rightarrow> ctx_done k p | None \<Rightarrow> False)
      then Some (submit_cancel i p) else None)"
| "pool_act (PTake i) p =
     (if i < length (pp_threads p) \<and> pp_threads p ! i = WIdle
      then case pp_queue p of
             [] \<Rightarrow> None
           | job # rest \<Rightarrow> Some (set_worker i (WBusy job) (p\<lparr>pp_queue := rest\<rparr>))
      else None)"
| "pool_act (PLeave i) p =
     (if i < length (pp_threads p) \<and> pp_threads p ! i = WIdle \<and> pp_queue p = [] \<and> pp_queueClosed p
      then Some (set_worker i WExit p) else None)"
| "pool_act (PDeliver i outcome) p =
     (if i < length (pp_threads p)
      then case pp_threads p ! i of
             WBusy job \<Rightarrow>
               Some (set_worker i WIdle (p\<lparr>pp_sent := pp_sent p @ [(jb_chan job, job_result job outcome)]\<rparr>))
           | _ \<Rightarrow> None
      else None)"
| "pool_act (PAbandon i) p =
     (if i < length (pp_threads p) \<and> ctx_done (pool_ctx p) p
      then case pp_threads p ! i of
             WBusy job \<Rightarrow> Some (set_worker i WExit (p\<lparr>pp_closed := pp_closed p @ [jb_chan job]\<rparr>))
           | _ \<Rightarrow> None
      else None)"

inductive pool_reach :: "int \<Rightarrow> pool_action list \<Rightarrow> Pool \<Rightarrow> bool" for workers where
  pool_init: "pool_reach workers [] (NewPluginPool workers)"
| pool_next: "pool_reach workers acts p \<Longrightarrow> pp_crashed p = None \<Longrightarrow> pool_act a p = Some p' \<Longrightarrow>
    pool_reach workers (acts @ [a]) p'"

fun pool_run :: "pool_action list \<Rightarrow> Pool \<Rightarrow> Pool option" where
  "pool_run [] p = Some p"
| "pool_run (a # as) p =
     (if pp_crashed p \<noteq> None then None
      else case pool_act a p of None \<Rightarrow> None | Some p' \<Rightarrow> pool_run as p')"

text \<open>The channels of all calls that are waiting, queued or being worked on, and of those that are answered.\<close>

definition open_chans :: "Pool \<Rightarrow> nat multiset" where
  "open_chans p = mset (map jb_chan (map sb_job (pp_waiting p) @ pp_queue p @ concat (map worker_jobs (pp_threads p))))"

definition answered_chans :: "Pool \<Rightarrow> nat multiset" where
  "answered_chans p = mset (map fst (pp_sent p)) + mset (pp_closed p)"

section \<open>The manager\<close>

record DalManagerStats =
  mst_ProgramsSubmitted :: int
  mst_ProgramsSucceeded :: int
  mst_ProgramsFailed :: int

record DalManager =
  dm_running :: bool
  dm_ctxDone :: bool
  dm_stats :: DalManagerStats
  dm_pool :: Pool

datatype dal_error =
    DalAlreadyRunning
  | DalNotRunning
  | DalPoolStartup pool_error
  | DalPoolShutdown pool_error
  | DalCancelled string
  | DalStopped
  | DalGoalRequired
  | DalWaitCancelled string

definition NewDPUAbstractionManager :: "int \<Rightarrow> DalManager" where
  "NewDPUAbstractionManager poolWorkers =
     \<lparr>dm_running = False, dm_ctxDone = False,
      dm_stats = \<lparr>mst_ProgramsSubmitted = 0, mst_ProgramsSucceeded = 0, mst_ProgramsFailed = 0\<rparr>,
      dm_pool = NewPluginPool poolWorkers\<rparr>"

definition dal_Start :: "bool \<Rightarrow> DalManager \<Rightarrow> dal_error option \<times> DalManager" where
  "dal_Start ctxDone m =
     (if dm_running m then (Some DalAlreadyRunning, m)
      else let m1 = m\<lparr>dm_ctxDone := ctxDone, dm_running := True\<rparr>
           in case pool_Start ctxDone (dm_pool m1) of
                (Some err, pl) \<Rightarrow> (Some (DalPoolStartup err), m1\<lparr>dm_pool := pl, dm_running := False\<rparr>)
              | (None, pl) \<Rightarrow> (None, m1\<lparr>dm_pool := pl\<rparr>))"

definition dal_Stop :: "DalManager \<Rightarrow> (dal_error option \<times> DalManager) go" where
  "dal_Stop m =
     (if \<not> dm_running m then Inr (Some DalNotRunning, m)
      else go_bind (pool_Shutdown (dm_pool m)) (\<lambda>(err, pl).
        case err of
          Some e \<Rightarrow> Inr (Some (DalPoolShutdown e), m\<lparr>dm_pool := pl\<rparr>)
        | None \<Rightarrow> Inr (None, m\<lparr>dm_pool := pl, dm_ctxDone := True, dm_running := False\<rparr>)))"

text \<open>How the wait of \<open>Program\<close> ends: with what the result channel yields (nil if it was closed), or cancelled.\<close>

datatype wait_outcome = GotResult "ProgramResult option" | WaitCancelled string | WaitStopped

text \<open>\<open>Program\<close>, up to the submission and after the wait; \<open>ownFirst\<close> is the choice of the first select.\<close>

definition dal_Program ::
  "string option \<Rightarrow> bool \<Rightarrow> PerENIGoalState option \<Rightarrow> wait_outcome \<Rightarrow> DalManager \<Rightarrow>
     (dal_error + ProgramResult option) \<times> DalManager"
where
  "dal_Program ctxErr ownFirst goal outcome m =
     (if \<not> dm_running m then (Inl DalNotRunning, m)
      else if dm_ctxDone m \<and> (ctxErr = None \<or> ownFirst) then (Inl DalStopped, m)
      else case ctxErr of
        Some e \<Rightarrow> (Inl (DalCancelled e), m)
      | None \<Rightarrow>
          (case goal of
             None \<Rightarrow> (Inl DalGoalRequired, m)
           | Some g \<Rightarrow>
               (let st = dm_stats m;
                    st1 = st\<lparr>mst_ProgramsSubmitted := i64 (mst_ProgramsSubmitted st + 1)\<rparr>;
                    m1 = m\<lparr>dm_pool := submit_begin False (Some g) (dm_pool m)\<rparr>
                in case outcome of
                     GotResult result \<Rightarrow>
                       (Inr result,
                        m1\<lparr>dm_stats :=
                          (if (case result of Some r \<Rightarrow> pr_Success r | None \<Rightarrow> False)
                           then st1\<lparr>mst_ProgramsSucceeded := i64 (mst_ProgramsSucceeded st1 + 1)\<rparr>
                           else st1\<lparr>mst_ProgramsFailed := i64 (mst_ProgramsFailed st1 + 1)\<rparr>)\<rparr>)
                   | WaitCancelled e \<Rightarrow> (Inl (DalWaitCancelled e), m1\<lparr>dm_stats := st1\<rparr>)
                   | WaitStopped \<Rightarrow> (Inl DalStopped, m1\<lparr>dm_stats := st1\<rparr>))))"

definition dal_Stats :: "DalManager \<Rightarrow> DalManagerStats" where
  "dal_Stats m = dm_stats m"

section \<open>Every submission has one place\<close>

lemma mset_remove_nth: "i < length xs \<Longrightarrow> mset xs = add_mset (xs ! i) (mset (take i xs @ drop (Suc i) xs))"
  by (subst (1) id_take_nth_drop [of i xs]) simp_all

lemma map_upd_same: "f y = f (xs ! i) \<Longrightarrow> map f (xs[i := y]) = map f xs"
  by (metis list_update_id map_update)

lemma open_chans_select: "open_chans (submit_select i p) = open_chans p"
proof -
  have "map sb_job (pp_waiting (submit_select i p)) = map sb_job (pp_waiting p)"
    by (simp add: submit_select_def map_upd_same)
  then show ?thesis unfolding open_chans_def by (simp only:) (simp add: submit_select_def)
qed

lemma submit_select_frame: "answered_chans (submit_select i p) = answered_chans p" "pp_next (submit_select i p) = pp_next p"
  by (simp_all add: answered_chans_def submit_select_def)

lemma mset_update_jobs:
  "i < length ws \<Longrightarrow>
     mset (concat (map worker_jobs (ws[i := w]))) + mset (worker_jobs (ws ! i)) =
     mset (concat (map worker_jobs ws)) + mset (worker_jobs w)"
  by (subst (3) id_take_nth_drop [of i ws]) (simp_all add: upd_conv_take_nth_drop)

lemma open_chans_worker:
  "i < length (pp_threads p) \<Longrightarrow>
     open_chans (set_worker i w p) + mset (map jb_chan (worker_jobs (pp_threads p ! i))) =
     open_chans p + mset (map jb_chan (worker_jobs w))"
  using arg_cong [OF mset_update_jobs [of i "pp_threads p" w], of "image_mset jb_chan"]
  by (simp add: open_chans_def set_worker_def ac_simps)

definition pool_inv :: "Pool \<Rightarrow> bool" where
  "pool_inv p \<longleftrightarrow> open_chans p + answered_chans p = mset [0..<pp_next p]"

text \<open>A worker that answers or abandons its job moves the job's channel from the open to the answered ones.\<close>

lemma pool_inv_finish:
  assumes inv: "pool_inv p" and i: "i < length (pp_threads p)" "pp_threads p ! i = WBusy job" and w: "w = WIdle \<or> w = WExit"
    and q: "p' = set_worker i w q" "pp_threads q = pp_threads p" "pp_waiting q = pp_waiting p" "pp_queue q = pp_queue p"
      "pp_next q = pp_next p" "answered_chans q = add_mset (jb_chan job) (answered_chans p)"
  shows "pool_inv p'"
proof -
  have "open_chans p = add_mset (jb_chan job) (open_chans p')"
    using open_chans_worker [of i q w] i w q by (auto simp: open_chans_def set_worker_def)
  moreover have "answered_chans p' = answered_chans q" "pp_next p' = pp_next q"
    using q(1) by (simp_all add: answered_chans_def set_worker_def)
  ultimately show ?thesis using inv q by (simp add: pool_inv_def)
qed

lemma pool_inv_take:
  assumes inv: "pool_inv p" and act: "pool_act (PTake i) p = Some p'"
  shows "pool_inv p'"
proof -
  from act obtain job rest where *: "i < length (pp_threads p)" "pp_threads p ! i = WIdle" "pp_queue p = job # rest"
    "p' = set_worker i (WBusy job) (p\<lparr>pp_queue := rest\<rparr>)"
    by (auto split: if_splits list.splits)
  with open_chans_worker [of i "p\<lparr>pp_queue := rest\<rparr>" "WBusy job"] inv show ?thesis
    by (simp add: pool_inv_def answered_chans_def set_worker_def) (simp add: open_chans_def ac_simps)
qed

lemma pool_inv_leave:
  assumes inv: "pool_inv p" and act: "pool_act (PLeave i) p = Some p'"
  shows "pool_inv p'"
proof -
  from act have *: "i < length (pp_threads p)" "pp_threads p ! i = WIdle" "p' = set_worker i WExit p"
    by (auto split: if_splits)
  with open_chans_worker [of i p WExit] inv show ?thesis
    by (simp add: pool_inv_def answered_chans_def) (simp add: set_worker_def)
qed

lemma pool_inv_deliver:
  assumes inv: "pool_inv p" and act: "pool_act (PDeliver i outcome) p = Some p'"
  shows "pool_inv p'"
proof -
  from act obtain job where "i < length (pp_threads p)" "pp_threads p ! i = WBusy job"
    "p' = set_worker i WIdle (p\<lparr>pp_sent := pp_sent p @ [(jb_chan job, job_result job outcome)]\<rparr>)"
    by (auto split: if_splits worker.splits)
  then show ?thesis by (intro pool_inv_finish [OF inv, of i job WIdle _
        "p\<lparr>pp_sent := pp_sent p @ [(jb_chan job, job_result job outcome)]\<rparr>"]) (auto simp: answered_chans_def)
qed

lemma pool_inv_abandon:
  assumes inv: "pool_inv p" and act: "pool_act (PAbandon i) p = Some p'"
  shows "pool_inv p'"
proof -
  from act obtain job where "i < length (pp_threads p)" "pp_threads p ! i = WBusy job"
    "p' = set_worker i WExit (p\<lparr>pp_closed := pp_closed p @ [jb_chan job]\<rparr>)"
    by (auto split: if_splits worker.splits)
  then show ?thesis by (intro pool_inv_finish [OF inv, of i job WExit _ "p\<lparr>pp_closed := pp_closed p @ [jb_chan job]\<rparr>"]) (auto simp: answered_chans_def)
qed

lemma pool_inv_act:
  assumes inv: "pool_inv p" and act: "pool_act a p = Some p'"
  shows "pool_inv p'"
proof (cases a)
  case (PStart cd)
  with act inv show ?thesis
    by (auto simp: pool_inv_def pool_Start_def open_chans_def answered_chans_def concat_replicate_trivial)
next
  case PShutdown
  with act inv show ?thesis
    by (auto simp: pool_inv_def pool_Shutdown_def cancel_ctx_def open_chans_def answered_chans_def split: sum.splits if_splits)
next
  case (PCtxCancel k)
  with act inv show ?thesis
    by (auto simp: pool_inv_def cancel_ctx_def open_chans_def answered_chans_def split: if_splits)
next
  case (PSelect i)
  with act inv show ?thesis
    by (auto simp: pool_inv_def open_chans_select submit_select_frame split: if_splits)
next
  case (PSubmit cd g)
  with act inv show ?thesis
    by (auto simp: pool_inv_def submit_begin_def open_chans_def answered_chans_def Let_def atLeast0_lessThan_Suc
        split: option.splits)
next
  case (PSend i)
  with act inv show ?thesis
    using mset_remove_nth [of i "pp_waiting p"]
    by (auto simp: pool_inv_def submit_send_def open_chans_def answered_chans_def ac_simps split: if_splits)
next
  case (PCancel i)
  with act inv show ?thesis
    using mset_remove_nth [of i "pp_waiting p"]
    by (auto simp: pool_inv_def submit_cancel_def open_chans_def answered_chans_def ac_simps split: if_splits)
next
  case (PTake i)
  with act pool_inv_take [OF inv] show ?thesis by blast
next
  case (PLeave i)
  with act pool_inv_leave [OF inv] show ?thesis by blast
next
  case (PDeliver i outcome)
  with act pool_inv_deliver [OF inv] show ?thesis by blast
next
  case (PAbandon i)
  with act pool_inv_abandon [OF inv] show ?thesis by blast
qed

lemma pool_reach_inv: "pool_reach workers acts p \<Longrightarrow> pool_inv p"
proof (induction rule: pool_reach.induct)
  case pool_init
  show ?case by (simp add: pool_inv_def open_chans_def answered_chans_def NewPluginPool_def)
qed (rule pool_inv_act)

lemma pool_inv_distinct:
  assumes "pool_inv p"
  shows "distinct (map fst (pp_sent p) @ pp_closed p)"
proof -
  let ?open = "map jb_chan (map sb_job (pp_waiting p) @ pp_queue p @ concat (map worker_jobs (pp_threads p)))"
  have "mset (?open @ map fst (pp_sent p) @ pp_closed p) = mset [0..<pp_next p]"
    using assms by (simp add: pool_inv_def open_chans_def answered_chans_def ac_simps)
  then have "distinct (?open @ map fst (pp_sent p) @ pp_closed p)"
    by (metis distinct_upt mset_eq_imp_distinct_iff)
  then show ?thesis unfolding distinct_append by blast
qed

lemma pool_inv_answered:
  assumes "pool_inv p" "open_chans p = {#}"
  shows "set (map fst (pp_sent p) @ pp_closed p) = {..<pp_next p}"
proof -
  have "mset (map fst (pp_sent p) @ pp_closed p) = mset [0..<pp_next p]"
    using assms by (simp add: pool_inv_def answered_chans_def)
  then show ?thesis by (metis mset_eq_setD set_upt atLeast0LessThan)
qed

lemma pool_run_reach:
  "pool_run bs p = Some q \<Longrightarrow> pool_reach workers acts p \<Longrightarrow> pool_reach workers (acts @ bs) q"
proof (induction bs arbitrary: acts p)
  case (Cons b bs)
  then obtain p' where p': "pp_crashed p = None" "pool_act b p = Some p'" "pool_run bs p' = Some q"
    by (auto split: if_splits option.splits)
  with Cons.IH [OF p'(3) pool_next [OF Cons.prems(2) p'(1,2)]] show ?case by simp
qed simp

lemma pool_run_init: "pool_run acts (NewPluginPool workers) = Some p \<Longrightarrow> pool_reach workers acts p"
  using pool_run_reach [OF _ pool_init] by fastforce

lemmas pool_eval = NewPluginPool_def pool_Start_def pool_Shutdown_def submit_begin_def submit_send_def
  submit_cancel_def submit_select_def queue_capacity_def set_worker_def
  ctx_done_def pool_ctx_def cancel_ctx_def Let_def

section \<open>Properties\<close>

text \<open>C12: No submission is lost or answered twice: in every reachable state of the pool, under every interleaving of
  submitters, workers, start and shutdown, every channel handed out belongs to exactly one call that is waiting, queued, being
  worked on, answered with a result or closed without one. When nothing is waiting, queued or being
  worked on, every call has its answer.\<close>

theorem pool_conserves_jobs:
  assumes "pool_reach workers acts p"
  shows "open_chans p + answered_chans p = mset [0..<pp_next p] \<and>
    (open_chans p = {#} \<longrightarrow> distinct (map fst (pp_sent p) @ pp_closed p) \<and>
       set (map fst (pp_sent p) @ pp_closed p) = {..<pp_next p})"
  using pool_reach_inv [OF assms] pool_inv_distinct pool_inv_answered unfolding pool_inv_def by blast

theorem pool_conserves_jobs_witness:
  "\<exists>p. pool_reach 1 [PStart False, PSubmit False (Some example_goal), PSubmit False None, PSelect 0, PSend 0, PTake 0,
      PDeliver 0 (Inl ''boom'')] p \<and> set (map fst (pp_sent p) @ pp_closed p) = {..<2}"
proof -
  obtain p where p: "pool_run [PStart False, PSubmit False (Some example_goal), PSubmit False None, PSelect 0, PSend 0, PTake 0,
      PDeliver 0 (Inl ''boom'')] (NewPluginPool 1) = Some p" "open_chans p = {#}" "pp_next p = 2"
    by (simp add: pool_eval open_chans_def)
  from pool_conserves_jobs [OF pool_run_init [OF p(1)]] p pool_run_init [OF p(1)] show ?thesis by auto
qed

text \<open>Shutting the pool down is not safe for concurrent callers: a caller of \<open>Submit\<close> that has passed the running check when
  \<open>Shutdown\<close> closes the queue sends on a closed channel and panics. A pool that is started again after a
  shutdown panics at the first submission, because its queue stays closed.\<close>

lemma pool_shutdown_crashes:
  "(\<exists>p. pool_reach workers [PStart False, PSubmit False (Some g), PSelect 0, PShutdown, PSend 0] p \<and>
     pp_crashed p = Some SendOnClosedChannel) \<and>
   (\<exists>p. pool_reach workers [PStart False, PShutdown, PStart False, PSubmit False (Some g), PSelect 0, PSend 0] p \<and>
     pp_crashed p = Some SendOnClosedChannel)"
proof -
  obtain p where "pool_run [PStart False, PSubmit False (Some g), PSelect 0, PShutdown, PSend 0] (NewPluginPool workers) = Some p"
    "pp_crashed p = Some SendOnClosedChannel"
    by (simp add: pool_eval)
  moreover obtain q where "pool_run [PStart False, PShutdown, PStart False, PSubmit False (Some g), PSelect 0, PSend 0]
      (NewPluginPool workers) = Some q" "pp_crashed q = Some SendOnClosedChannel"
    by (simp add: pool_eval)
  ultimately show ?thesis by (blast intro: pool_run_init)
qed

text \<open>When the result channel was closed without a result, \<open>Program\<close> returns neither a result nor an error, and counts a
  failure; a caller that only checks the error dereferences nil.\<close>

lemma program_nil_result:
  assumes "dm_running m" and "\<not> dm_ctxDone m"
  shows "fst (dal_Program None b (Some g) (GotResult None) m) = Inr None \<and>
    mst_ProgramsFailed (dal_Stats (snd (dal_Program None b (Some g) (GotResult None) m))) =
      i64 (mst_ProgramsFailed (dal_Stats m) + 1)"
  using assms by (simp add: dal_Program_def dal_Stats_def Let_def)

lemma program_nil_result_instance:
  "fst (dal_Program None False (Some example_goal) (GotResult None)
     (snd (dal_Start False (NewDPUAbstractionManager 4)))) = Inr None"
  using program_nil_result [of "snd (dal_Start False (NewDPUAbstractionManager 4))" False example_goal]
  by (simp add: dal_Start_def NewDPUAbstractionManager_def pool_Start_def NewPluginPool_def)

end
