(* ===== verification/Go_Fmt.thy ===== *)
theory Go_Fmt
  imports Prelude
begin

text \<open>
  Formatting of Go's standard library that the logging code relies on: durations printed with \<open>%v\<close>, the Unix time of an
  instant in nanoseconds, and the UTF-8 encoding of a rune by the conversion \<open>string(rune)\<close>.
\<close>

text \<open>
  \<open>fmtFrac\<close> of package time: the last \<open>prec\<close> decimal digits of a number as a fraction, without trailing zeros, and no
  point if there is nothing left.
\<close>

fun frac_digits :: "nat \<Rightarrow> nat \<Rightarrow> string" where
  "frac_digits v 0 = []"
| "frac_digits v (Suc prec) = frac_digits (v div 10) prec @ [char_of (48 + v mod 10)]"

definition strip_zeros :: "string \<Rightarrow> string" where
  "strip_zeros s = rev (dropWhile (\<lambda>c. c = CHR ''0'') (rev s))"

definition fmt_frac :: "nat \<Rightarrow> nat \<Rightarrow> string" where
  "fmt_frac v prec =
     show_nat (v div 10 ^ prec) @
     (let f = strip_zeros (frac_digits v prec) in if f = [] then [] else CHR ''.'' # f)"

text \<open>The method \<open>String\<close> of a duration; the micro sign takes two bytes.\<close>

definition abs_duration_String :: "nat \<Rightarrow> string" where
  "abs_duration_String u =
     (if u < 1000 then show_nat u @ ''ns''
      else if u < 1000000 then fmt_frac u 3 @ [CHR 0xC2, CHR 0xB5] @ ''s''
      else if u < 1000000000 then fmt_frac u 6 @ ''ms''
      else let secs = u div 10 ^ 9;
               s = fmt_frac (secs mod 60 * 10 ^ 9 + u mod 10 ^ 9) 9 @ ''s'';
               mins = secs div 60;
               hours = mins div 60
           in (if hours > 0 then show_nat hours @ ''h'' else []) @
              (if mins > 0 then show_nat (mins mod 60) @ ''m'' else []) @ s)"

definition duration_String :: "duration \<Rightarrow> string" where
  "duration_String d =
     (if d = 0 then ''0s''
      else (if d < 0 then [CHR ''-''] else []) @ abs_duration_String (nat \<bar>d\<bar>))"

text \<open>Go's zero Time precedes the Unix epoch by 62135596800 seconds.\<close>

definition UnixNano :: "time \<Rightarrow> int" where
  "UnixNano t = i64 (t - 62135596800 * Second)"

text \<open>
  The layout \<open>time.RFC3339\<close> of an instant in UTC, for the years 1 to 9999: the days since the first of March of year 0 are
  split into eras of 400 years, and the year is counted from March.
\<close>

definition civil_date :: "nat \<Rightarrow> nat \<times> nat \<times> nat" where
  "civil_date z =
     (let era = z div 146097; doe = z mod 146097;
          yoe = (doe - doe div 1460 + doe div 36524 - doe div 146096) div 365;
          doy = doe - (365 * yoe + yoe div 4 - yoe div 100);
          mp = (5 * doy + 2) div 153;
          d = doy - (153 * mp + 2) div 5 + 1;
          m = (if mp < 10 then mp + 3 else mp - 9)
      in (400 * era + yoe + (if m \<le> 2 then 1 else 0), m, d))"

definition pad_zero :: "nat \<Rightarrow> string \<Rightarrow> string" where
  "pad_zero w s = replicate (w - length s) CHR ''0'' @ s"

definition RFC3339 :: "time \<Rightarrow> string" where
  "RFC3339 t =
     (let secs = nat (t div Second); (y, m, d) = civil_date (secs div 86400 + 306); s = secs mod 86400
      in pad_zero 4 (show_nat y) @ ''-'' @ pad_zero 2 (show_nat m) @ ''-'' @ pad_zero 2 (show_nat d) @ ''T'' @
         pad_zero 2 (show_nat (s div 3600)) @ '':'' @ pad_zero 2 (show_nat (s div 60 mod 60)) @ '':'' @
         pad_zero 2 (show_nat (s mod 60)) @ ''Z'')"

text \<open>The UTF-8 encoding of a rune; a number that is no code point becomes the replacement character.\<close>

definition encode_rune :: "int \<Rightarrow> string" where
  "encode_rune r =
     (let n = nat r in
      if r < 0 \<or> r > 0x10FFFF \<or> 0xD800 \<le> r \<and> r \<le> 0xDFFF then map char_of [0xEF, 0xBF, 0xBD :: nat]
      else if n < 0x80 then [char_of n]
      else if n < 0x800 then map char_of [0xC0 + n div 64, 0x80 + n mod 64]
      else if n < 0x10000 then map char_of [0xE0 + n div 4096, 0x80 + n div 64 mod 64, 0x80 + n mod 64]
      else map char_of [0xF0 + n div 262144, 0x80 + n div 4096 mod 64, 0x80 + n div 64 mod 64, 0x80 + n mod 64])"

lemma show_nat_nonempty: "show_nat n \<noteq> []"
  by (subst show_nat.simps) simp

end
