(* ===== verification/FM_Service.thy ===== *)
theory FM_Service
  imports FM_Observability FM_GoalState FM_Pool Go_Fmt "HOL-Library.AList"
begin

text \<open>
  The fabric manager as a program: configuration and service factory (\<^verbatim>\<open>src/FM/pkg/config\<close>), readiness (\<^verbatim>\<open>health.go\<close> of
  \<^verbatim>\<open>src/FM/pkg/observability\<close>), the request handlers (\<^verbatim>\<open>src/FM/pkg/api\<close>) and the assembly, start and shutdown of the services
  (\<^verbatim>\<open>src/FM/cmd/fm/main.go\<close>), composed from the pipeline, the goal state manager and the device manager of the
  other theories. Decoding a request body and listening on a port are outside: a handler gets the outcome of the decoding.
\<close>

section \<open>Configuration\<close>

definition Minute :: duration where
  "Minute = 60 * Second"

record CMConfig =
  cmc_CacheSize :: int
  cmc_CacheTTL :: duration
  cmc_ControlBrokerURL :: string
  cmc_Topics :: "string list"
  cmc_MaxRetries :: int
  cmc_RetryBackoff :: duration

definition DefaultCMConfig :: CMConfig where
  "DefaultCMConfig = \<lparr>cmc_CacheSize = 10000, cmc_CacheTTL = 5 * Minute, cmc_ControlBrokerURL = ''localhost:2379'',
     cmc_Topics = [''config''], cmc_MaxRetries = 3, cmc_RetryBackoff = 100 * Millisecond\<rparr>"

record DMConfig =
  dmc_RegistrySize :: int
  dmc_StrictMode :: bool
  dmc_EnforceRules :: bool

definition DefaultDMConfig :: DMConfig where
  "DefaultDMConfig = \<lparr>dmc_RegistrySize = 100000, dmc_StrictMode = True, dmc_EnforceRules = True\<rparr>"

record GMConfig =
  gmc_CacheSize :: int
  gmc_ParallelFetch :: bool
  gmc_AggregationTimeout :: duration
  gmc_GenerationTimeout :: duration

definition DefaultGMConfig :: GMConfig where
  "DefaultGMConfig = \<lparr>gmc_CacheSize = 50000, gmc_ParallelFetch = True, gmc_AggregationTimeout = 30 * Second,
     gmc_GenerationTimeout = 30 * Second\<rparr>"

text \<open>The configuration of the vendors is a map that stays empty; it is seen by its keys.\<close>

record DALConfig =
  dlc_PoolWorkers :: int
  dlc_Vendors :: "string list"
  dlc_ProgrammingTimeout :: duration

definition DefaultDALConfig :: DALConfig where
  "DefaultDALConfig = \<lparr>dlc_PoolWorkers = 4, dlc_Vendors = [], dlc_ProgrammingTimeout = 60 * Second\<rparr>"

record AppConfig =
  app_CM :: CMConfig
  app_DM :: DMConfig
  app_GM :: GMConfig
  app_DAL :: DALConfig

definition DefaultAppConfig :: AppConfig where
  "DefaultAppConfig = \<lparr>app_CM = DefaultCMConfig, app_DM = DefaultDMConfig, app_GM = DefaultGMConfig, app_DAL = DefaultDALConfig\<rparr>"

section \<open>The service factory\<close>

text \<open>The aggregator that the factory gives to the goal state manager: it finds no constructs.\<close>

definition stub_Aggregate :: "string \<Rightarrow> aggregate_error + AggregatedState" where
  "stub_Aggregate vnetID = Inr \<lparr>ag_VnetID = vnetID, ag_Constructs = [], ag_Replicas = []\<rparr>"

record 's PluginFactory =
  pf_registry :: "'s PluginRegistry"

definition NewPluginFactory :: "'s PluginFactory" where
  "NewPluginFactory = \<lparr>pf_registry = NewPluginRegistry\<rparr>"

definition CreateDPUManager :: "int \<Rightarrow> 's PluginRegistry \<Rightarrow> (string + DalManager) \<times> 's PluginRegistry" where
  "CreateDPUManager poolWorkers registry =
     (case InitializeDefaultPlugins registry of
        (Some err, r) \<Rightarrow> (Inl (''plugin initialization failed: '' @ err), r)
      | (None, r) \<Rightarrow> (Inr (NewDPUAbstractionManager poolWorkers), r))"

text \<open>The lines the factory has printed to its logger are part of its state. The check mark takes three bytes.\<close>

record ServiceFactory =
  sf_config :: DALConfig
  sf_gm :: "GoalStateManager option"
  sf_dal :: "DalManager option"
  sf_log :: "string list"

definition NewServiceFactory :: "AppConfig \<Rightarrow> ServiceFactory" where
  "NewServiceFactory cfg = \<lparr>sf_config = app_DAL cfg, sf_gm = None, sf_dal = None, sf_log = []\<rparr>"

definition check_mark :: string where
  "check_mark = [CHR 0xE2, CHR 0x9C, CHR 0x93]"

definition sf_Printf :: "string \<Rightarrow> ServiceFactory \<Rightarrow> ServiceFactory" where
  "sf_Printf msg sf = sf\<lparr>sf_log := sf_log sf @ [msg]\<rparr>"

definition CreateGMService :: "ServiceFactory \<Rightarrow> (string + GoalStateManager) \<times> ServiceFactory" where
  "CreateGMService sf =
     (case sf_gm sf of
        Some m \<Rightarrow> (Inr m, sf)
      | None \<Rightarrow>
          (let sf1 = sf_Printf ''[ServiceFactory] Creating GM (Goal State Management) service...'' sf;
               manager = NewGoalStateManager Map.empty NewGoalStateCache
           in (Inr manager, sf_Printf (''[ServiceFactory] '' @ check_mark @ '' GM service created'') (sf1\<lparr>sf_gm := Some manager\<rparr>))))"

definition CreateDALService :: "ServiceFactory \<Rightarrow> (string + DalManager) \<times> ServiceFactory" where
  "CreateDALService sf =
     (case sf_dal sf of
        Some m \<Rightarrow> (Inr m, sf)
      | None \<Rightarrow>
          (let sf1 = sf_Printf ''[ServiceFactory] Creating DAL (DPU Abstraction Layer) service...'' sf
           in case fst (CreateDPUManager (dlc_PoolWorkers (sf_config sf)) (pf_registry (NewPluginFactory :: unit PluginFactory))) of
                Inl err \<Rightarrow> (Inl (''failed to create DPU manager: '' @ err), sf1)
              | Inr manager \<Rightarrow>
                  (Inr manager,
                   sf_Printf (''[ServiceFactory] '' @ check_mark @ '' DAL service created (workers: '' @
                       show_int (dlc_PoolWorkers (sf_config sf)) @ '')'')
                     (sf1\<lparr>sf_dal := Some manager\<rparr>))))"

definition CreateAllServices :: "ServiceFactory \<Rightarrow> string option \<times> ServiceFactory" where
  "CreateAllServices sf =
     (case CreateGMService (sf_Printf ''[ServiceFactory] Initializing all services...'' sf) of
        (Inl err, sf1) \<Rightarrow> (Some (''failed to create GM: '' @ err), sf1)
      | (Inr _, sf1) \<Rightarrow>
          (case CreateDALService sf1 of
             (Inl err, sf2) \<Rightarrow> (Some (''failed to create DAL: '' @ err), sf2)
           | (Inr _, sf2) \<Rightarrow>
               (None, sf_Printf (''[ServiceFactory] '' @ check_mark @ '' All services initialized successfully'') sf2)))"

definition GetServices :: "ServiceFactory \<Rightarrow> GoalStateManager option \<times> DalManager option" where
  "GetServices sf = (sf_gm sf, sf_dal sf)"

section \<open>Readiness\<close>

text \<open>The map of services is an association list with distinct keys.\<close>

record fm_HealthChecker =
  hk_startTime :: time
  hk_services :: "(string \<times> bool) list"

definition fm_NewHealthChecker :: "time \<Rightarrow> fm_HealthChecker" where
  "fm_NewHealthChecker now =
     \<lparr>hk_startTime = now, hk_services = [(''cm'', False), (''dm'', False), (''gm'', False), (''dal'', False)]\<rparr>"

definition SetServiceStatus :: "string \<Rightarrow> bool \<Rightarrow> fm_HealthChecker \<Rightarrow> fm_HealthChecker" where
  "SetServiceStatus service ready hc = hc\<lparr>hk_services := AList.update service ready (hk_services hc)\<rparr>"

definition IsReady :: "fm_HealthChecker \<Rightarrow> bool" where
  "IsReady hc = list_all snd (hk_services hc)"

section \<open>Requests and responses\<close>

record HealthStatus =
  hs_Status :: string
  hs_Timestamp :: string
  hs_Uptime :: string
  hs_Services :: "(string \<times> string) list"

record ErrorResponse =
  er_Code :: string
  er_Message :: string
  er_Details :: string
  er_Timestamp :: string
  er_TraceID :: string

record VNET =
  vn_ID :: string
  vn_Name :: string
  vn_Status :: string
  vn_ENICount :: int
  vn_CreatedAt :: time
  vn_LastModified :: time

record ListVNETsResponse =
  lv_VNETs :: "VNET list"
  lv_Total :: int
  lv_Returned :: int
  lv_Timestamp :: string
  lv_TraceID :: string

record ApiRoute =
  ar_Destination :: string
  ar_NextHop :: string
  ar_Metric :: int

record ApiACL =
  aa_Direction :: string
  aa_Protocol :: string
  aa_Port :: int
  aa_CIDR :: string
  aa_Action :: string

record ApiVIPMapping =
  av_VIP :: string
  av_DIP :: string
  av_Status :: string

record GoalState =
  ag_ENIID :: string
  ag_Vnet :: string
  ag_Routes :: "ApiRoute list"
  ag_ACLs :: "ApiACL list"
  ag_VIPMappings :: "ApiVIPMapping list"
  ag_Fingerprint :: string
  ag_Version :: int
  ag_Timestamp :: string
  ag_TraceID :: string

record GetGoalStateRequest =
  gr_ENIID :: string

record GetGoalStateResponse =
  gp_GoalState :: GoalState
  gp_Cached :: bool
  gp_Timestamp :: string
  gp_TraceID :: string

record ProgramDeviceRequest =
  pq_ENIID :: string
  pq_VnetID :: string
  pq_Version :: int
  pq_Timeout :: int

record ProgramDeviceResult =
  pd_ENIID :: string
  pd_Status :: string
  pd_AppliedVersion :: int
  pd_Error :: string
  pd_Duration :: string
  pd_Timestamp :: string
  pd_TraceID :: string

text \<open>The values that handlers encode into the body of a response.\<close>

datatype body =
    BHealth HealthStatus
  | BError ErrorResponse
  | BVnets ListVNETsResponse
  | BGoalState GetGoalStateResponse
  | BProgram ProgramDeviceResult
  | BMap "(string \<times> string) list"

record response =
  rp_ContentType :: string
  rp_StatusCode :: int
  rp_Body :: body

definition WriteJSON :: "int \<Rightarrow> body \<Rightarrow> response" where
  "WriteJSON statusCode data = \<lparr>rp_ContentType = ''application/json'', rp_StatusCode = statusCode, rp_Body = data\<rparr>"

definition WriteError :: "time \<Rightarrow> int \<Rightarrow> string \<Rightarrow> string \<Rightarrow> string \<Rightarrow> response" where
  "WriteError now statusCode code message traceID =
     WriteJSON statusCode (BError \<lparr>er_Code = code, er_Message = message, er_Details = '''',
       er_Timestamp = RFC3339 now, er_TraceID = traceID\<rparr>)"

definition ValidateENIID :: "string \<Rightarrow> string option" where
  "ValidateENIID eniID =
     (if eniID = '''' then Some ''ENI ID cannot be empty''
      else if length eniID > 50 then Some ''ENI ID too long (max 50 characters)'' else None)"

definition ValidateVnetID :: "string \<Rightarrow> string option" where
  "ValidateVnetID vnetID =
     (if vnetID = '''' then Some ''VNET ID cannot be empty''
      else if length vnetID > 50 then Some ''VNET ID too long (max 50 characters)'' else None)"

definition HealthzHandler :: "time \<Rightarrow> fm_HealthChecker \<Rightarrow> response" where
  "HealthzHandler now hc =
     WriteJSON 200 (BHealth \<lparr>hs_Status = ''ok'', hs_Timestamp = RFC3339 now,
       hs_Uptime = duration_String (time_since now (hk_startTime hc)), hs_Services = []\<rparr>)"

definition ReadyzHandler :: "time \<Rightarrow> fm_HealthChecker \<Rightarrow> response" where
  "ReadyzHandler now hc =
     (let services = map (\<lambda>(service, ready). (service, if ready then ''ready'' else ''not_ready'')) (hk_services hc);
          allReady = list_all snd (hk_services hc)
      in WriteJSON (if allReady then 200 else 503) (BHealth \<lparr>hs_Status = ''ok'', hs_Timestamp = RFC3339 now,
           hs_Uptime = duration_String (time_since now (hk_startTime hc)), hs_Services = services\<rparr>))"

section \<open>The handlers\<close>

datatype log_arg = AStr string | AInt int

fun sprint_arg :: "log_arg \<Rightarrow> string" where
  "sprint_arg (AStr s) = s"
| "sprint_arg (AInt i) = show_int i"

record APIHandler =
  ah_logger :: fm_logger
  ah_tracer :: "TracingContext option"

definition NewAPIHandler :: "fm_logger \<Rightarrow> TracingContext option \<Rightarrow> APIHandler" where
  "NewAPIHandler logger tracer = \<lparr>ah_logger = logger, ah_tracer = tracer\<rparr>"

text \<open>What a handler does: the response, the log entries and the spans it opens and ends.\<close>

record handled =
  hd_response :: response
  hd_log :: "log_arg log_entry list"
  hd_spans :: "string list"

definition span_of :: "string \<Rightarrow> APIHandler \<Rightarrow> string list" where
  "span_of name h = (if ah_tracer h \<noteq> None then [name] else [])"

definition ListVNETs :: "time \<Rightarrow> APIHandler \<Rightarrow> handled" where
  "ListVNETs now h =
     \<lparr>hd_response = WriteJSON 200 (BVnets \<lparr>lv_VNETs = [], lv_Total = 0, lv_Returned = 0, lv_Timestamp = RFC3339 now,
        lv_TraceID = ''''\<rparr>),
      hd_log = fm_Info sprint_arg ''Listed VNETs'' [AStr ''count'', AInt 0] (ah_logger h),
      hd_spans = span_of ''API.ListVNETs'' h\<rparr>"

text \<open>\<open>decoded\<close> is the outcome of decoding the body of the request.\<close>

definition api_GetGoalState :: "time \<Rightarrow> string + GetGoalStateRequest \<Rightarrow> APIHandler \<Rightarrow> handled" where
  "api_GetGoalState now decoded h =
     (let reply = (\<lambda>r l. \<lparr>hd_response = r, hd_log = l, hd_spans = span_of ''API.GetGoalState'' h\<rparr>)
      in case decoded of
           Inl err \<Rightarrow> reply (WriteError now 400 ''INVALID_REQUEST'' ''Failed to parse request'' '''') []
         | Inr req \<Rightarrow>
             (case ValidateENIID (gr_ENIID req) of
                Some err \<Rightarrow> reply (WriteError now 400 ''INVALID_ENI_ID'' err '''') []
              | None \<Rightarrow>
                  (let goalState = \<lparr>ag_ENIID = gr_ENIID req, ag_Vnet = ''vnet-placeholder'', ag_Routes = [], ag_ACLs = [],
                         ag_VIPMappings = [], ag_Fingerprint = ''fp-'' @ gr_ENIID req @ ''-1'', ag_Version = 1,
                         ag_Timestamp = RFC3339 now, ag_TraceID = ''''\<rparr>
                   in reply (WriteJSON 200 (BGoalState \<lparr>gp_GoalState = goalState, gp_Cached = False,
                                gp_Timestamp = RFC3339 now, gp_TraceID = ''''\<rparr>))
                        (fm_Info sprint_arg ''Retrieved goal state'' [AStr ''eni_id'', AStr (gr_ENIID req)] (ah_logger h)))))"

text \<open>\<open>start\<close> and \<open>now\<close> are the readings of the clock around the simulated programming.\<close>

definition ProgramDevice :: "time \<Rightarrow> time \<Rightarrow> string + ProgramDeviceRequest \<Rightarrow> APIHandler \<Rightarrow> handled" where
  "ProgramDevice start now decoded h =
     (let reply = (\<lambda>r l. \<lparr>hd_response = r, hd_log = l, hd_spans = span_of ''API.ProgramDevice'' h\<rparr>)
      in case decoded of
           Inl err \<Rightarrow> reply (WriteError now 400 ''INVALID_REQUEST'' ''Failed to parse request'' '''') []
         | Inr req \<Rightarrow>
             (case ValidateENIID (pq_ENIID req) of
                Some err \<Rightarrow> reply (WriteError now 400 ''INVALID_ENI_ID'' err '''') []
              | None \<Rightarrow>
                  (case ValidateVnetID (pq_VnetID req) of
                     Some err \<Rightarrow> reply (WriteError now 400 ''INVALID_VNET_ID'' err '''') []
                   | None \<Rightarrow>
                       reply (WriteJSON 200 (BProgram \<lparr>pd_ENIID = pq_ENIID req, pd_Status = ''success'',
                                pd_AppliedVersion = pq_Version req, pd_Error = '''',
                                pd_Duration = duration_String (time_since now start), pd_Timestamp = RFC3339 now,
                                pd_TraceID = ''''\<rparr>))
                         (fm_Info sprint_arg ''Programming device''
                            [AStr ''eni_id'', AStr (pq_ENIID req), AStr ''version'', AInt (pq_Version req)] (ah_logger h) @
                          fm_Info sprint_arg ''Device programmed successfully'' [AStr ''eni_id'', AStr (pq_ENIID req)]
                            (ah_logger h)))))"

definition api_HealthHandler :: "time \<Rightarrow> response" where
  "api_HealthHandler now = WriteJSON 200 (BMap [(''status'', ''ok''), (''timestamp'', RFC3339 now)])"

section \<open>The services\<close>

text \<open>
  The program's log is the list of messages with their levels. \<open>None\<close> is a nil interface, or one that holds another
  implementation.
\<close>

record 'f Services =
  sv_metricsRegistry :: "MetricsRegistry option"
  sv_healthChecker :: fm_HealthChecker
  sv_cm :: "'f Pipeline option"
  sv_gm :: "GoalStateManager option"
  sv_dal :: "DalManager option"
  sv_api :: "APIHandler option"
  sv_log :: "(fm_level \<times> string) list"

text \<open>The adapter through which the factory logs: its two methods log at the levels info and error.\<close>

definition configLogger_Printf :: "string \<Rightarrow> fm_level \<times> string" where
  "configLogger_Printf msg = (InfoLevel, msg)"

definition configLogger_Fatalf :: "string \<Rightarrow> fm_level \<times> string" where
  "configLogger_Fatalf msg = (ErrorLevel, msg)"

definition sv_Info :: "string \<Rightarrow> 'f Services \<Rightarrow> 'f Services" where
  "sv_Info msg s = s\<lparr>sv_log := sv_log s @ [(InfoLevel, msg)]\<rparr>"

definition sv_Error :: "string \<Rightarrow> 'f Services \<Rightarrow> 'f Services" where
  "sv_Error msg s = s\<lparr>sv_log := sv_log s @ [(ErrorLevel, msg)]\<rparr>"

definition set_status :: "string \<Rightarrow> bool \<Rightarrow> 'f Services \<Rightarrow> 'f Services" where
  "set_status service ready s = s\<lparr>sv_healthChecker := SetServiceStatus service ready (sv_healthChecker s)\<rparr>"

text \<open>The old configuration, which is loaded and then not used.\<close>

record fm_Config =
  fc_BrokerAddress :: string
  fc_BrokerTopics :: "string list"
  fc_DedupCacheSize :: int
  fc_DedupTTL :: int
  fc_EtcdEndpoints :: "string list"
  fc_RocksDBPath :: string
  fc_MetricsPort :: int
  fc_JaegerURL :: string

definition LoadConfig :: "string \<Rightarrow> string + fm_Config" where
  "LoadConfig path = Inr \<lparr>fc_BrokerAddress = ''localhost:2379'', fc_BrokerTopics = [''/fm/events''],
     fc_DedupCacheSize = 10000, fc_DedupTTL = 300, fc_EtcdEndpoints = [''localhost:2379''],
     fc_RocksDBPath = ''/var/lib/fm/db'', fc_MetricsPort = 8081, fc_JaegerURL = ''http://localhost:14268/api/traces''\<rparr>"

definition service_config :: AppConfig where
  "service_config = \<lparr>app_CM = DefaultCMConfig, app_DM = DefaultDMConfig, app_GM = DefaultGMConfig,
     app_DAL = \<lparr>dlc_PoolWorkers = 4, dlc_Vendors = [], dlc_ProgrammingTimeout = 60 * Second\<rparr>\<rparr>"

text \<open>\<open>tracing\<close> is the outcome of the second attempt to set up tracing, whose error is ignored.\<close>

definition InitializeServices ::
  "time \<Rightarrow> fm_logger \<Rightarrow> MetricsRegistry option \<Rightarrow> string + TracingContext \<Rightarrow> string + 'f Services" where
  "InitializeServices now logger metricsRegistry tracing =
     (let services = \<lparr>sv_metricsRegistry = metricsRegistry, sv_healthChecker = fm_NewHealthChecker now,
            sv_cm = Some (NewEventPipeline (Some (NewLRUCache 10000))), sv_gm = None, sv_dal = None, sv_api = None,
            sv_log = [(InfoLevel, ''Creating CM (Config Management)...'')]\<rparr>
      in case CreateAllServices (NewServiceFactory service_config) of
           (Some err, factory) \<Rightarrow> Inl (''failed to create services: '' @ err)
         | (None, factory) \<Rightarrow>
             (let (gmSvc, dalSvc) = GetServices factory
              in Inr (sv_Info ''Creating API handler...''
                   (services\<lparr>sv_gm := gmSvc, sv_dal := dalSvc, sv_log := sv_log services @ map configLogger_Printf (sf_log factory),
                     sv_api := Some (NewAPIHandler logger (case tracing of Inl err \<Rightarrow> None | Inr tc \<Rightarrow> Some tc))\<rparr>))))"

datatype start_error = StartCM pipeline_error | StartGM gm_error | StartDAL dal_error

definition start_cm :: "time \<Rightarrow> bool \<Rightarrow> string option \<Rightarrow> 'f Services \<Rightarrow> start_error option \<times> 'f Services" where
  "start_cm now ctxDone subErr s =
     (case sv_cm s of
        None \<Rightarrow> (None, s)
      | Some p \<Rightarrow> (let (err, p') = pl_Start now ctxDone subErr p
                  in (map_option StartCM err, (sv_Info ''Starting CM (Config Management)...'' s)\<lparr>sv_cm := Some p'\<rparr>)))"

definition start_gm :: "bool \<Rightarrow> 'f Services \<Rightarrow> start_error option \<times> 'f Services" where
  "start_gm ctxDone s =
     (case sv_gm s of
        None \<Rightarrow> (None, s)
      | Some m \<Rightarrow> (let (err, m') = gm_Start ctxDone m
                  in (map_option StartGM err, (sv_Info ''Starting GM (Goal State Management)...'' s)\<lparr>sv_gm := Some m'\<rparr>)))"

definition start_dal :: "bool \<Rightarrow> 'f Services \<Rightarrow> start_error option \<times> 'f Services" where
  "start_dal ctxDone s =
     (case sv_dal s of
        None \<Rightarrow> (None, s)
      | Some m \<Rightarrow> (let (err, m') = dal_Start ctxDone m
                  in (map_option StartDAL err, (sv_Info ''Starting DAL (DPU Abstraction Layer)...'' s)\<lparr>sv_dal := Some m'\<rparr>)))"

text \<open>\<open>subErr\<close> is the outcome of the pipeline's subscription.\<close>

definition sv_Start :: "time \<Rightarrow> bool \<Rightarrow> string option \<Rightarrow> 'f Services \<Rightarrow> start_error option \<times> 'f Services" where
  "sv_Start now ctxDone subErr s =
     (case start_cm now ctxDone subErr (sv_Info ''Starting all services...'' s) of
        (Some err, s1) \<Rightarrow> (Some err, s1)
      | (None, s1) \<Rightarrow>
          (case start_gm ctxDone s1 of
             (Some err, s2) \<Rightarrow> (Some err, s2)
           | (None, s2) \<Rightarrow>
               (case start_dal ctxDone s2 of
                  (Some err, s3) \<Rightarrow> (Some err, s3)
                | (None, s3) \<Rightarrow>
                    (None, sv_Info ''All services started successfully''
                       (set_status ''dal'' True (set_status ''gm'' True (set_status ''cm'' True s3)))))))"

definition stop_dal :: "'f Services \<Rightarrow> 'f Services go" where
  "stop_dal s =
     (case sv_dal s of
        None \<Rightarrow> Inr s
      | Some m \<Rightarrow> go_bind (dal_Stop m) (\<lambda>(err, m').
          let s1 = (sv_Info ''Stopping DAL...'' s)\<lparr>sv_dal := Some m'\<rparr>
          in Inr (if err \<noteq> None then sv_Error ''Error stopping DAL'' s1 else s1)))"

definition stop_gm :: "'f Services \<Rightarrow> 'f Services" where
  "stop_gm s =
     (case sv_gm s of
        None \<Rightarrow> s
      | Some m \<Rightarrow> (let (err, m') = gm_Stop m; s1 = (sv_Info ''Stopping GM...'' s)\<lparr>sv_gm := Some m'\<rparr>
                  in if err \<noteq> None then sv_Error ''Error stopping GM'' s1 else s1))"

definition stop_cm :: "string option \<Rightarrow> 'f Services \<Rightarrow> 'f Services go" where
  "stop_cm closeErr s =
     (case sv_cm s of
        None \<Rightarrow> Inr s
      | Some p \<Rightarrow> go_bind (pl_Stop closeErr p) (\<lambda>(err, p').
          let s1 = (sv_Info ''Stopping CM...'' s)\<lparr>sv_cm := Some p'\<rparr>
          in Inr (if err \<noteq> None then sv_Error ''Error stopping CM'' s1 else s1)))"

definition sv_Shutdown :: "string option \<Rightarrow> 'f Services \<Rightarrow> 'f Services go" where
  "sv_Shutdown closeErr s =
     (let s1 = set_status ''dal'' False (set_status ''gm'' False (set_status ''cm'' False
                 (sv_Info ''Shutting down all services...'' s)))
      in go_bind (stop_dal s1) (\<lambda>s2. go_bind (stop_cm closeErr (stop_gm s2))
           (\<lambda>s3. Inr (sv_Info ''All services stopped successfully'' s3))))"

text \<open>The routes of the REST server.\<close>

datatype route = RHealthz | RReadyz | RMetrics | RListVNETs | RGetGoalState | RProgramDevice

definition rest_routes :: "'f Services \<Rightarrow> (string \<times> route) list" where
  "rest_routes s =
     [(''/healthz'', RHealthz), (''/readyz'', RReadyz)] @
     (if sv_metricsRegistry s \<noteq> None then [(''/metrics'', RMetrics)] else []) @
     (if sv_api s \<noteq> None
      then [(''/api/vnets'', RListVNETs), (''/api/goal-state'', RGetGoalState), (''/api/program'', RProgramDevice)] else [])"

text \<open>The gRPC server is a stub.\<close>

definition StartGRPCServer :: "int \<Rightarrow> 'f Services \<Rightarrow> string option \<times> 'f Services" where
  "StartGRPCServer port s = (None, sv_Info ''Starting gRPC server'' s)"

section \<open>The program\<close>

text \<open>The subscriber of the pipeline that the program builds: it returns a closed channel, and closes without an error.\<close>

definition NullSubscriber_Subscribe :: "string list \<Rightarrow> string option" where
  "NullSubscriber_Subscribe topics = None"

definition NullSubscriber_Close :: "string option" where
  "NullSubscriber_Close = None"

text \<open>The variables of the three packages, as \<open>main\<close> sets them; the setters of each package change its own.\<close>

definition setup_packages :: "fm_logger \<Rightarrow> MetricsRegistry \<Rightarrow> string + TracingContext \<Rightarrow> Packages" where
  "setup_packages logger metrics tracing =
     (let tc = (case tracing of Inl err \<Rightarrow> None | Inr tc \<Rightarrow> Some tc);
          p1 = dal_SetLogger (Some logger) (gm_SetLogger (Some logger) (cm_SetLogger (Some logger) initial_packages));
          p2 = dal_SetMetricsRegistry (Some metrics) (gm_SetMetricsRegistry (Some metrics) (cm_SetMetricsRegistry (Some metrics) p1))
      in dal_SetTracingContext tc (gm_SetTracingContext tc (cm_SetTracingContext tc p2)))"

record 'f main_result =
  mn_exit :: int
  mn_packages :: "Packages option"
  mn_started :: "'f Services option"
  mn_stopped :: "'f Services option"
  mn_log :: "(fm_level \<times> string) list"

text \<open>What \<open>main\<close> logs before it loads the configuration, and between the start of the services and their shutdown.\<close>

definition main_prologue :: "string + TracingContext \<Rightarrow> (fm_level \<times> string) list" where
  "main_prologue tracing =
     [(InfoLevel, ''Metrics registry initialized''),
      case tracing of Inl err \<Rightarrow> (ErrorLevel, ''Failed to initialize tracing'') | Inr tc \<Rightarrow> (InfoLevel, ''Tracing initialized''),
      (InfoLevel, ''Starting Fabric Manager'')]"

definition main_interlude :: "(fm_level \<times> string) list" where
  "main_interlude = [(InfoLevel, ''Fabric Manager started''), (InfoLevel, ''Received signal''),
     (InfoLevel, ''Shutting down Fabric Manager...'')]"

text \<open>
  \<open>main\<close>: \<open>build\<close> is the constructor of zap, \<open>tracing1\<close> and \<open>tracing2\<close> are the outcomes of the two attempts to set up
  tracing, \<open>t0\<close> and \<open>t1\<close> readings of the clock. The program waits for a signal between start and shutdown. The log is that of
  the main goroutine; the two servers log one line each, at any moment after the start.
\<close>

definition fm_main ::
  "(fm_log_config \<Rightarrow> string option) \<Rightarrow> string + TracingContext \<Rightarrow> string + TracingContext \<Rightarrow> time \<Rightarrow> time \<Rightarrow> string \<Rightarrow> string \<Rightarrow>
   'f main_result go"
where
  "fm_main build tracing1 tracing2 t0 t1 configPath logLevel =
     (case fm_NewStructuredLogger build logLevel of
        Inl err \<Rightarrow> Inr \<lparr>mn_exit = 1, mn_packages = None, mn_started = None, mn_stopped = None, mn_log = []\<rparr>
      | Inr sl \<Rightarrow>
          (let logger = Structured sl; vars = setup_packages logger NewMetricsRegistry tracing1; log0 = main_prologue tracing1
           in case LoadConfig configPath of
                Inl err \<Rightarrow> Inr \<lparr>mn_exit = 1, mn_packages = Some vars, mn_started = None, mn_stopped = None,
                               mn_log = log0 @ [(ErrorLevel, ''Failed to load config'')]\<rparr>
              | Inr config \<Rightarrow>
                  (case InitializeServices t0 logger (Some NewMetricsRegistry) tracing2 of
                     Inl err \<Rightarrow> Inr \<lparr>mn_exit = 1, mn_packages = Some vars, mn_started = None, mn_stopped = None,
                                    mn_log = log0 @ [(ErrorLevel, ''Failed to initialize services'')]\<rparr>
                   | Inr services \<Rightarrow>
                       (case sv_Start t1 False (NullSubscriber_Subscribe [''*'']) services of
                          (Some err, s1) \<Rightarrow>
                            Inr \<lparr>mn_exit = 1, mn_packages = Some vars, mn_started = Some s1, mn_stopped = None,
                                 mn_log = log0 @ sv_log s1 @ [(ErrorLevel, ''Failed to start services'')]\<rparr>
                        | (None, s1) \<Rightarrow>
                            go_bind (sv_Shutdown NullSubscriber_Close s1)
                              (\<lambda>s2. Inr \<lparr>mn_exit = 0, mn_packages = Some vars, mn_started = Some s1, mn_stopped = Some s2,
                                         mn_log = log0 @ sv_log s1 @ main_interlude @ drop (length (sv_log s1)) (sv_log s2) @
                                           [(InfoLevel, ''Fabric Manager stopped'')]\<rparr>)))))"

text \<open>The handler of construct changes of the manager that the factory builds.\<close>

definition deployed_HandleConstructChange ::
  "digest \<Rightarrow> (nat \<Rightarrow> bool) \<Rightarrow> bool \<Rightarrow> ConstructState option \<Rightarrow> GoalStateManager \<Rightarrow> gm_error option \<times> GoalStateManager" where
  "deployed_HandleConstructChange = handle_change stub_Aggregate"

fun deployed_changes :: "digest \<Rightarrow> ((nat \<Rightarrow> bool) \<times> bool \<times> ConstructState option) list \<Rightarrow> GoalStateManager \<Rightarrow> GoalStateManager" where
  "deployed_changes digest [] m = m"
| "deployed_changes digest ((ctxDone, ownFirst, c) # cs) m =
     deployed_changes digest cs (snd (deployed_HandleConstructChange digest ctxDone ownFirst c m))"

text \<open>Calls that start and shut down the services, in any order, until one panics.\<close>

datatype lifecycle = LcStart time bool "string option" | LcShutdown "string option"

fun lifecycle_run :: "lifecycle list \<Rightarrow> 'f Services \<Rightarrow> 'f Services go" where
  "lifecycle_run [] s = Inr s"
| "lifecycle_run (LcStart now ctxDone subErr # cs) s = lifecycle_run cs (snd (sv_Start now ctxDone subErr s))"
| "lifecycle_run (LcShutdown closeErr # cs) s = go_bind (sv_Shutdown closeErr s) (lifecycle_run cs)"

text \<open>The messages of an undisturbed run, in order: those of the assembly and the start, and those of the shutdown.\<close>

definition startup_log :: "string list" where
  "startup_log =
     [''Creating CM (Config Management)...'', ''[ServiceFactory] Initializing all services...'',
      ''[ServiceFactory] Creating GM (Goal State Management) service...'', ''[ServiceFactory] '' @ check_mark @ '' GM service created'',
      ''[ServiceFactory] Creating DAL (DPU Abstraction Layer) service...'',
      ''[ServiceFactory] '' @ check_mark @ '' DAL service created (workers: 4)'',
      ''[ServiceFactory] '' @ check_mark @ '' All services initialized successfully'', ''Creating API handler...'']"

definition start_log :: "string list" where
  "start_log = [''Starting all services...'', ''Starting CM (Config Management)...'', ''Starting GM (Goal State Management)...'',
     ''Starting DAL (DPU Abstraction Layer)...'', ''All services started successfully'']"

definition shutdown_log :: "string list" where
  "shutdown_log = [''Shutting down all services...'', ''Stopping DAL...'', ''Stopping GM...'', ''Stopping CM...'',
     ''All services stopped successfully'']"

text \<open>All three services run.\<close>

definition all_running :: "'f Services \<Rightarrow> bool" where
  "all_running s \<longleftrightarrow> (case (sv_cm s, sv_gm s, sv_dal s) of
     (Some p, Some g, Some d) \<Rightarrow> pl_running p \<and> gm_running g \<and> dm_running d \<and> pp_running (dm_pool d)
   | _ \<Rightarrow> False)"

definition none_running :: "'f Services \<Rightarrow> bool" where
  "none_running s \<longleftrightarrow> (case (sv_cm s, sv_gm s, sv_dal s) of
     (Some p, Some g, Some d) \<Rightarrow> \<not> pl_running p \<and> \<not> gm_running g \<and> \<not> dm_running d \<and> \<not> pp_running (dm_pool d)
   | _ \<Rightarrow> False)"

text \<open>The data management service is never reported ready.\<close>

definition dm_down :: "'f Services \<Rightarrow> bool" where
  "dm_down s \<longleftrightarrow> map_of (hk_services (sv_healthChecker s)) ''dm'' = Some False"

text \<open>Services that were never started.\<close>

definition fresh :: "'f Services \<Rightarrow> bool" where
  "fresh s \<longleftrightarrow> (case (sv_cm s, sv_gm s, sv_dal s) of
     (Some p, Some g, Some d) \<Rightarrow> \<not> pl_running p \<and> \<not> pl_doneClosed p \<and> \<not> pl_outClosed p \<and> \<not> gm_running g \<and> \<not> dm_running d \<and>
       \<not> pp_running (dm_pool d) \<and> \<not> pp_queueClosed (dm_pool d)
   | _ \<Rightarrow> False)"

section \<open>Readiness is never reached\<close>

lemma dm_down_not_ready: "dm_down s \<Longrightarrow> \<not> IsReady (sv_healthChecker s)"
  by (force simp: dm_down_def IsReady_def list_all_iff dest: map_of_SomeD)

lemma sv_log_simps [simp]:
  "sv_healthChecker (sv_Info msg s) = sv_healthChecker s" "sv_healthChecker (sv_Error msg s) = sv_healthChecker s"
  "sv_cm (sv_Info msg s) = sv_cm s" "sv_gm (sv_Info msg s) = sv_gm s" "sv_dal (sv_Info msg s) = sv_dal s"
  "sv_cm (sv_Error msg s) = sv_cm s" "sv_gm (sv_Error msg s) = sv_gm s" "sv_dal (sv_Error msg s) = sv_dal s"
  "sv_api (sv_Info msg s) = sv_api s" "sv_metricsRegistry (sv_Info msg s) = sv_metricsRegistry s"
  by (simp_all add: sv_Info_def sv_Error_def)

lemma set_status_simps [simp]:
  "sv_cm (set_status n b s) = sv_cm s" "sv_gm (set_status n b s) = sv_gm s" "sv_dal (set_status n b s) = sv_dal s"
  "sv_log (set_status n b s) = sv_log s" "sv_api (set_status n b s) = sv_api s"
  "sv_metricsRegistry (set_status n b s) = sv_metricsRegistry s"
  by (simp_all add: set_status_def)

lemma dm_down_set_status: "n \<noteq> ''dm'' \<Longrightarrow> dm_down (set_status n b s) = dm_down s"
  by (simp add: dm_down_def set_status_def SetServiceStatus_def update_conv')

lemma health_start:
  "sv_healthChecker (snd (start_cm now cd se s)) = sv_healthChecker s"
  "sv_healthChecker (snd (start_gm cd s)) = sv_healthChecker s"
  "sv_healthChecker (snd (start_dal cd s)) = sv_healthChecker s"
  by (auto simp: start_cm_def start_gm_def start_dal_def Let_def split: option.split prod.split)

lemma health_stop:
  "stop_dal s = Inr s' \<Longrightarrow> sv_healthChecker s' = sv_healthChecker s"
  "sv_healthChecker (stop_gm s) = sv_healthChecker s"
  "stop_cm ce s = Inr s' \<Longrightarrow> sv_healthChecker s' = sv_healthChecker s"
  by (auto simp: stop_dal_def stop_gm_def stop_cm_def Let_def go_bind_Inr_iff split: option.splits prod.splits if_splits)

lemma dm_down_Start: "dm_down s \<Longrightarrow> dm_down (snd (sv_Start now cd se s))"
proof -
  assume d: "dm_down s"
  obtain e1 s1 where 1: "start_cm now cd se (sv_Info ''Starting all services...'' s) = (e1, s1)" by fastforce
  obtain e2 s2 where 2: "start_gm cd s1 = (e2, s2)" by fastforce
  obtain e3 s3 where 3: "start_dal cd s2 = (e3, s3)" by fastforce
  have h: "dm_down s1" "dm_down s2" "dm_down s3"
    using d health_start(1) [of now cd se "sv_Info ''Starting all services...'' s"] health_start(2) [of cd s1]
      health_start(3) [of cd s2] 1 2 3 by (simp_all add: dm_down_def)
  moreover have "dm_down (sv_Info msg x) = dm_down x" for msg and x :: "'a Services" by (simp add: dm_down_def)
  ultimately show ?thesis
    by (auto simp: sv_Start_def 1 2 3 dm_down_set_status split: option.split)
qed

lemma start_fields:
  "(sv_api (snd (start_cm now cd se s)), sv_metricsRegistry (snd (start_cm now cd se s))) = (sv_api s, sv_metricsRegistry s)"
  "(sv_api (snd (start_gm cd s)), sv_metricsRegistry (snd (start_gm cd s))) = (sv_api s, sv_metricsRegistry s)"
  "(sv_api (snd (start_dal cd s)), sv_metricsRegistry (snd (start_dal cd s))) = (sv_api s, sv_metricsRegistry s)"
  by (auto simp: start_cm_def start_gm_def start_dal_def sv_Info_def Let_def split: option.split prod.split)

lemma sv_Start_fields: "sv_api (snd (sv_Start now cd se s)) = sv_api s \<and> sv_metricsRegistry (snd (sv_Start now cd se s)) = sv_metricsRegistry s"
proof -
  obtain e1 s1 where 1: "start_cm now cd se (sv_Info ''Starting all services...'' s) = (e1, s1)" by fastforce
  obtain e2 s2 where 2: "start_gm cd s1 = (e2, s2)" by fastforce
  obtain e3 s3 where 3: "start_dal cd s2 = (e3, s3)" by fastforce
  have "(sv_api s1, sv_metricsRegistry s1) = (sv_api s, sv_metricsRegistry s)"
    using start_fields(1) [of now cd se "sv_Info ''Starting all services...'' s"] 1 by simp
  moreover have "(sv_api s2, sv_metricsRegistry s2) = (sv_api s1, sv_metricsRegistry s1)"
    "(sv_api s3, sv_metricsRegistry s3) = (sv_api s2, sv_metricsRegistry s2)"
    using start_fields(2) [of cd s1] start_fields(3) [of cd s2] 2 3 by simp_all
  ultimately show ?thesis by (auto simp: sv_Start_def 1 2 3 split: option.split)
qed

lemma dm_down_Shutdown: "dm_down s \<Longrightarrow> sv_Shutdown ce s = Inr s' \<Longrightarrow> dm_down s'"
proof -
  assume d: "dm_down s" and "sv_Shutdown ce s = Inr s'"
  moreover have i: "dm_down (sv_Info msg x) = dm_down x" for msg and x :: "'a Services" by (simp add: dm_down_def)
  ultimately obtain s2 s3 where s: "stop_dal (set_status ''dal'' False (set_status ''gm'' False (set_status ''cm'' False
        (sv_Info ''Shutting down all services...'' s)))) = Inr s2" "stop_cm ce (stop_gm s2) = Inr s3"
      "s' = sv_Info ''All services stopped successfully'' s3"
    by (auto simp: sv_Shutdown_def Let_def go_bind_Inr_iff)
  have "dm_down s3 = dm_down (set_status ''dal'' False (set_status ''gm'' False (set_status ''cm'' False
        (sv_Info ''Shutting down all services...'' s))))"
    using health_stop(1) [OF s(1)] health_stop(2) [of s2] health_stop(3) [OF s(2)] by (simp add: dm_down_def)
  with d s(3) show ?thesis by (simp add: i dm_down_set_status)
qed

lemma dm_down_run: "lifecycle_run cs s = Inr s' \<Longrightarrow> dm_down s \<Longrightarrow> dm_down s'"
proof (induction cs arbitrary: s)
  case (Cons c cs)
  then show ?case by (cases c) (auto simp: go_bind_Inr_iff intro: dm_down_Start dm_down_Shutdown)
qed simp

section \<open>Starting and stopping\<close>

lemma show_int_4: "show_int 4 = ''4''"
  by code_simp

lemmas factory_defs = GetServices_def CreateAllServices_def CreateGMService_def CreateDALService_def CreateDPUManager_def
  InitializeDefaultPlugins_def CreatePlugin_def pr_Register_def NewPluginRegistry_def NewPluginFactory_def
  NewServiceFactory_def sf_Printf_def Let_def

lemma initialized:
  "InitializeServices t0 logger mr tracing = Inr s \<Longrightarrow>
     sv_cm s = Some (NewEventPipeline (Some (NewLRUCache 10000))) \<and>
     sv_gm s = Some (NewGoalStateManager Map.empty NewGoalStateCache) \<and>
     sv_dal s = Some (NewDPUAbstractionManager 4) \<and> dm_down s \<and> sv_metricsRegistry s = mr \<and> sv_api s \<noteq> None \<and>
     sv_log s = map (Pair InfoLevel) startup_log"
  "\<exists>s. InitializeServices t0 logger mr tracing = Inr s"
  by (auto simp: InitializeServices_def factory_defs service_config_def configLogger_Printf_def startup_log_def show_int_4
      dm_down_def fm_NewHealthChecker_def sv_Info_def)

lemmas start_stop_defs = sv_Start_def start_cm_def start_gm_def start_dal_def sv_Shutdown_def stop_dal_def stop_gm_def stop_cm_def
  pl_Start_def pl_Stop_def gm_Start_def gm_Stop_def dal_Start_def dal_Stop_def pool_Start_def pool_Shutdown_def
  all_running_def none_running_def set_status_def Let_def

lemma fresh_cases:
  assumes "fresh s"
  obtains p g d where "sv_cm s = Some p" "sv_gm s = Some g" "sv_dal s = Some d" "\<not> pl_running p" "\<not> pl_doneClosed p"
    "\<not> pl_outClosed p" "\<not> gm_running g" "\<not> dm_running d" "\<not> pp_running (dm_pool d)" "\<not> pp_queueClosed (dm_pool d)"
  using assms by (auto simp: fresh_def split: option.splits)

lemma fresh_initialized: "InitializeServices t0 logger mr tracing = Inr s \<Longrightarrow> fresh s"
  using initialized(1) [of t0 logger mr tracing s]
  by (simp add: fresh_def NewEventPipeline_def NewGoalStateManager_def NewDPUAbstractionManager_def NewPluginPool_def)

lemma fresh_Start:
  assumes "fresh s"
  shows "\<exists>s1. sv_Start now cd None s = (None, s1) \<and> all_running s1 \<and> sv_log s1 = sv_log s @ map (Pair InfoLevel) start_log"
  using assms by (rule fresh_cases) (simp add: start_stop_defs sv_Info_def start_log_def)

lemma started_Shutdown:
  assumes "fresh s" and "sv_Start now cd None s = (None, s1)"
  shows "\<exists>s2. sv_Shutdown None s1 = Inr s2 \<and> none_running s2 \<and> sv_log s2 = sv_log s1 @ map (Pair InfoLevel) shutdown_log"
  using assms(1) by (rule fresh_cases) (use assms(2) in \<open>auto simp: start_stop_defs sv_Info_def shutdown_log_def\<close>)

lemma restarted_Shutdown:
  assumes "fresh s" and "sv_Start t0 cd None s = (None, s1)" and "sv_Shutdown None s1 = Inr s2"
  shows "\<exists>s3. sv_Start t1 cd' None s2 = (None, s3) \<and> all_running s3 \<and> sv_Shutdown None s3 = Inl CloseOfClosedChannel"
  using assms(1) by (rule fresh_cases) (use assms(2,3) in \<open>auto simp: start_stop_defs sv_Info_def\<close>)

lemma stub_change:
  assumes "gst_GoalStatesGenerated (gm_stats m) = 0" and "snd (deployed_HandleConstructChange digest cd own c m) = m'"
  shows "gm_cache m' = gm_cache m \<and> gst_GoalStatesGenerated (gm_stats m') = 0"
  using assms by (auto simp: deployed_HandleConstructChange_def handle_change_def stub_Aggregate_def Generate_def Let_def i64_def
      split: if_splits option.splits)

lemma stub_changes:
  "gm_cache m = NewGoalStateCache \<Longrightarrow> gst_GoalStatesGenerated (gm_stats m) = 0 \<Longrightarrow>
     gm_cache (deployed_changes digest cs m) = NewGoalStateCache \<and>
     gst_GoalStatesGenerated (gm_stats (deployed_changes digest cs m)) = 0"
proof (induction cs arbitrary: m)
  case (Cons c cs)
  obtain cd own x where c: "c = (cd, own, x)" by (cases c)
  from stub_change [OF Cons.prems(2) refl, of digest cd own x] Cons show ?case by (auto simp: c)
qed simp

section \<open>Properties\<close>

text \<open>When the logger can be made, the program sets up the variables of all three packages, starts the pipeline, the goal state manager and the
  device manager, all of which then run, and on a signal stops them in reverse order, after which none runs, and exits with 0; the whole log of
  its main goroutine is the one listed. Otherwise it exits with 1, logs nothing and starts nothing.\<close>

lemma service_lifecycle:
  "case fm_NewStructuredLogger build level of
     Inl err \<Rightarrow> fm_main build tr1 tr2 t0 t1 path level =
       Inr (\<lparr>mn_exit = 1, mn_packages = None, mn_started = None, mn_stopped = None, mn_log = []\<rparr> :: 'f main_result)
   | Inr sl \<Rightarrow>
       (let v = cm_vars (Structured sl) (case tr1 of Inl e \<Rightarrow> None | Inr tc \<Rightarrow> Some tc)
        in \<exists>s1 s2. fm_main build tr1 tr2 t0 t1 path level =
             Inr (\<lparr>mn_exit = 0, mn_packages = Some \<lparr>pk_cm = v, pk_gm = v, pk_dal = v\<rparr>,
                  mn_started = Some s1, mn_stopped = Some s2,
                  mn_log = main_prologue tr1 @ map (Pair InfoLevel) (startup_log @ start_log) @ main_interlude @
                    map (Pair InfoLevel) (shutdown_log @ [''Fabric Manager stopped''])\<rparr> :: 'f main_result) \<and>
           all_running s1 \<and> none_running s2 \<and> dm_down s1 \<and> sv_api s1 \<noteq> None \<and> sv_metricsRegistry s1 \<noteq> None \<and>
           sv_log s1 = map (Pair InfoLevel) (startup_log @ start_log))"
proof (cases "fm_NewStructuredLogger build level")
  case (Inl err)
  then show ?thesis by (simp add: fm_main_def)
next
  case (Inr sl)
  obtain s :: "'f Services" where s: "InitializeServices t0 (Structured sl) (Some NewMetricsRegistry) tr2 = Inr s"
    using initialized(2) by blast
  obtain s1 where 1: "sv_Start t1 False None s = (None, s1)" "all_running s1" "sv_log s1 = sv_log s @ map (Pair InfoLevel) start_log"
    using fresh_Start [OF fresh_initialized [OF s]] by blast
  obtain s2 where 2: "sv_Shutdown None s1 = Inr s2" "none_running s2" "sv_log s2 = sv_log s1 @ map (Pair InfoLevel) shutdown_log"
    using started_Shutdown [OF fresh_initialized [OF s] 1(1)] by blast
  have "dm_down s1" "sv_api s1 \<noteq> None" "sv_metricsRegistry s1 \<noteq> None"
    using dm_down_Start [of s t1 False None] sv_Start_fields [of t1 False None s] initialized(1) [OF s] 1(1) by simp_all
  moreover have "sv_log s = map (Pair InfoLevel) startup_log" using initialized(1) [OF s] by simp
  moreover have "setup_packages (Structured sl) NewMetricsRegistry tr1 =
      (let v = cm_vars (Structured sl) (case tr1 of Inl e \<Rightarrow> None | Inr tc \<Rightarrow> Some tc) in \<lparr>pk_cm = v, pk_gm = v, pk_dal = v\<rparr>)"
    by (simp add: setup_packages_def package_setters initial_packages_def initial_vars_def cm_vars_def Let_def split: sum.split)
  ultimately show ?thesis using Inr s 1 2
    by (auto simp: fm_main_def LoadConfig_def NullSubscriber_Subscribe_def NullSubscriber_Close_def Let_def)
qed

text \<open>The services can be started again after a shutdown, but the second shutdown panics, because it closes channels that the
  first one closed.\<close>

lemma service_restart_panics:
  assumes "InitializeServices t0 logger mr tracing = Inr s"
  shows "\<exists>s'. lifecycle_run [LcStart t1 False None, LcShutdown None, LcStart t2 False None] s = Inr s' \<and> all_running s' \<and>
    lifecycle_run [LcShutdown None] s' = Inl CloseOfClosedChannel"
proof -
  have f: "fresh s" using assms by (rule fresh_initialized)
  obtain s1 where 1: "sv_Start t1 False None s = (None, s1)" using fresh_Start [OF f] by blast
  obtain s2 where 2: "sv_Shutdown None s1 = Inr s2" using started_Shutdown [OF f 1] by blast
  show ?thesis using restarted_Shutdown [OF f 1 2, of t2 False] 1 2 by auto
qed

lemma service_restart_panics_instance:
  "\<exists>s s' :: nat Services. InitializeServices 0 NoOpLogger None (Inl ''no collector'') = Inr s \<and>
     lifecycle_run [LcStart 1 False None, LcShutdown None, LcStart 2 False None] s = Inr s' \<and>
     lifecycle_run [LcShutdown None] s' = Inl CloseOfClosedChannel"
proof -
  obtain s :: "nat Services" where s: "InitializeServices 0 NoOpLogger None (Inl ''no collector'') = Inr s"
    using initialized(2) by blast
  with service_restart_panics [OF s, of 1 2] show ?thesis by blast
qed

text \<open>C40: Whatever starts and shutdowns happen, and even while all services run, the readiness probe answers 503: the service for
  data management is registered as not ready and nothing ever changes that.\<close>

theorem never_ready:
  assumes "InitializeServices t0 logger mr tracing = Inr s" and "lifecycle_run cs s = Inr s'"
  shows "\<not> IsReady (sv_healthChecker s') \<and> rp_StatusCode (ReadyzHandler now (sv_healthChecker s')) = 503"
proof -
  have "\<not> IsReady (sv_healthChecker s')"
    using dm_down_not_ready [OF dm_down_run [OF assms(2)]] initialized(1) [OF assms(1)] by blast
  then show ?thesis by (simp add: ReadyzHandler_def WriteJSON_def IsReady_def Let_def)
qed

theorem never_ready_witness:
  "\<exists>s s' :: nat Services. InitializeServices 0 NoOpLogger None (Inl ''no collector'') = Inr s \<and>
     lifecycle_run [LcStart 1 False None] s = Inr s' \<and> all_running s' \<and> \<not> IsReady (sv_healthChecker s')"
proof -
  obtain s :: "nat Services" where s: "InitializeServices 0 NoOpLogger None (Inl ''no collector'') = Inr s"
    using initialized(2) by blast
  then obtain s1 where 1: "sv_Start 1 False None s = (None, s1)" "all_running s1" using fresh_Start [OF fresh_initialized] by blast
  then have "lifecycle_run [LcStart 1 False None] s = Inr s1" by simp
  with s 1 never_ready [OF s this, of 5] show ?thesis by blast
qed

text \<open>The goal state manager that the program builds never generates a goal state: its aggregator finds no constructs, so that
  whatever changes it handles its cache stays empty and every query for an interface misses.\<close>

lemma deployed_manager_idle:
  assumes "fst (GetServices (snd (CreateAllServices (NewServiceFactory cfg)))) = Some m"
  shows "let m' = deployed_changes digest cs (snd (gm_Start ctxDone m))
    in gst_GoalStatesGenerated (gm_Stats m') = 0 \<and> fst (GetGoalState order eniID m') = None"
proof -
  have "m = NewGoalStateManager Map.empty NewGoalStateCache"
    using assms by (simp add: factory_defs)
  then have "gm_cache (snd (gm_Start ctxDone m)) = NewGoalStateCache" "gst_GoalStatesGenerated (gm_stats (snd (gm_Start ctxDone m))) = 0"
    by (simp_all add: NewGoalStateManager_def gm_Start_def)
  from stub_changes [OF this, of digest cs] show ?thesis
    by (auto simp: gm_Stats_def GetGoalState_def NewGoalStateCache_def List.map_filter_def Let_def)
qed

lemma deployed_manager_idle_instance:
  "let m = NewGoalStateManager Map.empty NewGoalStateCache;
       m' = snd (gm_Start False m);
       c = (\<lambda>_. False, False, Some (example_construct ''eni-1'' 1))
   in fst (GetServices (snd (CreateAllServices (NewServiceFactory DefaultAppConfig)))) = Some m \<and>
      fst (deployed_HandleConstructChange example_digest (\<lambda>_. False) False (snd (snd c)) m') = None \<and>
      gst_GoalStatesGenerated (gm_Stats (deployed_changes example_digest [c] m')) = 0"
proof -
  have m: "fst (GetServices (snd (CreateAllServices (NewServiceFactory DefaultAppConfig)))) =
      Some (NewGoalStateManager Map.empty NewGoalStateCache)"
    by (simp add: factory_defs)
  have "fst (deployed_HandleConstructChange example_digest (\<lambda>_. False) False (Some (example_construct ''eni-1'' 1))
      (snd (gm_Start False (NewGoalStateManager Map.empty NewGoalStateCache)))) = None"
    by (simp add: deployed_HandleConstructChange_def handle_change_def stub_Aggregate_def Generate_def gm_Start_def
        NewGoalStateManager_def Let_def)
  with m deployed_manager_idle [OF m, of example_digest _ False] show ?thesis
    by (simp add: Let_def del: deployed_changes.simps)
qed

text \<open>The handlers answer 200 exactly for a body that decodes and has identifiers of one to fifty characters, echo the interface and the version
  of the request, and answer 400 otherwise; they return placeholders: the goal state has no routes and the device is reported as programmed
  although nothing was asked of it.\<close>

lemma api_responses:
  "(let r = hd_response (api_GetGoalState now g h)
    in (rp_StatusCode r = 200 \<longleftrightarrow> (\<exists>req. g = Inr req \<and> gr_ENIID req \<noteq> '''' \<and> length (gr_ENIID req) \<le> 50)) \<and>
       (case rp_Body r of
          BGoalState resp \<Rightarrow> rp_StatusCode r = 200 \<and> (\<exists>req. g = Inr req \<and> ag_ENIID (gp_GoalState resp) = gr_ENIID req) \<and>
            ag_Routes (gp_GoalState resp) = []
        | BError e \<Rightarrow> rp_StatusCode r = 400 \<and> er_Code e \<in> {''INVALID_REQUEST'', ''INVALID_ENI_ID''}
        | _ \<Rightarrow> False)) \<and>
   (let r = hd_response (ProgramDevice start now q h)
    in (rp_StatusCode r = 200 \<longleftrightarrow> (\<exists>req. q = Inr req \<and> pq_ENIID req \<noteq> '''' \<and> length (pq_ENIID req) \<le> 50 \<and>
          pq_VnetID req \<noteq> '''' \<and> length (pq_VnetID req) \<le> 50)) \<and>
       (case rp_Body r of
          BProgram resp \<Rightarrow> rp_StatusCode r = 200 \<and> (\<exists>req. q = Inr req \<and> pd_ENIID resp = pq_ENIID req \<and>
            pd_AppliedVersion resp = pq_Version req \<and> pd_Status resp = ''success'')
        | BError e \<Rightarrow> rp_StatusCode r = 400 \<and> er_Code e \<in> {''INVALID_REQUEST'', ''INVALID_ENI_ID'', ''INVALID_VNET_ID''}
        | _ \<Rightarrow> False))"
proof (rule conjI)
  show "let r = hd_response (api_GetGoalState now g h)
    in (rp_StatusCode r = 200 \<longleftrightarrow> (\<exists>req. g = Inr req \<and> gr_ENIID req \<noteq> '''' \<and> length (gr_ENIID req) \<le> 50)) \<and>
       (case rp_Body r of
          BGoalState resp \<Rightarrow> rp_StatusCode r = 200 \<and> (\<exists>req. g = Inr req \<and> ag_ENIID (gp_GoalState resp) = gr_ENIID req) \<and>
            ag_Routes (gp_GoalState resp) = []
        | BError e \<Rightarrow> rp_StatusCode r = 400 \<and> er_Code e \<in> {''INVALID_REQUEST'', ''INVALID_ENI_ID''}
        | _ \<Rightarrow> False)"
    by (cases g) (auto simp: api_GetGoalState_def ValidateENIID_def WriteError_def WriteJSON_def Let_def)
  show "let r = hd_response (ProgramDevice start now q h)
    in (rp_StatusCode r = 200 \<longleftrightarrow> (\<exists>req. q = Inr req \<and> pq_ENIID req \<noteq> '''' \<and> length (pq_ENIID req) \<le> 50 \<and>
          pq_VnetID req \<noteq> '''' \<and> length (pq_VnetID req) \<le> 50)) \<and>
       (case rp_Body r of
          BProgram resp \<Rightarrow> rp_StatusCode r = 200 \<and> (\<exists>req. q = Inr req \<and> pd_ENIID resp = pq_ENIID req \<and>
            pd_AppliedVersion resp = pq_Version req \<and> pd_Status resp = ''success'')
        | BError e \<Rightarrow> rp_StatusCode r = 400 \<and> er_Code e \<in> {''INVALID_REQUEST'', ''INVALID_ENI_ID'', ''INVALID_VNET_ID''}
        | _ \<Rightarrow> False)"
    by (cases q) (auto simp: ProgramDevice_def ValidateENIID_def ValidateVnetID_def WriteError_def WriteJSON_def Let_def)
qed

end
