(* ===== verification/Go_Flag.thy ===== *)
theory Go_Flag
  imports Go_Fmt "HOL-Library.AList"
begin

text \<open>
  What the commands use of the packages flag and strconv of Go: parsing the command line into string and integer flags. An integer is
  read by \<open>strconv.ParseInt\<close> with base 0, that is with an optional sign, a prefix for the bases 2, 8 and 16, and underscores between
  digits. The flag set of a command exits on an error.
\<close>

section \<open>Integers\<close>

datatype num_error = ErrSyntax | ErrRange

definition in_range :: "nat \<Rightarrow> nat \<Rightarrow> char \<Rightarrow> bool" where
  "in_range lo hi c \<longleftrightarrow> lo \<le> of_char c \<and> of_char c \<le> hi"

definition lower :: "char \<Rightarrow> char" where
  "lower c = (if in_range 65 90 c then char_of (of_char c + 32 :: nat) else c)"

definition digit_value :: "char \<Rightarrow> nat option" where
  "digit_value c =
     (if in_range 48 57 c then Some (of_char c - 48)
      else if in_range 97 122 (lower c) then Some (of_char (lower c) - 97 + 10)
      else None)"

text \<open>The loop of \<open>ParseUint\<close> over the digits: the number so far and whether there was an underscore.\<close>

fun uint_loop :: "nat \<Rightarrow> string \<Rightarrow> nat \<Rightarrow> bool \<Rightarrow> num_error + nat \<times> bool" where
  "uint_loop base [] n underscores = Inr (n, underscores)"
| "uint_loop base (c # cs) n underscores =
     (if c = CHR ''_'' then uint_loop base cs n True
      else case digit_value c of
             None \<Rightarrow> Inl ErrSyntax
           | Some d \<Rightarrow>
               if base \<le> d then Inl ErrSyntax
               else if 2 ^ 64 \<le> n * base + d then Inl ErrRange
               else uint_loop base cs (n * base + d) underscores)"

definition base_prefix :: "string \<Rightarrow> nat \<times> string" where
  "base_prefix s =
     (if s = [] \<or> hd s \<noteq> CHR ''0'' then (10, s)
      else if 3 \<le> length s \<and> lower (s ! 1) = CHR ''b'' then (2, drop 2 s)
      else if 3 \<le> length s \<and> lower (s ! 1) = CHR ''o'' then (8, drop 2 s)
      else if 3 \<le> length s \<and> lower (s ! 1) = CHR ''x'' then (16, drop 2 s)
      else (8, tl s))"

text \<open>Underscores must separate digits; a base prefix counts as a digit.\<close>

datatype seen_char = SeenStart | SeenDigit | SeenUnderscore | SeenOther

fun underscore_loop :: "bool \<Rightarrow> seen_char \<Rightarrow> string \<Rightarrow> bool" where
  "underscore_loop hex i [] \<longleftrightarrow> i \<noteq> SeenUnderscore"
| "underscore_loop hex i (c # cs) \<longleftrightarrow>
     (if in_range 48 57 c \<or> hex \<and> in_range 97 102 (lower c) then underscore_loop hex SeenDigit cs
      else if c = CHR ''_'' then i = SeenDigit \<and> underscore_loop hex SeenUnderscore cs
      else i \<noteq> SeenUnderscore \<and> underscore_loop hex SeenOther cs)"

definition underscoreOK :: "string \<Rightarrow> bool" where
  "underscoreOK s =
     (if 2 \<le> length s \<and> hd s = CHR ''0'' \<and> lower (s ! 1) \<in> {CHR ''b'', CHR ''o'', CHR ''x''}
      then underscore_loop (lower (s ! 1) = CHR ''x'') SeenDigit (drop 2 s)
      else underscore_loop False SeenStart s)"

definition ParseUint :: "string \<Rightarrow> num_error + nat" where
  "ParseUint s =
     (if s = '''' then Inl ErrSyntax
      else let (base, digits) = base_prefix s
           in case uint_loop base digits 0 False of
                Inl err \<Rightarrow> Inl err
              | Inr (n, underscores) \<Rightarrow> if underscores \<and> \<not> underscoreOK s then Inl ErrSyntax else Inr n)"

definition ParseInt :: "string \<Rightarrow> num_error + int" where
  "ParseInt s =
     (let neg = (s \<noteq> '''' \<and> hd s = CHR ''-'');
          s' = (if s \<noteq> '''' \<and> (hd s = CHR ''+'' \<or> hd s = CHR ''-'') then tl s else s)
      in case ParseUint s' of
           Inl err \<Rightarrow> Inl err
         | Inr un \<Rightarrow>
             if \<not> neg \<and> 2 ^ 63 \<le> un \<or> neg \<and> 2 ^ 63 < un then Inl ErrRange
             else Inr (if neg then - int un else int un))"

section \<open>Flags\<close>

datatype flag_value = FlagString string | FlagInt int

datatype flag_error =
    FlagBadSyntax string
  | FlagHelp
  | FlagUndefined string
  | FlagNeedsArgument string
  | FlagInvalid string string num_error

type_synonym flags = "(string \<times> flag_value) list"

fun set_flag :: "string \<Rightarrow> flag_value \<Rightarrow> num_error + flag_value" where
  "set_flag s (FlagString _) = Inr (FlagString s)"
| "set_flag s (FlagInt _) = (case ParseInt s of Inl err \<Rightarrow> Inl err | Inr n \<Rightarrow> Inr (FlagInt n))"

text \<open>The name before the first equality sign that is not the first character, and the value after it.\<close>

definition split_flag :: "string \<Rightarrow> string \<times> string option" where
  "split_flag name =
     (let rest = dropWhile (\<lambda>c. c \<noteq> CHR ''='') (tl name)
      in (hd name # takeWhile (\<lambda>c. c \<noteq> CHR ''='') (tl name), if rest = [] then None else Some (tl rest)))"

text \<open>The name and the value that an argument gives, or \<open>None\<close> if the flags end before it.\<close>

definition flag_name :: "string \<Rightarrow> string option" where
  "flag_name s =
     (if length s < 2 \<or> hd s \<noteq> CHR ''-'' then None
      else Some (drop (if s ! 1 = CHR ''-'' then 2 else 1) s))"

fun parse_flags :: "flags \<Rightarrow> string list \<Rightarrow> flag_error + flags \<times> string list" where
  "parse_flags fs [] = Inr (fs, [])"
| "parse_flags fs (s # rest) =
     (case flag_name s of
        None \<Rightarrow> Inr (fs, s # rest)
      | Some name \<Rightarrow>
          if name = '''' then Inr (fs, rest)
          else if hd name = CHR ''-'' \<or> hd name = CHR ''='' then Inl (FlagBadSyntax s)
          else let (n, value) = split_flag name
               in case map_of fs n of
                    None \<Rightarrow> Inl (if n = ''help'' \<or> n = ''h'' then FlagHelp else FlagUndefined n)
                  | Some old \<Rightarrow>
                      (case value of
                         Some x \<Rightarrow>
                           (case set_flag x old of
                              Inl err \<Rightarrow> Inl (FlagInvalid x n err)
                            | Inr v \<Rightarrow> parse_flags (AList.update n v fs) rest)
                       | None \<Rightarrow>
                           (case rest of
                              [] \<Rightarrow> Inl (FlagNeedsArgument n)
                            | x # rest' \<Rightarrow>
                                (case set_flag x old of
                                   Inl err \<Rightarrow> Inl (FlagInvalid x n err)
                                 | Inr v \<Rightarrow> parse_flags (AList.update n v fs) rest'))))"

text \<open>The status with which the program exits on an error: a request for help is no failure.\<close>

definition flag_exit :: "flag_error \<Rightarrow> int" where
  "flag_exit err = (if err = FlagHelp then 0 else 2)"

section \<open>Reading what was printed\<close>

lemma uint_loop_append:
  "uint_loop b (xs @ ys) n u = (case uint_loop b xs n u of Inl e \<Rightarrow> Inl e | Inr (m, v) \<Rightarrow> uint_loop b ys m v)"
  by (induction b xs n u rule: uint_loop.induct) (auto split: option.split)

lemma decimal_char:
  fixes d :: nat
  assumes "d < 10"
  shows "digit_value (char_of (48 + d)) = Some d" "char_of (48 + d) \<noteq> CHR ''_''" "char_of (48 + d) \<noteq> CHR ''+''"
    "char_of (48 + d) \<noteq> CHR ''-''" "(char_of (48 + d) = CHR ''0'') = (d = 0)"
proof -
  have code: "of_char (char_of (48 + d) :: char) = 48 + d" using assms by (simp add: take_bit_eq_mod)
  then show "digit_value (char_of (48 + d)) = Some d" using assms by (simp add: digit_value_def in_range_def)
  have *: "char_of (48 + d) = c \<longleftrightarrow> of_char c = 48 + d" for c :: char using code of_char_eq_iff by metis
  show "char_of (48 + d) \<noteq> CHR ''_''" "char_of (48 + d) \<noteq> CHR ''+''" "char_of (48 + d) \<noteq> CHR ''-''"
    "(char_of (48 + d) = CHR ''0'') = (d = 0)"
    using assms by (auto simp: *)
qed

lemma uint_loop_show_nat: "uint_loop 10 (show_nat n) 0 False = (if n < 2 ^ 64 then Inr (n, False) else Inl ErrRange)"
proof (induction n rule: show_nat.induct)
  case (1 n)
  show ?case
  proof (cases "n < 10")
    case True
    then show ?thesis by (subst show_nat.simps) (simp add: decimal_char)
  next
    case False
    have eq: "n div 10 * 10 + n mod 10 = n" by simp
    have "uint_loop 10 [char_of (48 + n mod 10)] (n div 10) False = (if n < 2 ^ 64 then Inr (n, False) else Inl ErrRange)"
      by (simp add: decimal_char eq)
    moreover have "n < 2 ^ 64 \<Longrightarrow> n div 10 < 2 ^ 64" by (meson div_le_dividend order_le_less_trans)
    ultimately show ?thesis using False 1 by (subst show_nat.simps) (simp add: uint_loop_append)
  qed
qed

lemma show_nat_hd: "\<exists>d. d < 10 \<and> hd (show_nat n) = char_of (48 + d :: nat) \<and> (d = 0 \<longleftrightarrow> n = 0)"
proof (induction n rule: show_nat.induct)
  case (1 n)
  show ?case
  proof (cases "n < 10")
    case True
    then show ?thesis by (subst show_nat.simps) auto
  next
    case False
    from 1 [OF False] obtain d :: nat where "d < 10" "hd (show_nat (n div 10)) = char_of (48 + d)" "d = 0 \<longleftrightarrow> n div 10 = 0"
      by (elim exE conjE)
    moreover have "hd (show_nat n) = hd (show_nat (n div 10))" using False by (subst show_nat.simps) (simp add: show_nat_nonempty)
    ultimately show ?thesis using False by (intro exI [of _ d]) simp
  qed
qed

lemma show_nat_hd_char:
  "hd (show_nat n) \<noteq> CHR ''+''" "hd (show_nat n) \<noteq> CHR ''-''" "hd (show_nat n) = CHR ''0'' \<longleftrightarrow> n = 0"
proof -
  obtain d :: nat where d: "d < 10" "hd (show_nat n) = char_of (48 + d)" "d = 0 \<longleftrightarrow> n = 0" using show_nat_hd by blast
  show "hd (show_nat n) \<noteq> CHR ''+''" "hd (show_nat n) \<noteq> CHR ''-''" "hd (show_nat n) = CHR ''0'' \<longleftrightarrow> n = 0"
    unfolding d(2) using decimal_char [OF d(1)] d(3) by simp_all
qed

lemma ParseUint_show_nat: "ParseUint (show_nat n) = (if n < 2 ^ 64 then Inr n else Inl ErrRange)"
proof (cases "n = 0")
  case True
  then show ?thesis using decimal_char [of 0] by (simp add: show_nat.simps ParseUint_def base_prefix_def)
next
  case False
  then have "base_prefix (show_nat n) = (10, show_nat n)" by (simp add: base_prefix_def show_nat_hd_char)
  then show ?thesis by (simp add: ParseUint_def show_nat_nonempty uint_loop_show_nat)
qed

text \<open>Every integer is read back if it has 64 bits, and refused otherwise.\<close>

lemma ParseInt_show_int: "ParseInt (show_int x) = (if is_i64 x then Inr x else Inl ErrRange)"
proof (cases "x < 0")
  case True
  then have "ParseInt (show_int x) = (case ParseUint (show_nat (nat (- x))) of Inl err \<Rightarrow> Inl err
      | Inr un \<Rightarrow> if 2 ^ 63 < un then Inl ErrRange else Inr (- int un))"
    by (auto simp: ParseInt_def show_int_def split: sum.split)
  with True show ?thesis by (auto simp: ParseUint_show_nat is_i64_def)
next
  case False
  then have "ParseInt (show_int x) = (case ParseUint (show_nat (nat x)) of Inl err \<Rightarrow> Inl err
      | Inr un \<Rightarrow> if 2 ^ 63 \<le> un then Inl ErrRange else Inr (int un))"
    by (auto simp: ParseInt_def show_int_def show_nat_hd_char split: sum.split)
  with False show ?thesis by (auto simp: ParseUint_show_nat is_i64_def)
qed

end
