(* ===== verification/FM_Lint.thy ===== *)
theory FM_Lint
  imports Go_Strings Go_Flag
begin

text \<open>
  The source checker fm-lint (\<^verbatim>\<open>src/FM/tools/fm-lint\<close>): the rule that forbids direct calls of \<open>registry.New\<close>, over the syntax trees of
  Go, and the command around it: its arguments, the walk over directories, the import path of a directory and the exit codes. The parser, the
  content of files and the working directory are arguments. The position of a call is the text that its position prints as.
\<close>

section \<open>Syntax trees\<close>

text \<open>The nodes that the rule tells apart; every other node is seen by its children.\<close>

datatype node =
    Ident string
  | SelectorExpr node string
  | IndexExpr node node
  | IndexListExpr node "node list"
  | CallExpr string node "node list"
  | OtherNode "node list"

text \<open>An import has a path in quotes and possibly a name.\<close>

record ImportSpec =
  is_Name :: "string option"
  is_Path :: string

record GoFile =
  gf_Imports :: "ImportSpec list"
  gf_Decls :: "node list"

record Violation =
  vi_Pos :: string
  vi_Message :: string

definition registryPkgPath :: string where
  "registryPkgPath = ''github.com/dashfabric/fm/pkg/registry''"

definition registryPkgPrefix :: string where
  "registryPkgPrefix = ''github.com/dashfabric/fm/pkg/registry/''"

fun selectorMatches :: "node \<Rightarrow> string \<Rightarrow> string \<Rightarrow> string \<Rightarrow> bool" where
  "selectorMatches (Ident name) sel pkgAlias funcName \<longleftrightarrow> name = pkgAlias \<and> sel = funcName"
| "selectorMatches _ sel pkgAlias funcName \<longleftrightarrow> False"

fun isRegistryNewCall :: "node \<Rightarrow> string \<Rightarrow> bool" where
  "isRegistryNewCall (SelectorExpr x sel) pkgAlias = selectorMatches x sel pkgAlias ''New''"
| "isRegistryNewCall (IndexExpr x i) pkgAlias = isRegistryNewCall x pkgAlias"
| "isRegistryNewCall (IndexListExpr x is) pkgAlias = isRegistryNewCall x pkgAlias"
| "isRegistryNewCall _ pkgAlias = False"

fun import_alias :: "ImportSpec list \<Rightarrow> string" where
  "import_alias [] = ''''"
| "import_alias (imp # imps) =
     (if is_Path imp \<noteq> [CHR 0x22] @ registryPkgPath @ [CHR 0x22] then import_alias imps
      else case is_Name imp of
             Some n \<Rightarrow> if n = ''_'' \<or> n = ''.'' then '''' else n
           | None \<Rightarrow> ''registry'')"

definition localAlias :: "GoFile \<Rightarrow> string" where
  "localAlias f = import_alias (gf_Imports f)"

definition violation_message :: string where
  "violation_message = ''registry.New called directly outside pkg/registry/...; '' @
     ''use the typed constructor (e.g. vnet.New(), nic.New()) '' @ [CHR 0xE2, CHR 0x80, CHR 0x94] @ '' NO_REGISTRY_BYPASS''"

text \<open>
  The traversal \<open>ast.Inspect\<close> with the closure of \<open>Check\<close>: depth first, a node before its children, which are visited in
  the order of the source; the violations found so far are threaded through.
\<close>

fun inspect :: "string \<Rightarrow> node \<Rightarrow> Violation list \<Rightarrow> Violation list"
  and inspect_all :: "string \<Rightarrow> node list \<Rightarrow> Violation list \<Rightarrow> Violation list"
where
  "inspect pkgAlias (Ident n) vs = vs"
| "inspect pkgAlias (SelectorExpr x sel) vs = inspect pkgAlias x vs"
| "inspect pkgAlias (IndexExpr x i) vs = inspect pkgAlias i (inspect pkgAlias x vs)"
| "inspect pkgAlias (IndexListExpr x is) vs = inspect_all pkgAlias is (inspect pkgAlias x vs)"
| "inspect pkgAlias (CallExpr pos fn args) vs =
     (let vs1 = (if isRegistryNewCall fn pkgAlias then vs @ [\<lparr>vi_Pos = pos, vi_Message = violation_message\<rparr>] else vs)
      in inspect_all pkgAlias args (inspect pkgAlias fn vs1))"
| "inspect pkgAlias (OtherNode ns) vs = inspect_all pkgAlias ns vs"
| "inspect_all pkgAlias [] vs = vs"
| "inspect_all pkgAlias (n # ns) vs = inspect_all pkgAlias ns (inspect pkgAlias n vs)"

definition Check :: "GoFile \<Rightarrow> string \<Rightarrow> Violation list" where
  "Check f pkgPath =
     (if pkgPath = registryPkgPath \<or>
         length pkgPath > length registryPkgPrefix \<and> take (length registryPkgPrefix) pkgPath = registryPkgPrefix then []
      else let pkgAlias = localAlias f
           in if pkgAlias = '''' then [] else inspect_all pkgAlias (gf_Decls f) [])"

section \<open>Paths\<close>

text \<open>The functions of package \<open>filepath\<close> on Unix.\<close>

text \<open>The elements of a cleaned path; the stack holds them in reverse.\<close>

fun clean_step :: "bool \<Rightarrow> string list \<Rightarrow> string \<Rightarrow> string list" where
  "clean_step rooted st e =
     (if e = '''' \<or> e = ''.'' then st
      else if e = ''..''
           then case st of
                  [] \<Rightarrow> if rooted then [] else [''..'']
                | t # ts \<Rightarrow> if t = ''..'' then ''..'' # st else ts
           else e # st)"

definition path_elems :: "string \<Rightarrow> string list" where
  "path_elems p = rev (foldl (clean_step (take 1 p = ''/'')) [] (split_on CHR ''/'' p))"

definition abs_path :: "string list \<Rightarrow> string" where
  "abs_path es = CHR ''/'' # join_with CHR ''/'' es"

definition Clean :: "string \<Rightarrow> string" where
  "Clean p =
     (if take 1 p = ''/'' then abs_path (path_elems p)
      else let s = join_with CHR ''/'' (path_elems p) in if s = '''' then ''.'' else s)"

definition path_Join :: "string \<Rightarrow> string \<Rightarrow> string" where
  "path_Join a b = (if a = '''' then (if b = '''' then '''' else Clean b)
                    else if b = '''' then Clean a else Clean (a @ ''/'' @ b))"

definition path_Dir :: "string \<Rightarrow> string" where
  "path_Dir p = Clean (rev (dropWhile (\<lambda>c. c \<noteq> CHR ''/'') (rev p)))"

text \<open>White space at both ends of a line of ASCII text.\<close>

definition is_space :: "char \<Rightarrow> bool" where
  "is_space c \<longleftrightarrow> c \<in> {CHR 0x09, CHR 0x0A, CHR 0x0B, CHR 0x0C, CHR 0x0D, CHR 0x20}"

definition TrimSpace :: "string \<Rightarrow> string" where
  "TrimSpace s = rev (dropWhile is_space (rev (dropWhile is_space s)))"

section \<open>Directories\<close>

text \<open>A directory has its entries in the order of their names, or cannot be read.\<close>

datatype fs = FsFile string | FsDir string "string + fs list"

fun fs_name :: "fs \<Rightarrow> string" where
  "fs_name (FsFile name) = name"
| "fs_name (FsDir name r) = name"

definition goFileFilter :: "string \<Rightarrow> bool" where
  "goFileFilter name \<longleftrightarrow> \<not> HasSuffix name ''_test.go''"

definition is_source :: "string \<Rightarrow> bool" where
  "is_source name \<longleftrightarrow> HasSuffix name ''.go'' \<and> \<not> HasSuffix name ''_test.go''"

definition skipped_dir :: "string \<Rightarrow> bool" where
  "skipped_dir name \<longleftrightarrow> name = ''vendor'' \<or> HasPrefix name ''.''"

text \<open>\<open>filepath.WalkDir\<close> with the closure of \<open>walkGoPackageDirs\<close>: an error stops the walk.\<close>

fun walk :: "string \<Rightarrow> fs \<Rightarrow> string set \<Rightarrow> string option \<times> string set"
  and walk_all :: "string \<Rightarrow> fs list \<Rightarrow> string set \<Rightarrow> string option \<times> string set"
where
  "walk path (FsFile name) seen = (None, if is_source name then insert (path_Dir path) seen else seen)"
| "walk path (FsDir name r) seen =
     (if skipped_dir name then (None, seen)
      else case r of
             Inl err \<Rightarrow> (Some err, seen)
           | Inr es \<Rightarrow> walk_all path es seen)"
| "walk_all path [] seen = (None, seen)"
| "walk_all path (e # es) seen =
     (case walk (path_Join path (fs_name e)) e seen of
        (Some err, seen') \<Rightarrow> (Some err, seen')
      | (None, seen') \<Rightarrow> walk_all path es seen')"

text \<open>
  \<open>tree\<close> gives the file or directory at a path, or the error of looking for it, and \<open>order\<close> the order in which the
  iteration over the map of directories meets its keys.
\<close>

definition walkGoPackageDirs ::
  "(string \<Rightarrow> string + fs) \<Rightarrow> (string set \<Rightarrow> string list) \<Rightarrow> string \<Rightarrow> string option \<times> string list" where
  "walkGoPackageDirs tree order root =
     (case tree root of
        Inl err \<Rightarrow> (Some err, order {})
      | Inr t \<Rightarrow> (let (err, seen) = walk root t {} in (err, order seen)))"

definition arg_root :: "string \<Rightarrow> string" where
  "arg_root arg = TrimPrefix (TrimSuffix arg ''/...'') ''./''"

text \<open>\<open>getwd\<close> is the working directory or the error of asking for it.\<close>

fun expandArgs ::
  "(string + string) \<Rightarrow> (string \<Rightarrow> string + fs) \<Rightarrow> (string set \<Rightarrow> string list) \<Rightarrow> string list \<Rightarrow> string + string list"
where
  "expandArgs getwd tree order [] = Inr []"
| "expandArgs getwd tree order (arg # args) =
     (if arg = ''./...'' \<or> HasSuffix arg ''/...''
      then let root = arg_root arg
           in case (if root = '''' \<or> root = ''.'' then getwd else Inr root) of
                Inl err \<Rightarrow> Inl err
              | Inr root \<Rightarrow>
                  (case walkGoPackageDirs tree order root of
                     (Some err, ds) \<Rightarrow> Inl err
                   | (None, ds) \<Rightarrow>
                       (case expandArgs getwd tree order args of Inl err \<Rightarrow> Inl err | Inr rest \<Rightarrow> Inr (ds @ rest)))
      else case expandArgs getwd tree order args of Inl err \<Rightarrow> Inl err | Inr rest \<Rightarrow> Inr (arg # rest))"

section \<open>Import paths\<close>

fun module_line :: "string list \<Rightarrow> string option" where
  "module_line [] = None"
| "module_line (line # lines) =
     (let l = TrimSpace line
      in if HasPrefix l ''module '' then Some (TrimSpace (TrimPrefix l ''module '')) else module_line lines)"

text \<open>
  The upward search for the module file, over the elements of an absolute path: dropping the last one is \<open>filepath.Dir\<close>. The
  result is the elements of the root and the module path.
\<close>

function findModuleRoot :: "(string \<Rightarrow> string option) \<Rightarrow> string list \<Rightarrow> (string list \<times> string) option" where
  "findModuleRoot readFile d =
     (case (case readFile (path_Join (abs_path d) ''go.mod'') of
              None \<Rightarrow> None
            | Some data \<Rightarrow> module_line (split_on CHR 0x0A data)) of
        Some modPath \<Rightarrow> Some (d, modPath)
      | None \<Rightarrow> if d = [] then None else findModuleRoot readFile (butlast d))"
  by pat_completeness auto
termination
  by (relation "measure (\<lambda>(readFile, d). length d)") auto

declare findModuleRoot.simps [simp del]

text \<open>
  \<open>filepath.Rel\<close> of an absolute path to an ancestor of it, which the root found always is: the elements below the ancestor.
\<close>

definition rel_path :: "string list \<Rightarrow> string list \<Rightarrow> string" where
  "rel_path base target =
     (let rest = drop (length base) target in if rest = [] then ''.'' else join_with CHR ''/'' rest)"

definition dirToImportPath :: "(string + string) \<Rightarrow> (string \<Rightarrow> string option) \<Rightarrow> string \<Rightarrow> string" where
  "dirToImportPath getwd readFile dir =
     (case (if take 1 dir = ''/'' then Inr dir else map_sum id (\<lambda>wd. wd @ ''/'' @ dir) getwd) of
        Inl err \<Rightarrow> dir
      | Inr p \<Rightarrow>
          (case findModuleRoot readFile (path_elems p) of
             None \<Rightarrow> dir
           | Some (modRoot, modPath) \<Rightarrow>
               (let rel = rel_path modRoot (path_elems p)
                in if rel = ''.'' then modPath else modPath @ ''/'' @ rel)))"

section \<open>The command\<close>

text \<open>The outcome of a run: the lines printed and the exit code.\<close>

definition report :: "Violation \<Rightarrow> string" where
  "report v = vi_Pos v @ '': '' @ vi_Message v"

text \<open>
  The loop over the directories. \<open>parseDir\<close> is the parser, with the filter on file names that it is given; it returns the
  files in the order in which the loops over its maps meet them.
\<close>

fun lint_dirs ::
  "(string \<Rightarrow> (string \<Rightarrow> bool) \<Rightarrow> string + GoFile list) \<Rightarrow> (string \<Rightarrow> string) \<Rightarrow> string list \<Rightarrow> string list \<Rightarrow>
   string list \<times> nat"
where
  "lint_dirs parseDir importPath [] out = (out, if length out > 0 then 1 else 0)"
| "lint_dirs parseDir importPath (dir # dirs) out =
     (case parseDir dir goFileFilter of
        Inl err \<Rightarrow> (out, 2)
      | Inr files \<Rightarrow>
          lint_dirs parseDir importPath dirs
            (out @ concat (map (\<lambda>f. map report (Check f (importPath dir))) files)))"

definition lint_main ::
  "(string + string) \<Rightarrow> (string \<Rightarrow> string option) \<Rightarrow> (string \<Rightarrow> string + fs) \<Rightarrow> (string set \<Rightarrow> string list) \<Rightarrow>
   (string \<Rightarrow> (string \<Rightarrow> bool) \<Rightarrow> string + GoFile list) \<Rightarrow> string list \<Rightarrow> string list \<times> nat"
where
  "lint_main getwd readFile tree order parseDir args =
     (let args = (if length args = 0 then [''.''] else args)
      in case expandArgs getwd tree order args of
           Inl err \<Rightarrow> ([], 2)
         | Inr dirs \<Rightarrow> lint_dirs parseDir (dirToImportPath getwd readFile) dirs [])"

text \<open>The whole command: it defines no flags, and its arguments are what the flags leave.\<close>

definition lint_command ::
  "(string + string) \<Rightarrow> (string \<Rightarrow> string option) \<Rightarrow> (string \<Rightarrow> string + fs) \<Rightarrow> (string set \<Rightarrow> string list) \<Rightarrow>
   (string \<Rightarrow> (string \<Rightarrow> bool) \<Rightarrow> string + GoFile list) \<Rightarrow> string list \<Rightarrow> string list \<times> int"
where
  "lint_command getwd readFile tree order parseDir args =
     (case parse_flags [] args of
        Inl err \<Rightarrow> ([], flag_exit err)
      | Inr (fs, rest) \<Rightarrow> apsnd int (lint_main getwd readFile tree order parseDir rest))"

section \<open>What the rule means\<close>

text \<open>\<open>New\<close> under the local name of the registry package, possibly with type arguments.\<close>

inductive instance_of_New :: "string \<Rightarrow> node \<Rightarrow> bool" for pkgAlias where
  plain_new: "instance_of_New pkgAlias (SelectorExpr (Ident pkgAlias) ''New'')"
| indexed: "instance_of_New pkgAlias x \<Longrightarrow> instance_of_New pkgAlias (IndexExpr x i)"
| index_list: "instance_of_New pkgAlias x \<Longrightarrow> instance_of_New pkgAlias (IndexListExpr x is)"

inductive_simps instance_simps [simp]:
  "instance_of_New pkgAlias (Ident n)"
  "instance_of_New pkgAlias (SelectorExpr x sel)"
  "instance_of_New pkgAlias (IndexExpr x i)"
  "instance_of_New pkgAlias (IndexListExpr x is)"
  "instance_of_New pkgAlias (CallExpr pos fn args)"
  "instance_of_New pkgAlias (OtherNode ns)"

text \<open>A node occurs in another.\<close>

inductive occurs :: "node \<Rightarrow> node \<Rightarrow> bool" for n where
  at_node: "occurs n n"
| selector: "occurs n x \<Longrightarrow> occurs n (SelectorExpr x s)"
| index_x: "occurs n x \<Longrightarrow> occurs n (IndexExpr x i)"
| index_i: "occurs n i \<Longrightarrow> occurs n (IndexExpr x i)"
| list_x: "occurs n x \<Longrightarrow> occurs n (IndexListExpr x is)"
| list_i: "i \<in> set is \<Longrightarrow> occurs n i \<Longrightarrow> occurs n (IndexListExpr x is)"
| call_fn: "occurs n fn \<Longrightarrow> occurs n (CallExpr pos fn args)"
| call_arg: "a \<in> set args \<Longrightarrow> occurs n a \<Longrightarrow> occurs n (CallExpr pos fn args)"
| other_node: "m \<in> set ns \<Longrightarrow> occurs n m \<Longrightarrow> occurs n (OtherNode ns)"

text \<open>All calls of a tree, in the order of the source, with their positions and functions.\<close>

fun calls :: "node \<Rightarrow> (string \<times> node) list" where
  "calls (Ident n) = []"
| "calls (SelectorExpr x s) = calls x"
| "calls (IndexExpr x i) = calls x @ calls i"
| "calls (IndexListExpr x is) = calls x @ concat (map calls is)"
| "calls (CallExpr pos fn args) = (pos, fn) # calls fn @ concat (map calls args)"
| "calls (OtherNode ns) = concat (map calls ns)"

definition violations :: "string \<Rightarrow> (string \<times> node) list \<Rightarrow> Violation list" where
  "violations pkgAlias cs =
     map (\<lambda>(pos, fn). \<lparr>vi_Pos = pos, vi_Message = violation_message\<rparr>) (filter (\<lambda>(pos, fn). instance_of_New pkgAlias fn) cs)"

definition in_registry :: "string \<Rightarrow> bool" where
  "in_registry pkgPath \<longleftrightarrow> pkgPath = ''github.com/dashfabric/fm/pkg/registry'' \<or>
     (\<exists>rest. rest \<noteq> [] \<and> pkgPath = ''github.com/dashfabric/fm/pkg/registry/'' @ rest)"

text \<open>The name under which the first import of the registry package binds it: the one it is given, unless that is blank or a dot, and
  the last element of the path otherwise.\<close>

definition imports_registry :: "ImportSpec \<Rightarrow> bool" where
  "imports_registry imp \<longleftrightarrow> is_Path imp = [CHR 0x22] @ ''github.com/dashfabric/fm/pkg/registry'' @ [CHR 0x22]"

definition registry_bound_as :: "GoFile \<Rightarrow> string \<Rightarrow> bool" where
  "registry_bound_as f n \<longleftrightarrow>
     (\<exists>before imp after. gf_Imports f = before @ imp # after \<and> imports_registry imp \<and> \<not> list_ex imports_registry before \<and>
        (is_Name imp = None \<and> n = ''registry'' \<or> is_Name imp = Some n \<and> n \<notin> {'''', ''_'', ''.''}))"

text \<open>The directories below a path that hold a source file, outside the directories that are skipped.\<close>

inductive holds_source :: "string \<Rightarrow> fs \<Rightarrow> string \<Rightarrow> bool" where
  in_file: "is_source name \<Longrightarrow> holds_source path (FsFile name) (path_Dir path)"
| in_dir: "\<not> skipped_dir name \<Longrightarrow> e \<in> set es \<Longrightarrow> holds_source (path_Join path (fs_name e)) e d \<Longrightarrow>
    holds_source path (FsDir name (Inr es)) d"

inductive_simps holds_source_simps:
  "holds_source path (FsFile name) d"
  "holds_source path (FsDir name r) d"

section \<open>The rule\<close>

lemma isRegistryNewCall_instance: "isRegistryNewCall fn pkgAlias \<longleftrightarrow> instance_of_New pkgAlias fn"
proof (induction fn)
  case (SelectorExpr x sel)
  then show ?case by (cases x) auto
qed auto

lemma violations_simps [simp]:
  "violations pkgAlias [] = []" "violations pkgAlias (cs @ ds) = violations pkgAlias cs @ violations pkgAlias ds"
  "violations pkgAlias ((pos, fn) # cs) =
     (if instance_of_New pkgAlias fn then [\<lparr>vi_Pos = pos, vi_Message = violation_message\<rparr>] else []) @ violations pkgAlias cs"
  by (simp_all add: violations_def)

lemma inspect_calls:
  "inspect pkgAlias n vs = vs @ violations pkgAlias (calls n)"
  "inspect_all pkgAlias ns vs = vs @ violations pkgAlias (concat (map calls ns))"
  by (induction pkgAlias n vs and pkgAlias ns vs rule: inspect_inspect_all.induct)
    (simp_all add: isRegistryNewCall_instance Let_def)

lemma occurs_call: "occurs c n \<Longrightarrow> c = CallExpr pos fn args \<Longrightarrow> (pos, fn) \<in> set (calls n)"
  by (induction rule: occurs.induct) auto

lemma calls_occur: "(pos, fn) \<in> set (calls n) \<Longrightarrow> \<exists>args. occurs (CallExpr pos fn args) n"
  by (induction n) (auto intro: occurs.intros; blast intro: occurs.intros)+

lemma calls_iff: "(pos, fn) \<in> set (calls n) \<longleftrightarrow> (\<exists>args. occurs (CallExpr pos fn args) n)"
  using occurs_call calls_occur by blast

lemma in_registry_guard:
  "pkgPath = registryPkgPath \<or> length pkgPath > length registryPkgPrefix \<and> take (length registryPkgPrefix) pkgPath = registryPkgPrefix
   \<longleftrightarrow> in_registry pkgPath"
proof -
  have "length pkgPath > length registryPkgPrefix \<and> take (length registryPkgPrefix) pkgPath = registryPkgPrefix \<longleftrightarrow>
      (\<exists>rest. rest \<noteq> [] \<and> pkgPath = registryPkgPrefix @ rest)"
    by (metis append_eq_conv_conj append_take_drop_id drop_eq_Nil2 leD length_append length_greater_0_conv less_add_same_cancel1
        linorder_not_le)
  then show ?thesis by (simp add: in_registry_def registryPkgPath_def registryPkgPrefix_def)
qed

lemma localAlias_bound: "registry_bound_as f n \<longleftrightarrow> localAlias f = n \<and> n \<noteq> ''''"
proof -
  have "(\<exists>before imp after. imps = before @ imp # after \<and> imports_registry imp \<and> \<not> list_ex imports_registry before \<and>
        (is_Name imp = None \<and> n = ''registry'' \<or> is_Name imp = Some n \<and> n \<notin> {'''', ''_'', ''.''})) \<longleftrightarrow>
      import_alias imps = n \<and> n \<noteq> ''''" for imps
  proof (induction imps)
    case (Cons imp imps)
    have "(\<exists>before x after. imp # imps = before @ x # after \<and> P before x) \<longleftrightarrow>
        P [] imp \<or> (\<exists>before x after. imps = before @ x # after \<and> P (imp # before) x)" for P
      by (auto simp: Cons_eq_append_conv)
    note split = this [of "\<lambda>before x. imports_registry x \<and> \<not> list_ex imports_registry before \<and>
        (is_Name x = None \<and> n = ''registry'' \<or> is_Name x = Some n \<and> n \<notin> {'''', ''_'', ''.''})"]
    show ?case
    proof (cases "imports_registry imp")
      case True
      then show ?thesis unfolding split
        by (cases "is_Name imp") (auto simp: imports_registry_def registryPkgPath_def)
    next
      case False
      then have "import_alias (imp # imps) = import_alias imps" by (simp add: imports_registry_def registryPkgPath_def)
      with False Cons.IH show ?thesis unfolding split by simp
    qed
  qed simp
  then show ?thesis by (simp add: registry_bound_as_def localAlias_def)
qed

section \<open>The walk\<close>

lemma walk_seen:
  "walk path t seen = (None, seen') \<Longrightarrow> seen' = seen \<union> {d. holds_source path t d}"
  "walk_all path es seen = (None, seen') \<Longrightarrow> seen' = seen \<union> {d. \<exists>e \<in> set es. holds_source (path_Join path (fs_name e)) e d}"
proof (induction path t seen and path es seen arbitrary: seen' and seen' rule: walk_walk_all.induct)
  case (2 path name r seen)
  show ?case
  proof (cases "skipped_dir name")
    case True
    with "2.prems" show ?thesis by (simp add: holds_source_simps)
  next
    case False
    then obtain es where r: "r = Inr es" "walk_all path es seen = (None, seen')" using "2.prems" by (cases r) auto
    from "2.IH" [OF False r] show ?thesis using False r(1) by (auto simp: holds_source_simps)
  qed
next
  case (4 path e es seen)
  then obtain seen1 where 1: "walk (path_Join path (fs_name e)) e seen = (None, seen1)" "walk_all path es seen1 = (None, seen')"
    by (auto split: prod.splits option.splits)
  from "4.IH"(1) [OF 1(1)] "4.IH"(2) [OF 1(1) [symmetric] refl 1(2)] show ?case by auto
qed (auto simp: holds_source_simps split: if_splits)

lemma walk_finite:
  "finite seen \<Longrightarrow> finite (snd (walk path t seen))" "finite seen \<Longrightarrow> finite (snd (walk_all path es seen))"
  by (induction path t seen and path es seen rule: walk_walk_all.induct) (auto split: sum.split prod.split option.split)

section \<open>The command\<close>

text \<open>The lines that the violations of a directory print, none if it cannot be parsed.\<close>

definition dir_lines ::
  "(string \<Rightarrow> (string \<Rightarrow> bool) \<Rightarrow> string + GoFile list) \<Rightarrow> (string \<Rightarrow> string) \<Rightarrow> string \<Rightarrow> string list" where
  "dir_lines parseDir importPath d =
     (case parseDir d goFileFilter of
        Inl err \<Rightarrow> []
      | Inr files \<Rightarrow> concat (map (\<lambda>f. map (\<lambda>v. vi_Pos v @ '': '' @ vi_Message v) (Check f (importPath d))) files))"

definition parses :: "(string \<Rightarrow> (string \<Rightarrow> bool) \<Rightarrow> string + GoFile list) \<Rightarrow> string \<Rightarrow> bool" where
  "parses parseDir d \<longleftrightarrow> (\<exists>files. parseDir d goFileFilter = Inr files)"

lemma lint_dirs_result:
  "lint_dirs parseDir importPath dirs out =
     (let good = takeWhile (parses parseDir) dirs; lines = out @ concat (map (dir_lines parseDir importPath) good)
      in (lines, if good \<noteq> dirs then 2 else if lines = [] then 0 else 1))"
proof (induction dirs arbitrary: out)
  case (Cons d dirs)
  show ?case
  proof (cases "parseDir d goFileFilter")
    case (Inr fs)
    have "report = (\<lambda>v. vi_Pos v @ '': '' @ vi_Message v)" by (rule ext) (simp add: report_def)
    with Inr show ?thesis using Cons.IH by (simp add: parses_def dir_lines_def Let_def)
  qed (simp add: parses_def Let_def)
qed (simp add: Let_def)

section \<open>Properties\<close>

text \<open>C38: The rule reports, in the order of the source and each of them once, exactly the calls of New, with or without
  type arguments, wherever they occur in a file outside the registry packages, on the name that the first import of the registry package
  binds: the name given in that import, or \<open>registry\<close> if none is given. A first import that is blank or a dot binds no name, and
  later imports of the package are not looked at.\<close>

theorem lint_check_exact:
  "map vi_Pos (Check f pkgPath) =
     map fst (filter (\<lambda>(pos, fn). \<not> in_registry pkgPath \<and> (\<exists>n. registry_bound_as f n \<and> instance_of_New n fn))
       (concat (map calls (gf_Decls f)))) \<and>
   (pos \<in> set (map vi_Pos (Check f pkgPath)) \<longleftrightarrow>
      \<not> in_registry pkgPath \<and>
      (\<exists>n d fn args. registry_bound_as f n \<and> d \<in> set (gf_Decls f) \<and> occurs (CallExpr pos fn args) d \<and> instance_of_New n fn))"
proof -
  have c: "map vi_Pos (Check f pkgPath) =
     map fst (filter (\<lambda>(pos, fn). \<not> in_registry pkgPath \<and> (\<exists>n. registry_bound_as f n \<and> instance_of_New n fn))
       (concat (map calls (gf_Decls f))))"
    unfolding Check_def in_registry_guard
    by (auto simp: inspect_calls violations_def localAlias_bound Let_def case_prod_unfold comp_def)
  show ?thesis unfolding c by (force simp: calls_iff)
qed

text \<open>C39: The command exits with 2 exactly if its command line has a flag other than a request for help, or its arguments cannot be
  expanded, or one of the directories cannot be parsed, and with 0 for a request for help. It prints the violations of all
  files of the directories up to the first that cannot be parsed, and if all of them can, it exits with 1 if there is a violation and with 0 if there
  is none. Without arguments it looks at the working directory.\<close>

theorem lint_exit_codes:
  "lint_command getwd readFile tree order parseDir args =
     (case parse_flags [] args of
        Inl err \<Rightarrow> ([], if err = FlagHelp then 0 else 2)
      | Inr (fs, rest) \<Rightarrow>
          (case expandArgs getwd tree order (if rest = [] then [''.''] else rest) of
             Inl err \<Rightarrow> ([], 2)
           | Inr dirs \<Rightarrow>
               (let good = takeWhile (parses parseDir) dirs;
                    lines = concat (map (dir_lines parseDir (dirToImportPath getwd readFile)) good)
                in (lines, if good \<noteq> dirs then 2 else if lines = [] then 0 else 1))))"
proof (cases "parse_flags [] args")
  case (Inl err)
  then show ?thesis by (simp add: lint_command_def flag_exit_def)
next
  case (Inr x)
  obtain fs rest where x: "x = (fs, rest)" by fastforce
  let ?args = "if rest = [] then [''.''] else rest"
  have main: "lint_main getwd readFile tree order parseDir rest =
      (case expandArgs getwd tree order ?args of Inl err \<Rightarrow> ([], 2)
       | Inr dirs \<Rightarrow> lint_dirs parseDir (dirToImportPath getwd readFile) dirs [])"
    by (simp add: lint_main_def)
  show ?thesis
  proof (cases "expandArgs getwd tree order ?args")
    case (Inl err)
    then show ?thesis by (simp add: Inr x lint_command_def main)
  next
    case dirs: (Inr dirs)
    show ?thesis unfolding lint_command_def Inr x main dirs sum.case prod.case lint_dirs_result Let_def by simp
  qed
qed

text \<open>A walk that meets no error returns exactly the directories below its root, and outside vendored and hidden
  directories, that hold a source file which is not a test.\<close>

lemma lint_walk_exact:
  assumes "tree root = Inr t" and "walkGoPackageDirs tree order root = (None, ds)" and "\<And>S. finite S \<Longrightarrow> set (order S) = S"
  shows "set ds = {d. holds_source root t d}"
proof -
  obtain seen where w: "walk root t {} = (None, seen)" "ds = order seen"
    using assms(1,2) by (auto simp: walkGoPackageDirs_def Let_def split: prod.splits)
  with walk_seen(1) [OF w(1)] walk_finite(1) [of "{}" root t] assms(3) show ?thesis by simp
qed

lemma lint_walk_exact_instance:
  "let t = FsDir ''r'' (Inr [FsFile ''a.go'', FsDir ''vendor'' (Inr [FsFile ''v.go'']), FsDir ''x'' (Inr [FsFile ''x_test.go''])])
   in {d. holds_source ''r'' t d} = {''r''}"
proof -
  let ?t = "FsDir ''r'' (Inr [FsFile ''a.go'', FsDir ''vendor'' (Inr [FsFile ''v.go'']), FsDir ''x'' (Inr [FsFile ''x_test.go''])])"
  have e: "walk ''r'' ?t {} = (None, {path_Dir (path_Join ''r'' ''a.go'')})"
    by (simp add: skipped_dir_def is_source_def HasSuffix_def HasPrefix_def)
  have "path_Dir (path_Join ''r'' ''a.go'') = ''r''"
    by (simp add: path_Dir_def path_Join_def Clean_def path_elems_def abs_path_def Let_def)
  with e have w: "walkGoPackageDirs (\<lambda>p. Inr ?t) sorted_list_of_set ''r'' = (None, [''r''])"
    by (simp add: walkGoPackageDirs_def)
  have "set [''r''] = {d. holds_source ''r'' ?t d}"
    by (rule lint_walk_exact [OF _ w]) simp_all
  then show ?thesis by simp
qed

text \<open>Given the parent directory with the suffix for all packages below, the command succeeds without looking at anything:
  the name of the root starts with a dot, and the walk skips it like a hidden directory.\<close>

lemma lint_parent_skipped:
  assumes "tree ''..'' = Inr (FsDir ''..'' r)" and "order {} = []"
  shows "lint_main getwd readFile tree order parseDir [''../...''] = ([], 0)"
  using assms
  by (simp add: lint_main_def arg_root_def TrimSuffix_def TrimPrefix_def HasSuffix_def HasPrefix_def
      walkGoPackageDirs_def skipped_dir_def)

lemma lint_parent_skipped_instance:
  "lint_main (Inr ''/w'') (\<lambda>p. None) (\<lambda>p. Inr (FsDir p (Inr [FsFile ''a.go'']))) sorted_list_of_set
     (\<lambda>d flt. Inl ''syntax error'') [''../...''] = ([], 0)"
  by (rule lint_parent_skipped) simp_all

end
