(* ===== verification/FM_Command.thy ===== *)
theory FM_Command
  imports FM_Service FM_Lint Go_Flag "HOL-Library.Sublist"
begin

text \<open>
  The commands of the fabric manager (\<^verbatim>\<open>src/FM/cmd/fm/main.go\<close>), with its flags, its two servers and its deferred calls, and of the
  gateway (\<^verbatim>\<open>src/Weaver/cmd/weaver/main.go\<close>), which is a stub, from their command lines to their exit codes. The address on which the
  REST server listens and what listening returns is an argument, as is the handler of the Prometheus library. All goroutines log through the same
  logger; the lines of the handlers of requests and of the services' own goroutines are part of the schedule.
\<close>

section \<open>Flags\<close>

definition fm_flags :: flags where
  "fm_flags = [(''config'', FlagString ''config.yaml''), (''log-level'', FlagString ''info''), (''port'', FlagInt 5051),
     (''rest-port'', FlagInt 8080)]"

record fm_args =
  fa_config :: string
  fa_logLevel :: string
  fa_port :: int
  fa_restPort :: int

definition flag_string :: "string \<Rightarrow> flags \<Rightarrow> string" where
  "flag_string n fs = (case map_of fs n of Some (FlagString s) \<Rightarrow> s | _ \<Rightarrow> '''')"

definition flag_int :: "string \<Rightarrow> flags \<Rightarrow> int" where
  "flag_int n fs = (case map_of fs n of Some (FlagInt i) \<Rightarrow> i | _ \<Rightarrow> 0)"

definition fm_args_of :: "flags \<Rightarrow> fm_args" where
  "fm_args_of fs = \<lparr>fa_config = flag_string ''config'' fs, fa_logLevel = flag_string ''log-level'' fs,
     fa_port = flag_int ''port'' fs, fa_restPort = flag_int ''rest-port'' fs\<rparr>"

section \<open>The adapter of the logger\<close>

text \<open>\<open>sync\<close> and \<open>shutdown\<close> are methods of the libraries zap and OpenTelemetry.\<close>

definition fm_Sync :: "(fm_log_config \<Rightarrow> string option) \<Rightarrow> fm_structured \<Rightarrow> string option" where
  "fm_Sync sync sl = sync (fl_config sl)"

definition tc_Shutdown :: "(TracingContext \<Rightarrow> string option) \<Rightarrow> TracingContext \<Rightarrow> string option" where
  "tc_Shutdown shutdown tc = shutdown tc"

definition NewLogger :: "(fm_log_config \<Rightarrow> string option) \<Rightarrow> string \<Rightarrow> string + fm_logger" where
  "NewLogger build level = (case fm_NewStructuredLogger build level of Inl err \<Rightarrow> Inl err | Inr sl \<Rightarrow> Inr (Structured sl))"

fun SimpleLogger_Sync :: "(fm_log_config \<Rightarrow> string option) \<Rightarrow> fm_logger \<Rightarrow> string option" where
  "SimpleLogger_Sync sync (Structured sl) = fm_Sync sync sl"
| "SimpleLogger_Sync sync NoOpLogger = None"

section \<open>The REST server\<close>

text \<open>Registering a pattern twice panics.\<close>

fun HandleFunc_all :: "(string \<times> route) list \<Rightarrow> (string \<times> route) list \<Rightarrow> (string \<times> route) list go" where
  "HandleFunc_all mux [] = Inr mux"
| "HandleFunc_all mux ((pattern, h) # rs) =
     (if map_of mux pattern \<noteq> None then Inl (PanicValue (''http: multiple registrations for '' @ pattern))
      else HandleFunc_all (mux @ [(pattern, h)]) rs)"

definition StartRESTServer ::
  "(string \<Rightarrow> (string \<times> route) list \<Rightarrow> string option) \<Rightarrow> int \<Rightarrow> 'f Services \<Rightarrow> (string option \<times> 'f Services) go" where
  "StartRESTServer listenAndServe port s =
     (let s1 = sv_Info ''Starting REST server'' s
      in go_bind (HandleFunc_all [] (rest_routes s1)) (\<lambda>mux. Inr (listenAndServe ('':'' @ show_int port) mux, s1)))"

text \<open>The handler that the Prometheus library makes.\<close>

definition MetricsHandler :: "(unit \<Rightarrow> response) \<Rightarrow> response" where
  "MetricsHandler promhttp = promhttp ()"

text \<open>
  What the server answers to a request for a path: \<open>None\<close> is the page for unknown paths. \<open>start\<close> and \<open>now\<close> are readings of the
  clock, \<open>g\<close> and \<open>q\<close> the outcomes of decoding the body as either kind of request.
\<close>

definition rest_serve ::
  "(unit \<Rightarrow> response) \<Rightarrow> time \<Rightarrow> time \<Rightarrow> string + GetGoalStateRequest \<Rightarrow> string + ProgramDeviceRequest \<Rightarrow> string \<Rightarrow> 'f Services \<Rightarrow>
   response option"
where
  "rest_serve promhttp start now g q path s =
     (case map_of (rest_routes s) path of
        None \<Rightarrow> None
      | Some RHealthz \<Rightarrow> Some (HealthzHandler now (sv_healthChecker s))
      | Some RReadyz \<Rightarrow> Some (ReadyzHandler now (sv_healthChecker s))
      | Some RMetrics \<Rightarrow> Some (MetricsHandler promhttp)
      | Some RListVNETs \<Rightarrow> map_option (\<lambda>h. hd_response (ListVNETs now h)) (sv_api s)
      | Some RGetGoalState \<Rightarrow> map_option (\<lambda>h. hd_response (api_GetGoalState now g h)) (sv_api s)
      | Some RProgramDevice \<Rightarrow> map_option (\<lambda>h. hd_response (ProgramDevice start now q h)) (sv_api s))"

section \<open>The process of the fabric manager\<close>

type_synonym log_line = "fm_level \<times> string"

text \<open>The goroutines of the two servers: the lines they log.\<close>

definition grpc_goroutine :: "int \<Rightarrow> 'f Services \<Rightarrow> log_line list" where
  "grpc_goroutine port s =
     (case StartGRPCServer port s of
        (err, s1) \<Rightarrow> drop (length (sv_log s)) (sv_log s1) @ (if err \<noteq> None then [(ErrorLevel, ''gRPC server error'')] else []))"

definition rest_goroutine ::
  "(string \<Rightarrow> (string \<times> route) list \<Rightarrow> string option) \<Rightarrow> int \<Rightarrow> 'f Services \<Rightarrow> log_line list go" where
  "rest_goroutine listenAndServe port s =
     go_bind (StartRESTServer listenAndServe port s)
       (\<lambda>(err, s1).
          Inr (drop (length (sv_log s)) (sv_log s1) @ (if err \<noteq> None then [(ErrorLevel, ''REST server error'')] else [])))"

text \<open>
  The log: every line with the goroutine that writes it. A schedule says which goroutine logs next; \<open>WOther\<close> is any other goroutine, such as
  the handler of a request (its lines are in \<open>hd_log\<close> of \<open>FM_Service\<close>) or the loop of the pipeline, with the line it logs. The servers are
  started after the first \<open>n\<close> lines of the main goroutine. The process ends when the main goroutine is
  done, whatever the others have still to log; when the schedule is over, the main goroutine runs alone.
\<close>

datatype who = WMain | WGrpc | WRest | WOther log_line

fun interleave :: "who list \<Rightarrow> nat \<Rightarrow> log_line list \<Rightarrow> log_line list \<Rightarrow> log_line list \<Rightarrow> (who \<times> log_line) list" where
  "interleave ws n [] gs rs = []"
| "interleave [] n (m # ms) gs rs = map (Pair WMain) (m # ms)"
| "interleave (WMain # ws) n (m # ms) gs rs = (WMain, m) # interleave ws (n - 1) ms gs rs"
| "interleave (WOther l # ws) n (m # ms) gs rs = (WOther l, l) # interleave ws n (m # ms) gs rs"
| "interleave (WGrpc # ws) n (m # ms) gs rs =
     (if n = 0 \<and> gs \<noteq> [] then (WGrpc, hd gs) # interleave ws n (m # ms) (tl gs) rs else interleave ws n (m # ms) gs rs)"
| "interleave (WRest # ws) n (m # ms) gs rs =
     (if n = 0 \<and> rs \<noteq> [] then (WRest, hd rs) # interleave ws n (m # ms) gs (tl rs) else interleave ws n (m # ms) gs rs)"

definition lines_of :: "who \<Rightarrow> (who \<times> log_line) list \<Rightarrow> log_line list" where
  "lines_of w lines = map snd (filter (\<lambda>x. fst x = w) lines)"

text \<open>The calls that run when \<open>main\<close> returns, last deferred first. None of them runs when it leaves by \<open>os.Exit\<close>.\<close>

datatype deferred = DeferShutdownCancel | DeferCancel | DeferTracing "string option" | DeferSync "string option"

definition deferred_calls ::
  "(fm_log_config \<Rightarrow> string option) \<Rightarrow> (TracingContext \<Rightarrow> string option) \<Rightarrow> string + TracingContext \<Rightarrow> fm_structured \<Rightarrow> deferred list" where
  "deferred_calls sync shutdown tracing sl =
     [DeferShutdownCancel, DeferCancel] @ (case tracing of Inl err \<Rightarrow> [] | Inr tc \<Rightarrow> [DeferTracing (tc_Shutdown shutdown tc)]) @
     [DeferSync (fm_Sync sync sl)]"

record 'f command_result =
  cr_exit :: int
  cr_packages :: "Packages option"
  cr_started :: "'f Services option"
  cr_stopped :: "'f Services option"
  cr_log :: "(who \<times> log_line) list"
  cr_deferred :: "deferred list"

text \<open>What the libraries do.\<close>

record fm_env =
  env_build :: "fm_log_config \<Rightarrow> string option"
  env_sync :: "fm_log_config \<Rightarrow> string option"
  env_shutdown :: "TracingContext \<Rightarrow> string option"
  env_listen :: "string \<Rightarrow> (string \<times> route) list \<Rightarrow> string option"
  env_tracing1 :: "string + TracingContext"
  env_tracing2 :: "string + TracingContext"



definition fm_command :: "fm_env \<Rightarrow> time \<Rightarrow> time \<Rightarrow> who list \<Rightarrow> string list \<Rightarrow> 'f command_result go" where
  "fm_command env t0 t1 schedule args =
     (case parse_flags fm_flags args of
        Inl err \<Rightarrow>
          Inr \<lparr>cr_exit = flag_exit err, cr_packages = None, cr_started = None, cr_stopped = None, cr_log = [], cr_deferred = []\<rparr>
      | Inr (fs, rest) \<Rightarrow>
          (let a = fm_args_of fs
           in go_bind (fm_main (env_build env) (env_tracing1 env) (env_tracing2 env) t0 t1 (fa_config a) (fa_logLevel a))
                (\<lambda>r. case (mn_started r, mn_exit r = 0, fm_NewStructuredLogger (env_build env) (fa_logLevel a)) of
                       (Some s1, True, Inr sl) \<Rightarrow>
                         (let n = length (main_prologue (env_tracing1 env)) + length (sv_log s1)
                          in go_bind (rest_goroutine (env_listen env) (fa_restPort a) s1)
                               (\<lambda>rs. Inr \<lparr>cr_exit = 0, cr_packages = mn_packages r, cr_started = Some s1, cr_stopped = mn_stopped r,
                                         cr_log = interleave schedule n (mn_log r) (grpc_goroutine (fa_port a) s1) rs,
                                         cr_deferred = deferred_calls (env_sync env) (env_shutdown env) (env_tracing1 env) sl\<rparr>))
                     | _ \<Rightarrow> Inr \<lparr>cr_exit = mn_exit r, cr_packages = mn_packages r, cr_started = mn_started r,
                                 cr_stopped = mn_stopped r, cr_log = map (Pair WMain) (mn_log r), cr_deferred = []\<rparr>)))"

section \<open>The command of the gateway\<close>

definition weaver_flags :: flags where
  "weaver_flags = [(''config'', FlagString ''config.yaml'')]"

definition weaver_main :: "string list \<Rightarrow> string list \<times> int" where
  "weaver_main args =
     (case parse_flags weaver_flags args of
        Inl err \<Rightarrow> ([], flag_exit err)
      | Inr (fs, rest) \<Rightarrow>
          ([''Weaver Gateway starting with config: '' @ flag_string ''config'' fs, ''TODO: Implement gateway initialization''], 0))"

section \<open>Lemmas\<close>

text \<open>A flag given as two arguments, and one given as one argument with an equality sign.\<close>

definition plain_name :: "string \<Rightarrow> bool" where
  "plain_name n \<longleftrightarrow> n \<noteq> '''' \<and> CHR ''='' \<notin> set n \<and> hd n \<noteq> CHR ''-'' \<and> hd n \<noteq> CHR ''=''"

lemma plain_split:
  assumes "plain_name n"
  shows "split_flag n = (n, None)" "split_flag (n @ CHR ''='' # v) = (n, Some v)"
proof -
  obtain c cs where n: "n = c # cs" "CHR ''='' \<notin> set cs" using assms by (cases n) (auto simp: plain_name_def)
  have "takeWhile (\<lambda>c. c \<noteq> CHR ''='') cs = cs" "dropWhile (\<lambda>c. c \<noteq> CHR ''='') cs = []"
    using n(2) by (induction cs) auto
  moreover have "takeWhile (\<lambda>c. c \<noteq> CHR ''='') (cs @ CHR ''='' # v) = cs" "dropWhile (\<lambda>c. c \<noteq> CHR ''='') (cs @ CHR ''='' # v) = CHR ''='' # v"
    using n(2) by (induction cs) auto
  ultimately show "split_flag n = (n, None)" "split_flag (n @ CHR ''='' # v) = (n, Some v)"
    by (simp_all add: n(1) split_flag_def)
qed

lemma flag_name_dashes:
  "n \<noteq> '''' \<Longrightarrow> hd n \<noteq> CHR ''-'' \<Longrightarrow> flag_name (CHR ''-'' # n) = Some n"
  "flag_name (CHR ''-'' # CHR ''-'' # n) = Some n"
  by (cases n; simp add: flag_name_def)+

lemma parse_flag_two:
  assumes "plain_name n" "map_of fs n = Some old" "set_flag x old = Inr v"
  shows "parse_flags fs ((CHR ''-'' # n) # x # rest) = parse_flags (AList.update n v fs) rest"
    "parse_flags fs ((CHR ''-'' # CHR ''-'' # n) # x # rest) = parse_flags (AList.update n v fs) rest"
  using assms plain_split(1) [OF assms(1)] by (auto simp: flag_name_dashes plain_name_def)

lemma parse_flag_eq:
  assumes "plain_name n" "map_of fs n = Some old" "set_flag x old = Inr v"
  shows "parse_flags fs ((CHR ''-'' # n @ CHR ''='' # x) # rest) = parse_flags (AList.update n v fs) rest"
    "parse_flags fs ((CHR ''-'' # CHR ''-'' # n @ CHR ''='' # x) # rest) = parse_flags (AList.update n v fs) rest"
  using assms plain_split(2) [OF assms(1), of x] by (auto simp: flag_name_dashes plain_name_def)

lemma parse_flag_invalid:
  assumes "plain_name n" "map_of fs n = Some old" "set_flag x old = Inl e"
  shows "parse_flags fs ((CHR ''-'' # n) # x # rest) = Inl (FlagInvalid x n e)"
    "parse_flags fs ((CHR ''-'' # n @ CHR ''='' # x) # rest) = Inl (FlagInvalid x n e)"
    "parse_flags fs ((CHR ''-'' # CHR ''-'' # n @ CHR ''='' # x) # rest) = Inl (FlagInvalid x n e)"
    "parse_flags fs ((CHR ''-'' # CHR ''-'' # n) # x # rest) = Inl (FlagInvalid x n e)"
  using assms plain_split [OF assms(1)] by (auto simp: flag_name_dashes plain_name_def)

lemma lines_of_simps [simp]:
  "lines_of w [] = []" "lines_of w ((v, l) # lines) = (if v = w then l # lines_of w lines else lines_of w lines)"
  "lines_of w (map (Pair v) ls) = (if v = w then ls else [])"
  by (simp_all add: lines_of_def filter_map comp_def)

lemma interleave_main: "lines_of WMain (interleave ws n ms gs rs) = ms"
  by (induction ws n ms gs rs rule: interleave.induct) simp_all

lemma interleave_grpc: "prefix (lines_of WGrpc (interleave ws n ms gs rs)) gs"
proof (induction ws n ms gs rs rule: interleave.induct)
  case (5 ws n m ms gs rs)
  then show ?case by (cases gs) auto
qed auto

lemma interleave_rest: "prefix (lines_of WRest (interleave ws n ms gs rs)) rs"
proof (induction ws n ms gs rs rule: interleave.induct)
  case (6 ws n m ms gs rs)
  then show ?case by (cases rs) auto
qed auto

text \<open>Before the servers are started nothing is logged by them.\<close>

definition no_server :: "(who \<times> log_line) list \<Rightarrow> bool" where
  "no_server lines \<longleftrightarrow> (\<forall>x \<in> set lines. fst x \<noteq> WGrpc \<and> fst x \<noteq> WRest)"

lemma interleave_early:
  "n \<le> length ms \<Longrightarrow> \<exists>early late. interleave ws n ms gs rs = early @ late \<and> lines_of WMain early = take n ms \<and> no_server early"
proof (induction ws n ms gs rs rule: interleave.induct)
  case (1 ws n gs rs)
  then show ?case by (simp add: no_server_def)
next
  case (2 n m ms gs rs)
  have "interleave [] n (m # ms) gs rs = map (Pair WMain) (take n (m # ms)) @ map (Pair WMain) (drop n (m # ms))"
    by (metis append_take_drop_id interleave.simps(2) map_append)
  moreover have "no_server (map (Pair WMain) ls)" for ls by (auto simp: no_server_def)
  ultimately show ?case by (metis (full_types) lines_of_simps(3))
next
  case (3 ws n m ms gs rs)
  show ?case
  proof (cases n)
    case 0
    then show ?thesis by (intro exI [of _ "[]"] exI [of _ "interleave (WMain # ws) n (m # ms) gs rs"]) (simp add: no_server_def)
  next
    case (Suc k)
    with 3 obtain early late where "interleave ws k ms gs rs = early @ late" "lines_of WMain early = take k ms" "no_server early" by auto
    then show ?thesis using Suc by (intro exI [of _ "(WMain, m) # early"] exI [of _ late]) (simp add: no_server_def)
  qed
next
  case (4 l ws n m ms gs rs)
  then obtain early late where "interleave ws n (m # ms) gs rs = early @ late" "lines_of WMain early = take n (m # ms)" "no_server early" by auto
  then show ?case by (intro exI [of _ "(WOther l, l) # early"] exI [of _ late]) (simp add: no_server_def)
next
  case (5 ws n m ms gs rs)
  show ?case
  proof (cases "n = 0")
    case True
    then show ?thesis by (intro exI [of _ "[]"] exI [of _ "interleave (WGrpc # ws) n (m # ms) gs rs"]) (simp add: no_server_def)
  qed (use 5 in simp)
next
  case (6 ws n m ms gs rs)
  show ?case
  proof (cases "n = 0")
    case True
    then show ?thesis by (intro exI [of _ "[]"] exI [of _ "interleave (WRest # ws) n (m # ms) gs rs"]) (simp add: no_server_def)
  qed (use 6 in simp)
qed

lemma grpc_lines: "grpc_goroutine port s = [(InfoLevel, ''Starting gRPC server'')]"
  by (simp add: grpc_goroutine_def StartGRPCServer_def sv_Info_def)

lemma rest_routes_distinct: "distinct (map fst (rest_routes s))"
  by (auto simp: rest_routes_def)

lemma HandleFunc_all_distinct: "distinct (map fst (mux @ rs)) \<Longrightarrow> HandleFunc_all mux rs = Inr (mux @ rs)"
  by (induction mux rs rule: HandleFunc_all.induct) (auto simp: map_of_eq_None_iff)

lemma rest_lines:
  "rest_goroutine listen port s =
     Inr ((InfoLevel, ''Starting REST server'') #
       (if listen ('':'' @ show_int port) (rest_routes s) \<noteq> None then [(ErrorLevel, ''REST server error'')] else []))"
proof -
  have "rest_routes (sv_Info msg s) = rest_routes s" for msg by (simp add: rest_routes_def)
  then show ?thesis
    by (simp add: rest_goroutine_def StartRESTServer_def HandleFunc_all_distinct rest_routes_distinct Let_def) (simp add: sv_Info_def)
qed

text \<open>The lines that the main goroutine logs after the servers were started.\<close>

definition main_tail :: "log_line list" where
  "main_tail = main_interlude @ map (Pair InfoLevel) (shutdown_log @ [''Fabric Manager stopped''])"

definition main_lines :: "string + TracingContext \<Rightarrow> log_line list" where
  "main_lines tracing = main_prologue tracing @ map (Pair InfoLevel) (startup_log @ start_log)"

lemma command_started:
  assumes flags: "parse_flags fm_flags args = Inr (fs, rest)"
    and logger: "fm_NewStructuredLogger (env_build env) (fa_logLevel (fm_args_of fs)) = Inr sl"
  shows "\<exists>s1 s2. fm_command env t0 t1 ws args =
      Inr (\<lparr>cr_exit = 0,
            cr_packages = (let v = cm_vars (Structured sl) (case env_tracing1 env of Inl e \<Rightarrow> None | Inr tc \<Rightarrow> Some tc)
                           in Some \<lparr>pk_cm = v, pk_gm = v, pk_dal = v\<rparr>),
            cr_started = Some s1, cr_stopped = Some s2,
            cr_log = interleave ws (length (main_lines (env_tracing1 env))) (main_lines (env_tracing1 env) @ main_tail)
                [(InfoLevel, ''Starting gRPC server'')]
                ((InfoLevel, ''Starting REST server'') #
                 (if env_listen env ('':'' @ show_int (fa_restPort (fm_args_of fs))) (rest_routes s1) \<noteq> None
                  then [(ErrorLevel, ''REST server error'')] else [])),
            cr_deferred = deferred_calls (env_sync env) (env_shutdown env) (env_tracing1 env) sl\<rparr> :: 'f command_result) \<and>
    all_running s1 \<and> none_running s2 \<and> dm_down s1 \<and> sv_api s1 \<noteq> None \<and> sv_metricsRegistry s1 \<noteq> None"
proof -
  let ?v = "cm_vars (Structured sl) (case env_tracing1 env of Inl e \<Rightarrow> None | Inr tc \<Rightarrow> Some tc)"
  obtain s1 s2 :: "'f Services" where
    main: "fm_main (env_build env) (env_tracing1 env) (env_tracing2 env) t0 t1 (fa_config (fm_args_of fs)) (fa_logLevel (fm_args_of fs)) =
        Inr (\<lparr>mn_exit = 0, mn_packages = Some \<lparr>pk_cm = ?v, pk_gm = ?v, pk_dal = ?v\<rparr>, mn_started = Some s1, mn_stopped = Some s2,
          mn_log = main_lines (env_tracing1 env) @ main_tail\<rparr>)"
    and s: "all_running s1" "none_running s2" "dm_down s1" "sv_api s1 \<noteq> None" "sv_metricsRegistry s1 \<noteq> None"
      "sv_log s1 = map (Pair InfoLevel) (startup_log @ start_log)"
    using service_lifecycle [where build = "env_build env" and level = "fa_logLevel (fm_args_of fs)" and ?tr1.0 = "env_tracing1 env" and
        ?tr2.0 = "env_tracing2 env" and ?t0.0 = t0 and ?t1.0 = t1 and path = "fa_config (fm_args_of fs)" and ?'f = 'f] logger
    by (auto simp: Let_def main_tail_def main_lines_def)
  have "length (main_prologue (env_tracing1 env)) + length (sv_log s1) = length (main_lines (env_tracing1 env))"
    by (simp add: main_lines_def s(6))
  then show ?thesis
    by (intro exI [of _ s1] exI [of _ s2] conjI)
      (simp_all add: fm_command_def flags logger main s(1-5) grpc_lines rest_lines Let_def)
qed

text \<open>The probes and the paths of a fabric manager that runs.\<close>

lemma command_probes:
  assumes "fm_command env t0 t1 ws args = Inr (r :: 'f command_result)" "cr_started r = Some s1"
  shows "rp_StatusCode (the (rest_serve prom start now g q ''/healthz'' s1)) = 200 \<and>
    rp_StatusCode (the (rest_serve prom start now g q ''/readyz'' s1)) = 503 \<and>
    {path. rest_serve prom start now g q path s1 \<noteq> None} =
      {''/healthz'', ''/readyz'', ''/metrics'', ''/api/vnets'', ''/api/goal-state'', ''/api/program''}"
proof -
  obtain fs rest where fs: "parse_flags fm_flags args = Inr (fs, rest)"
    using assms by (auto simp: fm_command_def split: sum.splits)
  obtain sl where sl: "fm_NewStructuredLogger (env_build env) (fa_logLevel (fm_args_of fs)) = Inr sl"
    using assms by (auto simp: fm_command_def fs fm_main_def Let_def split: sum.splits)
  have s1: "dm_down s1" "sv_api s1 \<noteq> None" "sv_metricsRegistry s1 \<noteq> None"
    using command_started [OF fs sl, of t0 t1 ws, where ?'f = 'f] assms by (auto simp: Let_def)
  have "list_all snd (hk_services (sv_healthChecker s1)) = False"
    using dm_down_not_ready [OF s1(1)] by (simp add: IsReady_def)
  moreover have "rest_routes s1 = [(''/healthz'', RHealthz), (''/readyz'', RReadyz), (''/metrics'', RMetrics),
      (''/api/vnets'', RListVNETs), (''/api/goal-state'', RGetGoalState), (''/api/program'', RProgramDevice)]"
    using s1(2,3) by (simp add: rest_routes_def)
  ultimately show ?thesis using s1(2) by (auto simp: rest_serve_def HealthzHandler_def ReadyzHandler_def WriteJSON_def Let_def)
qed

section \<open>Command lines\<close>

text \<open>A setting of a flag, and the four notations in which it can be given.\<close>

datatype fm_setting = SConfig string | SLogLevel string | SPort int | SRestPort int

datatype flag_style = OneDash | TwoDashes | OneDashEq | TwoDashesEq

fun setting_name :: "fm_setting \<Rightarrow> string" where
  "setting_name (SConfig c) = ''config''"
| "setting_name (SLogLevel l) = ''log-level''"
| "setting_name (SPort p) = ''port''"
| "setting_name (SRestPort p) = ''rest-port''"

fun setting_value :: "fm_setting \<Rightarrow> string" where
  "setting_value (SConfig c) = c"
| "setting_value (SLogLevel l) = l"
| "setting_value (SPort p) = show_int p"
| "setting_value (SRestPort p) = show_int p"

fun print_setting :: "flag_style \<times> fm_setting \<Rightarrow> string list" where
  "print_setting (OneDash, s) = [''-'' @ setting_name s, setting_value s]"
| "print_setting (TwoDashes, s) = [''--'' @ setting_name s, setting_value s]"
| "print_setting (OneDashEq, s) = [''-'' @ setting_name s @ ''='' @ setting_value s]"
| "print_setting (TwoDashesEq, s) = [''--'' @ setting_name s @ ''='' @ setting_value s]"

fun setting_ok :: "fm_setting \<Rightarrow> bool" where
  "setting_ok (SPort p) = is_i64 p"
| "setting_ok (SRestPort p) = is_i64 p"
| "setting_ok _ = True"

fun apply_setting :: "fm_setting \<Rightarrow> fm_args \<Rightarrow> fm_args" where
  "apply_setting (SConfig c) a = a\<lparr>fa_config := c\<rparr>"
| "apply_setting (SLogLevel l) a = a\<lparr>fa_logLevel := l\<rparr>"
| "apply_setting (SPort p) a = a\<lparr>fa_port := p\<rparr>"
| "apply_setting (SRestPort p) a = a\<lparr>fa_restPort := p\<rparr>"

text \<open>The flags with given values.\<close>

definition flags_of :: "fm_args \<Rightarrow> flags" where
  "flags_of a = [(''config'', FlagString (fa_config a)), (''log-level'', FlagString (fa_logLevel a)), (''port'', FlagInt (fa_port a)),
     (''rest-port'', FlagInt (fa_restPort a))]"

lemma flags_of_args: "fm_args_of (flags_of a) = a"
  by (simp add: fm_args_of_def flags_of_def flag_string_def flag_int_def)

lemma setting_flag:
  "\<exists>old. map_of (flags_of a) (setting_name s) = Some old \<and>
     (if setting_ok s then \<exists>v. set_flag (setting_value s) old = Inr v \<and> AList.update (setting_name s) v (flags_of a) = flags_of (apply_setting s a)
      else set_flag (setting_value s) old = Inl ErrRange)"
  by (cases s) (auto simp: flags_of_def ParseInt_show_int)

lemma parse_setting:
  "parse_flags (flags_of a) (print_setting (style, s) @ rest) =
     (if setting_ok s then parse_flags (flags_of (apply_setting s a)) rest else Inl (FlagInvalid (setting_value s) (setting_name s) ErrRange))"
proof -
  have "plain_name (setting_name s)" by (cases s; simp; code_simp)
  moreover obtain old where "map_of (flags_of a) (setting_name s) = Some old"
    "if setting_ok s then \<exists>v. set_flag (setting_value s) old = Inr v \<and> AList.update (setting_name s) v (flags_of a) = flags_of (apply_setting s a)
     else set_flag (setting_value s) old = Inl ErrRange"
    using setting_flag by blast
  ultimately show ?thesis
    using parse_flag_two [of "setting_name s" "flags_of a" old "setting_value s" _ rest]
      parse_flag_eq [of "setting_name s" "flags_of a" old "setting_value s" _ rest]
      parse_flag_invalid [of "setting_name s" "flags_of a" old "setting_value s" _ rest]
    by (cases style) (auto simp del: parse_flags.simps split: if_splits)
qed

lemma parse_settings:
  "map_sum id (\<lambda>(fs, rest). (fm_args_of fs, rest)) (parse_flags (flags_of a) (concat (map print_setting ss))) =
     (case find (\<lambda>x. \<not> setting_ok (snd x)) ss of
        Some (style, s) \<Rightarrow> Inl (FlagInvalid (setting_value s) (setting_name s) ErrRange)
      | None \<Rightarrow> Inr (fold apply_setting (map snd ss) a, []))"
proof (induction ss arbitrary: a)
  case Nil
  then show ?case by (simp add: flags_of_args)
next
  case (Cons x ss)
  obtain style s where x: "x = (style, s)" by fastforce
  then show ?case using Cons.IH [of "apply_setting s a"] parse_setting [of a style s "concat (map print_setting ss)"]
    by (simp del: parse_flags.simps print_setting.simps cong: option.case_cong)
qed

lemma weaver_command:
  "weaver_main [''-config'', c] =
     ([''Weaver Gateway starting with config: '' @ c, ''TODO: Implement gateway initialization''], 0)"
proof -
  have "plain_name ''config''" by code_simp
  from parse_flag_two(1) [OF this, of weaver_flags "FlagString ''config.yaml''" c "FlagString c" "[]"]
  have "parse_flags weaver_flags [''-config'', c] = Inr ([(''config'', FlagString c)], [])"
    by (simp add: weaver_flags_def del: parse_flags.simps(2))
  then show ?thesis by (simp add: weaver_main_def flag_string_def)
qed

section \<open>Properties\<close>

text \<open>C36: The fabric manager from its command line to its exit. A command line that cannot be parsed ends the process with 2, a request for
  help with 0, and a logger that cannot be made with 1, each with nothing logged or started. Otherwise all services run and stop again, the process
  exits with 0 and runs its deferred calls. Of its log, whatever the handlers of requests and the goroutines of the services log at any time: the
  main goroutine writes all its lines, in order; the gRPC server writes at most one line, as it never fails; the REST server writes at most its start
  and then an error, if listening fails; and neither writes anything before the main goroutine has written the lines of the start-up. Registering the routes
  never panics.\<close>

theorem fm_command_outcome:
  "case parse_flags fm_flags args of
     Inl err \<Rightarrow> fm_command env t0 t1 ws args = Inr (\<lparr>cr_exit = (if err = FlagHelp then 0 else 2), cr_packages = None, cr_started = None,
       cr_stopped = None, cr_log = [], cr_deferred = []\<rparr> :: 'f command_result)
   | Inr (fs, rest) \<Rightarrow>
       (case fm_NewStructuredLogger (env_build env) (fa_logLevel (fm_args_of fs)) of
          Inl err \<Rightarrow> fm_command env t0 t1 ws args = Inr (\<lparr>cr_exit = 1, cr_packages = None, cr_started = None, cr_stopped = None,
            cr_log = [], cr_deferred = []\<rparr> :: 'f command_result)
        | Inr sl \<Rightarrow>
            (\<exists>r s1 s2 early late. fm_command env t0 t1 ws args = Inr (r :: 'f command_result) \<and> cr_exit r = 0 \<and>
               cr_started r = Some s1 \<and> all_running s1 \<and> cr_stopped r = Some s2 \<and> none_running s2 \<and>
               cr_deferred r = deferred_calls (env_sync env) (env_shutdown env) (env_tracing1 env) sl \<and>
               lines_of WMain (cr_log r) = main_lines (env_tracing1 env) @ main_tail \<and>
               prefix (lines_of WGrpc (cr_log r)) [(InfoLevel, ''Starting gRPC server'')] \<and>
               prefix (lines_of WRest (cr_log r)) ((InfoLevel, ''Starting REST server'') #
                 (if env_listen env ('':'' @ show_int (fa_restPort (fm_args_of fs))) (rest_routes s1) \<noteq> None
                  then [(ErrorLevel, ''REST server error'')] else [])) \<and>
               cr_log r = early @ late \<and> lines_of WMain early = main_lines (env_tracing1 env) \<and> no_server early))"
proof (cases "parse_flags fm_flags args")
  case (Inl err)
  then show ?thesis by (simp add: fm_command_def flag_exit_def)
next
  case (Inr x)
  obtain fs rest where x: "x = (fs, rest)" by fastforce
  show ?thesis
  proof (cases "fm_NewStructuredLogger (env_build env) (fa_logLevel (fm_args_of fs))")
    case Err: (Inl err)
    then show ?thesis by (simp add: Inr x fm_command_def fm_main_def Let_def)
  next
    case Ok: (Inr sl)
    let ?m = "main_lines (env_tracing1 env)" and ?rs = "\<lambda>s1. (InfoLevel, ''Starting REST server'') #
      (if env_listen env ('':'' @ show_int (fa_restPort (fm_args_of fs))) (rest_routes s1) \<noteq> None
       then [(ErrorLevel, ''REST server error'')] else [])"
    from command_started [OF Inr [unfolded x] Ok, of t0 t1 ws, where ?'f = 'f]
    obtain r and s1 s2 :: "'f Services" where r: "fm_command env t0 t1 ws args = Inr r" "cr_exit r = 0" "cr_started r = Some s1"
      "cr_stopped r = Some s2" "all_running s1" "none_running s2"
      "cr_deferred r = deferred_calls (env_sync env) (env_shutdown env) (env_tracing1 env) sl"
      and log: "cr_log r = interleave ws (length ?m) (?m @ main_tail) [(InfoLevel, ''Starting gRPC server'')] (?rs s1)"
      by (elim exE conjE) (erule that; simp)
    obtain early late where early: "cr_log r = early @ late" "lines_of WMain early = ?m" "no_server early"
      using interleave_early [of "length ?m" "?m @ main_tail" ws "[(InfoLevel, ''Starting gRPC server'')]" "?rs s1"]
      unfolding log [symmetric] by auto
    have lines: "lines_of WMain (cr_log r) = ?m @ main_tail" "prefix (lines_of WGrpc (cr_log r)) [(InfoLevel, ''Starting gRPC server'')]"
      "prefix (lines_of WRest (cr_log r)) (?rs s1)"
      unfolding log by (rule interleave_main interleave_grpc interleave_rest)+
    show ?thesis unfolding Inr x Ok sum.case prod.case
      by (intro exI [of _ r] exI [of _ s1] exI [of _ s2] exI [of _ early] exI [of _ late] conjI r early lines)
  qed
qed

text \<open>C37: Every command line of the fabric manager is read as it means. For any settings of its four flags, in any order and number, with any strings and
  any integers printed in decimal, each in any of the four notations (one or two dashes, the value after an equality sign or as the next argument):
  the first port that does not fit into 64 bits is refused as out of range, and if there is none, the arguments of the
  program are the last setting of each flag, and \<open>config.yaml\<close>, \<open>info\<close>, 5051 and 8080 for those that were not set.\<close>

theorem fm_flags_roundtrip:
  "map_sum id (\<lambda>(fs, rest). (fm_args_of fs, rest)) (parse_flags fm_flags (concat (map print_setting ss))) =
     (case find (\<lambda>x. \<not> setting_ok (snd x)) ss of
        Some (style, s) \<Rightarrow> Inl (FlagInvalid (setting_value s) (setting_name s) ErrRange)
      | None \<Rightarrow> Inr (fold apply_setting (map snd ss)
          \<lparr>fa_config = ''config.yaml'', fa_logLevel = ''info'', fa_port = 5051, fa_restPort = 8080\<rparr>, []))"
proof -
  have eq: "fm_flags = flags_of \<lparr>fa_config = ''config.yaml'', fa_logLevel = ''info'', fa_port = 5051, fa_restPort = 8080\<rparr>"
    by (simp add: fm_flags_def flags_of_def)
  show ?thesis unfolding eq by (rule parse_settings)
qed

end
