(* ===== verification/FM_Dispatch.thy ===== *)
theory FM_Dispatch
  imports FM_Dal
begin

text \<open>
  Concurrent use of the dispatcher (\<^verbatim>\<open>dispatcher.go\<close> of \<^verbatim>\<open>src/FM/pkg/dal\<close>, with \<^verbatim>\<open>circuit_breaker.go\<close> and \<^verbatim>\<open>retry.go\<close> of
  \<^verbatim>\<open>src/FM/pkg/resilience\<close> as far as they block). The workers of the pool share one dispatcher, so a dispatch is a thread
  here: its position in \<open>Dispatch\<close> and \<open>dispatchWithResilience\<close> is a program counter, and one step is the code between two
  points at which another goroutine can be seen. There are two kinds of locks. The mutex of the dispatcher guards its counters
  and the map of breakers; a step that takes it is atomic, except \<open>ResetCircuitBreaker\<close>, which holds it while it waits for
  the mutex of a breaker. The mutex of a breaker is held by \<open>Call\<close> while the protected function, retries and waits included, runs.
\<close>

section \<open>Threads\<close>

text \<open>
  The program counter of a dispatch. The attempts carry their number, the error of the last one and the variable
  \<open>result\<close>; \<open>DRetry\<close> is the point at which a retryable error is about to be counted.
\<close>

datatype dpc =
    DBreaker
  | DCheck
  | DOpened
  | DCall
  | DRunning nat "string option" "ProgramResult option"
  | DRetry nat string "ProgramResult option"
  | DAttempted nat string "ProgramResult option"
  | DEnding "string option" "ProgramResult option"
  | DSucceeded "ProgramResult option"
  | DFailed string
  | DReturned "string + ProgramResult option"

record dthread =
  th_goal :: PerENIGoalState
  th_vendor :: string
  th_fallbacks :: "string list"
  th_pc :: dpc

text \<open>What a step sees: the clock, the error of the caller's context and that of the programming stage.\<close>

record seen =
  sn_now :: time
  sn_ctx :: "string option"
  sn_stage :: "string option"

fun holds_breaker :: "dpc \<Rightarrow> bool" where
  "holds_breaker (DRunning _ _ _) = True"
| "holds_breaker (DRetry _ _ _) = True"
| "holds_breaker (DAttempted _ _ _) = True"
| "holds_breaker (DEnding _ _) = True"
| "holds_breaker _ = False"

fun takes_breaker :: "dpc \<Rightarrow> bool" where
  "takes_breaker DCheck = True"
| "takes_breaker DCall = True"
| "takes_breaker _ = False"

fun takes_mu :: "dpc \<Rightarrow> bool" where
  "takes_mu DBreaker = True"
| "takes_mu DOpened = True"
| "takes_mu (DRetry _ _ _) = True"
| "takes_mu (DSucceeded _) = True"
| "takes_mu (DFailed _) = True"
| "takes_mu _ = False"

fun returned :: "dpc \<Rightarrow> bool" where
  "returned (DReturned _) = True"
| "returned _ = False"

section \<open>One dispatch, step by step\<close>

definition upd_stats :: "(DispatcherStats \<Rightarrow> DispatcherStats) \<Rightarrow> 's Dispatcher \<Rightarrow> 's Dispatcher" where
  "upd_stats f d = d\<lparr>ds_stats := f (ds_stats d)\<rparr>"

definition vendor_breaker :: "'s Dispatcher \<Rightarrow> string \<Rightarrow> CircuitBreaker" where
  "vendor_breaker d vendor =
     (case ds_circuitBreakers d vendor of Some cb \<Rightarrow> cb | None \<Rightarrow> NewCircuitBreaker 5 2 (30 * Second))"

definition set_breaker :: "string \<Rightarrow> CircuitBreaker \<Rightarrow> 's Dispatcher \<Rightarrow> 's Dispatcher" where
  "set_breaker vendor cb d = d\<lparr>ds_circuitBreakers := (ds_circuitBreakers d)(vendor \<mapsto> cb)\<rparr>"

text \<open>\<open>Dispatch\<close> up to its call of \<open>dispatchWithResilience\<close>: an error at once, or a thread.\<close>

definition dispatch_enter ::
  "string option \<Rightarrow> PerENIGoalState option \<Rightarrow> 's Dispatcher \<Rightarrow> (string + dthread) \<times> 's Dispatcher"
where
  "dispatch_enter ctxErr goal d =
     (case ctxErr of
        Some e \<Rightarrow> (Inl (''dispatch cancelled: '' @ e), d)
      | None \<Rightarrow>
          (case goal of
             None \<Rightarrow> (Inl ''goal state required'', d)
           | Some g \<Rightarrow>
               (Inr \<lparr>th_goal = g, th_vendor = ''Custom'',
                     th_fallbacks = (case ds_vendorFallbacks d ''Custom'' of Some fs \<Rightarrow> fs | None \<Rightarrow> []),
                     th_pc = DBreaker\<rparr>,
                upd_stats (\<lambda>st. st\<lparr>dst_GoalsDispatched := i64 (dst_GoalsDispatched st + 1)\<rparr>) d)))"

text \<open>
  One round of the retry loop up to the end of the attempt: the check of the context, the lookup and the call of the
  plugin. A retryable error is counted in a step of its own.
\<close>

definition try_once ::
  "seen \<Rightarrow> string \<Rightarrow> PerENIGoalState \<Rightarrow> nat \<Rightarrow> string option \<Rightarrow> ProgramResult option \<Rightarrow> 's Dispatcher \<Rightarrow> 's \<Rightarrow> dpc \<times> 's"
where
  "try_once x vendor goal attempt lastErr result d s =
     (if int attempt \<le> rp_MaxRetries (ds_retryPolicy d) then
        case sn_ctx x of
          Some e \<Rightarrow> (DEnding (retry_error (RetryCancelled e)) result, s)
        | None \<Rightarrow>
            (case pr_Get (ds_registry d) vendor of
               Inl lookupErr \<Rightarrow> (DAttempted attempt (''vendor plugin lookup failed: '' @ lookupErr) result, s)
             | Inr plugin \<Rightarrow>
                 (case pg_Program plugin (sn_stage x) goal s of
                    (Inl programErr, s') \<Rightarrow>
                      (if IsRetryable (Some programErr) then DRetry attempt programErr None
                       else DAttempted attempt programErr None, s')
                  | (Inr r, s') \<Rightarrow>
                      (if \<not> pr_Success r then DAttempted attempt (''programming failed: '' @ pr_Error r) (Some r)
                       else DEnding None (Some r), s')))
      else (DEnding (retry_error (RetryExhausted lastErr)) result, s))"

fun step_pc :: "seen \<Rightarrow> dthread \<Rightarrow> dpc \<Rightarrow> 's Dispatcher \<Rightarrow> 's \<Rightarrow> dthread \<times> 's Dispatcher \<times> 's" where
  "step_pc x th DBreaker d s =
     (th\<lparr>th_pc := DCheck\<rparr>, set_breaker (th_vendor th) (vendor_breaker d (th_vendor th)) d, s)"
| "step_pc x th DCheck d s =
     (th\<lparr>th_pc := if cb_State (vendor_breaker d (th_vendor th)) = StateOpen then DOpened else DCall\<rparr>, d, s)"
| "step_pc x th DOpened d s =
     (th\<lparr>th_pc := DFailed (''circuit breaker open for vendor '' @ th_vendor th)\<rparr>,
      upd_stats (\<lambda>st. st\<lparr>dst_CircuitOpenCount := i64 (dst_CircuitOpenCount st + 1)\<rparr>) d, s)"
| "step_pc x th DCall d s =
     (let (allowed, cb) = cb_admit (sn_now x) (vendor_breaker d (th_vendor th))
      in (th\<lparr>th_pc := if allowed then DRunning 0 None None else DFailed open_error\<rparr>,
          set_breaker (th_vendor th) cb d, s))"
| "step_pc x th (DRunning attempt lastErr result) d s =
     (let (pc, s') = try_once x (th_vendor th) (th_goal th) attempt lastErr result d s
      in (th\<lparr>th_pc := pc\<rparr>, d, s'))"
| "step_pc x th (DRetry attempt err result) d s =
     (th\<lparr>th_pc := DAttempted attempt err result\<rparr>,
      upd_stats (\<lambda>st. st\<lparr>dst_RetryCount := i64 (dst_RetryCount st + 1)\<rparr>) d, s)"
| "step_pc x th (DAttempted attempt err result) d s =
     (th\<lparr>th_pc :=
        (case (if int attempt < rp_MaxRetries (ds_retryPolicy d) then sn_ctx x else None) of
           Some e \<Rightarrow> DEnding (retry_error (RetryCancelled e)) result
         | None \<Rightarrow> DRunning (Suc attempt) (Some err) result)\<rparr>, d, s)"
| "step_pc x th (DEnding err result) d s =
     (let cb = vendor_breaker d (th_vendor th)
      in case err of
           Some e \<Rightarrow> (th\<lparr>th_pc := DFailed e\<rparr>, set_breaker (th_vendor th) (recordFailure (sn_now x) cb) d, s)
         | None \<Rightarrow> (th\<lparr>th_pc := DSucceeded result\<rparr>, set_breaker (th_vendor th) (recordSuccess cb) d, s))"
| "step_pc x th (DSucceeded result) d s =
     (th\<lparr>th_pc := DReturned (Inr result)\<rparr>,
      upd_stats (\<lambda>st. st\<lparr>dst_SuccessCount := i64 (dst_SuccessCount st + 1)\<rparr>) d, s)"
| "step_pc x th (DFailed err) d s =
     (case th_fallbacks th of
        f # fs \<Rightarrow>
          (th\<lparr>th_vendor := f, th_fallbacks := fs, th_pc := DBreaker\<rparr>,
           upd_stats (\<lambda>st. st\<lparr>dst_FallbackActivated := i64 (dst_FallbackActivated st + 1)\<rparr>) d, s)
      | [] \<Rightarrow>
          (th\<lparr>th_pc := DReturned (Inl err)\<rparr>,
           upd_stats (\<lambda>st. st\<lparr>dst_FailureCount := i64 (dst_FailureCount st + 1)\<rparr>) d, s))"
| "step_pc x th (DReturned outcome) d s = (th, d, s)"

section \<open>All dispatches of one dispatcher\<close>

text \<open>
  The shared dispatcher, the devices, the dispatches in the order in which they were entered, the errors of those that
  returned at once, and the vendor whose breaker a reset is about to reset while it holds the dispatcher's mutex.
\<close>

record 's dsys =
  dy_d :: "'s Dispatcher"
  dy_s :: 's
  dy_threads :: "dthread list"
  dy_rejected :: "string list"
  dy_reset :: "string option"

definition new_dsys :: "'s PluginRegistry \<Rightarrow> 's \<Rightarrow> 's dsys" where
  "new_dsys registry s =
     \<lparr>dy_d = NewPluginDispatcher registry, dy_s = s, dy_threads = [], dy_rejected = [], dy_reset = None\<rparr>"

definition breaker_free :: "string \<Rightarrow> 's dsys \<Rightarrow> bool" where
  "breaker_free vendor y \<longleftrightarrow> (\<forall>th \<in> set (dy_threads y). th_vendor th = vendor \<longrightarrow> \<not> holds_breaker (th_pc th))"

definition can_step :: "dthread \<Rightarrow> 's dsys \<Rightarrow> bool" where
  "can_step th y \<longleftrightarrow> \<not> returned (th_pc th) \<and> (takes_mu (th_pc th) \<longrightarrow> dy_reset y = None) \<and>
     (takes_breaker (th_pc th) \<longrightarrow> breaker_free (th_vendor th) y)"

datatype dact =
    DEnter "string option" "PerENIGoalState option"
  | DStep nat seen
  | DReset string
  | DResetDone

fun dy_act :: "dact \<Rightarrow> 's dsys \<Rightarrow> 's dsys option" where
  "dy_act (DEnter ctxErr goal) y =
     (case dispatch_enter ctxErr goal (dy_d y) of
        (Inl e, d) \<Rightarrow> Some (y\<lparr>dy_rejected := dy_rejected y @ [e]\<rparr>)
      | (Inr th, d) \<Rightarrow>
          if dy_reset y = None then Some (y\<lparr>dy_d := d, dy_threads := dy_threads y @ [th]\<rparr>) else None)"
| "dy_act (DStep i x) y =
     (if i < length (dy_threads y) \<and> can_step (dy_threads y ! i) y
      then let (th, d, s) = step_pc x (dy_threads y ! i) (th_pc (dy_threads y ! i)) (dy_d y) (dy_s y)
           in Some (y\<lparr>dy_d := d, dy_s := s, dy_threads := (dy_threads y)[i := th]\<rparr>)
      else None)"
| "dy_act (DReset vendor) y =
     (if dy_reset y = None
      then Some (if ds_circuitBreakers (dy_d y) vendor = None then y else y\<lparr>dy_reset := Some vendor\<rparr>)
      else None)"
| "dy_act DResetDone y =
     (case dy_reset y of
        None \<Rightarrow> None
      | Some vendor \<Rightarrow>
          if breaker_free vendor y
          then Some (y\<lparr>dy_d := set_breaker vendor (cb_Reset (vendor_breaker (dy_d y) vendor)) (dy_d y), dy_reset := None\<rparr>)
          else None)"

fun dy_run :: "dact list \<Rightarrow> 's dsys \<Rightarrow> 's dsys option" where
  "dy_run [] y = Some y"
| "dy_run (a # as) y = (case dy_act a y of None \<Rightarrow> None | Some y' \<Rightarrow> dy_run as y')"

inductive dy_reach :: "'s PluginRegistry \<Rightarrow> 's \<Rightarrow> dact list \<Rightarrow> 's dsys \<Rightarrow> bool" for registry s where
  dy_init: "dy_reach registry s [] (new_dsys registry s)"
| dy_next: "dy_reach registry s as y \<Longrightarrow> dy_act a y = Some y' \<Longrightarrow> dy_reach registry s (as @ [a]) y'"

section \<open>What a step keeps and counts\<close>

fun is_step :: "dact \<Rightarrow> bool" where
  "is_step (DStep i x) = True"
| "is_step _ = False"

fun is_reset :: "dact \<Rightarrow> bool" where
  "is_reset (DReset v) = True"
| "is_reset _ = False"

text \<open>The steps a dispatch of the default dispatcher has left at most, and the calls of the plugin.\<close>

fun steps_left :: "dpc \<Rightarrow> nat" where
  "steps_left DBreaker = 18"
| "steps_left DCheck = 17"
| "steps_left DCall = 16"
| "steps_left (DRunning a _ _) = 3 + 3 * (4 - a)"
| "steps_left (DRetry a _ _) = 5 + 3 * (4 - Suc a)"
| "steps_left (DAttempted a _ _) = 4 + 3 * (4 - Suc a)"
| "steps_left (DEnding _ _) = 2"
| "steps_left DOpened = 2"
| "steps_left (DSucceeded _) = 1"
| "steps_left (DFailed _) = 1"
| "steps_left (DReturned _) = 0"

fun runs_left :: "dpc \<Rightarrow> nat" where
  "runs_left DBreaker = 4"
| "runs_left DCheck = 4"
| "runs_left DCall = 4"
| "runs_left (DRunning a _ _) = 4 - a"
| "runs_left (DRetry a _ _) = 4 - Suc a"
| "runs_left (DAttempted a _ _) = 4 - Suc a"
| "runs_left _ = 0"

definition in_flight :: "'s dsys \<Rightarrow> nat" where
  "in_flight y = length (filter (\<lambda>th. \<not> returned (th_pc th)) (dy_threads y))"

definition in_breaker :: "'s dsys \<Rightarrow> nat" where
  "in_breaker y = length (filter (\<lambda>th. holds_breaker (th_pc th)) (dy_threads y))"

lemmas step_pc_defs = upd_stats_def set_breaker_def try_once_def Let_def

lemma step_pc_frame:
  assumes "step_pc x th pc d s = (th', d', s')"
  shows "ds_registry d' = ds_registry d" "ds_vendorFallbacks d' = ds_vendorFallbacks d"
    "ds_retryPolicy d' = ds_retryPolicy d" "th_goal th' = th_goal th"
    "dst_GoalsDispatched (ds_stats d') = dst_GoalsDispatched (ds_stats d)"
  using assms by (cases pc; auto simp: step_pc_defs split: prod.splits option.splits list.splits)+

lemma step_pc_custom:
  assumes "step_pc x th (th_pc th) d s = (th', d', s')" "th_fallbacks th = []"
  shows "th_vendor th' = th_vendor th" "th_fallbacks th' = []"
  using assms by (cases "th_pc th"; auto simp: step_pc_defs split: prod.splits option.splits)+

lemma step_pc_counters:
  assumes "step_pc x th (th_pc th) d s = (th', d', s')" "th_fallbacks th = []" "\<not> returned (th_pc th)"
  shows "i64 (dst_SuccessCount (ds_stats d') + dst_FailureCount (ds_stats d') + n) =
    i64 (dst_SuccessCount (ds_stats d) + dst_FailureCount (ds_stats d) + n + (if returned (th_pc th') then 1 else 0))"
  using assms
  by (cases "th_pc th")
    (auto simp: step_pc_defs algebra_simps split: prod.splits option.splits if_splits sum.splits)

lemma step_pc_measure:
  assumes "step_pc x th (th_pc th) d s = (th', d', s')" "th_fallbacks th = []" "\<not> returned (th_pc th)"
    "rp_MaxRetries (ds_retryPolicy d) = 3"
  shows "steps_left (th_pc th') < steps_left (th_pc th)"
  using assms
  by (cases "th_pc th")
    (auto simp: step_pc_defs split: prod.splits option.splits if_splits sum.splits)

lemma step_pc_runs:
  assumes "step_pc x th (th_pc th) d s = (th', d', s')" "th_fallbacks th = []"
    "rp_MaxRetries (ds_retryPolicy d) = 3"
    "\<And>p e g s. ds_registry d (th_vendor th) = Some p \<Longrightarrow> runs (snd (pg_Program p e g s)) \<le> runs s + (1::nat)"
  shows "runs s' + runs_left (th_pc th') \<le> runs s + runs_left (th_pc th)"
proof (cases "th_pc th")
  case (DRunning a l r)
  have "runs q \<le> runs s + 1" if "pr_Get (ds_registry d) (th_vendor th) = Inr p" "pg_Program p e g s = (z, q)" for p e g q z
    using assms(4) [of p e g s] that by (auto simp: pr_Get_def split: if_splits option.splits)
  then show ?thesis using assms DRunning
    by (fastforce simp: step_pc_defs split: prod.splits option.splits if_splits sum.splits)
qed (use assms in \<open>auto simp: step_pc_defs split: prod.splits option.splits if_splits sum.splits\<close>)

section \<open>The invariant of the threads\<close>

definition dy_inv :: "'s dsys \<Rightarrow> bool" where
  "dy_inv y \<longleftrightarrow>
     ds_vendorFallbacks (dy_d y) ''Custom'' = Some [] \<and> rp_MaxRetries (ds_retryPolicy (dy_d y)) = 3 \<and>
     (\<forall>th \<in> set (dy_threads y). th_vendor th = ''Custom'' \<and> th_fallbacks th = []) \<and> in_breaker y \<le> 1 \<and>
     dst_GoalsDispatched (ds_stats (dy_d y)) =
       i64 (dst_SuccessCount (ds_stats (dy_d y)) + dst_FailureCount (ds_stats (dy_d y)) + int (in_flight y))"

lemma dy_inv_thread:
  assumes "dy_inv y" "i < length (dy_threads y)"
  shows "th_vendor (dy_threads y ! i) = ''Custom''" "th_fallbacks (dy_threads y ! i) = []"
  using assms by (auto simp: dy_inv_def)

lemma breaker_free_iff: "dy_inv y \<Longrightarrow> breaker_free ''Custom'' y \<longleftrightarrow> in_breaker y = 0"
  by (auto simp: dy_inv_def breaker_free_def in_breaker_def filter_empty_conv)

text \<open>A dispatch that enters, or takes a step; what the action did.\<close>

lemma dy_act_enter:
  assumes "dy_act (DEnter e g) y = Some y'"
  obtains "y' = y\<lparr>dy_rejected := dy_rejected y'\<rparr>"
  | goal where "e = None" "g = Some goal" "dy_reset y = None" "dispatch_enter e g (dy_d y) = (Inr (last (dy_threads y')), dy_d y')"
    "y' = y\<lparr>dy_d := upd_stats (\<lambda>st. st\<lparr>dst_GoalsDispatched := i64 (dst_GoalsDispatched st + 1)\<rparr>) (dy_d y),
      dy_threads := dy_threads y @ [\<lparr>th_goal = goal, th_vendor = ''Custom'',
        th_fallbacks = (case ds_vendorFallbacks (dy_d y) ''Custom'' of Some fs \<Rightarrow> fs | None \<Rightarrow> []), th_pc = DBreaker\<rparr>]\<rparr>"
  using assms by (cases e; cases g) (auto simp: dispatch_enter_def split: if_splits)

lemma dy_act_step:
  assumes "dy_act (DStep i x) y = Some y'"
  obtains th d s where "i < length (dy_threads y)" "can_step (dy_threads y ! i) y"
    "step_pc x (dy_threads y ! i) (th_pc (dy_threads y ! i)) (dy_d y) (dy_s y) = (th, d, s)"
    "y' = y\<lparr>dy_d := d, dy_s := s, dy_threads := (dy_threads y)[i := th]\<rparr>"
  using assms by (auto split: if_splits prod.splits)

lemma can_step_act:
  "i < length (dy_threads y) \<Longrightarrow> can_step (dy_threads y ! i) y \<Longrightarrow> \<exists>y'. dy_act (DStep i x) y = Some y'"
  by (simp split: prod.splits)

text \<open>Only the step that calls the breaker enters it.\<close>

lemma step_pc_holds:
  assumes "step_pc x th (th_pc th) d s = (th', d', s')" "holds_breaker (th_pc th')"
  shows "holds_breaker (th_pc th) \<or> th_pc th = DCall"
  using assms by (cases "th_pc th") (auto simp: step_pc_defs split: prod.splits option.splits list.splits if_splits)

lemma dy_inv_step:
  assumes inv: "dy_inv y" and act: "dy_act (DStep i x) y = Some y'"
  shows "dy_inv y'"
proof -
  from act obtain th d s where *: "i < length (dy_threads y)" "can_step (dy_threads y ! i) y"
    "step_pc x (dy_threads y ! i) (th_pc (dy_threads y ! i)) (dy_d y) (dy_s y) = (th, d, s)"
    "y' = y\<lparr>dy_d := d, dy_s := s, dy_threads := (dy_threads y)[i := th]\<rparr>" by (rule dy_act_step)
  note th = dy_inv_thread [OF inv *(1)]
  have nr: "\<not> returned (th_pc (dy_threads y ! i))" using *(2) by (simp add: can_step_def)
  have fl: "int (in_flight y) = int (in_flight y') + (if returned (th_pc th) then 1 else 0)"
    using filter_update_length [OF *(1), of "\<lambda>th. \<not> returned (th_pc th)" th] nr *(4)
    by (simp add: in_flight_def split: if_splits)
  have br: "in_breaker y' + (if holds_breaker (th_pc (dy_threads y ! i)) then 1 else 0) =
      in_breaker y + (if holds_breaker (th_pc th) then 1 else 0)"
    using filter_update_length [OF *(1), of "\<lambda>th. holds_breaker (th_pc th)" th] *(4) by (simp add: in_breaker_def)
  have "in_breaker y = 0" if "th_pc (dy_threads y ! i) = DCall"
    using *(2) that th(1) breaker_free_iff [OF inv] by (simp add: can_step_def)
  then have "in_breaker y' \<le> 1"
    using br step_pc_holds [OF *(3)] inv by (auto simp: dy_inv_def split: if_splits)
  moreover have "dst_GoalsDispatched (ds_stats d) =
      i64 (dst_SuccessCount (ds_stats d) + dst_FailureCount (ds_stats d) + int (in_flight y'))"
    using step_pc_counters [OF *(3) th(2) nr, of "int (in_flight y')"] step_pc_frame(5) [OF *(3)] inv
    by (simp add: dy_inv_def fl add.assoc)
  ultimately show ?thesis
    using inv *(4) step_pc_frame [OF *(3)] step_pc_custom [OF *(3) th(2)] th(1)
    by (auto simp: dy_inv_def dest!: set_update_subset_insert [THEN subsetD])
qed

lemma dy_inv_act: "dy_inv y \<Longrightarrow> dy_act a y = Some y' \<Longrightarrow> dy_inv y'"
proof (cases a)
  case (DEnter e g)
  assume inv: "dy_inv y" and "dy_act a y = Some y'"
  then have "dy_act (DEnter e g) y = Some y'" using DEnter by simp
  then show ?thesis
  proof (cases rule: dy_act_enter)
    case 1
    have "in_breaker y' = in_breaker y" "in_flight y' = in_flight y" "dy_d y' = dy_d y" "dy_threads y' = dy_threads y"
      by (subst 1, simp add: in_breaker_def in_flight_def)+
    with inv show ?thesis by (simp add: dy_inv_def)
  next
    case (2 goal)
    then show ?thesis
      using inv by (auto simp: dy_inv_def in_breaker_def in_flight_def upd_stats_def algebra_simps)
  qed
next
  case (DStep i x)
  assume "dy_inv y" "dy_act a y = Some y'"
  with DStep dy_inv_step show ?thesis by blast
next
  case (DReset v)
  assume "dy_inv y" "dy_act a y = Some y'"
  with DReset show ?thesis by (auto simp: dy_inv_def in_breaker_def in_flight_def split: if_splits)
next
  case DResetDone
  assume "dy_inv y" "dy_act a y = Some y'"
  with DResetDone show ?thesis
    by (auto simp: dy_inv_def in_breaker_def in_flight_def set_breaker_def split: option.splits if_splits)
qed

lemma dy_reach_inv: "dy_reach registry s as y \<Longrightarrow> dy_inv y"
proof (induction rule: dy_reach.induct)
  case dy_init
  show ?case
    by (simp add: dy_inv_def new_dsys_def NewPluginDispatcher_def DefaultRetryPolicy_def in_breaker_def in_flight_def i64_def)
qed (rule dy_inv_act)

lemma dy_run_reach: "dy_run bs y = Some z \<Longrightarrow> dy_reach registry s as y \<Longrightarrow> dy_reach registry s (as @ bs) z"
proof (induction bs arbitrary: as y)
  case (Cons b bs)
  then obtain y' where y': "dy_act b y = Some y'" "dy_run bs y' = Some z" by (auto split: option.splits)
  with Cons.IH [OF y'(2) dy_next [OF Cons.prems(2) y'(1)]] show ?case by simp
qed simp

lemma dy_run_init: "dy_run as (new_dsys registry s) = Some y \<Longrightarrow> dy_reach registry s as y"
  using dy_run_reach [OF _ dy_init] by fastforce

section \<open>Progress\<close>

definition total_left :: "(dpc \<Rightarrow> nat) \<Rightarrow> 's dsys \<Rightarrow> nat" where
  "total_left f y = sum_list (map (\<lambda>th. f (th_pc th)) (dy_threads y))"

lemma dy_step_less:
  assumes inv: "dy_inv y" and act: "dy_act (DStep i x) y = Some y'"
  shows "total_left steps_left y' < total_left steps_left y \<and> length (dy_threads y') = length (dy_threads y) \<and>
    dy_reset y' = dy_reset y"
proof -
  from act obtain th d s where *: "i < length (dy_threads y)" "can_step (dy_threads y ! i) y"
    "step_pc x (dy_threads y ! i) (th_pc (dy_threads y ! i)) (dy_d y) (dy_s y) = (th, d, s)"
    "y' = y\<lparr>dy_d := d, dy_s := s, dy_threads := (dy_threads y)[i := th]\<rparr>" by (rule dy_act_step)
  have "steps_left (th_pc th) < steps_left (th_pc (dy_threads y ! i))"
    using step_pc_measure [OF *(3)] dy_inv_thread [OF inv *(1)] *(2) inv by (simp add: can_step_def dy_inv_def)
  then show ?thesis
    using sum_list_map_update [OF *(1), of "\<lambda>th. steps_left (th_pc th)" th] *(4) by (simp add: total_left_def)
qed

lemma dy_reach_steps:
  "dy_reach registry s as y \<Longrightarrow> length (filter is_step as) + total_left steps_left y \<le> 18 * length (dy_threads y)"
proof (induction rule: dy_reach.induct)
  case dy_init
  show ?case by (simp add: new_dsys_def total_left_def)
next
  case (dy_next as y a y')
  note inv = dy_reach_inv [OF dy_next.hyps(1)]
  show ?case
  proof (cases a)
    case (DEnter e g)
    then have "dy_act (DEnter e g) y = Some y'" using dy_next.hyps by simp
    then show ?thesis
    proof (cases rule: dy_act_enter)
      case 1
      have "dy_threads y' = dy_threads y" by (subst 1) simp
      with dy_next.IH DEnter show ?thesis by (simp add: total_left_def)
    qed (use dy_next.IH DEnter in \<open>simp add: total_left_def\<close>)
  next
    case (DStep i x)
    with dy_next.hyps dy_step_less [OF inv, of i x y'] dy_next.IH show ?thesis by simp
  qed (use dy_next in \<open>auto simp: total_left_def split: if_splits option.splits\<close>)
qed

text \<open>While no reset holds the dispatcher's mutex, the thread in the breaker, or any other if there is none, can go on.\<close>

lemma dy_progress:
  assumes inv: "dy_inv y" and nr: "dy_reset y = None" and fl: "0 < in_flight y"
  obtains i where "i < length (dy_threads y)" "can_step (dy_threads y ! i) y"
proof (cases "in_breaker y = 0")
  case True
  from fl obtain i where "i < length (dy_threads y)" "\<not> returned (th_pc (dy_threads y ! i))"
    by (auto simp: in_flight_def filter_empty_conv in_set_conv_nth)
  then show thesis using that [of i] True dy_inv_thread [OF inv] breaker_free_iff [OF inv] nr
    by (simp add: can_step_def)
next
  case False
  then obtain i where i: "i < length (dy_threads y)" "holds_breaker (th_pc (dy_threads y ! i))"
    by (auto simp: in_breaker_def filter_empty_conv in_set_conv_nth)
  then have "\<not> returned (th_pc (dy_threads y ! i)) \<and> \<not> takes_breaker (th_pc (dy_threads y ! i))"
    by (cases "th_pc (dy_threads y ! i)") simp_all
  then show thesis using that [of i] i nr by (simp add: can_step_def)
qed

lemma dy_finish:
  assumes "dy_inv y" "dy_reset y = None"
  shows "\<exists>bs z. dy_run bs y = Some z \<and> (\<forall>b \<in> set bs. is_step b) \<and> in_flight z = 0 \<and> length (dy_threads z) = length (dy_threads y)"
  using assms
proof (induction "total_left steps_left y" arbitrary: y rule: less_induct)
  case less
  show ?case
  proof (cases "in_flight y = 0")
    case True
    then show ?thesis by (intro exI [of _ "[]"]) auto
  next
    case False
    then obtain i where i: "i < length (dy_threads y)" "can_step (dy_threads y ! i) y"
      using dy_progress [OF less.prems] by auto
    obtain x :: seen where True by blast
    obtain th d s where st: "step_pc x (dy_threads y ! i) (th_pc (dy_threads y ! i)) (dy_d y) (dy_s y) = (th, d, s)"
      by (metis prod.exhaust)
    let ?y = "y\<lparr>dy_d := d, dy_s := s, dy_threads := (dy_threads y)[i := th]\<rparr>"
    have act: "dy_act (DStep i x) y = Some ?y" using i st by simp
    from less.hyps [OF _ dy_inv_act [OF less.prems(1) act]] less.prems(2) dy_step_less [OF less.prems(1) act]
    obtain bs z where "dy_run bs ?y = Some z" "\<forall>b \<in> set bs. is_step b" "in_flight z = 0" "length (dy_threads z) = length (dy_threads y)"
      by auto
    with act show ?thesis by (intro exI [of _ "DStep i x # bs"] exI [of _ z]) simp
  qed
qed

section \<open>An open breaker\<close>

text \<open>The dispatches that have passed the check of the breaker's state and have not failed since.\<close>

fun committed :: "dpc \<Rightarrow> bool" where
  "committed DCall = True"
| "committed (DSucceeded _) = True"
| "committed pc = holds_breaker pc"

fun succeeded :: "dpc \<Rightarrow> bool" where
  "succeeded (DReturned (Inr _)) = True"
| "succeeded _ = False"

definition shut_off :: "CircuitBreaker \<Rightarrow> 's dsys \<Rightarrow> bool" where
  "shut_off cb y \<longleftrightarrow> dy_inv y \<and> dy_reset y = None \<and> ds_circuitBreakers (dy_d y) ''Custom'' = Some cb \<and>
     (\<forall>th \<in> set (dy_threads y). \<not> committed (th_pc th))"

lemma step_pc_shut:
  assumes "step_pc x th (th_pc th) d s = (th', d', s')" "th_vendor th = ''Custom''" "th_fallbacks th = []"
    "ds_circuitBreakers d ''Custom'' = Some cb" "cb_State cb = StateOpen" "\<not> committed (th_pc th)"
  shows "\<not> committed (th_pc th') \<and> s' = s \<and> ds_circuitBreakers d' ''Custom'' = Some cb \<and>
    (succeeded (th_pc th') \<longrightarrow> succeeded (th_pc th))"
  using assms by (cases "th_pc th") (auto simp: step_pc_defs vendor_breaker_def)

lemma shut_off_act:
  assumes sh: "shut_off cb y" and op: "cb_State cb = StateOpen" and act: "dy_act a y = Some y'" and nr: "\<not> is_reset a"
  shows "shut_off cb y' \<and> dy_s y' = dy_s y \<and> length (dy_threads y) \<le> length (dy_threads y') \<and>
    (\<forall>i < length (dy_threads y'). succeeded (th_pc (dy_threads y' ! i)) \<longrightarrow>
       i < length (dy_threads y) \<and> succeeded (th_pc (dy_threads y ! i)))"
proof -
  have inv: "dy_inv y" "dy_inv y'" using sh dy_inv_act [OF _ act] by (auto simp: shut_off_def)
  show ?thesis
  proof (cases a)
    case (DEnter e g)
    with act have "dy_act (DEnter e g) y = Some y'" by simp
    then show ?thesis
    proof (cases rule: dy_act_enter)
      case 1
      have "dy_threads y' = dy_threads y" "dy_d y' = dy_d y" "dy_s y' = dy_s y" "dy_reset y' = dy_reset y"
        by (subst 1, simp)+
      with sh inv show ?thesis by (simp add: shut_off_def)
    next
      case (2 goal)
      with sh inv show ?thesis by (auto simp: shut_off_def upd_stats_def nth_append less_Suc_eq)
    qed
  next
    case (DStep i x)
    with act have "dy_act (DStep i x) y = Some y'" by simp
    then obtain th d s where *: "i < length (dy_threads y)" "can_step (dy_threads y ! i) y"
      "step_pc x (dy_threads y ! i) (th_pc (dy_threads y ! i)) (dy_d y) (dy_s y) = (th, d, s)"
      "y' = y\<lparr>dy_d := d, dy_s := s, dy_threads := (dy_threads y)[i := th]\<rparr>" by (rule dy_act_step)
    have "\<not> committed (th_pc th) \<and> s = dy_s y \<and> ds_circuitBreakers d ''Custom'' = Some cb \<and>
        (succeeded (th_pc th) \<longrightarrow> succeeded (th_pc (dy_threads y ! i)))"
      using step_pc_shut [OF *(3) dy_inv_thread [OF inv(1) *(1)] _ op] sh *(1) by (simp add: shut_off_def)
    with * sh inv show ?thesis
      by (auto simp: shut_off_def nth_list_update dest!: set_update_subset_insert [THEN subsetD])
  qed (use act nr sh in \<open>auto simp: shut_off_def\<close>)
qed

lemma shut_off_run:
  "shut_off cb y \<Longrightarrow> cb_State cb = StateOpen \<Longrightarrow> dy_run bs y = Some y' \<Longrightarrow> \<forall>b \<in> set bs. \<not> is_reset b \<Longrightarrow>
   shut_off cb y' \<and> dy_s y' = dy_s y \<and>
   (\<forall>i < length (dy_threads y'). succeeded (th_pc (dy_threads y' ! i)) \<longrightarrow>
      i < length (dy_threads y) \<and> succeeded (th_pc (dy_threads y ! i)))"
proof (induction bs arbitrary: y)
  case (Cons b bs)
  then obtain z where z: "dy_act b y = Some z" "dy_run bs z = Some y'" by (auto split: option.splits)
  with shut_off_act [OF Cons.prems(1,2) z(1)] Cons.prems Cons.IH [OF _ _ z(2)] show ?case by fastforce
qed simp

section \<open>Calls of the plugin\<close>

lemma dy_reach_runs:
  assumes "\<And>p e g s. registry ''Custom'' = Some p \<Longrightarrow> runs (snd (pg_Program p e g s)) \<le> runs s + (1::nat)"
  shows "dy_reach registry s as y \<Longrightarrow>
    ds_registry (dy_d y) = registry \<and> runs (dy_s y) + total_left runs_left y \<le> runs s + 4 * length (dy_threads y)"
proof (induction rule: dy_reach.induct)
  case dy_init
  show ?case by (simp add: new_dsys_def NewPluginDispatcher_def total_left_def)
next
  case (dy_next as y a y')
  note inv = dy_reach_inv [OF dy_next.hyps(1)]
  show ?case
  proof (cases a)
    case (DEnter e g)
    then have "dy_act (DEnter e g) y = Some y'" using dy_next.hyps by simp
    then show ?thesis
    proof (cases rule: dy_act_enter)
      case 1
      have "dy_threads y' = dy_threads y" "dy_d y' = dy_d y" "dy_s y' = dy_s y" by (subst 1, simp)+
      with dy_next.IH show ?thesis by (simp add: total_left_def)
    qed (use dy_next.IH in \<open>simp add: total_left_def upd_stats_def\<close>)
  next
    case (DStep i x)
    with dy_next.hyps have "dy_act (DStep i x) y = Some y'" by simp
    then obtain th d s2 where *: "i < length (dy_threads y)" "can_step (dy_threads y ! i) y"
      "step_pc x (dy_threads y ! i) (th_pc (dy_threads y ! i)) (dy_d y) (dy_s y) = (th, d, s2)"
      "y' = y\<lparr>dy_d := d, dy_s := s2, dy_threads := (dy_threads y)[i := th]\<rparr>" by (rule dy_act_step)
    have "runs s2 + runs_left (th_pc th) \<le> runs (dy_s y) + runs_left (th_pc (dy_threads y ! i))"
      using step_pc_runs [OF *(3), of runs] dy_inv_thread [OF inv *(1)] inv dy_next.IH assms by (simp add: dy_inv_def)
    then show ?thesis
      using sum_list_map_update [OF *(1), of "\<lambda>th. runs_left (th_pc th)" th] *(4) dy_next.IH step_pc_frame(1) [OF *(3)]
      by (simp add: total_left_def)
  qed (use dy_next in \<open>auto simp: total_left_def set_breaker_def split: if_splits option.splits\<close>)
qed

section \<open>A reset that waits for a dispatch\<close>

text \<open>A dispatch in the breaker and a reset of the breaker wait for each other.\<close>

definition deadlocked :: "'s dsys \<Rightarrow> bool" where
  "deadlocked y \<longleftrightarrow> dy_inv y \<and> dy_reset y = Some ''Custom'' \<and>
     (\<exists>th \<in> set (dy_threads y). (\<exists>a e r. th_pc th = DRetry a e r))"

lemma filter_two:
  assumes "i < j" "j < length xs" "P (xs ! i)" "P (xs ! j)"
  shows "2 \<le> length (filter P xs)"
proof -
  have "xs ! i \<in> set (take j xs)" using assms(1,2) by (auto simp: in_set_conv_nth)
  with assms(3) have "filter P (take j xs) \<noteq> []" by (auto simp: filter_empty_conv)
  then have "Suc 0 \<le> length (filter P (take j xs))" by (simp add: Suc_leI)
  then show ?thesis using assms by (subst id_take_nth_drop [OF assms(2)]) simp
qed

lemma deadlocked_act:
  assumes dl: "deadlocked y" and act: "dy_act a y = Some y'"
  shows "deadlocked y' \<and> dy_d y' = dy_d y \<and> dy_s y' = dy_s y \<and> dy_threads y' = dy_threads y"
proof -
  have inv: "dy_inv y" "dy_inv y'" using dl dy_inv_act [OF _ act] by (auto simp: deadlocked_def)
  from dl obtain j b e r where j: "j < length (dy_threads y)" "th_pc (dy_threads y ! j) = DRetry b e r"
    by (auto simp: deadlocked_def in_set_conv_nth)
  then have nf: "\<not> breaker_free ''Custom'' y"
    using dy_inv_thread(1) [OF inv(1) j(1)] by (auto simp: breaker_free_def intro!: bexI [of _ "dy_threads y ! j"])
  have one: "in_breaker y \<le> 1" and rs: "dy_reset y = Some ''Custom''" using inv dl by (auto simp: dy_inv_def deadlocked_def)
  show ?thesis
  proof (cases a)
    case (DEnter e g)
    with act have "dy_act (DEnter e g) y = Some y'" by simp
    then show ?thesis
    proof (cases rule: dy_act_enter)
      case 1
      have "dy_threads y' = dy_threads y" "dy_d y' = dy_d y" "dy_s y' = dy_s y" "dy_reset y' = dy_reset y"
        by (subst 1, simp)+
      with dl inv show ?thesis by (simp add: deadlocked_def)
    qed (use rs in simp)
  next
    case (DStep i x)
    with act have i: "i < length (dy_threads y)" "can_step (dy_threads y ! i) y" by (auto split: if_splits)
    have "holds_breaker (th_pc (dy_threads y ! i)) \<and> i \<noteq> j"
      using i(2) rs nf dy_inv_thread(1) [OF inv(1) i(1)] j
      by (cases "th_pc (dy_threads y ! i)") (auto simp: can_step_def)
    then have "2 \<le> in_breaker y"
      using filter_two [of i j "dy_threads y" "\<lambda>th. holds_breaker (th_pc th)"]
        filter_two [of j i "dy_threads y" "\<lambda>th. holds_breaker (th_pc th)"] i j
      by (auto simp: in_breaker_def neq_iff)
    with one show ?thesis by simp
  qed (use act rs nf in auto)
qed

lemma deadlocked_run:
  "deadlocked y \<Longrightarrow> dy_run bs y = Some y' \<Longrightarrow>
     deadlocked y' \<and> dy_d y' = dy_d y \<and> dy_s y' = dy_s y \<and> dy_threads y' = dy_threads y"
proof (induction bs arbitrary: y)
  case (Cons b bs)
  then obtain z where "dy_act b y = Some z" "dy_run bs z = Some y'" by (auto split: option.splits)
  with Cons.IH [of z] deadlocked_act [OF Cons.prems(1)] show ?case by metis
qed simp

section \<open>A dispatch that nobody disturbs\<close>

fun solo :: "seen list \<Rightarrow> dthread \<Rightarrow> 's Dispatcher \<Rightarrow> 's \<Rightarrow> (dthread \<times> 's Dispatcher \<times> 's) option" where
  "solo [] th d s = Some (th, d, s)"
| "solo (x # xs) th d s =
     (if returned (th_pc th) then None
      else case step_pc x th (th_pc th) d s of (th', d', s') \<Rightarrow> solo xs th' d' s')"

lemma solo_append: "solo xs th d s = Some (th', d', s') \<Longrightarrow> solo (xs @ ys) th d s = solo ys th' d' s'"
  by (induction xs arbitrary: th d s) (auto split: if_splits prod.splits)

lemma solo_step:
  "\<not> returned (th_pc th) \<Longrightarrow> step_pc x th (th_pc th) d s = (th', d', s') \<Longrightarrow> \<exists>xs. solo xs th' d' s' = Some z \<Longrightarrow>
     \<exists>xs. solo xs th d s = Some z"
  by (metis (no_types, lifting) case_prod_conv solo.simps(2))

text \<open>One attempt: two steps if its error is counted as retryable, else one.\<close>

lemma solo_try:
  assumes "program_once (ds_registry d) stage (th_vendor th) (th_goal th) (a, dst_RetryCount (ds_stats d), result, s) =
      (e, k, retries, q, s1)"
    and "int a \<le> rp_MaxRetries (ds_retryPolicy d)" and "th_pc th = DRunning a lastErr result"
  shows "k = Suc a \<and> (\<exists>xs. solo xs th d s =
    Some (th\<lparr>th_pc := (case e of None \<Rightarrow> DEnding None q | Some err \<Rightarrow> DAttempted a err q)\<rparr>,
      upd_stats (\<lambda>st. st\<lparr>dst_RetryCount := retries\<rparr>) d, s1))" (is "_ \<and> (\<exists>xs. ?run xs)")
proof (cases "\<exists>err. fst (try_once \<lparr>sn_now = 0, sn_ctx = None, sn_stage = stage a\<rparr> (th_vendor th) (th_goal th) a lastErr result d s) =
    DRetry a err None")
  case True
  then have "?run [\<lparr>sn_now = 0, sn_ctx = None, sn_stage = stage a\<rparr>, \<lparr>sn_now = 0, sn_ctx = None, sn_stage = None\<rparr>]" "k = Suc a"
    using assms
    by (auto simp: program_once_def try_once_def upd_stats_def split: sum.splits prod.splits if_splits)
  then show ?thesis by blast
next
  case False
  then have "?run [\<lparr>sn_now = 0, sn_ctx = None, sn_stage = stage a\<rparr>]" "k = Suc a"
    using assms
    by (auto simp: program_once_def try_once_def upd_stats_def split: sum.splits prod.splits if_splits)
  then show ?thesis by blast
qed

text \<open>The retry loop, from the head of a round to the return of the protected function.\<close>

text \<open>After a failed attempt: the wait before the next one, which the context may end.\<close>

lemma solo_wait:
  assumes "solo ys th d s = Some (th\<lparr>th_pc := DAttempted a err q\<rparr>, d', s')" and "rp_MaxRetries (ds_retryPolicy d') = mx"
  shows "solo (ys @ [\<lparr>sn_now = 0, sn_ctx = c, sn_stage = None\<rparr>]) th d s =
    Some (th\<lparr>th_pc := (case (if int a < mx then c else None) of
        Some e \<Rightarrow> DEnding (retry_error (RetryCancelled e)) q | None \<Rightarrow> DRunning (Suc a) (Some err) q)\<rparr>, d', s')"
  using solo_append [OF assms(1), of "[\<lparr>sn_now = 0, sn_ctx = c, sn_stage = None\<rparr>]"] assms(2)
  by (simp add: upd_stats_def split: option.split)

lemma solo_attempt:
  assumes "attempt_loop before during mx (program_once (ds_registry d) stage (th_vendor th) (th_goal th)) a lastErr
      (a, dst_RetryCount (ds_stats d), result, s) = (res, k, retries, result', s')"
    and "mx = rp_MaxRetries (ds_retryPolicy d)" and "th_pc th = DRunning a lastErr result"
  shows "\<exists>xs. solo xs th d s =
    Some (th\<lparr>th_pc := DEnding (retry_error res) result'\<rparr>, upd_stats (\<lambda>st. st\<lparr>dst_RetryCount := retries\<rparr>) d, s')"
  using assms
proof (induction "nat (mx + 1 - int a)" arbitrary: a lastErr d th result s)
  case 0
  then have "solo [\<lparr>sn_now = 0, sn_ctx = None, sn_stage = None\<rparr>] th d s =
      Some (th\<lparr>th_pc := DEnding (retry_error res) result'\<rparr>, upd_stats (\<lambda>st. st\<lparr>dst_RetryCount := retries\<rparr>) d, s')"
    by (subst (asm) attempt_loop.simps) (simp add: try_once_def upd_stats_def)
  then show ?case by blast
next
  case (Suc n)
  then have a: "int a \<le> mx" "n = nat (mx + 1 - int (Suc a))" by simp_all
  note loop = Suc.prems(1) [unfolded attempt_loop.simps [where attempt = a]]
  let ?w = "\<lparr>sn_now = 0, sn_ctx = during a, sn_stage = None\<rparr>"
  show ?case
  proof (cases "before a")
    case (Some e)
    then have "solo [\<lparr>sn_now = 0, sn_ctx = Some e, sn_stage = None\<rparr>] th d s =
      Some (th\<lparr>th_pc := DEnding (retry_error res) result'\<rparr>, upd_stats (\<lambda>st. st\<lparr>dst_RetryCount := retries\<rparr>) d, s')"
      using loop a(1) Suc.prems(2,3) by (simp add: try_once_def upd_stats_def)
    then show ?thesis by blast
  next
    case None
    obtain e k' rt q s1 where once: "program_once (ds_registry d) stage (th_vendor th) (th_goal th)
        (a, dst_RetryCount (ds_stats d), result, s) = (e, k', rt, q, s1)" by (metis prod.exhaust)
    let ?d = "upd_stats (\<lambda>st. st\<lparr>dst_RetryCount := rt\<rparr>) d"
    obtain ys where ys: "solo ys th d s =
        Some (th\<lparr>th_pc := (case e of None \<Rightarrow> DEnding None q | Some err \<Rightarrow> DAttempted a err q)\<rparr>, ?d, s1)" and k': "k' = Suc a"
      using solo_try [OF once] a(1) Suc.prems(2,3) by auto
    show ?thesis
    proof (cases e)
      case None
      with loop \<open>before a = None\<close> a(1) once ys show ?thesis by auto
    next
      case err: (Some err)
      let ?zs = "ys @ [?w]"
      note wait = solo_wait [OF ys [unfolded err option.case], of mx "during a"]
      show ?thesis
      proof (cases "if int a < mx then during a else None")
        case (Some c)
        with wait Suc.prems(2) have "solo ?zs th d s = Some (th\<lparr>th_pc := DEnding (retry_error (RetryCancelled c)) q\<rparr>, ?d, s1)"
          by (simp add: upd_stats_def)
        with loop \<open>before a = None\<close> a(1) once err Some show ?thesis by (auto split: if_splits)
      next
        case None
        let ?t = "th\<lparr>th_pc := DRunning (Suc a) (Some err) q\<rparr>"
        from wait None Suc.prems(2) have run: "solo ?zs th d s = Some (?t, ?d, s1)" by (simp add: upd_stats_def)
        have "attempt_loop before during mx (program_once (ds_registry ?d) stage (th_vendor ?t) (th_goal ?t)) (Suc a) (Some err)
            (Suc a, dst_RetryCount (ds_stats ?d), q, s1) = (res, k, retries, result', s')"
          using loop \<open>before a = None\<close> a(1) once err None k' by (simp add: upd_stats_def)
        from Suc.hyps(1) [OF a(2) this] Suc.prems(2) obtain zs where "solo zs ?t ?d s1 =
            Some (th\<lparr>th_pc := DEnding (retry_error res) result'\<rparr>, upd_stats (\<lambda>st. st\<lparr>dst_RetryCount := retries\<rparr>) d, s')"
          by (auto simp: upd_stats_def)
        with solo_append [OF run, of zs] show ?thesis by metis
      qed
    qed
  qed
qed

lemma ds_upd_commute:
  "d\<lparr>ds_stats := st, ds_circuitBreakers := m\<rparr> = d\<lparr>ds_circuitBreakers := m, ds_stats := st\<rparr>"
  by simp

lemma solo_ending:
  assumes "th_pc th = DEnding err result"
  shows "\<exists>xs. solo xs th d s =
    (let cb = vendor_breaker d (th_vendor th);
         d' = set_breaker (th_vendor th) (if err \<noteq> None then recordFailure now cb else recordSuccess cb) d
     in Some (case err of
                Some e \<Rightarrow> (th\<lparr>th_pc := DFailed e\<rparr>, d', s)
              | None \<Rightarrow> (th\<lparr>th_pc := DReturned (Inr result)\<rparr>,
                   upd_stats (\<lambda>st. st\<lparr>dst_SuccessCount := i64 (dst_SuccessCount st + 1)\<rparr>) d', s)))"
proof (cases err)
  case None
  then show ?thesis using assms
    by (intro exI [of _ "replicate 2 \<lparr>sn_now = now, sn_ctx = None, sn_stage = None\<rparr>"]) (simp add: numeral_2_eq_2 Let_def)
next
  case (Some e)
  then show ?thesis using assms
    by (intro exI [of _ "[\<lparr>sn_now = now, sn_ctx = None, sn_stage = None\<rparr>]"]) (simp add: Let_def)
qed

text \<open>\<open>dispatchWithResilience\<close> for one vendor.\<close>

lemma solo_resilience:
  assumes "dispatchWithResilience env (th_vendor th) (th_goal th) d s = (r, d', s')" and "th_pc th = DBreaker"
  shows "\<exists>xs. solo xs th d s =
    Some (th\<lparr>th_pc := (case r of Inr q \<Rightarrow> DReturned (Inr q) | Inl e \<Rightarrow> DFailed e)\<rparr>, d', s')"
proof -
  let ?v = "th_vendor th"
  let ?cb = "vendor_breaker d ?v"
  let ?d = "set_breaker ?v ?cb d"
  let ?x = "\<lparr>sn_now = en_now env, sn_ctx = None, sn_stage = None\<rparr>"
  have cb: "vendor_breaker ?d ?v = ?cb" by (simp add: vendor_breaker_def set_breaker_def)
  note run = assms(1) [unfolded dispatchWithResilience_def Let_def, folded vendor_breaker_def set_breaker_def]
  show ?thesis
  proof (cases "cb_State ?cb = StateOpen")
    case True
    then have "solo [?x, ?x, ?x] th d s =
        Some (th\<lparr>th_pc := (case r of Inr q \<Rightarrow> DReturned (Inr q) | Inl e \<Rightarrow> DFailed e)\<rparr>, d', s')"
      using run assms(2) cb by (auto simp: upd_stats_def)
    then show ?thesis by blast
  next
    case False
    then have admit: "cb_admit (en_now env) ?cb = (True, ?cb)" by (simp add: cb_admit_def cb_State_def)
    have same: "set_breaker ?v ?cb ?d = ?d" by (simp add: set_breaker_def)
    have enter: "solo [?x, ?x, ?x] th d s = Some (th\<lparr>th_pc := DRunning 0 None None\<rparr>, ?d, s)"
      using assms(2) cb False admit same by simp
    obtain res k retries q s1 where att: "Attempt (en_before env) (en_during env) (ds_retryPolicy ?d)
        (program_once (ds_registry ?d) (en_stage env) ?v (th_goal th)) (0, dst_RetryCount (ds_stats ?d), None, s) =
        (res, k, retries, q, s1)" by (metis prod.exhaust)
    let ?d1 = "upd_stats (\<lambda>st. st\<lparr>dst_RetryCount := retries\<rparr>) ?d"
    let ?t = "th\<lparr>th_pc := DRunning 0 None None\<rparr>"
    obtain xs where xs: "solo xs ?t ?d s = Some (?t\<lparr>th_pc := DEnding (retry_error res) q\<rparr>, ?d1, s1)"
      using solo_attempt [of "en_before env" "en_during env" _ ?d "en_stage env" ?t 0 None None s] att
      by (auto simp: Attempt_def)
    let ?t1 = "th\<lparr>th_pc := DEnding (retry_error res) q\<rparr>"
    have cb1: "vendor_breaker ?d1 ?v = ?cb" by (simp add: vendor_breaker_def set_breaker_def upd_stats_def)
    obtain ys where ys: "solo ys ?t1 ?d1 s1 = Some (th\<lparr>th_pc := (case r of Inr q \<Rightarrow> DReturned (Inr q) | Inl e \<Rightarrow> DFailed e)\<rparr>, d', s')"
      using solo_ending [of ?t1 "retry_error res" q ?d1 s1 "en_later env"] run False att admit cb1
      by (cases "retry_error res") (auto simp: cb_Call_def upd_stats_def set_breaker_def ds_upd_commute Let_def)
    have "solo ([?x, ?x, ?x] @ xs @ ys) th d s = solo ys ?t1 ?d1 s1"
      using solo_append [OF enter, of "xs @ ys"] solo_append [OF xs, of ys] by simp
    with ys show ?thesis by metis
  qed
qed

text \<open>The loop over the fallback vendors, with the count of a failure at its end.\<close>

lemma solo_fallbacks:
  assumes "try_fallbacks env (th_goal th) (th_fallbacks th) err d s = (r, d', s')" and "th_pc th = DFailed err"
  shows "\<exists>xs v fs. solo xs th d s = Some (th\<lparr>th_vendor := v, th_fallbacks := fs, th_pc := DReturned r\<rparr>,
    (case r of Inr _ \<Rightarrow> d'
     | Inl _ \<Rightarrow> upd_stats (\<lambda>st. st\<lparr>dst_FailureCount := i64 (dst_FailureCount st + 1)\<rparr>) d'), s')"
  using assms
proof (induction "th_fallbacks th" arbitrary: th err d s)
  case Nil
  then have "solo [\<lparr>sn_now = 0, sn_ctx = None, sn_stage = None\<rparr>] th d s =
      Some (th\<lparr>th_vendor := th_vendor th, th_fallbacks := [], th_pc := DReturned r\<rparr>,
    (case r of Inr _ \<Rightarrow> d' | Inl _ \<Rightarrow> upd_stats (\<lambda>st. st\<lparr>dst_FailureCount := i64 (dst_FailureCount st + 1)\<rparr>) d'), s')"
    by auto
  then show ?case by blast
next
  case (Cons f fs)
  let ?t = "th\<lparr>th_vendor := f, th_fallbacks := fs, th_pc := DBreaker\<rparr>"
  let ?d = "upd_stats (\<lambda>st. st\<lparr>dst_FallbackActivated := i64 (dst_FallbackActivated st + 1)\<rparr>) d"
  let ?x = "\<lparr>sn_now = 0, sn_ctx = None, sn_stage = None\<rparr>"
  have first: "solo [?x] th d s = Some (?t, ?d, s)" using Cons.hyps(2) [symmetric] Cons.prems(2) by simp
  obtain r1 d1 s1 where dr: "dispatchWithResilience env (th_vendor ?t) (th_goal ?t) ?d s = (r1, d1, s1)"
    by (rule prod_cases3)
  obtain xs where xs: "solo xs ?t ?d s =
      Some (?t\<lparr>th_pc := (case r1 of Inr q \<Rightarrow> DReturned (Inr q) | Inl e \<Rightarrow> DFailed e)\<rparr>, d1, s1)"
    using solo_resilience [OF dr] by auto
  have pre: "solo ([?x] @ xs @ ys) th d s =
      solo ys (?t\<lparr>th_pc := (case r1 of Inr q \<Rightarrow> DReturned (Inr q) | Inl e \<Rightarrow> DFailed e)\<rparr>) d1 s1" for ys
    using solo_append [OF first, of "xs @ ys"] solo_append [OF xs, of ys] by simp
  have loop: "try_fallbacks env (th_goal th) (f # fs) err d s = (r, d', s')" using Cons.prems(1) Cons.hyps(2) by simp
  show ?case
  proof (cases r1)
    case (Inr q)
    then have "r = Inr q" "d' = d1" "s' = s1" using loop dr by (auto simp: upd_stats_def Let_def)
    with pre [of "[]"] Inr show ?thesis by (intro exI [of _ "[?x] @ xs @ []"] exI [of _ f] exI [of _ fs]) simp
  next
    case (Inl e)
    let ?t1 = "?t\<lparr>th_pc := DFailed e\<rparr>"
    have "try_fallbacks env (th_goal ?t1) (th_fallbacks ?t1) e d1 s1 = (r, d', s')"
      using loop dr Inl by (simp add: upd_stats_def Let_def)
    from Cons.hyps(1) [OF _ this] obtain ys v fs' where "solo ys ?t1 d1 s1 =
        Some (?t1\<lparr>th_vendor := v, th_fallbacks := fs', th_pc := DReturned r\<rparr>, (case r of Inr _ \<Rightarrow> d'
          | Inl _ \<Rightarrow> upd_stats (\<lambda>st. st\<lparr>dst_FailureCount := i64 (dst_FailureCount st + 1)\<rparr>) d'), s')"
      by auto
    with pre [of ys] Inl show ?thesis by (intro exI [of _ "[?x] @ xs @ ys"] exI [of _ v] exI [of _ fs']) simp
  qed
qed

lemma solo_Dispatch:
  assumes run: "Dispatch None env (Some goal) d s = (r, d', s')"
    and enter: "dispatch_enter None (Some goal) d = (Inr th, d1)"
  shows "\<exists>xs th'. solo xs th d1 s = Some (th', d', s') \<and> th_pc th' = DReturned r"
proof -
  have th: "th_goal th = goal" "th_vendor th = ''Custom''" "th_pc th = DBreaker"
    "th_fallbacks th = (case ds_vendorFallbacks d ''Custom'' of Some fs \<Rightarrow> fs | None \<Rightarrow> [])"
    "d1 = d\<lparr>ds_stats := (ds_stats d)\<lparr>dst_GoalsDispatched := i64 (dst_GoalsDispatched (ds_stats d) + 1)\<rparr>\<rparr>"
    using enter by (auto simp: dispatch_enter_def upd_stats_def)
  obtain r1 d2 s2 where dr: "dispatchWithResilience env (th_vendor th) (th_goal th) d1 s = (r1, d2, s2)"
    by (rule prod_cases3)
  obtain xs where xs: "solo xs th d1 s =
      Some (th\<lparr>th_pc := (case r1 of Inr q \<Rightarrow> DReturned (Inr q) | Inl e \<Rightarrow> DFailed e)\<rparr>, d2, s2)"
    using solo_resilience [OF dr th(3)] by blast
  show ?thesis
  proof (cases r1)
    case (Inr q)
    then have "r = Inr q" "d' = d2" "s' = s2" using run dr th by (auto simp: Dispatch_def Let_def)
    with xs Inr show ?thesis by (intro exI [of _ xs]) simp
  next
    case (Inl e)
    let ?t = "th\<lparr>th_pc := DFailed e\<rparr>"
    obtain r3 d3 s3 where fb: "try_fallbacks env (th_goal ?t) (th_fallbacks ?t) e d2 s2 = (r3, d3, s3)"
      by (rule prod_cases3)
    have "ds_vendorFallbacks d2 = ds_vendorFallbacks d" using dispatchWithResilience_frame(1) [OF dr] th(5) by simp
    then have "r = r3" "s' = s3" "d' = (case r of Inr _ \<Rightarrow> d3
        | Inl _ \<Rightarrow> upd_stats (\<lambda>st. st\<lparr>dst_FailureCount := i64 (dst_FailureCount st + 1)\<rparr>) d3)"
      using run dr th fb Inl by (auto simp: Dispatch_def upd_stats_def Let_def split: sum.splits prod.splits)
    moreover from solo_fallbacks [OF fb] obtain ys v fs where
      "solo ys ?t d2 s2 = Some (?t\<lparr>th_vendor := v, th_fallbacks := fs, th_pc := DReturned r3\<rparr>, (case r3 of Inr _ \<Rightarrow> d3
        | Inl _ \<Rightarrow> upd_stats (\<lambda>st. st\<lparr>dst_FailureCount := i64 (dst_FailureCount st + 1)\<rparr>) d3), s3)"
      by auto
    ultimately show ?thesis using solo_append [OF xs, of ys] Inl
      by (intro exI [of _ "xs @ ys"]) auto
  qed
qed

text \<open>Steps of the last thread, when all others have returned.\<close>

lemma dy_run_solo:
  "solo xs th d s = Some (th', d', s') \<Longrightarrow> \<forall>t \<in> set ts. returned (th_pc t) \<Longrightarrow>
   dy_d y = d \<Longrightarrow> dy_s y = s \<Longrightarrow> dy_threads y = ts @ [th] \<Longrightarrow> dy_reset y = None \<Longrightarrow>
   dy_run (map (DStep (length ts)) xs) y = Some (y\<lparr>dy_d := d', dy_s := s', dy_threads := ts @ [th']\<rparr>)"
proof (induction xs arbitrary: th d s y)
  case (Cons x xs)
  obtain t1 d1 s1 where st: "step_pc x th (th_pc th) d s = (t1, d1, s1)" by (metis prod.exhaust)
  have nr: "\<not> returned (th_pc th)" "solo xs t1 d1 s1 = Some (th', d', s')"
    using Cons.prems(1) st by (auto split: if_splits)
  have hb: "\<not> holds_breaker (th_pc t)" if "t \<in> set ts" for t
    using Cons.prems(2) that by (cases "th_pc t") auto
  have "can_step th y"
    using nr(1) hb Cons.prems(5,6) by (cases "th_pc th") (auto simp: can_step_def breaker_free_def)
  then have act: "dy_act (DStep (length ts) x) y = Some (y\<lparr>dy_d := d1, dy_s := s1, dy_threads := ts @ [t1]\<rparr>)"
    using Cons.prems(3-5) st by simp
  with Cons.IH [OF nr(2) Cons.prems(2), of "y\<lparr>dy_d := d1, dy_s := s1, dy_threads := ts @ [t1]\<rparr>"] Cons.prems(6) show ?case
    by simp
qed auto

section \<open>Properties\<close>

definition example_seen :: seen where
  "example_seen = \<lparr>sn_now = 10, sn_ctx = None, sn_stage = None\<rparr>"

text \<open>A plugin whose device cannot be reached: the error is one that is counted as retryable.\<close>

definition unreachable_plugin :: "nat Plugin" where
  "unreachable_plugin = \<lparr>pg_Name = ''Custom'', pg_Vendor = ''Custom'', pg_Program = (\<lambda>e g s. (Inl ''connection refused'', Suc s))\<rparr>"

text \<open>Five dispatches, one after the other, with a plugin that always fails.\<close>

definition failing_schedule :: "dact list" where
  "failing_schedule = concat (map (\<lambda>i. DEnter None (Some example_goal) # replicate 14 (DStep i example_seen)) [0..<5])"

text \<open>C17: Once the circuit breaker of the vendor is open, the dispatcher is shut off for good, for any number of concurrent
  workers. The dispatcher asks for the state of the breaker before it calls it, so the breaker never gets the call that would let it
  try again after its timeout. From a reachable state in which the breaker is open and no dispatch is between that check and its
  end, under every later interleaving without a manual reset, at whatever time, the breaker stays as it is, no device is programmed, and no
  dispatch returns a success that had not done so before.\<close>

theorem breaker_open_forever:
  assumes "dy_reach registry s as y" and "dy_reset y = None"
    and "ds_circuitBreakers (dy_d y) ''Custom'' = Some cb" and "cb_State cb = StateOpen"
    and "\<forall>th \<in> set (dy_threads y). \<not> committed (th_pc th)"
    and "dy_run bs y = Some y'" and "\<forall>b \<in> set bs. \<not> is_reset b"
  shows "dy_s y' = dy_s y \<and> ds_circuitBreakers (dy_d y') ''Custom'' = Some cb \<and>
    (\<forall>i < length (dy_threads y'). succeeded (th_pc (dy_threads y' ! i)) \<longrightarrow>
       i < length (dy_threads y) \<and> succeeded (th_pc (dy_threads y ! i)))"
  using shut_off_run [of cb y bs y'] assms dy_reach_inv [OF assms(1)] by (auto simp: shut_off_def)

lemma failing_schedule_open:
  "case dy_run failing_schedule (new_dsys [''Custom'' \<mapsto> failing_plugin] 0) of None \<Rightarrow> False | Some y \<Rightarrow>
     dy_reset y = None \<and> map_option cb_State (ds_circuitBreakers (dy_d y) ''Custom'') = Some StateOpen \<and>
     list_all (\<lambda>th. \<not> committed (th_pc th)) (dy_threads y)"
  by code_simp

theorem breaker_open_forever_witness:
  "\<exists>y y'. dy_run failing_schedule (new_dsys [''Custom'' \<mapsto> failing_plugin] 0) = Some y \<and>
     dy_run [DEnter None (Some example_goal)] y = Some y' \<and> dy_s y' = dy_s y"
proof -
  obtain y where y: "dy_run failing_schedule (new_dsys [''Custom'' \<mapsto> failing_plugin] 0) = Some y"
    using failing_schedule_open by (auto split: option.splits)
  then obtain cb where cb: "dy_reset y = None" "ds_circuitBreakers (dy_d y) ''Custom'' = Some cb" "cb_State cb = StateOpen"
    "\<forall>th \<in> set (dy_threads y). \<not> committed (th_pc th)"
    using failing_schedule_open by (auto simp: list_all_iff)
  obtain y' where y': "dy_run [DEnter None (Some example_goal)] y = Some y'"
    using cb(1) by (simp add: dispatch_enter_def)
  from breaker_open_forever [OF dy_run_init [OF y] cb y'] y y' show ?thesis by auto
qed

text \<open>C18: Concurrent dispatches are accounted for exactly and program one at a time: in every reachable state, under every
  interleaving of dispatches and resets, the number of dispatched goals is the number of successes plus the number of failures plus the
  dispatches still under way, in 64-bit arithmetic, and at most one dispatch is inside the breaker, so that two plugin
  calls for the same vendor never overlap.\<close>

theorem dispatches_accounted:
  assumes "dy_reach registry s as y"
  shows "dst_GoalsDispatched (ds_Stats (dy_d y)) =
      i64 (dst_SuccessCount (ds_Stats (dy_d y)) + dst_FailureCount (ds_Stats (dy_d y)) + int (in_flight y)) \<and>
    in_breaker y \<le> 1"
  using dy_reach_inv [OF assms] by (simp add: dy_inv_def ds_Stats_def)

theorem dispatches_accounted_witness:
  "\<exists>y. dy_reach [''Custom'' \<mapsto> failing_plugin] 0
      ([DEnter None (Some example_goal), DEnter None (Some example_goal)] @
       replicate 4 (DStep 0 example_seen) @ [DStep 1 example_seen]) y \<and>
    in_breaker y = 1 \<and> dst_GoalsDispatched (ds_Stats (dy_d y)) = 2"
proof -
  let ?as = "[DEnter None (Some example_goal), DEnter None (Some example_goal)] @
      replicate 4 (DStep 0 example_seen) @ [DStep 1 example_seen]"
  let ?r = "dy_run ?as (new_dsys [''Custom'' \<mapsto> failing_plugin] 0)"
  have "case ?r of None \<Rightarrow> False | Some y \<Rightarrow> 1 \<le> in_breaker y \<and> in_flight y = 2 \<and>
      dst_SuccessCount (ds_Stats (dy_d y)) = 0 \<and> dst_FailureCount (ds_Stats (dy_d y)) = 0"
    by code_simp
  then obtain y where y: "?r = Some y" "1 \<le> in_breaker y" "in_flight y = 2" "dst_SuccessCount (ds_Stats (dy_d y)) = 0"
    "dst_FailureCount (ds_Stats (dy_d y)) = 0"
    by (auto split: option.splits)
  from dispatches_accounted [OF dy_run_init [OF y(1)]] dy_run_init [OF y(1)] y show ?thesis
    by (intro exI [of _ y]) (simp add: i64_def)
qed

text \<open>C20: Dispatching terminates and does not get stuck by itself. Any number of dispatches take at most 18 steps each together, whatever the plugin
  answers and however the contexts and the other workers behave; and from every reachable state in which no manual reset holds the
  dispatcher's mutex there is a continuation, by steps of the dispatches alone, to a state in which all of them have returned.\<close>

theorem dispatches_finish:
  assumes "dy_reach registry s as y"
  shows "length (filter is_step as) \<le> 18 * length (dy_threads y) \<and>
    (dy_reset y = None \<longrightarrow> (\<exists>bs z. dy_reach registry s (as @ bs) z \<and> (\<forall>b \<in> set bs. is_step b) \<and>
       length (dy_threads z) = length (dy_threads y) \<and> (\<forall>th \<in> set (dy_threads z). returned (th_pc th))))"
proof -
  have "\<exists>bs z. dy_reach registry s (as @ bs) z \<and> (\<forall>b \<in> set bs. is_step b) \<and>
       length (dy_threads z) = length (dy_threads y) \<and> (\<forall>th \<in> set (dy_threads z). returned (th_pc th))"
    if nr: "dy_reset y = None"
  proof -
    obtain bs z where z: "dy_run bs y = Some z" "\<forall>b \<in> set bs. is_step b" "in_flight z = 0"
      "length (dy_threads z) = length (dy_threads y)"
      using dy_finish [OF dy_reach_inv [OF assms] nr] by blast
    with dy_run_reach [OF z(1) assms] show ?thesis by (auto simp: in_flight_def filter_empty_conv)
  qed
  then show ?thesis using dy_reach_steps [OF assms] by auto
qed

theorem dispatches_finish_witness:
  "\<exists>bs z. dy_reach [''Custom'' \<mapsto> failing_plugin] 0 ([DEnter None (Some example_goal), DStep 0 example_seen] @ bs) z \<and>
     length (dy_threads z) = 1 \<and> (\<forall>th \<in> set (dy_threads z). returned (th_pc th))"
proof -
  obtain y where y: "dy_run [DEnter None (Some example_goal), DStep 0 example_seen]
      (new_dsys [''Custom'' \<mapsto> failing_plugin] 0) = Some y" "length (dy_threads y) = 1" "dy_reset y = None"
    by (simp add: dispatch_enter_def new_dsys_def NewPluginDispatcher_def can_step_def)
  then show ?thesis using dispatches_finish [OF dy_run_init [OF y(1)]] by (metis y(2,3))
qed

text \<open>C21: Resetting a breaker by hand can hang the dispatcher for good. \<open>ResetCircuitBreaker\<close> holds the dispatcher's
  mutex while it waits for the breaker's; a dispatch inside the breaker whose plugin reports a retryable error needs the
  dispatcher's mutex to count it. From such a state no action changes anything any more: the reset does not end, no dispatch under way takes
  a step, and none is entered.\<close>

theorem reset_deadlock:
  assumes "dy_reach registry s as y" and "dy_reset y = Some ''Custom''"
    and "th \<in> set (dy_threads y)" and "th_pc th = DRetry attempt err result" and "dy_run bs y = Some y'"
  shows "dy_reset y' = Some ''Custom'' \<and> dy_threads y' = dy_threads y \<and> dy_d y' = dy_d y \<and> dy_s y' = dy_s y"
  using deadlocked_run [of y bs y'] assms dy_reach_inv [OF assms(1)] by (auto simp: deadlocked_def)

theorem reset_deadlock_witness:
  "\<exists>y. dy_reach [''Custom'' \<mapsto> unreachable_plugin] 0
      ([DEnter None (Some example_goal)] @ replicate 4 (DStep 0 example_seen) @ [DReset ''Custom'']) y \<and>
    (\<forall>bs y'. dy_run bs y = Some y' \<longrightarrow> dy_threads y' = dy_threads y)"
proof -
  let ?as = "[DEnter None (Some example_goal)] @ replicate 4 (DStep 0 example_seen) @ [DReset ''Custom'']"
  let ?r = "dy_run ?as (new_dsys [''Custom'' \<mapsto> unreachable_plugin] 0)"
  have "case ?r of None \<Rightarrow> False | Some y \<Rightarrow> dy_reset y = Some ''Custom'' \<and>
      map th_pc (dy_threads y) = [DRetry 0 ''connection refused'' None]"
    by code_simp
  then obtain y where y: "?r = Some y" "dy_reset y = Some ''Custom''" "map th_pc (dy_threads y) = [DRetry 0 ''connection refused'' None]"
    by (auto split: option.splits)
  then obtain th where "th \<in> set (dy_threads y)" "th_pc th = DRetry 0 ''connection refused'' None" by auto
  from reset_deadlock [OF dy_run_init [OF y(1)] y(2) this] dy_run_init [OF y(1)] show ?thesis by blast
qed

text \<open>C22: Any number of concurrent dispatches of a new dispatcher program the device at most four times each, whatever the plugin
  answers and however the contexts behave: the plugin runs are bounded by the three retries plus one, even though every error is
  retried, permanent or not.\<close>

theorem dispatches_bounded_work:
  assumes "\<And>p e g s. registry ''Custom'' = Some p \<Longrightarrow> runs (snd (pg_Program p e g s)) \<le> runs s + (1::nat)"
    and "dy_reach registry s as y"
  shows "runs (dy_s y) \<le> runs s + 4 * length (dy_threads y)"
proof -
  have "runs (dy_s y) + total_left runs_left y \<le> runs s + 4 * length (dy_threads y)"
    using dy_reach_runs [where runs = runs, OF _ assms(2)] assms(1) by blast
  then show ?thesis by simp
qed

theorem dispatches_bounded_work_witness:
  "\<exists>y. dy_reach [''Custom'' \<mapsto> failing_plugin] 0 failing_schedule y \<and> dy_s y \<le> 20"
proof -
  obtain y where y: "dy_run failing_schedule (new_dsys [''Custom'' \<mapsto> failing_plugin] 0) = Some y"
    using failing_schedule_open by (auto split: option.splits)
  have "case dy_run failing_schedule (new_dsys [''Custom'' \<mapsto> failing_plugin] 0) of None \<Rightarrow> False
      | Some y \<Rightarrow> length (dy_threads y) = 5"
    by code_simp
  then have len: "length (dy_threads y) = 5" using y by simp
  have "id (snd (pg_Program p e g s)) \<le> id s + 1" if "[''Custom'' \<mapsto> failing_plugin] ''Custom'' = Some p" for p e g s
    using that by (auto simp: failing_plugin_def)
  from dispatches_bounded_work [OF this dy_run_init [OF y]] dy_run_init [OF y] len show ?thesis by auto
qed

text \<open>C19: The threads refine the sequential dispatch. From a state in which no dispatch is under way and no reset waits,
  whatever \<open>Dispatch\<close> computes for a goal and an environment (result, counters, breakers, devices) is computed by a run of the thread
  that enters with that goal, when nobody else takes a step.\<close>

theorem dispatch_alone:
  assumes "in_flight y = 0" and "dy_reset y = None"
    and "Dispatch None env (Some goal) (dy_d y) (dy_s y) = (r, d', s')"
  shows "\<exists>xs th. dy_run (DEnter None (Some goal) # map (DStep (length (dy_threads y))) xs) y =
      Some (y\<lparr>dy_d := d', dy_s := s', dy_threads := dy_threads y @ [th]\<rparr>) \<and> th_pc th = DReturned r"
proof -
  obtain th d1 where enter: "dispatch_enter None (Some goal) (dy_d y) = (Inr th, d1)"
    by (simp add: dispatch_enter_def)
  obtain xs th' where xs: "solo xs th d1 (dy_s y) = Some (th', d', s')" "th_pc th' = DReturned r"
    using solo_Dispatch [OF assms(3) enter] by blast
  have "\<forall>t \<in> set (dy_threads y). returned (th_pc t)" using assms(1) by (auto simp: in_flight_def filter_empty_conv)
  from dy_run_solo [OF xs(1) this, of "y\<lparr>dy_d := d1, dy_threads := dy_threads y @ [th]\<rparr>"] assms(2) enter xs(2)
  show ?thesis by (intro exI [of _ xs] exI [of _ th']) simp
qed

theorem dispatch_alone_witness:
  "\<exists>xs y. dy_run (DEnter None (Some example_goal) # map (DStep 0) xs) (new_dsys [''Custom'' \<mapsto> failing_plugin] 0) = Some y \<and>
     map th_pc (dy_threads y) = [DReturned (Inl ''max retries exceeded (last error: boom)'')] \<and> dy_s y = 4"
proof -
  let ?y = "new_dsys [''Custom'' \<mapsto> failing_plugin] 0"
  have "fst (Dispatch None example_env (Some example_goal) (dy_d ?y) (dy_s ?y)) = Inl ''max retries exceeded (last error: boom)''"
    "snd (snd (Dispatch None example_env (Some example_goal) (dy_d ?y) (dy_s ?y))) = 4"
    by code_simp+
  then obtain d' where "Dispatch None example_env (Some example_goal) (dy_d ?y) (dy_s ?y) =
      (Inl ''max retries exceeded (last error: boom)'', d', 4)"
    by (metis prod.collapse)
  from dispatch_alone [OF _ _ this] obtain xs th where "dy_run (DEnter None (Some example_goal) # map (DStep (length (dy_threads ?y))) xs) ?y =
      Some (?y\<lparr>dy_d := d', dy_s := 4, dy_threads := dy_threads ?y @ [th]\<rparr>)"
      "th_pc th = DReturned (Inl ''max retries exceeded (last error: boom)'')"
    by (auto simp: in_flight_def new_dsys_def)
  then show ?thesis by (intro exI [of _ xs] exI conjI) (auto simp: new_dsys_def)
qed

end
