(* ===== verification/FM_DalSystem.thy ===== *)
theory FM_DalSystem
  imports FM_Pool FM_Dispatch
begin

text \<open>
  The worker pool and the dispatcher together (\<^verbatim>\<open>pool.go\<close> and \<^verbatim>\<open>dispatcher.go\<close> of \<^verbatim>\<open>src/FM/pkg/dal\<close>). A worker that has taken a job
  calls \<open>Dispatch\<close> with the pool's context and the job's goal, and delivers or abandons the job once that call has returned. The state is
  the pool, the dispatcher with its threads, and the call each worker is in. Every run of the whole is a run of the pool and a run
  of the dispatcher, so the properties of both carry over; the property of the whole is that an answer belongs to the submission it is sent to.
\<close>

section \<open>The composed machine\<close>

text \<open>The call of a worker: it was refused at once with an error, or it is the thread with that number.\<close>

record 's dalsys =
  da_pool :: Pool
  da_dsys :: "'s dsys"
  da_call :: "nat \<rightharpoonup> string + nat"

definition new_dalsys :: "int \<Rightarrow> 's PluginRegistry \<Rightarrow> 's \<Rightarrow> 's dalsys" where
  "new_dalsys workers registry s =
     \<lparr>da_pool = NewPluginPool workers, da_dsys = new_dsys registry s, da_call = Map.empty\<rparr>"

datatype da_act =
    APool pool_action
  | ADispatch nat string
  | AStep nat seen
  | AReset string
  | AResetDone
  | ADeliver nat
  | AAbandon nat

text \<open>The actions of the pool in which no call of the dispatcher ends.\<close>

fun no_answer :: "pool_action \<Rightarrow> bool" where
  "no_answer (PDeliver _ _) = False"
| "no_answer (PAbandon _) = False"
| "no_answer _ = True"

text \<open>What the call of a worker has returned, if it has returned.\<close>

definition call_outcome :: "nat \<Rightarrow> 's dalsys \<Rightarrow> (string + ProgramResult option) option" where
  "call_outcome i z =
     (case da_call z i of
        None \<Rightarrow> None
      | Some (Inl e) \<Rightarrow> Some (Inl e)
      | Some (Inr k) \<Rightarrow> (case th_pc (dy_threads (da_dsys z) ! k) of DReturned r \<Rightarrow> Some r | _ \<Rightarrow> None))"

text \<open>The worker enters the dispatcher, with the error of the pool's context if that is done.\<close>

definition worker_dispatch :: "nat \<Rightarrow> string \<Rightarrow> goalJob \<Rightarrow> 's dalsys \<Rightarrow> 's dalsys option" where
  "worker_dispatch i ctxErr job z =
     (let p = da_pool z; y = da_dsys z; e = (if ctx_done (pool_ctx p) p then Some ctxErr else None)
      in case dy_act (DEnter e (Some (jb_goal job))) y of
           None \<Rightarrow> None
         | Some y' \<Rightarrow>
             Some (z\<lparr>da_dsys := y',
                     da_call := (da_call z)(i \<mapsto> (case fst (dispatch_enter e (Some (jb_goal job)) (dy_d y)) of
                                                    Inl err \<Rightarrow> Inl err | Inr _ \<Rightarrow> Inr (length (dy_threads y))))\<rparr>))"

fun da_step :: "da_act \<Rightarrow> 's dalsys \<Rightarrow> 's dalsys option" where
  "da_step (APool a) z =
     (if no_answer a then map_option (\<lambda>p. z\<lparr>da_pool := p\<rparr>) (pool_act a (da_pool z)) else None)"
| "da_step (ADispatch i ctxErr) z =
     (if i < length (pp_threads (da_pool z)) \<and> da_call z i = None
      then case pp_threads (da_pool z) ! i of WBusy job \<Rightarrow> worker_dispatch i ctxErr job z | _ \<Rightarrow> None
      else None)"
| "da_step (AStep k x) z = map_option (\<lambda>y. z\<lparr>da_dsys := y\<rparr>) (dy_act (DStep k x) (da_dsys z))"
| "da_step (AReset vendor) z = map_option (\<lambda>y. z\<lparr>da_dsys := y\<rparr>) (dy_act (DReset vendor) (da_dsys z))"
| "da_step AResetDone z = map_option (\<lambda>y. z\<lparr>da_dsys := y\<rparr>) (dy_act DResetDone (da_dsys z))"
| "da_step (ADeliver i) z =
     (case call_outcome i z of
        None \<Rightarrow> None
      | Some r \<Rightarrow>
          map_option (\<lambda>p. z\<lparr>da_pool := p, da_call := (da_call z)(i := None)\<rparr>) (pool_act (PDeliver i r) (da_pool z)))"
| "da_step (AAbandon i) z =
     (case call_outcome i z of
        None \<Rightarrow> None
      | Some r \<Rightarrow>
          map_option (\<lambda>p. z\<lparr>da_pool := p, da_call := (da_call z)(i := None)\<rparr>) (pool_act (PAbandon i) (da_pool z)))"

fun da_run :: "da_act list \<Rightarrow> 's dalsys \<Rightarrow> 's dalsys option" where
  "da_run [] z = Some z"
| "da_run (a # as) z =
     (if pp_crashed (da_pool z) \<noteq> None then None
      else case da_step a z of None \<Rightarrow> None | Some z' \<Rightarrow> da_run as z')"

inductive da_reach :: "int \<Rightarrow> 's PluginRegistry \<Rightarrow> 's \<Rightarrow> da_act list \<Rightarrow> 's dalsys \<Rightarrow> bool" for workers registry s where
  da_init: "da_reach workers registry s [] (new_dalsys workers registry s)"
| da_next: "da_reach workers registry s as z \<Longrightarrow> pp_crashed (da_pool z) = None \<Longrightarrow> da_step a z = Some z' \<Longrightarrow>
    da_reach workers registry s (as @ [a]) z'"

text \<open>The goals handed to \<open>Submit\<close>, in the order of the calls: the channel of a call is its position.\<close>

fun submissions :: "da_act list \<Rightarrow> PerENIGoalState option list" where
  "submissions [] = []"
| "submissions (APool (PSubmit c g) # as) = g # submissions as"
| "submissions (a # as) = submissions as"

section \<open>What a plugin promises\<close>

text \<open>
  The result of a plugin names the interface of the goal it was given, and a successful one its version. The dispatcher relies on
  this when it hands a result on unread.
\<close>

definition reports_goal :: "PerENIGoalState \<Rightarrow> ProgramResult \<Rightarrow> bool" where
  "reports_goal g r \<longleftrightarrow> pr_ENI_ID r = gs_ENI_ID g \<and> (pr_Success r \<longrightarrow> pr_AppliedVersion r = gs_Version g)"

locale vendor_plugin =
  fixes prog :: "string option \<Rightarrow> PerENIGoalState \<Rightarrow> 's \<Rightarrow> (string + ProgramResult) \<times> 's"
  assumes prog_reports: "fst (prog e g s) = Inr r \<Longrightarrow> reports_goal g r"
begin

lemma prog_result: "prog e g s = (Inr r, s') \<Longrightarrow> reports_goal g r"
  using prog_reports [of e g s r] by simp

end

interpretation custom: vendor_plugin custom_Program
  by unfold_locales (auto simp: custom_Program_def reports_goal_def split: option.splits)

section \<open>Results of a dispatch\<close>

text \<open>A result that a thread has accepted as a success belongs to its goal.\<close>

fun accepted :: "PerENIGoalState \<Rightarrow> dpc \<Rightarrow> bool" where
  "accepted g (DEnding None q) = (\<exists>r. q = Some r \<and> reports_goal g r)"
| "accepted g (DSucceeded q) = (\<exists>r. q = Some r \<and> reports_goal g r)"
| "accepted g (DReturned (Inr q)) = (\<exists>r. q = Some r \<and> reports_goal g r)"
| "accepted g _ = True"

lemma accepted_exhausted: "accepted g (DEnding (retry_error (RetryExhausted l)) q)"
  by (cases l) simp_all

lemma accepted_step:
  assumes plug: "\<And>p. ds_registry d (th_vendor th) = Some p \<Longrightarrow> vendor_plugin (pg_Program p)"
    and step: "step_pc x th (th_pc th) d s = (th', d', s')" and acc: "accepted (th_goal th) (th_pc th)"
  shows "accepted (th_goal th') (th_pc th')"
proof (cases "th_pc th")
  case (DRunning a l q)
  have "reports_goal g r" if "pr_Get (ds_registry d) (th_vendor th) = Inr p" "pg_Program p e g s = (Inr r, s1)" for p e g r s1
  proof -
    have "vendor_plugin (pg_Program p)" using that(1) plug by (auto simp: pr_Get_def split: if_splits option.splits)
    with vendor_plugin.prog_result that(2) show ?thesis by metis
  qed
  then show ?thesis using step DRunning
    by (auto simp: step_pc_defs accepted_exhausted split: prod.splits option.splits if_splits sum.splits)
qed (use step acc in \<open>auto simp: step_pc_defs split: prod.splits option.splits list.splits\<close>)

text \<open>Threads keep their goal, and their accepted results stay right.\<close>

lemma dy_act_goals:
  assumes "dy_act a y = Some y'"
  shows "length (dy_threads y) \<le> length (dy_threads y') \<and>
    (\<forall>k < length (dy_threads y). th_goal (dy_threads y' ! k) = th_goal (dy_threads y ! k))"
proof (cases a)
  case (DEnter e g)
  with assms show ?thesis
    by (auto simp: dispatch_enter_def nth_append split: option.splits if_splits)
next
  case (DStep i x)
  with assms have "dy_act (DStep i x) y = Some y'" by simp
  then show ?thesis by (rule dy_act_step) (auto simp: nth_list_update step_pc_frame(4))
qed (use assms in \<open>auto split: if_splits option.splits\<close>)

definition threads_ok :: "'s PluginRegistry \<Rightarrow> 's dsys \<Rightarrow> bool" where
  "threads_ok registry y \<longleftrightarrow> dy_inv y \<and> ds_registry (dy_d y) = registry \<and>
     (\<forall>th \<in> set (dy_threads y). accepted (th_goal th) (th_pc th))"

lemma threads_ok_act:
  assumes plug: "\<And>p. registry ''Custom'' = Some p \<Longrightarrow> vendor_plugin (pg_Program p)"
    and ok: "threads_ok registry y" and act: "dy_act a y = Some y'"
  shows "threads_ok registry y'"
proof -
  have inv: "dy_inv y" "dy_inv y'" using ok dy_inv_act [OF _ act] by (auto simp: threads_ok_def)
  show ?thesis
  proof (cases a)
    case (DEnter e g)
    with act ok inv show ?thesis
      by (auto simp: threads_ok_def dispatch_enter_def upd_stats_def split: option.splits if_splits)
  next
    case (DStep i x)
    with act have "dy_act (DStep i x) y = Some y'" by simp
    then obtain th d s where *: "i < length (dy_threads y)" "can_step (dy_threads y ! i) y"
      "step_pc x (dy_threads y ! i) (th_pc (dy_threads y ! i)) (dy_d y) (dy_s y) = (th, d, s)"
      "y' = y\<lparr>dy_d := d, dy_s := s, dy_threads := (dy_threads y)[i := th]\<rparr>" by (rule dy_act_step)
    have "accepted (th_goal th) (th_pc th)"
      using accepted_step [OF _ *(3)] plug ok *(1) dy_inv_thread(1) [OF inv(1) *(1)] by (auto simp: threads_ok_def)
    with *(4) ok inv step_pc_frame(1) [OF *(3)] show ?thesis
      by (auto simp: threads_ok_def dest!: set_update_subset_insert [THEN subsetD])
  qed (use act ok inv in \<open>auto simp: threads_ok_def set_breaker_def split: if_splits option.splits\<close>)
qed

section \<open>Jobs keep their submission\<close>

definition pool_jobs :: "Pool \<Rightarrow> goalJob set" where
  "pool_jobs p = sb_job ` set (pp_waiting p) \<union> set (pp_queue p) \<union> {job. WBusy job \<in> set (pp_threads p)}"

fun action_goal :: "pool_action \<Rightarrow> PerENIGoalState option list" where
  "action_goal (PSubmit c g) = [g]"
| "action_goal _ = []"

text \<open>An action of the pool adds at most the job of a submission, under the next channel, and answers no call.\<close>

lemma pool_act_jobs:
  assumes "pool_act a p = Some p'"
  shows "pp_next p' = pp_next p + length (action_goal a)"
    and "\<forall>job \<in> pool_jobs p'. job \<in> pool_jobs p \<or> action_goal a = [Some (jb_goal job)] \<and> jb_chan job = pp_next p"
proof -
  show "pp_next p' = pp_next p + length (action_goal a)"
    using assms by (cases a) (auto simp: pool_eval split: if_splits option.splits list.splits worker.splits)
  have rm: "set (take i xs @ drop (Suc i) xs) \<subseteq> set xs" for i and xs :: "submitter list"
    by (auto dest: in_set_takeD in_set_dropD)
  show "\<forall>job \<in> pool_jobs p'. job \<in> pool_jobs p \<or> action_goal a = [Some (jb_goal job)] \<and> jb_chan job = pp_next p"
  proof (cases a)
    case (PSelect i)
    with assms have "map sb_job (pp_waiting p') = map sb_job (pp_waiting p)" "pp_queue p' = pp_queue p" "pp_threads p' = pp_threads p"
      by (auto simp: submit_select_def map_upd_same split: if_splits)
    then show ?thesis by (auto simp: pool_jobs_def simp flip: set_map)
  next
    case (PSend i)
    with assms rm [of i "pp_waiting p"] show ?thesis by (fastforce simp: pool_jobs_def pool_eval split: if_splits)
  next
    case (PCancel i)
    with assms rm [of i "pp_waiting p"] show ?thesis by (fastforce simp: pool_jobs_def pool_eval split: if_splits)
  next
    case (PTake i)
    with assms show ?thesis
      by (auto simp: pool_jobs_def pool_eval split: if_splits list.splits dest!: set_update_subset_insert [THEN subsetD])
  qed (use assms in \<open>auto simp: pool_jobs_def pool_eval split: if_splits option.splits worker.splits
      dest!: set_update_subset_insert [THEN subsetD]\<close>)
qed

lemma pool_act_busy:
  assumes "pool_act a p = Some p'" "no_answer a"
  shows "pp_sent p' = pp_sent p"
    and "i < length (pp_threads p) \<Longrightarrow> pp_threads p ! i = WBusy job \<Longrightarrow>
      i < length (pp_threads p') \<and> pp_threads p' ! i = WBusy job"
  using assms by (cases a; auto simp: pool_eval nth_append nth_list_update split: if_splits option.splits list.splits)+

section \<open>The invariant of the composition\<close>

definition answer_ok :: "PerENIGoalState option list \<Rightarrow> nat \<Rightarrow> ProgramResult option \<Rightarrow> bool" where
  "answer_ok subs c res \<longleftrightarrow> (\<exists>g r. c < length subs \<and> subs ! c = Some g \<and> res = Some r \<and> reports_goal g r)"

definition job_ok :: "PerENIGoalState option list \<Rightarrow> goalJob \<Rightarrow> bool" where
  "job_ok subs job \<longleftrightarrow> jb_chan job < length subs \<and> subs ! jb_chan job = Some (jb_goal job)"

definition calls_ok :: "'s dalsys \<Rightarrow> bool" where
  "calls_ok z \<longleftrightarrow> (\<forall>i c. da_call z i = Some c \<longrightarrow> i < length (pp_threads (da_pool z)) \<and>
     (\<exists>job. pp_threads (da_pool z) ! i = WBusy job \<and>
        (\<forall>k. c = Inr k \<longrightarrow> k < length (dy_threads (da_dsys z)) \<and> th_goal (dy_threads (da_dsys z) ! k) = jb_goal job)))"

definition da_inv :: "'s PluginRegistry \<Rightarrow> PerENIGoalState option list \<Rightarrow> 's dalsys \<Rightarrow> bool" where
  "da_inv registry subs z \<longleftrightarrow> threads_ok registry (da_dsys z) \<and> pool_inv (da_pool z) \<and> pp_next (da_pool z) = length subs \<and>
     (\<forall>job \<in> pool_jobs (da_pool z). job_ok subs job) \<and> calls_ok z \<and>
     (\<forall>x \<in> set (pp_sent (da_pool z)). answer_ok subs (fst x) (snd x))"

lemma ok_append: "answer_ok subs c res \<Longrightarrow> answer_ok (subs @ gs) c res" "job_ok subs job \<Longrightarrow> job_ok (subs @ gs) job"
  by (auto simp: answer_ok_def job_ok_def nth_append)

text \<open>A call that has returned has an outcome that fits the job of its worker.\<close>

lemma call_outcome_ok:
  assumes inv: "da_inv registry subs z" and out: "call_outcome i z = Some r"
  obtains job where "i < length (pp_threads (da_pool z))" "pp_threads (da_pool z) ! i = WBusy job"
    "answer_ok subs (jb_chan job) (job_result job r)"
proof -
  obtain c where c: "da_call z i = Some c" using out by (auto simp: call_outcome_def split: option.splits)
  then obtain job where job: "i < length (pp_threads (da_pool z))" "pp_threads (da_pool z) ! i = WBusy job"
    "\<And>k. c = Inr k \<Longrightarrow> k < length (dy_threads (da_dsys z)) \<and> th_goal (dy_threads (da_dsys z) ! k) = jb_goal job"
    using inv by (fastforce simp: da_inv_def calls_ok_def)
  have "job \<in> pool_jobs (da_pool z)" using job(1,2) by (auto simp: pool_jobs_def) (metis nth_mem)
  then have jok: "job_ok subs job" using inv by (simp add: da_inv_def)
  have "\<exists>q. job_result job r = Some q \<and> reports_goal (jb_goal job) q"
  proof (cases r)
    case (Inl e)
    then show ?thesis by (simp add: job_result_def reports_goal_def)
  next
    case (Inr q)
    then obtain k where k: "c = Inr k" "th_pc (dy_threads (da_dsys z) ! k) = DReturned (Inr q)"
      using out c by (auto simp: call_outcome_def split: sum.splits dpc.splits)
    then have "accepted (jb_goal job) (DReturned (Inr q))"
      using job(3) [OF k(1)] inv by (metis da_inv_def threads_ok_def nth_mem)
    then show ?thesis using Inr by (auto simp: job_result_def)
  qed
  with jok job(1,2) that show thesis by (fastforce simp: answer_ok_def job_ok_def)
qed

lemma calls_ok_mono:
  assumes ok: "calls_ok z" and sub: "\<And>i c. da_call z' i = Some c \<Longrightarrow> da_call z i = Some c"
    and busy: "\<And>i job. da_call z' i \<noteq> None \<Longrightarrow> i < length (pp_threads (da_pool z)) \<Longrightarrow> pp_threads (da_pool z) ! i = WBusy job \<Longrightarrow>
      i < length (pp_threads (da_pool z')) \<and> pp_threads (da_pool z') ! i = WBusy job"
    and goals: "length (dy_threads (da_dsys z)) \<le> length (dy_threads (da_dsys z'))"
      "\<And>k. k < length (dy_threads (da_dsys z)) \<Longrightarrow> th_goal (dy_threads (da_dsys z') ! k) = th_goal (dy_threads (da_dsys z) ! k)"
  shows "calls_ok z'"
  unfolding calls_ok_def
proof (intro allI impI)
  fix i c
  assume c: "da_call z' i = Some c"
  have "da_call z i = Some c" by (rule sub [OF c])
  then obtain job where job: "i < length (pp_threads (da_pool z))" "pp_threads (da_pool z) ! i = WBusy job"
    "\<forall>k. c = Inr k \<longrightarrow> k < length (dy_threads (da_dsys z)) \<and> th_goal (dy_threads (da_dsys z) ! k) = jb_goal job"
    using ok [unfolded calls_ok_def, rule_format, of i c] by auto
  have "i < length (pp_threads (da_pool z')) \<and> pp_threads (da_pool z') ! i = WBusy job"
    using busy [OF _ job(1,2)] c by simp
  with job(3) goals show "i < length (pp_threads (da_pool z')) \<and> (\<exists>job. pp_threads (da_pool z') ! i = WBusy job \<and>
      (\<forall>k. c = Inr k \<longrightarrow> k < length (dy_threads (da_dsys z')) \<and> th_goal (dy_threads (da_dsys z') ! k) = jb_goal job))"
    by auto
qed

lemma calls_ok_dsys: "calls_ok z \<Longrightarrow> dy_act a (da_dsys z) = Some y \<Longrightarrow> calls_ok (z\<lparr>da_dsys := y\<rparr>)"
  by (rule calls_ok_mono [of z]) (auto dest: dy_act_goals simp del: dy_act.simps)

lemma calls_ok_pool: "calls_ok z \<Longrightarrow> pool_act a (da_pool z) = Some p \<Longrightarrow> no_answer a \<Longrightarrow> calls_ok (z\<lparr>da_pool := p\<rparr>)"
  by (rule calls_ok_mono [of z]) (use pool_act_busy(2) in simp_all)

lemma calls_ok_busy:
  assumes "calls_ok z" "call_outcome i z = Some r"
  obtains job where "i < length (pp_threads (da_pool z))" "pp_threads (da_pool z) ! i = WBusy job"
proof -
  obtain c where "da_call z i = Some c" using assms(2) by (auto simp: call_outcome_def split: option.splits)
  with assms(1) that show thesis unfolding calls_ok_def by blast
qed

text \<open>A worker that ends its call changes no other worker.\<close>

lemma pool_answer_threads:
  assumes "pool_act a p = Some p'" "a = PDeliver i r \<or> a = PAbandon i"
  shows "length (pp_threads p') = length (pp_threads p)" "j \<noteq> i \<Longrightarrow> pp_threads p' ! j = pp_threads p ! j"
  using assms by (auto simp: pool_eval split: if_splits worker.splits)

lemma calls_ok_answer:
  assumes "calls_ok z" "pool_act a (da_pool z) = Some p" "a = PDeliver i r \<or> a = PAbandon i"
  shows "calls_ok (z\<lparr>da_pool := p, da_call := (da_call z)(i := None)\<rparr>)"
  by (rule calls_ok_mono [of z]) (use assms(1) pool_answer_threads [OF assms(2,3)] in \<open>auto split: if_splits\<close>)

lemma worker_dispatch_enter:
  assumes "worker_dispatch i ctxErr job z = Some z'"
  obtains e y where "e = (if ctx_done (pool_ctx (da_pool z)) (da_pool z) then Some ctxErr else None)"
    "dy_act (DEnter e (Some (jb_goal job))) (da_dsys z) = Some y"
    "z' = z\<lparr>da_dsys := y, da_call := (da_call z)(i \<mapsto>
       (case e of Some err \<Rightarrow> Inl (''dispatch cancelled: '' @ err) | None \<Rightarrow> Inr (length (dy_threads (da_dsys z)))))\<rparr>"
  using assms by (auto simp: worker_dispatch_def dispatch_enter_def Let_def split: option.splits if_splits)

lemma calls_ok_dispatch:
  assumes ok: "calls_ok z" and i: "i < length (pp_threads (da_pool z))" "pp_threads (da_pool z) ! i = WBusy job"
    and step: "worker_dispatch i ctxErr job z = Some z'"
  shows "calls_ok z'"
proof -
  obtain e y where y: "dy_act (DEnter e (Some (jb_goal job))) (da_dsys z) = Some y" and z': "z' = z\<lparr>da_dsys := y,
      da_call := (da_call z)(i \<mapsto>
        (case e of Some err \<Rightarrow> Inl (''dispatch cancelled: '' @ err) | None \<Rightarrow> Inr (length (dy_threads (da_dsys z)))))\<rparr>"
    using step by (rule worker_dispatch_enter)
  have new: "th_goal (dy_threads y ! length (dy_threads (da_dsys z))) = jb_goal job \<and> length (dy_threads y) = Suc (length (dy_threads (da_dsys z)))"
    if "e = None"
    using y that by (auto simp: dispatch_enter_def split: if_splits)
  have ok': "calls_ok (z\<lparr>da_dsys := y\<rparr>)" by (rule calls_ok_dsys [OF ok y])
  show ?thesis
    unfolding calls_ok_def
  proof (intro allI impI)
    fix j c
    assume c: "da_call z' j = Some c"
    show "j < length (pp_threads (da_pool z')) \<and> (\<exists>job. pp_threads (da_pool z') ! j = WBusy job \<and>
      (\<forall>k. c = Inr k \<longrightarrow> k < length (dy_threads (da_dsys z')) \<and> th_goal (dy_threads (da_dsys z') ! k) = jb_goal job))"
    proof (cases "j = i")
      case True
      then show ?thesis using c i new z' by (cases e) auto
    next
      case False
      then show ?thesis using ok' [unfolded calls_ok_def, rule_format, of j c] c z' by simp
    qed
  qed
qed

lemma da_inv_dsys:
  assumes plug: "\<And>p. registry ''Custom'' = Some p \<Longrightarrow> vendor_plugin (pg_Program p)"
    and inv: "da_inv registry subs z" and act: "dy_act a (da_dsys z) = Some y"
  shows "da_inv registry subs (z\<lparr>da_dsys := y\<rparr>)"
  using inv threads_ok_act [OF plug _ act] calls_ok_dsys [OF _ act] by (simp add: da_inv_def)

lemma da_inv_answer:
  assumes inv: "da_inv registry subs z" and act: "pool_act a (da_pool z) = Some p" and out: "call_outcome i z = Some r"
    and a: "a = PDeliver i r \<or> a = PAbandon i"
  shows "da_inv registry subs (z\<lparr>da_pool := p, da_call := (da_call z)(i := None)\<rparr>)"
proof -
  obtain job where job: "i < length (pp_threads (da_pool z))" "pp_threads (da_pool z) ! i = WBusy job"
    "answer_ok subs (jb_chan job) (job_result job r)" by (rule call_outcome_ok [OF inv out])
  have "action_goal a = []" using a by auto
  moreover have "pp_sent p = pp_sent (da_pool z) @ [(jb_chan job, job_result job r)] \<or> pp_sent p = pp_sent (da_pool z)"
    using act job(1,2) a by (auto simp: pool_eval split: if_splits)
  ultimately show ?thesis
    using inv job(3) pool_act_jobs [OF act] pool_inv_act [OF _ act] calls_ok_answer [OF _ act a] by (auto simp: da_inv_def)
qed

lemma da_inv_pool:
  assumes inv: "da_inv registry subs z" and act: "pool_act a (da_pool z) = Some p" and na: "no_answer a"
  shows "da_inv registry (subs @ action_goal a) (z\<lparr>da_pool := p\<rparr>)"
proof -
  have "job_ok (subs @ action_goal a) job" if "job \<in> pool_jobs p" for job
    using pool_act_jobs(2) [OF act] that inv by (auto simp: da_inv_def job_ok_def nth_append)
  then show ?thesis
    using inv pool_act_jobs(1) [OF act] pool_act_busy(1) [OF act na] pool_inv_act [OF _ act] ok_append calls_ok_pool [OF _ act na]
    by (auto simp: da_inv_def)
qed

lemma da_inv_dispatch:
  assumes plug: "\<And>p. registry ''Custom'' = Some p \<Longrightarrow> vendor_plugin (pg_Program p)"
    and inv: "da_inv registry subs z" and i: "i < length (pp_threads (da_pool z))" "pp_threads (da_pool z) ! i = WBusy job"
    and step: "worker_dispatch i ctxErr job z = Some z'"
  shows "da_inv registry subs z'"
proof -
  obtain e y where y: "dy_act (DEnter e (Some (jb_goal job))) (da_dsys z) = Some y"
    and z': "da_dsys z' = y" "da_pool z' = da_pool z"
    using step by (rule worker_dispatch_enter) simp
  have "threads_ok registry (da_dsys z)" "calls_ok z" using inv by (simp_all add: da_inv_def)
  then have "threads_ok registry y" "calls_ok z'"
    using threads_ok_act [OF plug _ y] calls_ok_dispatch [OF _ i step] by blast+
  then show ?thesis using inv z' by (simp add: da_inv_def)
qed

fun act_goal :: "da_act \<Rightarrow> PerENIGoalState option list" where
  "act_goal (APool a) = action_goal a"
| "act_goal _ = []"

lemma submissions_snoc: "submissions (as @ [a]) = submissions as @ act_goal a"
proof (induction as rule: submissions.induct)
  case 1
  show ?case
  proof (cases a)
    case (APool pa)
    then show ?thesis by (cases pa) simp_all
  qed simp_all
qed simp_all

lemma da_inv_step:
  assumes plug: "\<And>p. registry ''Custom'' = Some p \<Longrightarrow> vendor_plugin (pg_Program p)"
    and inv: "da_inv registry subs z" and step: "da_step a z = Some z'"
  shows "da_inv registry (subs @ act_goal a) z'"
proof (cases a)
  case (APool b)
  with step da_inv_pool [OF inv] show ?thesis by (auto split: if_splits)
next
  case (ADispatch i e)
  with step da_inv_dispatch [OF plug inv] show ?thesis by (auto split: if_splits worker.splits)
next
  case (ADeliver i)
  with step da_inv_answer [OF inv] show ?thesis by (auto split: option.splits simp del: pool_act.simps)
next
  case (AAbandon i)
  with step da_inv_answer [OF inv] show ?thesis by (auto split: option.splits simp del: pool_act.simps)
qed (use step da_inv_dsys [OF plug inv] in \<open>auto simp del: dy_act.simps\<close>)

lemma da_reach_inv:
  assumes "\<And>p. registry ''Custom'' = Some p \<Longrightarrow> vendor_plugin (pg_Program p)"
  shows "da_reach workers registry s as z \<Longrightarrow> da_inv registry (submissions as) z"
proof (induction rule: da_reach.induct)
  case da_init
  have "dy_inv (new_dsys registry s)" "pool_inv (NewPluginPool workers)"
    by (rule dy_reach_inv [OF dy_init], rule pool_reach_inv [OF pool_init])
  then show ?case
    by (simp add: da_inv_def new_dalsys_def threads_ok_def calls_ok_def pool_jobs_def NewPluginPool_def)
      (simp add: new_dsys_def NewPluginDispatcher_def)
next
  case (da_next as z a z')
  from da_inv_step [OF assms da_next.IH da_next.hyps(3)] show ?case by (simp add: submissions_snoc)
qed

section \<open>Runs of the parts\<close>

text \<open>Every run of the whole is a run of the pool and a run of the dispatcher.\<close>

lemma da_step_parts:
  assumes "da_step a z = Some z'"
  shows "da_pool z' = da_pool z \<or> (\<exists>b. pool_act b (da_pool z) = Some (da_pool z'))"
    and "da_dsys z' = da_dsys z \<or> (\<exists>b. dy_act b (da_dsys z) = Some (da_dsys z'))"
  using assms
  by (cases a; auto simp: worker_dispatch_def Let_def simp del: pool_act.simps dy_act.simps
      split: if_splits option.splits worker.splits)+

lemma da_reach_parts:
  "da_reach workers registry s as z \<Longrightarrow>
     (\<exists>ps. pool_reach workers ps (da_pool z)) \<and> (\<exists>ds. dy_reach registry s ds (da_dsys z))"
proof (induction rule: da_reach.induct)
  case da_init
  have "pool_reach workers [] (da_pool (new_dalsys workers registry s)) \<and> dy_reach registry s [] (da_dsys (new_dalsys workers registry s))"
    by (simp add: new_dalsys_def pool_init dy_init)
  then show ?case by blast
next
  case (da_next as z a z')
  then obtain ps ds where parts: "pool_reach workers ps (da_pool z)" "dy_reach registry s ds (da_dsys z)" by blast
  from da_step_parts [OF da_next.hyps(3)] show ?case using parts da_next.hyps(2) by (auto intro: pool_next dy_next)
qed

lemma da_run_reach:
  "da_run bs z = Some w \<Longrightarrow> da_reach workers registry s as z \<Longrightarrow> da_reach workers registry s (as @ bs) w"
proof (induction bs arbitrary: as z)
  case (Cons b bs)
  then obtain z' where z': "pp_crashed (da_pool z) = None" "da_step b z = Some z'" "da_run bs z' = Some w"
    by (auto split: if_splits option.splits)
  with Cons.IH [OF z'(3) da_next [OF Cons.prems(2) z'(1,2)]] show ?case by simp
qed simp

lemma da_run_init: "da_run as (new_dalsys workers registry s) = Some z \<Longrightarrow> da_reach workers registry s as z"
  using da_run_reach [OF _ da_init] by fastforce

section \<open>Every submission can be answered\<close>

text \<open>
  Before the queue is closed there is at most one context; until it is done, all workers of the pool are at work.
\<close>

definition pool_alive :: "Pool \<Rightarrow> bool" where
  "pool_alive p \<longleftrightarrow> 0 < pp_workers p \<and>
     (pp_queueClosed p \<or> \<not> pp_running p \<and> pp_ctxs p = [] \<and> pp_threads p = [] \<or>
      pp_running p \<and> length (pp_ctxs p) = 1 \<and> length (pp_threads p) = pp_workers p \<and>
      (pp_ctxs p ! 0 \<or> WExit \<notin> set (pp_threads p)))"

lemma not_in_update: "x \<notin> set xs \<Longrightarrow> x \<noteq> v \<Longrightarrow> x \<notin> set (xs[i := v])"
  by (meson insertE set_update_subset_insert subsetD)

lemma pool_alive_act:
  assumes al: "pool_alive p" and act: "pool_act a p = Some p'"
  shows "pool_alive p'"
proof (cases a)
  case (PCtxCancel k)
  with act al show ?thesis by (auto simp: pool_alive_def cancel_ctx_def nth_list_update split: if_splits)
next
  case (PSubmit c g)
  with act al show ?thesis by (auto simp: pool_alive_def submit_begin_def Let_def split: if_splits option.splits)
next
  case (PTake i)
  with act al show ?thesis by (auto simp: pool_alive_def set_worker_def not_in_update split: if_splits list.splits)
next
  case (PDeliver i r)
  with act al show ?thesis by (auto simp: pool_alive_def set_worker_def not_in_update split: if_splits worker.splits)
next
  case (PAbandon i)
  with act al show ?thesis
    by (auto simp: pool_alive_def set_worker_def ctx_done_def pool_ctx_def split: if_splits worker.splits)
qed (use act al in \<open>auto simp: pool_alive_def pool_eval split: if_splits\<close>)

lemma pool_reach_alive: "pool_reach workers ps p \<Longrightarrow> pool_alive p"
proof (induction rule: pool_reach.induct)
  case pool_init
  show ?case by (simp add: pool_alive_def NewPluginPool_def)
qed (rule pool_alive_act)

text \<open>The pool is running with an open queue, its context is not done, and no reset holds the dispatcher's mutex.\<close>

definition serving :: "'s dalsys \<Rightarrow> bool" where
  "serving z \<longleftrightarrow> pp_crashed (da_pool z) = None \<and> pp_running (da_pool z) \<and> \<not> pp_queueClosed (da_pool z) \<and>
     \<not> ctx_done (pool_ctx (da_pool z)) (da_pool z) \<and> dy_reset (da_dsys z) = None"

definition ready :: "'s dalsys \<Rightarrow> bool" where
  "ready z \<longleftrightarrow> serving z \<and> dy_inv (da_dsys z) \<and> calls_ok z \<and> pool_alive (da_pool z)"

text \<open>The work left: each weight is above the one of the place the job goes to next.\<close>

definition waiting_work :: "Pool \<Rightarrow> nat" where
  "waiting_work p = sum_list (map (\<lambda>w. if sb_ctx w = None then 25 else 24) (pp_waiting p))"

definition worker_work :: "(nat \<rightharpoonup> string + nat) \<Rightarrow> worker list \<Rightarrow> nat" where
  "worker_work calls ws =
     sum_list (map (\<lambda>i. case ws ! i of WBusy _ \<Rightarrow> if calls i = None then 22 else 1 | _ \<Rightarrow> 0) [0..<length ws])"

definition work_left :: "'s dalsys \<Rightarrow> nat" where
  "work_left z = waiting_work (da_pool z) + 23 * length (pp_queue (da_pool z)) +
     worker_work (da_call z) (pp_threads (da_pool z)) + total_left steps_left (da_dsys z)"

lemma sum_upt_change:
  assumes "i < n" "\<And>j. j < n \<Longrightarrow> j \<noteq> i \<Longrightarrow> f j = g j"
  shows "sum_list (map f [0..<n]) + g i = sum_list (map g [0..<n]) + (f i :: nat)"
proof -
  have "sum f {0..<n} = f i + sum f ({0..<n} - {i})" "sum g {0..<n} = g i + sum g ({0..<n} - {i})"
    using assms(1) by (simp_all add: sum.remove)
  moreover have "sum f ({0..<n} - {i}) = sum g ({0..<n} - {i})" using assms(2) by (intro sum.cong) auto
  ultimately show ?thesis by (simp add: interv_sum_list_conv_sum_set_nat)
qed

lemma worker_work_change:
  assumes "i < length ws" "length ws' = length ws" "\<And>j. j \<noteq> i \<Longrightarrow> ws' ! j = ws ! j \<and> calls' j = calls j"
  shows "worker_work calls' ws' + (case ws ! i of WBusy _ \<Rightarrow> if calls i = None then 22 else 1 | _ \<Rightarrow> 0) =
    worker_work calls ws + (case ws' ! i of WBusy _ \<Rightarrow> if calls' i = None then 22 else 1 | _ \<Rightarrow> 0)"
  unfolding worker_work_def assms(2)
  by (rule sum_upt_change [OF assms(1)]) (use assms(3) in \<open>auto split: worker.splits\<close>)

lemma waiting_work_remove:
  "i < length (pp_waiting p) \<Longrightarrow>
     waiting_work p = (if sb_ctx (pp_waiting p ! i) = None then 25 else 24) +
       waiting_work (p\<lparr>pp_waiting := take i (pp_waiting p) @ drop (Suc i) (pp_waiting p)\<rparr>)"
  unfolding waiting_work_def by (subst (1) id_take_nth_drop [of i "pp_waiting p"]) simp_all

lemma calls_ok_step: "calls_ok z \<Longrightarrow> da_step a z = Some z' \<Longrightarrow> calls_ok z'"
  by (cases a) (auto simp del: pool_act.simps dy_act.simps split: if_splits option.splits worker.splits
      intro: calls_ok_pool calls_ok_dsys calls_ok_dispatch elim: calls_ok_answer)

lemma ready_step:
  assumes "ready z" "da_step a z = Some z'" "serving z'"
  shows "ready z'"
  using assms da_step_parts [OF assms(2)] calls_ok_step [OF _ assms(2)] pool_alive_act dy_inv_act
  by (auto simp: ready_def simp del: pool_act.simps dy_act.simps)

section \<open>Work gets done\<close>

text \<open>Some action other than a submission brings the work forward and closes no channel without an answer.\<close>

definition advances :: "'s dalsys \<Rightarrow> bool" where
  "advances z \<longleftrightarrow> (\<exists>a z'. da_step a z = Some z' \<and> serving z' \<and> work_left z' < work_left z \<and> act_goal a = [] \<and>
     pp_closed (da_pool z') = pp_closed (da_pool z))"

lemma advancesI:
  "da_step a z = Some z' \<Longrightarrow> work_left z' < work_left z \<Longrightarrow> serving z' \<Longrightarrow> act_goal a = [] \<Longrightarrow>
     pp_closed (da_pool z') = pp_closed (da_pool z) \<Longrightarrow> advances z"
  unfolding advances_def by blast

lemma work_step:
  assumes "ready z" "0 < in_flight (da_dsys z)"
  shows "advances z"
proof -
  have inv: "dy_inv (da_dsys z)" "dy_reset (da_dsys z) = None" using assms(1) by (simp_all add: ready_def serving_def)
  obtain i where i: "i < length (dy_threads (da_dsys z))" "can_step (dy_threads (da_dsys z) ! i) (da_dsys z)"
    using dy_progress [OF inv assms(2)] by blast
  obtain x :: seen where True by blast
  from can_step_act [OF i] obtain y where y: "dy_act (DStep i x) (da_dsys z) = Some y" by blast
  from dy_step_less [OF inv(1) y] assms(1) y show ?thesis
    by (intro advancesI [of "AStep i x" z "z\<lparr>da_dsys := y\<rparr>"])
      (auto simp: ready_def serving_def work_left_def simp del: dy_act.simps)
qed

lemma work_dispatch:
  assumes "ready z" "i < length (pp_threads (da_pool z))" "pp_threads (da_pool z) ! i = WBusy job" "da_call z i = None"
  shows "advances z"
proof -
  obtain y where y: "dy_act (DEnter None (Some (jb_goal job))) (da_dsys z) = Some y" "dy_reset y = None"
    "total_left steps_left y = total_left steps_left (da_dsys z) + 18"
    using assms(1) by (auto simp: ready_def serving_def dispatch_enter_def total_left_def)
  let ?z = "z\<lparr>da_dsys := y, da_call := (da_call z)(i \<mapsto> Inr (length (dy_threads (da_dsys z))))\<rparr>"
  have "da_step (ADispatch i '''') z = Some ?z"
    using assms y(1) by (simp add: worker_dispatch_def ready_def serving_def dispatch_enter_def)
  moreover have "work_left ?z < work_left z"
    using worker_work_change [OF assms(2), of "pp_threads (da_pool z)" "da_call ?z" "da_call z"] assms(3,4) y(3)
    by (simp add: work_left_def)
  moreover have "serving ?z" using assms(1) y(2) by (simp add: ready_def serving_def)
  ultimately show ?thesis by (rule advancesI) simp_all
qed

lemma work_deliver:
  assumes rd: "ready z" and i: "i < length (pp_threads (da_pool z))" "pp_threads (da_pool z) ! i = WBusy job"
    and c: "da_call z i = Some c" and fl: "in_flight (da_dsys z) = 0"
  shows "advances z"
proof -
  have "returned (th_pc (dy_threads (da_dsys z) ! k))" if "c = Inr k" for k
  proof -
    have "k < length (dy_threads (da_dsys z))"
      using rd c that by (auto simp: ready_def calls_ok_def)
    then show ?thesis using fl by (auto simp: in_flight_def filter_empty_conv)
  qed
  then obtain r where r: "call_outcome i z = Some r"
    using c by (cases c) (auto simp: call_outcome_def elim: returned.elims)
  let ?p = "set_worker i WIdle ((da_pool z)\<lparr>pp_sent := pp_sent (da_pool z) @ [(jb_chan job, job_result job r)]\<rparr>)"
  let ?z = "z\<lparr>da_pool := ?p, da_call := (da_call z)(i := None)\<rparr>"
  have "da_step (ADeliver i) z = Some ?z" using r i by simp
  moreover have "work_left ?z < work_left z"
    using worker_work_change [OF i(1), of "pp_threads ?p" "da_call ?z" "da_call z"] i c
    by (simp add: work_left_def waiting_work_def set_worker_def)
  moreover have "serving ?z" using rd by (simp add: ready_def serving_def set_worker_def ctx_done_def pool_ctx_def)
  ultimately show ?thesis by (rule advancesI) (simp_all add: set_worker_def submit_select_def)
qed

lemma work_take:
  assumes rd: "ready z" and i: "i < length (pp_threads (da_pool z))" "pp_threads (da_pool z) ! i = WIdle"
    and q: "pp_queue (da_pool z) = job # rest"
  shows "advances z"
proof -
  have "calls_ok z" using rd by (simp add: ready_def)
  then have "da_call z i = None" using i(2) unfolding calls_ok_def by (metis not_None_eq worker.distinct(1))
  let ?p = "set_worker i (WBusy job) ((da_pool z)\<lparr>pp_queue := rest\<rparr>)"
  let ?z = "z\<lparr>da_pool := ?p\<rparr>"
  have "da_step (APool (PTake i)) z = Some ?z" using i q by simp
  moreover have "work_left ?z < work_left z"
    using worker_work_change [OF i(1), of "pp_threads ?p" "da_call z" "da_call z"] i q \<open>da_call z i = None\<close>
    by (simp add: work_left_def waiting_work_def set_worker_def)
  moreover have "serving ?z" using rd by (simp add: ready_def serving_def set_worker_def ctx_done_def pool_ctx_def)
  ultimately show ?thesis by (rule advancesI) (simp_all add: set_worker_def submit_select_def)
qed

lemma work_submit:
  assumes rd: "ready z" and w: "pp_waiting (da_pool z) = w # ws" and q: "pp_queue (da_pool z) = []"
  shows "advances z"
proof (cases "sb_ctx w")
  case None
  let ?z = "z\<lparr>da_pool := submit_select 0 (da_pool z)\<rparr>"
  have "da_step (APool (PSelect 0)) z = Some ?z" using w None by simp
  moreover have "work_left ?z < work_left z" "serving ?z"
    using rd w None by (simp_all add: work_left_def waiting_work_def submit_select_def ready_def serving_def ctx_done_def pool_ctx_def)
  ultimately show ?thesis by (rule advancesI) (simp_all add: set_worker_def submit_select_def)
next
  case (Some k)
  let ?p = "(da_pool z)\<lparr>pp_queue := [sb_job w], pp_waiting := ws\<rparr>"
  let ?z = "z\<lparr>da_pool := ?p\<rparr>"
  have "da_step (APool (PSend 0)) z = Some ?z"
    using rd w Some q by (simp add: ready_def serving_def pool_alive_def queue_capacity_def submit_send_def)
  moreover have "work_left ?z < work_left z" "serving ?z"
    using rd w Some q by (simp_all add: work_left_def waiting_work_def ready_def serving_def ctx_done_def pool_ctx_def)
  ultimately show ?thesis by (rule advancesI) (simp_all add: set_worker_def submit_select_def)
qed

lemma ready_advances:
  assumes rd: "ready z" and op: "open_chans (da_pool z) \<noteq> {#}"
  shows "advances z"
proof (cases "0 < in_flight (da_dsys z)")
  case True
  with rd show ?thesis by (rule work_step)
next
  case fl: False
  show ?thesis
  proof (cases "\<exists>i job. i < length (pp_threads (da_pool z)) \<and> pp_threads (da_pool z) ! i = WBusy job")
    case True
    then obtain i job where "i < length (pp_threads (da_pool z))" "pp_threads (da_pool z) ! i = WBusy job" by blast
    with rd fl show ?thesis by (cases "da_call z i") (auto intro: work_dispatch work_deliver)
  next
    case False
    then have none: "concat (map worker_jobs (pp_threads (da_pool z))) = []"
      by (auto simp: in_set_conv_nth) (metis worker_jobs.elims)
    have "0 < length (pp_threads (da_pool z))" "WExit \<notin> set (pp_threads (da_pool z))"
      using rd by (auto simp: ready_def serving_def pool_alive_def ctx_done_def pool_ctx_def)
    with False have idle: "0 < length (pp_threads (da_pool z))" "pp_threads (da_pool z) ! 0 = WIdle"
      by (metis, metis nth_mem worker.exhaust)
    show ?thesis
    proof (cases "pp_queue (da_pool z)")
      case (Cons job rest)
      with work_take [OF rd idle] show ?thesis by blast
    next
      case Nil
      with op none obtain w ws where "pp_waiting (da_pool z) = w # ws"
        by (cases "pp_waiting (da_pool z)") (simp_all add: open_chans_def)
      with work_submit [OF rd _ Nil] show ?thesis by blast
    qed
  qed
qed

lemma da_can_finish:
  assumes "ready z"
  shows "\<exists>bs z'. da_run bs z = Some z' \<and> (\<forall>b \<in> set bs. act_goal b = []) \<and> open_chans (da_pool z') = {#} \<and>
    pp_closed (da_pool z') = pp_closed (da_pool z)"
  using assms
proof (induction "work_left z" arbitrary: z rule: less_induct)
  case less
  show ?case
  proof (cases "open_chans (da_pool z) = {#}")
    case True
    then show ?thesis by (intro exI [of _ "[]"]) auto
  next
    case False
    then obtain a z1 where a: "da_step a z = Some z1" "serving z1" "work_left z1 < work_left z" "act_goal a = []"
      "pp_closed (da_pool z1) = pp_closed (da_pool z)"
      using ready_advances [OF less.prems] unfolding advances_def by blast
    obtain bs z' where "da_run bs z1 = Some z'" "\<forall>b \<in> set bs. act_goal b = []" "open_chans (da_pool z') = {#}"
      "pp_closed (da_pool z') = pp_closed (da_pool z1)"
      using less.hyps [OF a(3) ready_step [OF less.prems a(1,2)]] by blast
    moreover have "pp_crashed (da_pool z) = None" using less.prems by (simp add: ready_def serving_def)
    ultimately show ?thesis using a by (intro exI [of _ "a # bs"] exI [of _ z']) simp
  qed
qed

lemma da_reach_calls: "da_reach workers registry s as z \<Longrightarrow> calls_ok z"
proof (induction rule: da_reach.induct)
  case da_init
  show ?case by (simp add: calls_ok_def new_dalsys_def)
qed (rule calls_ok_step)

lemma submissions_append: "\<forall>b \<in> set bs. act_goal b = [] \<Longrightarrow> submissions (as @ bs) = submissions as"
proof (induction bs rule: rev_induct)
  case (snoc b bs)
  then show ?case using submissions_snoc [of "as @ bs" b] by simp
qed simp

section \<open>Properties\<close>

text \<open>One goal is submitted, queued, taken, dispatched in six steps and answered.\<close>

definition answer_schedule :: "da_act list" where
  "answer_schedule = [APool (PStart False), APool (PSubmit False (Some example_goal)), APool (PSelect 0), APool (PSend 0),
     APool (PTake 0), ADispatch 0 ''''] @ replicate 6 (AStep 0 example_seen) @ [ADeliver 0]"

text \<open>C15: An answer belongs to the submission it is sent to. For plugins that report the interface and the version of
  the goal they program, in every reachable state of the pool and the dispatcher together, under every interleaving of
  callers, workers, cancellations and resets, no two results are sent on one channel; a result is never nil, names the interface of the goal
  that was submitted on that channel, and says success only with the version of that goal.\<close>

theorem dal_answers_submission:
  assumes "\<And>p. registry ''Custom'' = Some p \<Longrightarrow> vendor_plugin (pg_Program p)"
    and "da_reach workers registry s as z"
  shows "distinct (map fst (pp_sent (da_pool z))) \<and>
    (\<forall>(c, res) \<in> set (pp_sent (da_pool z)). \<exists>g r. c < length (submissions as) \<and> submissions as ! c = Some g \<and> res = Some r \<and>
       pr_ENI_ID r = gs_ENI_ID g \<and> (pr_Success r \<longrightarrow> pr_AppliedVersion r = gs_Version g))"
proof -
  have inv: "da_inv registry (submissions as) z" using da_reach_inv [OF _ assms(2)] assms(1) by blast
  then have "distinct (map fst (pp_sent (da_pool z)))" using pool_inv_distinct by (auto simp: da_inv_def)
  with inv show ?thesis by (fastforce simp: da_inv_def answer_ok_def reports_goal_def)
qed

theorem dal_answers_submission_witness:
  "\<exists>z. da_reach 1 [''Custom'' \<mapsto> NewCustomPlugin] () answer_schedule z \<and> map fst (pp_sent (da_pool z)) = [0] \<and>
     (\<forall>(c, res) \<in> set (pp_sent (da_pool z)). \<exists>r. res = Some r \<and> pr_ENI_ID r = ''e'')"
proof -
  let ?r = "da_run answer_schedule (new_dalsys 1 [''Custom'' \<mapsto> NewCustomPlugin] ())"
  have "case ?r of None \<Rightarrow> False | Some z \<Rightarrow> map fst (pp_sent (da_pool z)) = [0]"
    by code_simp
  then obtain z where z: "?r = Some z" "map fst (pp_sent (da_pool z)) = [0]" by (auto split: option.splits)
  have plug: "vendor_plugin (pg_Program p)" if "[''Custom'' \<mapsto> NewCustomPlugin] ''Custom'' = Some p" for p :: "unit Plugin"
    using that custom.vendor_plugin_axioms by (auto simp: NewCustomPlugin_def)
  have subs: "submissions answer_schedule = [Some example_goal]" by code_simp
  from dal_answers_submission [OF plug da_run_init [OF z(1)]] da_run_init [OF z(1)] z(2) subs show ?thesis
    by (fastforce simp: example_goal_def)
qed

text \<open>C16: Every submission can be answered while the service runs. From every reachable state of the pool and the dispatcher in which
  nothing has panicked, the pool is running, its job queue was not closed by an earlier \<open>Shutdown\<close> (a restarted pool keeps the closed queue, and
  a waiting \<open>Submit\<close> panics there), its context is not done and no manual reset holds the dispatcher's mutex, there is a continuation without
  further submissions after which nothing is waiting, queued or being worked on: every call made so far has its answer, and no
  channel was closed without a result on the way.\<close>

theorem dal_serves_all:
  assumes "da_reach workers registry s as z" and "pp_crashed (da_pool z) = None" and "pp_running (da_pool z)"
    and "\<not> pp_queueClosed (da_pool z)" and "\<not> ctx_done (pool_ctx (da_pool z)) (da_pool z)" and "dy_reset (da_dsys z) = None"
  shows "\<exists>bs z'. da_reach workers registry s (as @ bs) z' \<and> submissions (as @ bs) = submissions as \<and>
    open_chans (da_pool z') = {#} \<and> pp_closed (da_pool z') = pp_closed (da_pool z) \<and>
    set (map fst (pp_sent (da_pool z')) @ pp_closed (da_pool z')) = {..<pp_next (da_pool z')}"
proof -
  obtain ps ds where parts: "pool_reach workers ps (da_pool z)" "dy_reach registry s ds (da_dsys z)"
    using da_reach_parts [OF assms(1)] by blast
  have "serving z" using assms(2-6) by (simp add: serving_def)
  then have "ready z"
    using dy_reach_inv [OF parts(2)] da_reach_calls [OF assms(1)] pool_reach_alive [OF parts(1)] by (simp add: ready_def)
  then obtain bs z' where z': "da_run bs z = Some z'" "\<forall>b \<in> set bs. act_goal b = []" "open_chans (da_pool z') = {#}"
    "pp_closed (da_pool z') = pp_closed (da_pool z)"
    using da_can_finish by blast
  have reach: "da_reach workers registry s (as @ bs) z'" by (rule da_run_reach [OF z'(1) assms(1)])
  then obtain qs where "pool_reach workers qs (da_pool z')" using da_reach_parts [OF reach] by blast
  then have "set (map fst (pp_sent (da_pool z')) @ pp_closed (da_pool z')) = {..<pp_next (da_pool z')}"
    using pool_inv_answered [OF pool_reach_inv z'(3)] by blast
  with reach z' submissions_append [OF z'(2), of as] show ?thesis by blast
qed

theorem dal_serves_all_witness:
  "\<exists>z bs z'. da_run (take 4 answer_schedule) (new_dalsys 1 [''Custom'' \<mapsto> failing_plugin] 0) = Some z \<and>
     da_reach 1 [''Custom'' \<mapsto> failing_plugin] 0 (take 4 answer_schedule @ bs) z' \<and> open_chans (da_pool z') = {#}"
proof -
  let ?r = "da_run (take 4 answer_schedule) (new_dalsys 1 [''Custom'' \<mapsto> failing_plugin] 0)"
  have "case ?r of None \<Rightarrow> False | Some z \<Rightarrow> serving z" by code_simp
  then obtain z where z: "?r = Some z" "serving z" by (auto split: option.splits)
  have "\<exists>bs z'. da_reach 1 [''Custom'' \<mapsto> failing_plugin] 0 (take 4 answer_schedule @ bs) z' \<and> open_chans (da_pool z') = {#}"
    using dal_serves_all [OF da_run_init [OF z(1)]] z(2) unfolding serving_def by auto
  with z(1) show ?thesis by blast
qed

end
