(* ===== verification/FM_Testutil.thy ===== *)
theory FM_Testutil
  imports Go_Float
begin

text \<open>
  The test doubles of the Fabric Manager (\<^verbatim>\<open>mocks.go\<close> and \<^verbatim>\<open>errors.go\<close> of \<^verbatim>\<open>src/FM/pkg/testutil\<close>): a device that fails and
  crashes on demand, a discovery that lists healthy devices, and assertions. The random number that a call draws is an argument; a
  device is behind a pointer, and the discovery holds addresses of a store.
\<close>

section \<open>Devices\<close>

definition ErrReplicaCrashed :: string where
  "ErrReplicaCrashed = ''replica crashed''"

definition ErrReplicaFailed :: string where
  "ErrReplicaFailed = ''replica failed''"

record MockReplicaConfig =
  mrc_FailureRate :: rat
  mrc_LatencyMs :: int
  mrc_LatencyJitter :: int
  mrc_Crash :: bool
  mrc_CrashAfterN :: int

record MockReplica =
  mr_ID :: string
  mr_Config :: MockReplicaConfig
  mr_Healthy :: bool
  mr_requests :: int
  mr_errors :: int

text \<open>The error rate is a quotient; \<open>None\<close> stands for the NaN that Go makes of a division of zero by zero.\<close>

record ReplicaHealth =
  rh_Healthy :: bool
  rh_Requests :: int
  rh_Errors :: int
  rh_LastUpdate :: time
  rh_ErrorRate :: "rat option"

definition NewMockReplica :: "string \<Rightarrow> MockReplicaConfig \<Rightarrow> MockReplica" where
  "NewMockReplica ident config = \<lparr>mr_ID = ident, mr_Config = config, mr_Healthy = True, mr_requests = 0, mr_errors = 0\<rparr>"

text \<open>The call with the number it draws: the error, how long the call sleeps, and the new state.\<close>

definition mr_Program :: "rat \<Rightarrow> MockReplica \<Rightarrow> string option \<times> duration \<times> MockReplica" where
  "mr_Program draw m =
     (let m1 = m\<lparr>mr_requests := i64 (mr_requests m + 1)\<rparr>
      in if mrc_Crash (mr_Config m1) \<and> mr_requests m1 > mrc_CrashAfterN (mr_Config m1)
         then (Some ErrReplicaCrashed, 0, m1\<lparr>mr_Healthy := False, mr_errors := i64 (mr_errors m1 + 1)\<rparr>)
         else let slept = i64 (mrc_LatencyMs (mr_Config m1) * Millisecond)
              in if draw < mrc_FailureRate (mr_Config m1)
                 then (Some ErrReplicaFailed, slept, m1\<lparr>mr_errors := i64 (mr_errors m1 + 1)\<rparr>)
                 else (None, slept, m1))"

definition mr_Health :: "time \<Rightarrow> MockReplica \<Rightarrow> ReplicaHealth" where
  "mr_Health now m =
     \<lparr>rh_Healthy = mr_Healthy m, rh_Requests = mr_requests m, rh_Errors = mr_errors m, rh_LastUpdate = now,
      rh_ErrorRate = (if mr_requests m = 0 then None else Some (of_int (mr_errors m) / of_int (mr_requests m)))\<rparr>"

definition mr_Reset :: "MockReplica \<Rightarrow> MockReplica" where
  "mr_Reset m = m\<lparr>mr_requests := 0, mr_errors := 0, mr_Healthy := True\<rparr>"

text \<open>A sequence of calls, with the errors they return.\<close>

fun mr_calls :: "rat list \<Rightarrow> MockReplica \<Rightarrow> string option list \<times> MockReplica" where
  "mr_calls [] m = ([], m)"
| "mr_calls (draw # draws) m =
     (let (err, slept, m1) = mr_Program draw m; (errs, m2) = mr_calls draws m1 in (err # errs, m2))"

section \<open>Discovery\<close>

type_synonym fm_MockDiscovery = "string \<rightharpoonup> nat"

definition fm_NewMockDiscovery :: fm_MockDiscovery where
  "fm_NewMockDiscovery = Map.empty"

definition AddReplica :: "(nat \<Rightarrow> MockReplica) \<Rightarrow> nat \<Rightarrow> fm_MockDiscovery \<Rightarrow> fm_MockDiscovery" where
  "AddReplica store replica d = d(mr_ID (store replica) \<mapsto> replica)"

definition RemoveReplica :: "string \<Rightarrow> fm_MockDiscovery \<Rightarrow> fm_MockDiscovery" where
  "RemoveReplica ident d = d(ident := None)"

text \<open>The healthy devices, in the order in which the map is iterated.\<close>

definition fm_GetReplicas :: "string list \<Rightarrow> (nat \<Rightarrow> MockReplica) \<Rightarrow> time \<Rightarrow> fm_MockDiscovery \<Rightarrow> nat list" where
  "fm_GetReplicas order store now d =
     filter (\<lambda>a. rh_Healthy (mr_Health now (store a))) (List.map_filter d order)"

section \<open>Assertions\<close>

text \<open>An assertion reports texts to the test; \<open>show\<close> is the format \<open>%v\<close>.\<close>

definition AssertEqual :: "('v \<Rightarrow> string) \<Rightarrow> 'v \<Rightarrow> 'v \<Rightarrow> string \<Rightarrow> string list" where
  "AssertEqual sprintv expected actual msg =
     (if expected \<noteq> actual then [msg @ '': expected '' @ sprintv expected @ '', got '' @ sprintv actual] else [])"

definition AssertTrue :: "bool \<Rightarrow> string \<Rightarrow> string list" where
  "AssertTrue condition msg = (if \<not> condition then [msg @ '': expected true, got false''] else [])"

definition AssertNil :: "('v \<Rightarrow> string) \<Rightarrow> 'v option \<Rightarrow> string \<Rightarrow> string list" where
  "AssertNil sprintv v msg = (case v of Some x \<Rightarrow> [msg @ '': expected nil, got '' @ sprintv x] | None \<Rightarrow> [])"

definition AssertNotNil :: "'v option \<Rightarrow> string \<Rightarrow> string list" where
  "AssertNotNil v msg = (if v = None then [msg @ '': expected not nil, got nil''] else [])"

section \<open>Lemmas\<close>

lemma mr_Program_counts:
  assumes "0 \<le> mr_requests m" and "mr_requests m < 2 ^ 63 - 1" and "0 \<le> mr_errors m" and "mr_errors m \<le> mr_requests m"
  shows "case mr_Program draw m of (err, slept, m') \<Rightarrow>
    mr_requests m' = mr_requests m + 1 \<and> mr_errors m' = mr_errors m + (if err = None then 0 else 1) \<and>
    mr_Config m' = mr_Config m \<and> mr_ID m' = mr_ID m"
  using assms by (auto simp: mr_Program_def Let_def i64_id is_i64_def)

text \<open>The counters are exact: a device counts its calls and those of them that failed.\<close>

lemma mock_replica_counts:
  assumes "mr_requests m = int a" and "mr_errors m = int b" and "b \<le> a" and "a + length draws < 2 ^ 63"
  shows "case mr_calls draws m of (errs, m') \<Rightarrow>
    mr_requests m' = int (a + length draws) \<and> mr_errors m' = int (b + length (filter (\<lambda>e. e \<noteq> None) errs)) \<and>
    mr_Config m' = mr_Config m \<and> mr_ID m' = mr_ID m"
  using assms
proof (induction draws arbitrary: m a b)
  case (Cons draw draws)
  obtain err slept m1 where 1: "mr_Program draw m = (err, slept, m1)" by (cases "mr_Program draw m") auto
  have "int a < 2 ^ 63 - 1" using Cons.prems(4) by simp
  then have c: "mr_requests m1 = int (a + 1)" "mr_errors m1 = int (b + (if err = None then 0 else 1))"
      "mr_Config m1 = mr_Config m" "mr_ID m1 = mr_ID m"
    using mr_Program_counts [of m draw] 1 Cons.prems(1-3) by auto
  show ?case using Cons.IH [OF c(1,2)] Cons.prems(3,4) c(3,4) by (auto simp: 1 split: prod.splits if_splits)
qed simp

text \<open>A device told to crash serves as many calls as its configuration says; after that every call fails, the device is unhealthy and
  the discovery no longer lists it.\<close>

lemma mock_replica_crash:
  assumes "mrc_Crash (mr_Config m)" and "mrc_CrashAfterN (mr_Config m) = int k" and "mr_requests m = int a" and "a < 2 ^ 63 - 1"
  shows "(fst (mr_Program draw m) = Some ErrReplicaCrashed \<longleftrightarrow> k \<le> a) \<and>
    (k \<le> a \<longrightarrow> \<not> mr_Healthy (snd (snd (mr_Program draw m))))"
proof -
  have "i64 (int a + 1) = int a + 1" using assms(4) by (intro i64_id) (simp add: is_i64_def)
  then show ?thesis using assms(1-3) by (auto simp: mr_Program_def Let_def ErrReplicaCrashed_def ErrReplicaFailed_def)
qed

lemma discovery_lists_healthy:
  assumes "dom d \<subseteq> set order"
  shows "a \<in> set (fm_GetReplicas order store now d) \<longleftrightarrow> a \<in> ran d \<and> mr_Healthy (store a)"
  using assms by (auto simp: fm_GetReplicas_def mr_Health_def map_filter_def ran_def intro!: image_eqI)

end
