(* ===== verification/WV_Balancer.thy ===== *)
theory WV_Balancer
  imports Go_Float "HOL-Library.Word" "HOL-Library.Multiset"
begin

text \<open>
  The replicas of the gateway (\<^verbatim>\<open>src/Weaver/pkg/gateway/types.go\<close>) and its load-balancing strategies
  (\<^verbatim>\<open>src/Weaver/pkg/loadbalancer/strategies.go\<close>). A slice of replica pointers is a list of replicas and a pointer into it is an
  index; a selection returns the index of the replica, or an error. The interface of a strategy is a locale, which
  every strategy of the source interprets.
\<close>

section \<open>Replicas\<close>

definition i32 :: "int \<Rightarrow> int" where
  "i32 x = (x + 2 ^ 31) mod 2 ^ 32 - 2 ^ 31"

record ReplicaMetrics =
  rm_RequestCount :: int
  rm_ErrorCount :: int
  rm_TotalLatency :: int
  rm_LastCheckTime :: time
  rm_LastErrorTime :: time
  rm_AvgLatencyMs :: int
  rm_ConsecutiveErrors :: int

record Replica =
  rep_Name :: string
  rep_Address :: string
  rep_Healthy :: bool
  rep_Metrics :: ReplicaMetrics
  rep_ActiveConnections :: int

definition zero_metrics :: ReplicaMetrics where
  "zero_metrics =
     \<lparr>rm_RequestCount = 0, rm_ErrorCount = 0, rm_TotalLatency = 0, rm_LastCheckTime = 0, rm_LastErrorTime = 0,
      rm_AvgLatencyMs = 0, rm_ConsecutiveErrors = 0\<rparr>"

text \<open>The composite literal with which the gateway makes a replica of discovered data.\<close>

definition NewReplica :: "string \<Rightarrow> string \<Rightarrow> bool \<Rightarrow> Replica" where
  "NewReplica name address healthy =
     \<lparr>rep_Name = name, rep_Address = address, rep_Healthy = healthy, rep_Metrics = zero_metrics,
      rep_ActiveConnections = 0\<rparr>"

definition rep_RecordSuccess :: "time \<Rightarrow> duration \<Rightarrow> Replica \<Rightarrow> Replica" where
  "rep_RecordSuccess now latency r =
     r\<lparr>rep_Metrics := (rep_Metrics r)
         \<lparr>rm_RequestCount := i64 (rm_RequestCount (rep_Metrics r) + 1),
          rm_TotalLatency := i64 (rm_TotalLatency (rep_Metrics r) + latency),
          rm_ConsecutiveErrors := 0,
          rm_LastCheckTime := now\<rparr>\<rparr>"

definition rep_RecordError :: "time \<Rightarrow> Replica \<Rightarrow> Replica" where
  "rep_RecordError now r =
     r\<lparr>rep_Metrics := (rep_Metrics r)
         \<lparr>rm_ErrorCount := i64 (rm_ErrorCount (rep_Metrics r) + 1),
          rm_ConsecutiveErrors := i32 (rm_ConsecutiveErrors (rep_Metrics r) + 1),
          rm_LastErrorTime := now\<rparr>\<rparr>"

definition rep_GetAverageLatency :: "Replica \<Rightarrow> duration go" where
  "rep_GetAverageLatency r =
     (let reqCount = rm_RequestCount (rep_Metrics r)
      in if reqCount = 0 then Inr 0 else go_quot (rm_TotalLatency (rep_Metrics r)) reqCount)"

definition rep_GetErrorRate :: "Replica \<Rightarrow> rat" where
  "rep_GetErrorRate r =
     (let reqCount = rm_RequestCount (rep_Metrics r)
      in if reqCount = 0 then 0 else of_int (rm_ErrorCount (rep_Metrics r)) / of_int reqCount * 100)"

definition rep_ResetMetrics :: "Replica \<Rightarrow> Replica" where
  "rep_ResetMetrics r =
     r\<lparr>rep_Metrics := (rep_Metrics r)
         \<lparr>rm_RequestCount := 0, rm_ErrorCount := 0, rm_TotalLatency := 0, rm_ConsecutiveErrors := 0,
          rm_LastCheckTime := 0, rm_LastErrorTime := 0\<rparr>\<rparr>"

section \<open>Strategies\<close>

text \<open>A selection: an error, or the index of a replica or a nil pointer.\<close>

type_synonym selection = "string + nat option"

definition no_replicas :: string where
  "no_replicas = ''no replicas available''"

text \<open>All built-in strategies count connections in the same way.\<close>

definition UpdateLoad :: "Replica list \<Rightarrow> nat \<Rightarrow> int \<Rightarrow> Replica list" where
  "UpdateLoad reps i delta =
     (if i < length reps
      then reps[i := (reps ! i)\<lparr>rep_ActiveConnections := i64 (rep_ActiveConnections (reps ! i) + delta)\<rparr>]
      else reps)"

subsection \<open>Round robin\<close>

record RoundRobin =
  rr_counter :: int

definition NewRoundRobin :: RoundRobin where
  "NewRoundRobin = \<lparr>rr_counter = 0\<rparr>"

text \<open>The element at an index, as a pointer into the slice.\<close>

definition at_index :: "Replica list \<Rightarrow> int \<Rightarrow> 's \<Rightarrow> (selection \<times> 's) go" where
  "at_index reps idx s = go_bind (go_index [0..<length reps] idx) (\<lambda>i. Inr (Inr (Some i), s))"

definition rr_Select :: "string option \<Rightarrow> Replica list \<Rightarrow> RoundRobin \<Rightarrow> (selection \<times> RoundRobin) go" where
  "rr_Select client reps rr =
     (if length reps = 0 then Inr (Inl no_replicas, rr)
      else go_bind (go_rem (rr_counter rr) (int (length reps)))
        (\<lambda>idx. at_index reps idx (rr\<lparr>rr_counter := i64 (rr_counter rr + 1)\<rparr>)))"

definition rr_UpdateLoad :: "RoundRobin \<Rightarrow> Replica list \<Rightarrow> nat \<Rightarrow> int \<Rightarrow> Replica list" where
  "rr_UpdateLoad rr reps i delta = UpdateLoad reps i delta"

definition rr_Rebalance :: "Replica list \<Rightarrow> RoundRobin \<Rightarrow> string option \<times> RoundRobin" where
  "rr_Rebalance reps rr = (None, rr)"

subsection \<open>Least connections and resource awareness\<close>

text \<open>These two strategies have no state but a mutex.\<close>

type_synonym LeastConnections = unit
type_synonym ResourceAware = unit

text \<open>The loop over the rest of the slice from index \<open>i\<close>, with the best index and load so far.\<close>

fun least_loop :: "Replica list \<Rightarrow> nat \<Rightarrow> nat \<Rightarrow> int \<Rightarrow> nat" where
  "least_loop [] i selected minLoad = selected"
| "least_loop (r # rs) i selected minLoad =
     (if rep_ActiveConnections r < minLoad then least_loop rs (Suc i) i (rep_ActiveConnections r)
      else least_loop rs (Suc i) selected minLoad)"

definition lc_Select :: "string option \<Rightarrow> Replica list \<Rightarrow> LeastConnections \<Rightarrow> (selection \<times> LeastConnections) go" where
  "lc_Select client reps lc =
     (if length reps = 0 then Inr (Inl no_replicas, lc)
      else Inr (Inr (Some (least_loop (tl reps) 1 0 (rep_ActiveConnections (reps ! 0)))), lc))"

definition ra_Select :: "string option \<Rightarrow> Replica list \<Rightarrow> ResourceAware \<Rightarrow> (selection \<times> ResourceAware) go" where
  "ra_Select client reps ra =
     (if length reps = 0 then Inr (Inl no_replicas, ra)
      else Inr (Inr (Some (least_loop (tl reps) 1 0 (rep_ActiveConnections (reps ! 0)))), ra))"

definition lc_UpdateLoad :: "LeastConnections \<Rightarrow> Replica list \<Rightarrow> nat \<Rightarrow> int \<Rightarrow> Replica list" where
  "lc_UpdateLoad lc reps i delta = UpdateLoad reps i delta"

definition lc_Rebalance :: "Replica list \<Rightarrow> LeastConnections \<Rightarrow> string option \<times> LeastConnections" where
  "lc_Rebalance reps lc = (None, lc)"

definition ra_UpdateLoad :: "ResourceAware \<Rightarrow> Replica list \<Rightarrow> nat \<Rightarrow> int \<Rightarrow> Replica list" where
  "ra_UpdateLoad ra reps i delta = UpdateLoad reps i delta"

definition ra_Rebalance :: "Replica list \<Rightarrow> ResourceAware \<Rightarrow> string option \<times> ResourceAware" where
  "ra_Rebalance reps ra = (None, ra)"

subsection \<open>Weighted\<close>

record Weighted =
  wt_weights :: "string \<rightharpoonup> int"
  wt_counter :: int

definition NewWeighted :: "(string \<rightharpoonup> int) \<Rightarrow> Weighted" where
  "NewWeighted weights = \<lparr>wt_weights = weights, wt_counter = 0\<rparr>"

definition replica_weight :: "(string \<rightharpoonup> int) \<Rightarrow> Replica \<Rightarrow> int" where
  "replica_weight weights r =
     (let weight = (case weights (rep_Name r) of Some w \<Rightarrow> w | None \<Rightarrow> 0)
      in if weight = 0 then 1 else weight)"

text \<open>The two loops of the selection.\<close>

fun total_weight :: "(string \<rightharpoonup> int) \<Rightarrow> Replica list \<Rightarrow> int \<Rightarrow> int" where
  "total_weight weights [] acc = acc"
| "total_weight weights (r # rs) acc = total_weight weights rs (i64 (acc + replica_weight weights r))"

fun weight_loop :: "(string \<rightharpoonup> int) \<Rightarrow> int \<Rightarrow> Replica list \<Rightarrow> nat \<Rightarrow> int \<Rightarrow> nat option" where
  "weight_loop weights target [] i currentWeight = None"
| "weight_loop weights target (r # rs) i currentWeight =
     (if target < i64 (currentWeight + replica_weight weights r) then Some i
      else weight_loop weights target rs (Suc i) (i64 (currentWeight + replica_weight weights r)))"

definition wt_Select :: "string option \<Rightarrow> Replica list \<Rightarrow> Weighted \<Rightarrow> (selection \<times> Weighted) go" where
  "wt_Select client reps w =
     (if length reps = 0 then Inr (Inl no_replicas, w)
      else let totalWeight = total_weight (wt_weights w) reps 0
           in if totalWeight = 0 then Inr (Inr (Some 0), w)
              else let w' = w\<lparr>wt_counter := i64 (wt_counter w + 1)\<rparr>
                   in go_bind (go_rem (wt_counter w') totalWeight)
                        (\<lambda>target. case weight_loop (wt_weights w) target reps 0 0 of
                            Some i \<Rightarrow> Inr (Inr (Some i), w')
                          | None \<Rightarrow> Inr (Inr (Some (length reps - 1)), w')))"

definition wt_UpdateLoad :: "Weighted \<Rightarrow> Replica list \<Rightarrow> nat \<Rightarrow> int \<Rightarrow> Replica list" where
  "wt_UpdateLoad wt reps i delta = UpdateLoad reps i delta"

definition wt_Rebalance :: "Replica list \<Rightarrow> Weighted \<Rightarrow> string option \<times> Weighted" where
  "wt_Rebalance reps wt = (None, wt)"

subsection \<open>Random\<close>

type_synonym Random = unit

text \<open>The source loads a fresh zero, so that the index is always the remainder of 0.\<close>

definition rnd_Select :: "string option \<Rightarrow> Replica list \<Rightarrow> Random \<Rightarrow> (selection \<times> Random) go" where
  "rnd_Select client reps r =
     (if length reps = 0 then Inr (Inl no_replicas, r)
      else go_bind (go_rem 0 (int (length reps)))
        (\<lambda>idx. at_index reps (if idx < 0 then - idx else idx) r))"

definition rnd_UpdateLoad :: "Random \<Rightarrow> Replica list \<Rightarrow> nat \<Rightarrow> int \<Rightarrow> Replica list" where
  "rnd_UpdateLoad rnd reps i delta = UpdateLoad reps i delta"

definition rnd_Rebalance :: "Replica list \<Rightarrow> Random \<Rightarrow> string option \<times> Random" where
  "rnd_Rebalance reps rnd = (None, rnd)"

subsection \<open>Sticky\<close>

text \<open>
  Go ranges over the code points of a string. The bytes are decoded as UTF-8; an invalid byte yields the replacement
  character and is skipped alone. The result is the code point and the number of bytes used after the first.
\<close>

definition cont :: "nat \<Rightarrow> bool" where
  "cont b \<longleftrightarrow> 128 \<le> b \<and> b < 192"

definition decode_rune :: "nat \<Rightarrow> nat list \<Rightarrow> nat \<times> nat" where
  "decode_rune b0 bs =
     (if b0 < 128 then (b0, 0)
      else case bs of
        b1 # bs1 \<Rightarrow>
          if 194 \<le> b0 \<and> b0 < 224 \<and> cont b1 then ((b0 - 192) * 64 + (b1 - 128), 1)
          else (case bs1 of
            b2 # bs2 \<Rightarrow>
              if 224 \<le> b0 \<and> b0 < 240 \<and> cont b1 \<and> cont b2 \<and> (b0 = 224 \<longrightarrow> 160 \<le> b1) \<and> (b0 = 237 \<longrightarrow> b1 < 160)
              then ((b0 - 224) * 4096 + (b1 - 128) * 64 + (b2 - 128), 2)
              else (case bs2 of
                b3 # bs3 \<Rightarrow>
                  if 240 \<le> b0 \<and> b0 < 245 \<and> cont b1 \<and> cont b2 \<and> cont b3 \<and>
                     (b0 = 240 \<longrightarrow> 144 \<le> b1) \<and> (b0 = 244 \<longrightarrow> b1 < 144)
                  then ((b0 - 240) * 262144 + (b1 - 128) * 4096 + (b2 - 128) * 64 + (b3 - 128), 3)
                  else (65533, 0)
              | [] \<Rightarrow> (65533, 0))
          | [] \<Rightarrow> (65533, 0))
      | [] \<Rightarrow> (65533, 0))"

fun runes :: "nat list \<Rightarrow> nat list" where
  "runes [] = []"
| "runes (b # bs) = fst (decode_rune b bs) # runes (drop (snd (decode_rune b bs)) bs)"

definition hashClient :: "string \<Rightarrow> 64 word" where
  "hashClient clientID =
     fold (\<lambda>ch hash. (push_bit 5 hash + hash) + of_nat ch) (runes (map of_char clientID)) 5381"

record Sticky =
  sk_affinity :: "string \<rightharpoonup> int"

definition NewSticky :: Sticky where
  "NewSticky = \<lparr>sk_affinity = Map.empty\<rparr>"

text \<open>The value of the key \<open>client_id\<close> of the context, if there is one and it is a string.\<close>

definition extractClientID :: "string option \<Rightarrow> string" where
  "extractClientID client = (case client of Some clientID \<Rightarrow> clientID | None \<Rightarrow> ''unknown'')"

definition sk_Select :: "string option \<Rightarrow> Replica list \<Rightarrow> Sticky \<Rightarrow> (selection \<times> Sticky) go" where
  "sk_Select client reps s =
     (if length reps = 0 then Inr (Inl no_replicas, s)
      else let clientID = extractClientID client;
               fresh = go_bind (go_rem (sint (hashClient clientID)) (int (length reps)))
                 (\<lambda>replicaIdx.
                    at_index reps replicaIdx (s\<lparr>sk_affinity := (sk_affinity s)(clientID \<mapsto> replicaIdx)\<rparr>))
           in case sk_affinity s clientID of
                Some replicaIdx \<Rightarrow>
                  if replicaIdx < int (length reps) then at_index reps replicaIdx s else fresh
              | None \<Rightarrow> fresh)"

definition sk_UpdateLoad :: "Sticky \<Rightarrow> Replica list \<Rightarrow> nat \<Rightarrow> int \<Rightarrow> Replica list" where
  "sk_UpdateLoad s reps i delta = UpdateLoad reps i delta"

definition sk_Rebalance :: "Replica list \<Rightarrow> Sticky \<Rightarrow> string option \<times> Sticky" where
  "sk_Rebalance reps s = (None, s\<lparr>sk_affinity := Map.empty\<rparr>)"

subsection \<open>Custom strategies\<close>

text \<open>The two functions are the user's; either may be nil.\<close>

record CustomStrategy =
  cs_selectFn :: "(string option \<Rightarrow> Replica list \<Rightarrow> selection) option"
  cs_updateFn :: "(Replica list \<Rightarrow> nat \<Rightarrow> int \<Rightarrow> Replica list) option"

definition cs_Select :: "string option \<Rightarrow> Replica list \<Rightarrow> CustomStrategy \<Rightarrow> (selection \<times> CustomStrategy) go" where
  "cs_Select client reps cs =
     (case cs_selectFn cs of
        None \<Rightarrow> Inr (Inl ''custom select function not defined'', cs)
      | Some f \<Rightarrow> Inr (f client reps, cs))"

definition cs_UpdateLoad :: "CustomStrategy \<Rightarrow> Replica list \<Rightarrow> nat \<Rightarrow> int \<Rightarrow> Replica list" where
  "cs_UpdateLoad cs reps i delta = (case cs_updateFn cs of Some f \<Rightarrow> f reps i delta | None \<Rightarrow> reps)"

definition cs_Rebalance :: "Replica list \<Rightarrow> CustomStrategy \<Rightarrow> string option \<times> CustomStrategy" where
  "cs_Rebalance reps cs = (None, cs)"

subsection \<open>The interface value\<close>

datatype LoadBalancer =
    LBRoundRobin RoundRobin
  | LBLeastConnections
  | LBWeighted Weighted
  | LBRandom
  | LBResourceAware
  | LBSticky Sticky
  | LBCustom CustomStrategy

definition with_lb :: "('s \<Rightarrow> LoadBalancer) \<Rightarrow> (selection \<times> 's) go \<Rightarrow> (selection \<times> LoadBalancer) go" where
  "with_lb K m = go_bind m (\<lambda>(x, s). Inr (x, K s))"

fun lb_Select :: "string option \<Rightarrow> Replica list \<Rightarrow> LoadBalancer \<Rightarrow> (selection \<times> LoadBalancer) go" where
  "lb_Select client reps (LBRoundRobin rr) = with_lb LBRoundRobin (rr_Select client reps rr)"
| "lb_Select client reps LBLeastConnections = with_lb (\<lambda>_. LBLeastConnections) (lc_Select client reps ())"
| "lb_Select client reps (LBWeighted w) = with_lb LBWeighted (wt_Select client reps w)"
| "lb_Select client reps LBRandom = with_lb (\<lambda>_. LBRandom) (rnd_Select client reps ())"
| "lb_Select client reps LBResourceAware = with_lb (\<lambda>_. LBResourceAware) (ra_Select client reps ())"
| "lb_Select client reps (LBSticky s) = with_lb LBSticky (sk_Select client reps s)"
| "lb_Select client reps (LBCustom cs) = with_lb LBCustom (cs_Select client reps cs)"

text \<open>The constructors of the strategies that have no other state, and of a user's strategy.\<close>

definition NewLeastConnections :: LoadBalancer where
  "NewLeastConnections = LBLeastConnections"

definition NewRandom :: LoadBalancer where
  "NewRandom = LBRandom"

definition NewResourceAware :: LoadBalancer where
  "NewResourceAware = LBResourceAware"

definition NewCustomStrategy ::
  "(string option \<Rightarrow> Replica list \<Rightarrow> selection) option \<Rightarrow> (Replica list \<Rightarrow> nat \<Rightarrow> int \<Rightarrow> Replica list) option \<Rightarrow> LoadBalancer"
where
  "NewCustomStrategy selectFn updateFn = LBCustom \<lparr>cs_selectFn = selectFn, cs_updateFn = updateFn\<rparr>"

fun lb_UpdateLoad :: "LoadBalancer \<Rightarrow> Replica list \<Rightarrow> nat \<Rightarrow> int \<Rightarrow> Replica list" where
  "lb_UpdateLoad (LBRoundRobin rr) reps i delta = rr_UpdateLoad rr reps i delta"
| "lb_UpdateLoad LBLeastConnections reps i delta = lc_UpdateLoad () reps i delta"
| "lb_UpdateLoad (LBWeighted w) reps i delta = wt_UpdateLoad w reps i delta"
| "lb_UpdateLoad LBRandom reps i delta = rnd_UpdateLoad () reps i delta"
| "lb_UpdateLoad LBResourceAware reps i delta = ra_UpdateLoad () reps i delta"
| "lb_UpdateLoad (LBSticky s) reps i delta = sk_UpdateLoad s reps i delta"
| "lb_UpdateLoad (LBCustom cs) reps i delta = cs_UpdateLoad cs reps i delta"

fun lb_Rebalance :: "Replica list \<Rightarrow> LoadBalancer \<Rightarrow> string option \<times> LoadBalancer" where
  "lb_Rebalance reps (LBRoundRobin rr) = apsnd LBRoundRobin (rr_Rebalance reps rr)"
| "lb_Rebalance reps LBLeastConnections = apsnd (\<lambda>_. LBLeastConnections) (lc_Rebalance reps ())"
| "lb_Rebalance reps (LBWeighted w) = apsnd LBWeighted (wt_Rebalance reps w)"
| "lb_Rebalance reps LBRandom = apsnd (\<lambda>_. LBRandom) (rnd_Rebalance reps ())"
| "lb_Rebalance reps LBResourceAware = apsnd (\<lambda>_. LBResourceAware) (ra_Rebalance reps ())"
| "lb_Rebalance reps (LBSticky s) = apsnd LBSticky (sk_Rebalance reps s)"
| "lb_Rebalance reps (LBCustom cs) = apsnd LBCustom (cs_Rebalance reps cs)"

text \<open>A sequence of selections for given clients over the same slice.\<close>

fun select_all ::
  "(string option \<Rightarrow> Replica list \<Rightarrow> 's \<Rightarrow> (selection \<times> 's) go) \<Rightarrow> Replica list \<Rightarrow> string option list \<Rightarrow> 's \<Rightarrow>
     (selection list \<times> 's) go"
where
  "select_all sel reps [] s = Inr ([], s)"
| "select_all sel reps (c # cs) s =
     go_bind (sel c reps s) (\<lambda>(x, s'). go_bind (select_all sel reps cs s') (\<lambda>(xs, s''). Inr (x # xs, s'')))"

section \<open>States that are good for a number of selections\<close>

definition rr_wf :: "nat \<Rightarrow> RoundRobin \<Rightarrow> bool" where
  "rr_wf n rr \<longleftrightarrow> 0 \<le> rr_counter rr \<and> rr_counter rr + int n < 2 ^ 63"

definition sticky_client :: "string option \<Rightarrow> bool" where
  "sticky_client c \<longleftrightarrow> 0 \<le> sint (hashClient (extractClientID c))"

definition sk_wf :: "nat \<Rightarrow> Sticky \<Rightarrow> bool" where
  "sk_wf n s \<longleftrightarrow> (\<forall>c i. sk_affinity s c = Some i \<longrightarrow> 0 \<le> i)"

text \<open>A user's selection function must choose from the slice.\<close>

fun lb_wf :: "nat \<Rightarrow> LoadBalancer \<Rightarrow> bool" where
  "lb_wf n (LBRoundRobin rr) = rr_wf n rr"
| "lb_wf n (LBSticky s) = sk_wf n s"
| "lb_wf n (LBCustom cs) =
     (\<exists>f. cs_selectFn cs = Some f \<and>
        (\<forall>c reps. reps \<noteq> [] \<longrightarrow> (\<exists>i. f c reps = Inr (Some i) \<and> i < length reps)))"
| "lb_wf n _ = True"

text \<open>Requests that stay open: selecting and counting the connection, a number of times.\<close>

fun open_connections :: "nat \<Rightarrow> Replica list \<Rightarrow> Replica list" where
  "open_connections 0 reps = reps"
| "open_connections (Suc n) reps =
     (case lc_Select None reps () of
        Inr (Inr (Some i), _) \<Rightarrow> open_connections n (UpdateLoad reps i 1)
      | _ \<Rightarrow> reps)"

text \<open>The slot a client hashes to.\<close>

definition sticky_slot :: "nat \<Rightarrow> string option \<Rightarrow> nat" where
  "sticky_slot n c = nat (sint (hashClient (extractClientID c)) mod int n)"

text \<open>The affinity map agrees with the hash.\<close>

definition sk_hashed :: "nat \<Rightarrow> Sticky \<Rightarrow> bool" where
  "sk_hashed n s \<longleftrightarrow> (\<forall>k i. sk_affinity s k = Some i \<longrightarrow> i = sint (hashClient k) mod int n)"

text \<open>The owners of the slots of a weighted cycle: position \<open>i\<close> owns as many slots as its weight.\<close>

fun owners :: "nat \<Rightarrow> nat list \<Rightarrow> nat list" where
  "owners i [] = []"
| "owners i (w # ws) = replicate w i @ owners (Suc i) ws"

section \<open>The interface of a strategy\<close>

text \<open>
  A strategy answers a number of requests from acceptable clients with a replica of the slice it is given: \<open>wf n s\<close> says that
  the state is good for at least \<open>n\<close> further selections. The built-in strategies also report the empty slice.
\<close>

locale replica_selector =
  fixes good :: "string option \<Rightarrow> bool"
    and wf :: "nat \<Rightarrow> 's \<Rightarrow> bool"
    and sel :: "string option \<Rightarrow> Replica list \<Rightarrow> 's \<Rightarrow> (selection \<times> 's) go"
  assumes sel_ok: "wf (Suc n) s \<Longrightarrow> good c \<Longrightarrow> reps \<noteq> [] \<Longrightarrow>
    \<exists>i s'. sel c reps s = Inr (Inr (Some i), s') \<and> i < length reps \<and> wf n s'"
begin

lemma select_all_ok:
  "wf (n + length cs) s \<Longrightarrow> \<forall>c \<in> set cs. good c \<Longrightarrow> reps \<noteq> [] \<Longrightarrow>
     \<exists>is s'. select_all sel reps cs s = Inr (map (\<lambda>i. Inr (Some i)) is, s') \<and> length is = length cs \<and>
       set is \<subseteq> {..<length reps} \<and> wf n s'"
proof (induction cs arbitrary: s)
  case Nil
  then show ?case by (intro exI [of _ "[]"] exI [of _ s]) simp
next
  case (Cons c cs)
  obtain i s1 where 1: "sel c reps s = Inr (Inr (Some i), s1)" "i < length reps" "wf (n + length cs) s1"
    using sel_ok [of "n + length cs" s c reps] Cons.prems by auto
  obtain "is" s2 where 2: "select_all sel reps cs s1 = Inr (map (\<lambda>i. Inr (Some i)) is, s2)" "length is = length cs"
    "set is \<subseteq> {..<length reps}" "wf n s2"
    using Cons.IH [OF 1(3)] Cons.prems by auto
  show ?case by (intro exI [of _ "i # is"] exI [of _ s2]) (use 1 2 in simp)
qed

end

locale load_balancer = replica_selector +
  assumes sel_empty: "sel c [] s = Inr (Inl no_replicas, s)"
begin

text \<open>A selection never panics, and fails only on the empty slice.\<close>

lemma sel_total:
  "wf 1 s \<Longrightarrow> good c \<Longrightarrow>
     (\<exists>x s'. sel c reps s = Inr (x, s') \<and> (x = Inl no_replicas \<longleftrightarrow> reps = []) \<and> x \<noteq> Inr None)"
  using sel_ok [of 0 s c reps] sel_empty by (cases "reps = []") auto

end

section \<open>The strategies satisfy the interface\<close>

lemma at_index_ok: "0 \<le> i \<Longrightarrow> i < int (length reps) \<Longrightarrow> at_index reps i s = Inr (Inr (Some (nat i)), s)"
  by (simp add: at_index_def go_index_def nat_less_iff)

lemma at_index_bad: "i < 0 \<Longrightarrow> at_index reps i s = Inl IndexOutOfRange"
  by (simp add: at_index_def go_index_def)

lemma rr_Select_step:
  assumes "reps \<noteq> []" and "rr_wf (Suc n) rr"
  shows "rr_Select c reps rr =
    Inr (Inr (Some (nat (rr_counter rr) mod length reps)), rr\<lparr>rr_counter := rr_counter rr + 1\<rparr>)"
proof -
  have c: "0 \<le> rr_counter rr" "rr_counter rr + 1 < 2 ^ 63" using assms(2) by (auto simp: rr_wf_def)
  then have "i64 (rr_counter rr + 1) = rr_counter rr + 1" by (intro i64_id) (simp add: is_i64_def)
  with assms(1) c(1) show ?thesis
    by (simp add: rr_Select_def go_rem_nonneg at_index_ok nat_mod_distrib)
qed

interpretation rr_lb: load_balancer "\<lambda>_. True" rr_wf rr_Select
proof
  fix n rr c and reps :: "Replica list"
  assume "rr_wf (Suc n) rr" "reps \<noteq> []"
  then show "\<exists>i s'. rr_Select c reps rr = Inr (Inr (Some i), s') \<and> i < length reps \<and> rr_wf n s'"
    by (auto simp: rr_Select_step) (auto simp: rr_wf_def)
qed (simp add: rr_Select_def)

text \<open>The loop finds the first of the smallest loads.\<close>

lemma least_loop_first_min:
  assumes "i \<le> length reps" and "b < i" and "m = rep_ActiveConnections (reps ! b)"
    and "\<forall>j<i. m \<le> rep_ActiveConnections (reps ! j)"
    and "\<forall>j<b. m < rep_ActiveConnections (reps ! j)"
    and "least_loop (drop i reps) i b m = k"
  shows "k < length reps \<and> (\<forall>j<length reps. rep_ActiveConnections (reps ! k) \<le> rep_ActiveConnections (reps ! j)) \<and>
    (\<forall>j<k. rep_ActiveConnections (reps ! k) < rep_ActiveConnections (reps ! j))"
  using assms
proof (induction "length reps - i" arbitrary: i b m)
  case 0
  then have "i = length reps" by simp
  with 0 show ?case by auto
next
  case (Suc n)
  then have i: "i < length reps" by simp
  have d: "drop i reps = reps ! i # drop (Suc i) reps" using i by (simp add: Cons_nth_drop_Suc)
  show ?case
  proof (cases "rep_ActiveConnections (reps ! i) < m")
    case True
    have le: "\<forall>j<Suc i. rep_ActiveConnections (reps ! i) \<le> rep_ActiveConnections (reps ! j)"
      and lt: "\<forall>j<i. rep_ActiveConnections (reps ! i) < rep_ActiveConnections (reps ! j)"
      using True Suc.prems(4) by (auto simp: less_Suc_eq)
    show ?thesis
      using Suc.hyps(1) [of "Suc i" i, OF _ _ _ refl le lt] Suc.hyps(2) Suc.prems(6) i True by (simp add: d)
  next
    case False
    have le: "\<forall>j<Suc i. m \<le> rep_ActiveConnections (reps ! j)"
      using False Suc.prems(4) by (auto simp: less_Suc_eq)
    show ?thesis
      using Suc.hyps(1) [of "Suc i" b m, OF _ _ _ Suc.prems(3) le Suc.prems(5)] Suc.hyps(2) Suc.prems(2,6) i False
      by (simp add: d)
  qed
qed

lemma least_loop_select:
  assumes "reps \<noteq> []" and "least_loop (tl reps) 1 0 (rep_ActiveConnections (reps ! 0)) = k"
  shows "k < length reps \<and> (\<forall>j<length reps. rep_ActiveConnections (reps ! k) \<le> rep_ActiveConnections (reps ! j)) \<and>
    (\<forall>j<k. rep_ActiveConnections (reps ! k) < rep_ActiveConnections (reps ! j))"
  using least_loop_first_min [of 1 reps 0 _ k] assms by (cases reps) auto

interpretation lc_lb: load_balancer "\<lambda>_. True" "\<lambda>_ _. True" lc_Select
  by unfold_locales (auto simp: lc_Select_def dest: least_loop_select)

interpretation ra_lb: load_balancer "\<lambda>_. True" "\<lambda>_ _. True" ra_Select
  by unfold_locales (auto simp: ra_Select_def dest: least_loop_select)

lemma weight_loop_range: "weight_loop weights t reps i cw = Some k \<Longrightarrow> i \<le> k \<and> k < i + length reps"
  by (induction reps arbitrary: i cw) (fastforce split: if_splits)+

interpretation wt_lb: load_balancer "\<lambda>_. True" "\<lambda>_ _. True" wt_Select
proof
  fix w c and reps :: "Replica list"
  assume ne: "reps \<noteq> []"
  show "\<exists>i s'. wt_Select c reps w = Inr (Inr (Some i), s') \<and> i < length reps \<and> True"
  proof (cases "total_weight (wt_weights w) reps 0 = 0")
    case False
    let ?t = "sgn (i64 (wt_counter w + 1)) * (\<bar>i64 (wt_counter w + 1)\<bar> mod \<bar>total_weight (wt_weights w) reps 0\<bar>)"
    show ?thesis
      using False ne weight_loop_range [of "wt_weights w" ?t reps 0 0]
      by (cases "weight_loop (wt_weights w) ?t reps 0 0") (auto simp: wt_Select_def go_rem_def Let_def)
  qed (use ne in \<open>simp add: wt_Select_def\<close>)
qed (simp add: wt_Select_def)

interpretation rnd_lb: load_balancer "\<lambda>_. True" "\<lambda>_ _. True" rnd_Select
  by unfold_locales (simp_all add: rnd_Select_def go_rem_def at_index_ok)

interpretation sk_lb: load_balancer sticky_client sk_wf sk_Select
proof
  fix n s c and reps :: "Replica list"
  assume wf: "sk_wf (Suc n) s" and good: "sticky_client c" and ne: "reps \<noteq> []"
  let ?id = "extractClientID c"
  let ?i = "sint (hashClient ?id) mod int (length reps)"
  let ?s = "s\<lparr>sk_affinity := (sk_affinity s)(?id \<mapsto> ?i)\<rparr>"
  have i: "0 \<le> ?i" "?i < int (length reps)" using ne by simp_all
  have f: "go_bind (go_rem (sint (hashClient ?id)) (int (length reps)))
      (\<lambda>j. at_index reps j (s\<lparr>sk_affinity := (sk_affinity s)(?id \<mapsto> j)\<rparr>)) = Inr (Inr (Some (nat ?i)), ?s)"
    using good ne i by (simp add: sticky_client_def go_rem_nonneg at_index_ok)
  have "sk_wf n ?s" using wf i by (simp add: sk_wf_def)
  with wf ne i show "\<exists>i s'. sk_Select c reps s = Inr (Inr (Some i), s') \<and> i < length reps \<and> sk_wf n s'"
    by (auto simp: sk_Select_def Let_def f at_index_ok sk_wf_def nat_less_iff split: option.splits)
qed (simp add: sk_Select_def)

lemma with_lb_ok:
  "\<exists>i s'. m = Inr (Inr (Some i), s') \<and> i < k \<and> P s' \<Longrightarrow> (\<And>s'. P s' \<Longrightarrow> Q (K s')) \<Longrightarrow>
     \<exists>i s'. with_lb K m = Inr (Inr (Some i), s') \<and> i < k \<and> Q s'"
  by (auto simp: with_lb_def)

interpretation weaver_lb: replica_selector sticky_client lb_wf lb_Select
proof
  fix n lb c and reps :: "Replica list"
  assume wf: "lb_wf (Suc n) lb" and good: "sticky_client c" and ne: "reps \<noteq> []"
  show "\<exists>i s'. lb_Select c reps lb = Inr (Inr (Some i), s') \<and> i < length reps \<and> lb_wf n s'"
  proof (cases lb)
    case (LBRoundRobin rr)
    with wf ne show ?thesis using with_lb_ok [OF rr_lb.sel_ok] by simp
  next
    case LBLeastConnections
    with ne show ?thesis using with_lb_ok [OF lc_lb.sel_ok] by simp
  next
    case (LBWeighted w)
    with ne show ?thesis using with_lb_ok [OF wt_lb.sel_ok] by simp
  next
    case LBRandom
    with ne show ?thesis using with_lb_ok [OF rnd_lb.sel_ok] by simp
  next
    case LBResourceAware
    with ne show ?thesis using with_lb_ok [OF ra_lb.sel_ok] by simp
  next
    case (LBSticky s)
    with wf good ne show ?thesis using with_lb_ok [OF sk_lb.sel_ok] by simp
  next
    case (LBCustom cs)
    with wf ne show ?thesis by (auto simp: with_lb_def cs_Select_def)
  qed
qed

section \<open>Fairness of round robin\<close>

lemma map_upt_Suc0: "map f [0..<Suc n] = f 0 # map (\<lambda>j. f (Suc j)) [0..<n]"
  by (induction n) auto

lemma rr_all:
  "reps \<noteq> [] \<Longrightarrow> rr_wf (length cs) rr \<Longrightarrow>
     select_all rr_Select reps cs rr =
       Inr (map (\<lambda>j. Inr (Some ((nat (rr_counter rr) + j) mod length reps))) [0..<length cs],
            rr\<lparr>rr_counter := rr_counter rr + int (length cs)\<rparr>)"
proof (induction cs arbitrary: rr)
  case (Cons c cs)
  let ?rr = "rr\<lparr>rr_counter := rr_counter rr + 1\<rparr>"
  have wf: "rr_wf (length cs) ?rr" and c: "0 \<le> rr_counter rr" and wf': "rr_wf (Suc (length cs)) rr"
    using Cons.prems(2) by (auto simp: rr_wf_def)
  have n: "nat (rr_counter ?rr) = Suc (nat (rr_counter rr))" using c by simp
  show ?case
    unfolding length_Cons map_upt_Suc0 select_all.simps rr_Select_step [OF Cons.prems(1) wf'] go_bind.simps prod.case
      Cons.IH [OF Cons.prems(1) wf] n
    by (simp add: add.assoc)
qed simp

lemma filter_eq_upt: "i < n \<Longrightarrow> filter (\<lambda>j. j = i) [0..<n] = [i]"
  by (induction n) (auto simp: less_Suc_eq filter_empty_conv)

lemma count_mod_cycle:
  assumes "i < n"
  shows "length (filter (\<lambda>j. j mod n = i) [0..<k * n]) = (k :: nat)"
proof (induction k)
  case (Suc k)
  have u: "[0..<Suc k * n] = [0..<k * n] @ map (\<lambda>j. j + k * n) [0..<n]"
    using upt_add_eq_append [of 0 "k * n" n] by (simp add: map_add_upt add.commute)
  have "filter (\<lambda>j. j mod n = i) [0..<n] = filter (\<lambda>j. j = i) [0..<n]"
    by (rule filter_cong) auto
  then have "filter ((\<lambda>j. j mod n = i) \<circ> (\<lambda>j. j + k * n)) [0..<n] = [i]"
    using filter_eq_upt [OF assms] by (simp add: comp_def)
  then show ?case unfolding u by (simp add: filter_map Suc.IH)
qed simp

section \<open>Fairness of weights\<close>

lemma length_owners [simp]: "length (owners i ws) = sum_list ws"
  by (induction ws arbitrary: i) auto

lemma count_owners: "count_list (owners i ws) k = (if i \<le> k \<and> k < i + length ws then ws ! (k - i) else 0)"
proof (induction ws arbitrary: i)
  case (Cons w ws)
  have "count_list (replicate w i) k = (if i = k then w else 0)" by (induction w) auto
  with Cons show ?case by (cases "k - i") (auto simp: nth_Cons diff_Suc split: nat.splits)
qed simp

lemma total_weight_sum:
  assumes "\<forall>r \<in> set reps. 0 \<le> replica_weight wm r" and "0 \<le> acc"
    and "acc + sum_list (map (replica_weight wm) reps) < 2 ^ 63"
  shows "total_weight wm reps acc = acc + sum_list (map (replica_weight wm) reps)"
  using assms
proof (induction reps arbitrary: acc)
  case (Cons r rs)
  have "0 \<le> sum_list (map (replica_weight wm) rs)" using Cons.prems(1) by (intro sum_list_nonneg) auto
  then have "i64 (acc + replica_weight wm r) = acc + replica_weight wm r"
    using Cons.prems by (intro i64_id) (auto simp: is_i64_def)
  with Cons show ?case by simp
qed simp

lemma weight_loop_owner:
  assumes "\<forall>r \<in> set reps. 0 \<le> replica_weight wm r" and "0 \<le> cw" and "cw \<le> t"
    and "t < cw + sum_list (map (replica_weight wm) reps)"
    and "cw + sum_list (map (replica_weight wm) reps) < 2 ^ 63"
  shows "weight_loop wm t reps i cw = Some (owners i (map (nat \<circ> replica_weight wm) reps) ! nat (t - cw))"
  using assms
proof (induction reps arbitrary: i cw)
  case (Cons r rs)
  let ?w = "replica_weight wm r"
  have w: "0 \<le> ?w" "0 \<le> sum_list (map (replica_weight wm) rs)"
    using Cons.prems(1) by (auto intro!: sum_list_nonneg)
  then have e: "i64 (cw + ?w) = cw + ?w" using Cons.prems by (intro i64_id) (auto simp: is_i64_def)
  show ?case
  proof (cases "t < cw + ?w")
    case True
    then have "nat (t - cw) < nat ?w" using Cons.prems(3) by linarith
    with True show ?thesis by (simp add: e nth_append)
  next
    case False
    have "weight_loop wm t rs (Suc i) (cw + ?w) =
        Some (owners (Suc i) (map (nat \<circ> replica_weight wm) rs) ! nat (t - (cw + ?w)))"
      using False Cons.prems w by (intro Cons.IH) auto
    moreover have "\<not> nat (t - cw) < nat ?w" "nat (t - cw) - nat ?w = nat (t - (cw + ?w))"
      using False w by linarith+
    ultimately show ?thesis using False by (simp add: e nth_append comp_def)
  qed
qed simp

text \<open>Weights whose sum neither vanishes nor overflows.\<close>

lemma wt_Select_step:
  assumes "reps \<noteq> []" and "\<forall>r \<in> set reps. 0 \<le> replica_weight (wt_weights w) r"
    and "sum_list (map (replica_weight (wt_weights w)) reps) = int W" and "0 < W" and "W < 2 ^ 63"
    and "0 \<le> wt_counter w" and "wt_counter w + 1 < 2 ^ 63"
  shows "wt_Select c reps w =
    Inr (Inr (Some (owners 0 (map (nat \<circ> replica_weight (wt_weights w)) reps) ! (Suc (nat (wt_counter w)) mod W))),
         w\<lparr>wt_counter := wt_counter w + 1\<rparr>)"
proof -
  have i: "int W < 2 ^ 63" using assms(5) by (metis of_nat_less_iff of_nat_numeral of_nat_power)
  have tot: "total_weight (wt_weights w) reps 0 = int W"
    using total_weight_sum [OF assms(2), of 0] assms(3) i by simp
  have c: "i64 (wt_counter w + 1) = wt_counter w + 1" using assms(6,7) by (intro i64_id) (simp add: is_i64_def)
  have t: "(wt_counter w + 1) mod int W = int (Suc (nat (wt_counter w)) mod W)"
    using assms(6) by (simp add: zmod_int add.commute)
  have "weight_loop (wt_weights w) ((wt_counter w + 1) mod int W) reps 0 0 =
      Some (owners 0 (map (nat \<circ> replica_weight (wt_weights w)) reps) ! nat ((wt_counter w + 1) mod int W - 0))"
    using assms i by (intro weight_loop_owner) auto
  then show ?thesis
    using assms(1,4,6) by (simp add: wt_Select_def tot c go_rem_nonneg Let_def t)
qed

lemma wt_all:
  assumes "reps \<noteq> []" and "\<forall>r \<in> set reps. 0 \<le> replica_weight (wt_weights w) r"
    and "sum_list (map (replica_weight (wt_weights w)) reps) = int W" and "0 < W" and "W < 2 ^ 63"
    and "0 \<le> wt_counter w" and "wt_counter w + int (length cs) < 2 ^ 63"
  shows "select_all wt_Select reps cs w =
    Inr (map (\<lambda>j. Inr (Some (owners 0 (map (nat \<circ> replica_weight (wt_weights w)) reps) !
              ((Suc (nat (wt_counter w)) + j) mod W)))) [0..<length cs],
         w\<lparr>wt_counter := wt_counter w + int (length cs)\<rparr>)"
  using assms
proof (induction cs arbitrary: w)
  case (Cons c cs)
  let ?w = "w\<lparr>wt_counter := wt_counter w + 1\<rparr>"
  have n: "nat (wt_counter ?w) = Suc (nat (wt_counter w))" and m: "wt_weights ?w = wt_weights w"
    using Cons.prems(6) by simp_all
  have s: "wt_Select c reps w =
      Inr (Inr (Some (owners 0 (map (nat \<circ> replica_weight (wt_weights w)) reps) ! (Suc (nat (wt_counter w)) mod W))), ?w)"
    using Cons.prems by (intro wt_Select_step) auto
  have r: "select_all wt_Select reps cs ?w =
      Inr (map (\<lambda>j. Inr (Some (owners 0 (map (nat \<circ> replica_weight (wt_weights ?w)) reps) !
              ((Suc (nat (wt_counter ?w)) + j) mod W)))) [0..<length cs],
         ?w\<lparr>wt_counter := wt_counter ?w + int (length cs)\<rparr>)"
    using Cons.prems by (intro Cons.IH) auto
  show ?case
    unfolding length_Cons map_upt_Suc0 select_all.simps s go_bind.simps prod.case r n m
    by (simp add: add.assoc)
qed simp

lemma mset_rotate: "mset (rotate n xs) = mset xs"
proof (induction n)
  case (Suc n)
  have "mset (rotate1 ys) = mset ys" for ys :: "'a list" by (cases ys) auto
  with Suc show ?case by simp
qed simp

lemma cycle_rotate:
  assumes "length xs = W"
  shows "map (\<lambda>j. f (xs ! ((d + j) mod W))) [0..<W] = map f (rotate d xs)"
  using assms by (intro nth_equalityI) (auto simp: nth_rotate)

section \<open>Balance of least connections\<close>

lemma sum_list_add_at: "i < length xs \<Longrightarrow> sum_list (xs[i := xs ! i + d]) = sum_list xs + (d :: int)"
  by (induction xs arbitrary: i) (auto simp: nth_Cons split: nat.splits)

lemma UpdateLoad_loads:
  assumes "i < length reps" and "is_i64 (rep_ActiveConnections (reps ! i) + d)"
  shows "map rep_ActiveConnections (UpdateLoad reps i d) =
    (map rep_ActiveConnections reps)[i := rep_ActiveConnections (reps ! i) + d]"
  using assms by (simp add: UpdateLoad_def map_update i64_id)

lemma open_connections_balanced:
  assumes "reps \<noteq> []" and "\<forall>r \<in> set reps. m \<le> rep_ActiveConnections r \<and> rep_ActiveConnections r \<le> m + 1"
    and "0 \<le> m" and "m + 1 + int n < 2 ^ 63"
  shows "\<exists>m'. (\<forall>r \<in> set (open_connections n reps).
      m' \<le> rep_ActiveConnections r \<and> rep_ActiveConnections r \<le> m' + 1) \<and>
    sum_list (map rep_ActiveConnections (open_connections n reps)) =
      sum_list (map rep_ActiveConnections reps) + int n \<and>
    map rep_Name (open_connections n reps) = map rep_Name reps"
  using assms
proof (induction n arbitrary: reps m)
  case 0
  then show ?case by auto
next
  case (Suc n)
  define i where "i = least_loop (tl reps) 1 0 (rep_ActiveConnections (reps ! 0))"
  define l where "l = rep_ActiveConnections (reps ! i)"
  let ?reps = "UpdateLoad reps i 1"
  have i: "i < length reps" "\<forall>j<length reps. l \<le> rep_ActiveConnections (reps ! j)"
    using least_loop_select [OF Suc.prems(1)] unfolding i_def l_def by blast+
  have bnd: "\<forall>j<length reps. m \<le> rep_ActiveConnections (reps ! j) \<and> rep_ActiveConnections (reps ! j) \<le> m + 1"
    using Suc.prems(2) by (metis nth_mem)
  then have l: "m \<le> l" "l \<le> m + 1" using i(1) by (auto simp: l_def)
  have b': "\<forall>r \<in> set reps. l \<le> rep_ActiveConnections r \<and> rep_ActiveConnections r \<le> l + 1"
    using i(2) bnd l by (force simp: in_set_conv_nth)
  have u: "map rep_ActiveConnections ?reps = (map rep_ActiveConnections reps)[i := l + 1]"
    using UpdateLoad_loads [OF i(1), of 1] l Suc.prems(3,4) by (simp add: l_def is_i64_def)
  have "set (map rep_ActiveConnections ?reps) \<subseteq> {l..l + 1}"
    unfolding u using b' by (intro subset_trans [OF set_update_subset_insert]) auto
  then have loads: "\<forall>r \<in> set ?reps. l \<le> rep_ActiveConnections r \<and> rep_ActiveConnections r \<le> l + 1" by auto
  have rest: "open_connections (Suc n) reps = open_connections n ?reps"
    using Suc.prems(1) by (simp add: lc_Select_def i_def)
  have ne: "?reps \<noteq> []" using Suc.prems(1) by (auto simp: UpdateLoad_def)
  have "sum_list (map rep_ActiveConnections ?reps) = sum_list (map rep_ActiveConnections reps) + 1"
    unfolding u using i(1) sum_list_add_at [of i \<open>map rep_ActiveConnections reps\<close> 1] by (simp add: l_def)
  moreover have "map rep_Name ?reps = map rep_Name reps"
    by (simp add: UpdateLoad_def map_update list_update_same_conv)
  moreover have "\<exists>m'. (\<forall>r \<in> set (open_connections n ?reps).
      m' \<le> rep_ActiveConnections r \<and> rep_ActiveConnections r \<le> m' + 1) \<and>
    sum_list (map rep_ActiveConnections (open_connections n ?reps)) =
      sum_list (map rep_ActiveConnections ?reps) + int n \<and>
    map rep_Name (open_connections n ?reps) = map rep_Name ?reps"
    using Suc.IH [OF ne loads] l Suc.prems(3,4) by simp
  ultimately show ?case unfolding rest by (auto simp: algebra_simps)
qed

section \<open>Stickiness\<close>

lemma sk_Select_step:
  assumes "reps \<noteq> []" and "sticky_client c" and "sk_hashed (length reps) s"
  shows "\<exists>s'. sk_Select c reps s = Inr (Inr (Some (sticky_slot (length reps) c)), s') \<and> sk_hashed (length reps) s' \<and>
    dom (sk_affinity s') = insert (extractClientID c) (dom (sk_affinity s))"
proof -
  let ?id = "extractClientID c"
  let ?i = "sint (hashClient ?id) mod int (length reps)"
  let ?s = "s\<lparr>sk_affinity := (sk_affinity s)(?id \<mapsto> ?i)\<rparr>"
  have i: "0 \<le> ?i" "?i < int (length reps)" using assms(1) by simp_all
  have f: "go_bind (go_rem (sint (hashClient ?id)) (int (length reps)))
      (\<lambda>j. at_index reps j (s\<lparr>sk_affinity := (sk_affinity s)(?id \<mapsto> j)\<rparr>)) = Inr (Inr (Some (nat ?i)), ?s)"
    using assms(1,2) i by (simp add: sticky_client_def go_rem_nonneg at_index_ok)
  show ?thesis
  proof (cases "sk_affinity s ?id")
    case None
    then have "sk_Select c reps s = Inr (Inr (Some (nat ?i)), ?s)" using assms(1) by (simp add: sk_Select_def Let_def f)
    with assms(3) show ?thesis by (auto simp: sticky_slot_def sk_hashed_def)
  next
    case (Some j)
    then have "j = ?i" using assms(3) by (simp add: sk_hashed_def)
    with Some assms(1,3) i show ?thesis by (auto simp: sk_Select_def Let_def at_index_ok sticky_slot_def)
  qed
qed

lemma sk_all:
  "reps \<noteq> [] \<Longrightarrow> \<forall>c \<in> set cs. sticky_client c \<Longrightarrow> sk_hashed (length reps) s \<Longrightarrow>
     \<exists>s'. select_all sk_Select reps cs s = Inr (map (\<lambda>c. Inr (Some (sticky_slot (length reps) c))) cs, s') \<and>
       sk_hashed (length reps) s' \<and> extractClientID ` set cs \<subseteq> dom (sk_affinity s') \<and>
       dom (sk_affinity s) \<subseteq> dom (sk_affinity s')"
proof (induction cs arbitrary: s)
  case (Cons c cs)
  obtain s1 where 1: "sk_Select c reps s = Inr (Inr (Some (sticky_slot (length reps) c)), s1)"
    "sk_hashed (length reps) s1" "dom (sk_affinity s1) = insert (extractClientID c) (dom (sk_affinity s))"
    using sk_Select_step [of reps c s] Cons.prems by auto
  obtain s2 where 2: "select_all sk_Select reps cs s1 = Inr (map (\<lambda>c. Inr (Some (sticky_slot (length reps) c))) cs, s2)"
    "sk_hashed (length reps) s2" "extractClientID ` set cs \<subseteq> dom (sk_affinity s2)" "dom (sk_affinity s1) \<subseteq> dom (sk_affinity s2)"
    using Cons.IH [OF Cons.prems(1) _ 1(2)] Cons.prems(2) by auto
  show ?case by (intro exI [of _ s2]) (use 1 2 in auto)
qed simp

section \<open>Properties\<close>

text \<open>Every strategy of the gateway answers any sequence of requests from acceptable clients over a non-empty slice with
  replicas of that slice, as long as it is fit for that number of selections: round robin below the overflow of its
  counter, a custom strategy if its function keeps to the slice, sticky selection for clients whose hash does not
  become negative; the other strategies always.\<close>

lemma strategies_answer:
  assumes "lb_wf (length cs) lb" and "\<forall>c \<in> set cs. sticky_client c" and "reps \<noteq> []"
  shows "\<exists>is lb'. select_all lb_Select reps cs lb = Inr (map (\<lambda>i. Inr (Some i)) is, lb') \<and> length is = length cs \<and>
    set is \<subseteq> {..<length reps}"
  using weaver_lb.select_all_ok [of 0 cs lb reps] assms by auto

lemma strategies_answer_instance:
  "let reps = [NewReplica ''a'' ''10.0.0.1'' True, NewReplica ''b'' ''10.0.0.2'' True] in
   \<exists>is lb'. select_all lb_Select reps [None, None, None] (LBRoundRobin NewRoundRobin) =
     Inr (map (\<lambda>i. Inr (Some i)) is, lb') \<and> length is = 3 \<and> set is \<subseteq> {..<2}"
proof -
  let ?reps = "[NewReplica ''a'' ''10.0.0.1'' True, NewReplica ''b'' ''10.0.0.2'' True]"
  have l: "length ?reps = 2" "length [None, None, None :: string option] = 3" by simp_all
  have "\<exists>is lb'. select_all lb_Select ?reps [None, None, None] (LBRoundRobin NewRoundRobin) =
      Inr (map (\<lambda>i. Inr (Some i)) is, lb') \<and> length is = length [None, None, None :: string option] \<and>
      set is \<subseteq> {..<length ?reps}"
    by (rule strategies_answer)
      (simp_all add: sticky_client_def extractClientID_def hashClient_def decode_rune_def rr_wf_def NewRoundRobin_def)
  then show ?thesis unfolding l Let_def .
qed

text \<open>Round robin visits the replicas in order, again and again, so that whole rounds give every replica the same
  number of requests. Once the counter has overflowed it selects a negative index and panics, unless the number of replicas
  is a power of two.\<close>

lemma round_robin_rotation:
  assumes "reps \<noteq> []" and "length cs < 2 ^ 63"
  shows "(\<exists>rr. select_all rr_Select reps cs NewRoundRobin =
      Inr (map (\<lambda>j. Inr (Some (j mod length reps))) [0..<length cs], rr)) \<and>
    (\<forall>k i. length cs = k * length reps \<and> i < length reps \<longrightarrow>
      length (filter (\<lambda>j. j mod length reps = i) [0..<length cs]) = k) \<and>
    (\<not> int (length reps) dvd 2 ^ 63 \<longrightarrow>
      rr_Select c reps \<lparr>rr_counter = i64 ((2 ^ 63 - 1) + 1)\<rparr> = Inl IndexOutOfRange)"
proof (intro conjI impI allI)
  have "int (length cs) < 2 ^ 63" using assms(2) by (metis of_nat_less_iff of_nat_numeral of_nat_power)
  then have "rr_wf (length cs) NewRoundRobin" by (simp add: rr_wf_def NewRoundRobin_def)
  from rr_all [OF assms(1) this] show "\<exists>rr. select_all rr_Select reps cs NewRoundRobin =
      Inr (map (\<lambda>j. Inr (Some (j mod length reps))) [0..<length cs], rr)"
    by (simp add: NewRoundRobin_def)
next
  fix k i
  assume "length cs = k * length reps \<and> i < length reps"
  then show "length (filter (\<lambda>j. j mod length reps = i) [0..<length cs]) = k" using count_mod_cycle by simp
next
  assume nd: "\<not> int (length reps) dvd 2 ^ 63"
  have e: "i64 ((2 ^ 63 - 1) + 1) = - (2 ^ 63)" by (simp add: i64_def)
  have pos: "0 < (2 ^ 63 :: int) mod int (length reps)"
    using nd assms(1) by (simp add: dvd_eq_mod_eq_0 order_less_le)
  then have "go_rem (- (2 ^ 63)) (int (length reps)) = Inr (- ((2 ^ 63) mod int (length reps)))"
    using assms(1) by (simp add: go_rem_def)
  with pos assms(1) show "rr_Select c reps \<lparr>rr_counter = i64 ((2 ^ 63 - 1) + 1)\<rparr> = Inl IndexOutOfRange"
    unfolding e by (simp add: rr_Select_def at_index_bad)
qed

lemma round_robin_rotation_instance:
  "let reps = [NewReplica ''a'' ''10.0.0.1'' True, NewReplica ''b'' ''10.0.0.2'' True, NewReplica ''c'' ''10.0.0.3'' True] in
   (\<exists>rr. select_all rr_Select reps (replicate 7 None) NewRoundRobin =
      Inr (map (\<lambda>j. Inr (Some (j mod 3))) [0..<7], rr)) \<and>
   rr_Select None reps \<lparr>rr_counter = i64 ((2 ^ 63 - 1) + 1)\<rparr> = Inl IndexOutOfRange"
proof -
  let ?reps = "[NewReplica ''a'' ''10.0.0.1'' True, NewReplica ''b'' ''10.0.0.2'' True, NewReplica ''c'' ''10.0.0.3'' True]"
  have l: "length ?reps = 3" "length (replicate 7 (None :: string option)) = 7" by simp_all
  have "\<not> (int 3 :: int) dvd 2 ^ 63" by simp
  then show ?thesis
    using round_robin_rotation [of ?reps "replicate 7 None" None] unfolding l Let_def by simp
qed

text \<open>C26: The weighted strategy is exact: over every cycle of as many selections as the weights add up to, starting anywhere,
  each replica is selected as often as its weight says (once if it has none or weight 0).\<close>

theorem weighted_exact:
  assumes "reps \<noteq> []" and "\<forall>r \<in> set reps. 0 \<le> replica_weight (wt_weights w) r"
    and "sum_list (map (replica_weight (wt_weights w)) reps) = int (length cs)"
    and "0 < length cs" and "0 \<le> wt_counter w" and "wt_counter w + int (length cs) < 2 ^ 63"
  shows "\<exists>xs w'. select_all wt_Select reps cs w = Inr (xs, w') \<and>
    (\<forall>i<length reps. int (count_list xs (Inr (Some i))) = replica_weight (wt_weights w) (reps ! i))"
proof -
  define os where "os = owners 0 (map (nat \<circ> replica_weight (wt_weights w)) reps)"
  define sel where "sel = (\<lambda>i. Inr (Some i) :: selection)"
  let ?W = "length cs"
  have "int (sum_list (map (nat \<circ> replica_weight (wt_weights w)) reps)) = int ?W"
    using assms(2) unfolding assms(3) [symmetric] by (induction reps) auto
  then have los: "length os = ?W" by (simp add: os_def)
  have "int ?W < int (2 ^ 63)" using assms(5,6) by simp
  then have W: "?W < 2 ^ 63" by (simp only: of_nat_less_iff)
  have all: "select_all wt_Select reps cs w =
      Inr (map sel (rotate (Suc (nat (wt_counter w))) os), w\<lparr>wt_counter := wt_counter w + int ?W\<rparr>)"
    unfolding wt_all [OF assms(1,2,3,4) W assms(5,6)] os_def [symmetric] cycle_rotate [OF los, symmetric]
    by (simp add: sel_def)
  have "int (count_list (map sel (rotate d os)) (sel i)) = replica_weight (wt_weights w) (reps ! i)"
    if "i < length reps" for i d
  proof -
    have "count_list (map sel ys) (sel i) = count_list ys i" for ys by (induction ys) (auto simp: sel_def)
    then have "count_list (map sel (rotate d os)) (sel i) = count_list (rotate d os) i" .
    also have "\<dots> = count_list os i" by (metis count_mset mset_rotate)
    also have "int \<dots> = replica_weight (wt_weights w) (reps ! i)"
      using that assms(2) by (simp add: os_def count_owners)
    finally show ?thesis .
  qed
  then show ?thesis unfolding all sel_def by blast
qed

theorem weighted_exact_witness:
  "let reps = [NewReplica ''a'' ''10.0.0.1'' True, NewReplica ''b'' ''10.0.0.2'' True] in
   \<exists>xs w'. select_all wt_Select reps (replicate 4 None) (NewWeighted [''a'' \<mapsto> 3]) = Inr (xs, w') \<and>
     count_list xs (Inr (Some 0)) = 3"
proof -
  let ?reps = "[NewReplica ''a'' ''10.0.0.1'' True, NewReplica ''b'' ''10.0.0.2'' True]"
  have w: "replica_weight [''a'' \<mapsto> 3] (?reps ! 0) = 3" "replica_weight [''a'' \<mapsto> 3] (?reps ! 1) = 1"
    by (simp_all add: replica_weight_def NewReplica_def)
  have "\<exists>xs w'. select_all wt_Select ?reps (replicate 4 None) (NewWeighted [''a'' \<mapsto> 3]) = Inr (xs, w') \<and>
      (\<forall>i<length ?reps. int (count_list xs (Inr (Some i))) = replica_weight (wt_weights (NewWeighted [''a'' \<mapsto> 3])) (?reps ! i))"
    by (rule weighted_exact) (simp_all add: NewWeighted_def replica_weight_def NewReplica_def)
  then obtain xs w' where x: "select_all wt_Select ?reps (replicate 4 None) (NewWeighted [''a'' \<mapsto> 3]) = Inr (xs, w')"
    and c: "\<forall>i<length ?reps. int (count_list xs (Inr (Some i))) = replica_weight (wt_weights (NewWeighted [''a'' \<mapsto> 3])) (?reps ! i)"
    by blast
  have "wt_weights (NewWeighted [''a'' \<mapsto> 3]) = [''a'' \<mapsto> 3]" by (simp add: NewWeighted_def)
  with c w(1) have "int (count_list xs (Inr (Some 0))) = 3" by auto
  then have "count_list xs (Inr (Some 0)) = 3" by simp
  with x show ?thesis unfolding Let_def by blast
qed

text \<open>C27: If every request is given to the least loaded replica and counted there, the loads of replicas that started equal never
  differ by more than one, and together they grow by the number of requests.\<close>

theorem least_connections_balanced:
  assumes "reps \<noteq> []" and "\<forall>r \<in> set reps. rep_ActiveConnections r = a" and "0 \<le> a" and "a + 1 + int n < 2 ^ 63"
  shows "(\<forall>r \<in> set (open_connections n reps). \<forall>r' \<in> set (open_connections n reps).
      \<bar>rep_ActiveConnections r - rep_ActiveConnections r'\<bar> \<le> 1) \<and>
    sum_list (map rep_ActiveConnections (open_connections n reps)) = int (length reps) * a + int n"
proof -
  have "map rep_ActiveConnections reps = replicate (length reps) a"
    using assms(2) by (intro map_replicate_const [THEN trans [rotated]] map_cong) auto
  then have s: "sum_list (map rep_ActiveConnections reps) = int (length reps) * a" by (simp add: sum_list_replicate)
  obtain m where m: "\<forall>r \<in> set (open_connections n reps). m \<le> rep_ActiveConnections r \<and> rep_ActiveConnections r \<le> m + 1"
    and t: "sum_list (map rep_ActiveConnections (open_connections n reps)) = sum_list (map rep_ActiveConnections reps) + int n"
    using open_connections_balanced [OF assms(1), of a n] assms(2-4) by auto
  have "\<bar>rep_ActiveConnections r - rep_ActiveConnections r'\<bar> \<le> 1"
    if "r \<in> set (open_connections n reps)" "r' \<in> set (open_connections n reps)" for r r'
    using bspec [OF m that(1)] bspec [OF m that(2)] by linarith
  with s t show ?thesis by simp
qed

theorem least_connections_balanced_witness:
  "sum_list (map rep_ActiveConnections
     (open_connections 1000 [NewReplica ''a'' ''10.0.0.1'' True, NewReplica ''b'' ''10.0.0.2'' True])) = 1000"
proof -
  let ?reps = "[NewReplica ''a'' ''10.0.0.1'' True, NewReplica ''b'' ''10.0.0.2'' True]"
  have "sum_list (map rep_ActiveConnections (open_connections 1000 ?reps)) = int (length ?reps) * 0 + int 1000"
    by (rule least_connections_balanced [THEN conjunct2]) (simp_all add: NewReplica_def)
  then show ?thesis by simp
qed

text \<open>From a new sticky strategy on, over a slice that does not change, every client with a non-negative hash is served by
  the replica its hash selects, whatever other clients do; and it keeps that replica when the slice grows without a
  rebalancing.\<close>

lemma sticky_selection:
  assumes "reps \<noteq> []" and "\<forall>c \<in> set cs. sticky_client c"
  shows "\<exists>s. select_all sk_Select reps cs NewSticky =
      Inr (map (\<lambda>c. Inr (Some (sticky_slot (length reps) c))) cs, s) \<and>
    (\<forall>c \<in> set cs. \<forall>more. sk_Select c (reps @ more) s = Inr (Inr (Some (sticky_slot (length reps) c)), s))"
proof -
  obtain s where s: "select_all sk_Select reps cs NewSticky = Inr (map (\<lambda>c. Inr (Some (sticky_slot (length reps) c))) cs, s)"
    "sk_hashed (length reps) s" "extractClientID ` set cs \<subseteq> dom (sk_affinity s)"
    using sk_all [OF assms, of NewSticky] by (auto simp: sk_hashed_def NewSticky_def)
  have "sk_Select c (reps @ more) s = Inr (Inr (Some (sticky_slot (length reps) c)), s)" if "c \<in> set cs" for c more
  proof -
    let ?i = "sint (hashClient (extractClientID c)) mod int (length reps)"
    have a: "sk_affinity s (extractClientID c) = Some ?i" using s(2,3) that by (auto simp: sk_hashed_def)
    have "0 \<le> ?i" "?i < int (length reps)" using assms(1) by simp_all
    then have "?i < int (length (reps @ more))" "0 \<le> ?i" by simp_all
    then show ?thesis using a assms(1) at_index_ok [of ?i "reps @ more" s] by (simp add: sk_Select_def Let_def sticky_slot_def)
  qed
  with s(1) show ?thesis by blast
qed

lemma sticky_selection_instance:
  "let reps = [NewReplica ''a'' ''10.0.0.1'' True, NewReplica ''b'' ''10.0.0.2'' True, NewReplica ''c'' ''10.0.0.3'' True] in
   \<exists>s. select_all sk_Select reps [Some ''10.0.0.1'', None, Some ''10.0.0.1''] NewSticky =
     Inr ([Inr (Some 1), Inr (Some 2), Inr (Some 1)], s)"
proof -
  let ?reps = "[NewReplica ''a'' ''10.0.0.1'' True, NewReplica ''b'' ''10.0.0.2'' True, NewReplica ''c'' ''10.0.0.3'' True]"
  have h: "hashClient ''10.0.0.1'' = 7570036927782433" "hashClient ''unknown'' = 229485379276373"
    by (simp_all add: hashClient_def decode_rune_def)
  show ?thesis
    using sticky_selection [of ?reps "[Some ''10.0.0.1'', None, Some ''10.0.0.1'']"]
    by (auto simp: sticky_client_def extractClientID_def sticky_slot_def h Let_def)
qed

text \<open>A client whose hash is at least $2^{63}$, as that of a common IPv4 address is, makes sticky selection panic with a negative index,
  unless the number of replicas divides the hash read as a signed number.\<close>

lemma sticky_negative_hash_panics:
  assumes "\<not> sticky_client c" and "\<not> int (length reps) dvd sint (hashClient (extractClientID c))" and "reps \<noteq> []"
  shows "sk_Select c reps NewSticky = Inl IndexOutOfRange"
proof -
  let ?h = "sint (hashClient (extractClientID c))"
  have neg: "?h < 0" using assms(1) by (simp add: sticky_client_def)
  have "0 < \<bar>?h\<bar> mod int (length reps)"
    using assms(2,3) by (simp add: order_less_le dvd_eq_mod_eq_0 [symmetric] eq_commute [of 0])
  then have "sgn ?h * (\<bar>?h\<bar> mod int (length reps)) < 0" using neg by simp
  with assms(3) show ?thesis by (simp add: sk_Select_def NewSticky_def go_rem_def at_index_bad Let_def)
qed

lemma sticky_negative_hash_panics_instance:
  "sk_Select (Some ''203.0.113.7'')
     [NewReplica ''a'' ''10.0.0.1'' True, NewReplica ''b'' ''10.0.0.2'' True, NewReplica ''c'' ''10.0.0.3'' True] NewSticky =
   Inl IndexOutOfRange"
proof (rule sticky_negative_hash_panics)
  have h: "hashClient ''203.0.113.7'' = 13791538570083321824" by (simp add: hashClient_def decode_rune_def)
  then show "\<not> sticky_client (Some ''203.0.113.7'')" by (simp add: sticky_client_def extractClientID_def)
  show "\<not> int (length [NewReplica ''a'' ''10.0.0.1'' True, NewReplica ''b'' ''10.0.0.2'' True, NewReplica ''c'' ''10.0.0.3'' True]) dvd
      sint (hashClient (extractClientID (Some ''203.0.113.7'')))"
    by (simp add: extractClientID_def h)
qed simp

end
