(* ===== verification/WV_Discovery.thy ===== *)
theory WV_Discovery
  imports Go_Float
begin

text \<open>
  Discovery of replicas: \<^verbatim>\<open>interface.go\<close>, \<^verbatim>\<open>static.go\<close> and \<^verbatim>\<open>advanced.go\<close> of \<^verbatim>\<open>src/Weaver/pkg/discovery\<close>.
  There are five services: a static list, and the caches of etcd, Consul, Kubernetes and DNS SRV records. The answer
  of the DNS resolver is an argument. The goroutine behind \<open>Watch\<close> is a function from its program counter and the event that
  a \<open>select\<close> of the source takes to the next program counter; \<open>None\<close> says that the event cannot be taken.
\<close>

section \<open>Replicas and configuration\<close>

record ReplicaInfo =
  ri_Name :: string
  ri_Address :: string
  ri_Healthy :: bool

text \<open>The dynamic values of a configuration that its accessors tell apart.\<close>

datatype cfg_value = CString string | CInt int | CFloat rat | CSlice "string list" | COther

type_synonym Config = "string \<rightharpoonup> cfg_value"

definition cfg_Get :: "Config \<Rightarrow> string \<Rightarrow> string" where
  "cfg_Get c key = (case c key of Some (CString str) \<Rightarrow> str | _ \<Rightarrow> '''')"

text \<open>A float is truncated, as for a duration; the conversion is defined for numbers within the range.\<close>

definition cfg_GetInt :: "Config \<Rightarrow> string \<Rightarrow> int" where
  "cfg_GetInt c key = (case c key of Some (CInt v) \<Rightarrow> v | Some (CFloat v) \<Rightarrow> to_duration v | _ \<Rightarrow> 0)"

text \<open>A nil slice is the empty list.\<close>

definition cfg_GetSlice :: "Config \<Rightarrow> string \<Rightarrow> string list" where
  "cfg_GetSlice c key = (case c key of Some (CSlice slice) \<Rightarrow> slice | _ \<Rightarrow> [])"

section \<open>The static service\<close>

text \<open>
  The channel \<open>changes\<close> has room for one list; \<open>done\<close> says whether the channel of that name was closed.
\<close>

record StaticDiscovery =
  sd_replicas :: "ReplicaInfo list"
  sd_changes :: "ReplicaInfo list list"
  sd_done :: bool

fun static_infos :: "nat \<Rightarrow> string list \<Rightarrow> ReplicaInfo list" where
  "static_infos i [] = []"
| "static_infos i (addr # addrs) =
     \<lparr>ri_Name = ''replica-'' @ show_nat (i + 1), ri_Address = addr, ri_Healthy = True\<rparr> # static_infos (Suc i) addrs"

definition NewStaticDiscovery :: "string list \<Rightarrow> StaticDiscovery" where
  "NewStaticDiscovery addresses =
     \<lparr>sd_replicas = static_infos 0 addresses, sd_changes = [], sd_done = False\<rparr>"

text \<open>A send that does not block: it is dropped when the channel is full.\<close>

definition try_send :: "nat \<Rightarrow> 'a \<Rightarrow> 'a list \<Rightarrow> 'a list" where
  "try_send capacity x buf = (if length buf < capacity then buf @ [x] else buf)"

definition UpdateReplicas :: "string list \<Rightarrow> StaticDiscovery \<Rightarrow> StaticDiscovery" where
  "UpdateReplicas addresses s =
     (let replicas = static_infos 0 addresses
      in s\<lparr>sd_replicas := replicas, sd_changes := try_send 1 replicas (sd_changes s)\<rparr>)"

definition sd_Close :: "StaticDiscovery \<Rightarrow> StaticDiscovery go" where
  "sd_Close s = (if sd_done s then Inl CloseOfClosedChannel else Inr (s\<lparr>sd_done := True\<rparr>))"

section \<open>The goroutine behind a watch\<close>

text \<open>Its program counter: before the snapshot of the list, about to send it, waiting, returned.\<close>

datatype watcher = WStart | WSend "ReplicaInfo list" | WWait | WClosed

text \<open>
  What the goroutine does next: it takes a snapshot, its send succeeds, its ticker fires (\<open>now\<close> is the instant and \<open>answer\<close>
  what the DNS resolver returns there), its context is done, or it sees that the service was closed.
\<close>

type_synonym srv_answer = "string + (string \<times> nat) list"

datatype watch_event = Snapshots | Sends | Ticks time srv_answer | SeesCancel | SeesDone

text \<open>The static service sends its list once and then waits for the context only.\<close>

definition sd_Watch :: "watch_event \<Rightarrow> watcher \<Rightarrow> StaticDiscovery \<Rightarrow> (watcher \<times> StaticDiscovery) option" where
  "sd_Watch ev pc s =
     (case (pc, ev) of
        (WStart, Snapshots) \<Rightarrow> Some (WSend (sd_replicas s), s)
      | (WSend l, Sends) \<Rightarrow> Some (WWait, s)
      | (WSend l, SeesCancel) \<Rightarrow> Some (WClosed, s)
      | (WSend l, SeesDone) \<Rightarrow> if sd_done s then Some (WClosed, s) else None
      | (WWait, SeesCancel) \<Rightarrow> Some (WClosed, s)
      | _ \<Rightarrow> None)"

text \<open>
  The loop that the four caching services have in common: \<open>current\<close> is the cached list, \<open>shutp\<close> whether the service was
  closed, and \<open>tick\<close> what the service does when its ticker fires.
\<close>

definition poll_watch ::
  "('s \<Rightarrow> ReplicaInfo list) \<Rightarrow> ('s \<Rightarrow> bool) \<Rightarrow> (time \<Rightarrow> srv_answer \<Rightarrow> 's \<Rightarrow> 's) \<Rightarrow>
   watch_event \<Rightarrow> watcher \<Rightarrow> 's \<Rightarrow> (watcher \<times> 's) option"
where
  "poll_watch current shutp tick ev pc s =
     (case (pc, ev) of
        (WStart, Snapshots) \<Rightarrow> Some (WSend (current s), s)
      | (WSend l, Sends) \<Rightarrow> Some (WWait, s)
      | (WSend l, SeesCancel) \<Rightarrow> Some (WClosed, s)
      | (WSend l, SeesDone) \<Rightarrow> if shutp s then Some (WClosed, s) else None
      | (WWait, Ticks now answer) \<Rightarrow> Some (WStart, tick now answer s)
      | (WWait, SeesCancel) \<Rightarrow> Some (WClosed, s)
      | (WWait, SeesDone) \<Rightarrow> if shutp s then Some (WClosed, s) else None
      | _ \<Rightarrow> None)"

text \<open>The zero duration stands for half a minute; a ticker with an interval that is not positive panics.\<close>

definition default_ttl :: "duration \<Rightarrow> duration" where
  "default_ttl d = (if d = 0 then 30 * Second else d)"

definition new_ticker :: "duration \<Rightarrow> watcher go" where
  "new_ticker d = (if d \<le> 0 then Inl NonPositiveTicker else Inr WStart)"

section \<open>etcd\<close>

record EtcdDiscovery =
  ed_endpoints :: "string list"
  ed_cacheTimeout :: duration
  ed_replicas :: "ReplicaInfo list"
  ed_changes :: "ReplicaInfo list list"
  ed_done :: bool
  ed_lastUpdate :: time

definition NewEtcdDiscovery :: "time \<Rightarrow> string list \<Rightarrow> duration \<Rightarrow> EtcdDiscovery" where
  "NewEtcdDiscovery now endpoints cacheTimeout =
     \<lparr>ed_endpoints = endpoints, ed_cacheTimeout = default_ttl cacheTimeout,
      ed_replicas = [], ed_changes = [], ed_done = False, ed_lastUpdate = now\<rparr>"

definition ed_Watch :: "watch_event \<Rightarrow> watcher \<Rightarrow> EtcdDiscovery \<Rightarrow> (watcher \<times> EtcdDiscovery) option" where
  "ed_Watch = poll_watch ed_replicas ed_done (\<lambda>now answer e. e)"

definition UpdateCachedReplicas :: "time \<Rightarrow> ReplicaInfo list \<Rightarrow> EtcdDiscovery \<Rightarrow> EtcdDiscovery" where
  "UpdateCachedReplicas now replicas e =
     e\<lparr>ed_replicas := replicas, ed_lastUpdate := now, ed_changes := try_send 1 replicas (ed_changes e)\<rparr>"

definition ed_Close :: "EtcdDiscovery \<Rightarrow> EtcdDiscovery go" where
  "ed_Close e = (if ed_done e then Inl CloseOfClosedChannel else Inr (e\<lparr>ed_done := True\<rparr>))"

section \<open>Consul\<close>

record ConsulDiscovery =
  cd_serviceName :: string
  cd_dataCenter :: string
  cd_endpoints :: "string list"
  cd_replicas :: "ReplicaInfo list"
  cd_changes :: "ReplicaInfo list list"
  cd_done :: bool
  cd_lastUpdate :: time
  cd_cacheTTL :: duration

definition NewConsulDiscovery ::
  "time \<Rightarrow> string \<Rightarrow> string \<Rightarrow> string list \<Rightarrow> duration \<Rightarrow> ConsulDiscovery" where
  "NewConsulDiscovery now serviceName dataCenter consulEndpoints cacheTTL =
     \<lparr>cd_serviceName = serviceName, cd_dataCenter = dataCenter, cd_endpoints = consulEndpoints, cd_replicas = [],
      cd_changes = [], cd_done = False, cd_lastUpdate = now, cd_cacheTTL = default_ttl cacheTTL\<rparr>"

definition cd_getCurrentReplicas :: "ConsulDiscovery \<Rightarrow> ReplicaInfo list" where
  "cd_getCurrentReplicas c = cd_replicas c"

definition cd_Discover :: "ConsulDiscovery \<Rightarrow> string + ReplicaInfo list" where
  "cd_Discover c = Inr (cd_replicas c)"

definition cd_Watch :: "watch_event \<Rightarrow> watcher \<Rightarrow> ConsulDiscovery \<Rightarrow> (watcher \<times> ConsulDiscovery) option" where
  "cd_Watch = poll_watch cd_getCurrentReplicas cd_done (\<lambda>now answer c. c)"

definition cd_UpdateCachedReplicas :: "time \<Rightarrow> ReplicaInfo list \<Rightarrow> ConsulDiscovery \<Rightarrow> ConsulDiscovery" where
  "cd_UpdateCachedReplicas now replicas c =
     c\<lparr>cd_replicas := replicas, cd_lastUpdate := now, cd_changes := try_send 1 replicas (cd_changes c)\<rparr>"

definition cd_Close :: "ConsulDiscovery \<Rightarrow> ConsulDiscovery go" where
  "cd_Close c = (if cd_done c then Inl CloseOfClosedChannel else Inr (c\<lparr>cd_done := True\<rparr>))"

section \<open>Kubernetes\<close>

record KubernetesDiscovery =
  kd_namespace :: string
  kd_labelKey :: string
  kd_labelValue :: string
  kd_replicas :: "ReplicaInfo list"
  kd_changes :: "ReplicaInfo list list"
  kd_done :: bool
  kd_lastUpdate :: time
  kd_cacheTTL :: duration

definition NewKubernetesDiscovery ::
  "time \<Rightarrow> string \<Rightarrow> string \<Rightarrow> string \<Rightarrow> duration \<Rightarrow> KubernetesDiscovery" where
  "NewKubernetesDiscovery now namespace labelKey labelValue cacheTTL =
     \<lparr>kd_namespace = namespace, kd_labelKey = labelKey, kd_labelValue = labelValue, kd_replicas = [],
      kd_changes = [], kd_done = False, kd_lastUpdate = now, kd_cacheTTL = default_ttl cacheTTL\<rparr>"

definition kd_getCurrentReplicas :: "KubernetesDiscovery \<Rightarrow> ReplicaInfo list" where
  "kd_getCurrentReplicas k = kd_replicas k"

definition kd_Discover :: "KubernetesDiscovery \<Rightarrow> string + ReplicaInfo list" where
  "kd_Discover k = Inr (kd_replicas k)"

definition kd_Watch :: "watch_event \<Rightarrow> watcher \<Rightarrow> KubernetesDiscovery \<Rightarrow> (watcher \<times> KubernetesDiscovery) option" where
  "kd_Watch = poll_watch kd_getCurrentReplicas kd_done (\<lambda>now answer k. k)"

definition kd_UpdateCachedReplicas :: "time \<Rightarrow> ReplicaInfo list \<Rightarrow> KubernetesDiscovery \<Rightarrow> KubernetesDiscovery" where
  "kd_UpdateCachedReplicas now replicas k =
     k\<lparr>kd_replicas := replicas, kd_lastUpdate := now, kd_changes := try_send 1 replicas (kd_changes k)\<rparr>"

definition kd_Close :: "KubernetesDiscovery \<Rightarrow> KubernetesDiscovery go" where
  "kd_Close k = (if kd_done k then Inl CloseOfClosedChannel else Inr (k\<lparr>kd_done := True\<rparr>))"

section \<open>DNS SRV records\<close>

record DNSSRVDiscovery =
  dd_service :: string
  dd_proto :: string
  dd_name :: string
  dd_replicas :: "ReplicaInfo list"
  dd_changes :: "ReplicaInfo list list"
  dd_done :: bool
  dd_lastUpdate :: time
  dd_cacheTTL :: duration

definition NewDNSSRVDiscovery :: "time \<Rightarrow> string \<Rightarrow> string \<Rightarrow> string \<Rightarrow> duration \<Rightarrow> DNSSRVDiscovery" where
  "NewDNSSRVDiscovery now service proto name cacheTTL =
     \<lparr>dd_service = service, dd_proto = proto, dd_name = name, dd_replicas = [],
      dd_changes = [], dd_done = False, dd_lastUpdate = now, dd_cacheTTL = default_ttl cacheTTL\<rparr>"

definition dd_getCurrentReplicas :: "DNSSRVDiscovery \<Rightarrow> ReplicaInfo list" where
  "dd_getCurrentReplicas d = dd_replicas d"

definition dd_Discover :: "DNSSRVDiscovery \<Rightarrow> string + ReplicaInfo list" where
  "dd_Discover d = Inr (dd_replicas d)"

definition dd_updateReplicas :: "time \<Rightarrow> ReplicaInfo list \<Rightarrow> DNSSRVDiscovery \<Rightarrow> DNSSRVDiscovery" where
  "dd_updateReplicas now replicas d =
     d\<lparr>dd_replicas := replicas, dd_lastUpdate := now, dd_changes := try_send 1 replicas (dd_changes d)\<rparr>"

definition srv_infos :: "(string \<times> nat) list \<Rightarrow> ReplicaInfo list" where
  "srv_infos = map (\<lambda>(target, port).
     \<lparr>ri_Name = target, ri_Address = target @ '':'' @ show_nat port, ri_Healthy = True\<rparr>)"

text \<open>A tick of the ticker: the records that the resolver found replace the cache, an error leaves it.\<close>

definition dd_tick :: "time \<Rightarrow> srv_answer \<Rightarrow> DNSSRVDiscovery \<Rightarrow> DNSSRVDiscovery" where
  "dd_tick now answer d =
     (case answer of Inl err \<Rightarrow> d | Inr targets \<Rightarrow> dd_updateReplicas now (srv_infos targets) d)"

definition dd_Watch :: "watch_event \<Rightarrow> watcher \<Rightarrow> DNSSRVDiscovery \<Rightarrow> (watcher \<times> DNSSRVDiscovery) option" where
  "dd_Watch = poll_watch dd_getCurrentReplicas dd_done dd_tick"

definition dd_Close :: "DNSSRVDiscovery \<Rightarrow> DNSSRVDiscovery go" where
  "dd_Close d = (if dd_done d then Inl CloseOfClosedChannel else Inr (d\<lparr>dd_done := True\<rparr>))"

section \<open>The interface\<close>

datatype Discovery =
    DStatic StaticDiscovery
  | DEtcd EtcdDiscovery
  | DConsul ConsulDiscovery
  | DKubernetes KubernetesDiscovery
  | DDns DNSSRVDiscovery

definition sd_getCurrentReplicas :: "StaticDiscovery \<Rightarrow> ReplicaInfo list" where
  "sd_getCurrentReplicas s = sd_replicas s"

definition sd_Discover :: "StaticDiscovery \<Rightarrow> string + ReplicaInfo list" where
  "sd_Discover s = Inr (sd_replicas s)"

definition ed_getCurrentReplicas :: "EtcdDiscovery \<Rightarrow> ReplicaInfo list" where
  "ed_getCurrentReplicas e = ed_replicas e"

definition ed_Discover :: "EtcdDiscovery \<Rightarrow> string + ReplicaInfo list" where
  "ed_Discover e = Inr (ed_replicas e)"

declare sd_getCurrentReplicas_def [simp] sd_Discover_def [simp] ed_getCurrentReplicas_def [simp] ed_Discover_def [simp]

fun getCurrentReplicas :: "Discovery \<Rightarrow> ReplicaInfo list" where
  "getCurrentReplicas (DStatic s) = sd_getCurrentReplicas s"
| "getCurrentReplicas (DEtcd e) = ed_getCurrentReplicas e"
| "getCurrentReplicas (DConsul c) = cd_getCurrentReplicas c"
| "getCurrentReplicas (DKubernetes k) = kd_getCurrentReplicas k"
| "getCurrentReplicas (DDns d) = dd_getCurrentReplicas d"

fun Discover :: "Discovery \<Rightarrow> string + ReplicaInfo list" where
  "Discover (DStatic s) = sd_Discover s"
| "Discover (DEtcd e) = ed_Discover e"
| "Discover (DConsul c) = cd_Discover c"
| "Discover (DKubernetes k) = kd_Discover k"
| "Discover (DDns d) = dd_Discover d"

definition wrap_watch :: "('s \<Rightarrow> Discovery) \<Rightarrow> (watcher \<times> 's) option \<Rightarrow> (watcher \<times> Discovery) option" where
  "wrap_watch f = map_option (\<lambda>(pc, s). (pc, f s))"

fun disc_Watch :: "watch_event \<Rightarrow> watcher \<Rightarrow> Discovery \<Rightarrow> (watcher \<times> Discovery) option" where
  "disc_Watch ev pc (DStatic s) = wrap_watch DStatic (sd_Watch ev pc s)"
| "disc_Watch ev pc (DEtcd e) = wrap_watch DEtcd (ed_Watch ev pc e)"
| "disc_Watch ev pc (DConsul c) = wrap_watch DConsul (cd_Watch ev pc c)"
| "disc_Watch ev pc (DKubernetes k) = wrap_watch DKubernetes (kd_Watch ev pc k)"
| "disc_Watch ev pc (DDns d) = wrap_watch DDns (dd_Watch ev pc d)"

text \<open>The start of the goroutine of a watch: the four caching services make their ticker.\<close>

fun watch_launch :: "Discovery \<Rightarrow> watcher go" where
  "watch_launch (DStatic s) = Inr WStart"
| "watch_launch (DEtcd e) = new_ticker (ed_cacheTimeout e)"
| "watch_launch (DConsul c) = new_ticker (cd_cacheTTL c)"
| "watch_launch (DKubernetes k) = new_ticker (kd_cacheTTL k)"
| "watch_launch (DDns d) = new_ticker (dd_cacheTTL d)"

text \<open>The capacity of the result channel of a watch.\<close>

fun watch_capacity :: "Discovery \<Rightarrow> nat" where
  "watch_capacity (DEtcd e) = 0"
| "watch_capacity _ = 1"

fun disc_Close :: "Discovery \<Rightarrow> Discovery go" where
  "disc_Close (DStatic s) = go_bind (sd_Close s) (\<lambda>s'. Inr (DStatic s'))"
| "disc_Close (DEtcd e) = go_bind (ed_Close e) (\<lambda>e'. Inr (DEtcd e'))"
| "disc_Close (DConsul c) = go_bind (cd_Close c) (\<lambda>c'. Inr (DConsul c'))"
| "disc_Close (DKubernetes k) = go_bind (kd_Close k) (\<lambda>k'. Inr (DKubernetes k'))"
| "disc_Close (DDns d) = go_bind (dd_Close d) (\<lambda>d'. Inr (DDns d'))"

text \<open>
  The update of the list from outside the watch: \<open>UpdateReplicas\<close> of the static service, which makes the
  list from addresses, and \<open>UpdateCachedReplicas\<close> of etcd, Consul and Kubernetes. The DNS service has none.
\<close>

datatype disc_update = UAddresses "string list" | UInfos time "ReplicaInfo list"

fun disc_Update :: "disc_update \<Rightarrow> Discovery \<Rightarrow> Discovery option" where
  "disc_Update (UAddresses addrs) (DStatic s) = Some (DStatic (UpdateReplicas addrs s))"
| "disc_Update (UInfos now infos) (DEtcd e) = Some (DEtcd (UpdateCachedReplicas now infos e))"
| "disc_Update (UInfos now infos) (DConsul c) = Some (DConsul (cd_UpdateCachedReplicas now infos c))"
| "disc_Update (UInfos now infos) (DKubernetes k) = Some (DKubernetes (kd_UpdateCachedReplicas now infos k))"
| "disc_Update _ _ = None"

fun is_static :: "Discovery \<Rightarrow> bool" where
  "is_static (DStatic s) = True"
| "is_static _ = False"

text \<open>What a step of a watch may do: a snapshot is the list that the service holds, and only a tick changes the service.\<close>

definition watch_ok :: "('s \<Rightarrow> ReplicaInfo list) \<Rightarrow> 's \<Rightarrow> watcher \<times> 's \<Rightarrow> bool" where
  "watch_ok current s x \<longleftrightarrow> (case x of
     (WSend l, s') \<Rightarrow> l = current s \<and> s' = s
   | (WStart, s') \<Rightarrow> True
   | (_, s') \<Rightarrow> s' = s)"

section \<open>What the caching services promise\<close>

text \<open>
  The contract of a caching service with the code that reads its watch: the laws of its update, and what the goroutine does at
  each of its two \<open>select\<close> statements.
\<close>

locale caching_service =
  fixes current :: "'s \<Rightarrow> ReplicaInfo list"
    and shutp :: "'s \<Rightarrow> bool"
    and shut :: "'s \<Rightarrow> 's go"
    and update :: "time \<Rightarrow> ReplicaInfo list \<Rightarrow> 's \<Rightarrow> 's"
    and tick :: "time \<Rightarrow> srv_answer \<Rightarrow> 's \<Rightarrow> 's"
    and watch :: "watch_event \<Rightarrow> watcher \<Rightarrow> 's \<Rightarrow> (watcher \<times> 's) option"
  assumes current_update: "current (update now l s) = l"
    and closed_update: "shutp (update now l s) = shutp s"
    and closed_tick: "shutp (tick now answer s) = shutp s"
    and tick_error: "tick now (Inl err) s = s"
    and shut_open: "\<not> shutp s \<Longrightarrow> \<exists>s'. shut s = Inr s' \<and> shutp s' \<and> current s' = current s"
    and shut_closed: "shutp s \<Longrightarrow> shut s = Inl CloseOfClosedChannel"
    and watch_snapshot: "watch Snapshots WStart s = Some (WSend (current s), s)"
    and watch_send: "watch Sends (WSend l) s = Some (WWait, s)"
    and watch_tick: "watch (Ticks now answer) WWait s = Some (WStart, tick now answer s)"
    and watch_done: "pc = WWait \<or> pc = WSend l \<Longrightarrow> shutp s \<Longrightarrow> watch SeesDone pc s = Some (WClosed, s)"
    and watch_returned: "watch ev WClosed s = None"
begin

fun follow :: "watch_event list \<Rightarrow> watcher \<times> 's \<Rightarrow> (watcher \<times> 's) option" where
  "follow [] x = Some x"
| "follow (ev # evs) (pc, s) = (case watch ev pc s of None \<Rightarrow> None | Some x \<Rightarrow> follow evs x)"

text \<open>A round of the loop after an update, with a ticker that finds nothing new, is about to send the update.\<close>

lemma round_sends_update:
  "follow [Ticks now' (Inl err), Snapshots] (WWait, update now l s) = Some (WSend l, update now l s)"
  by (simp add: watch_tick watch_snapshot tick_error current_update)

text \<open>Closing an open service lets a goroutine that waits or sends return, and it does nothing more.\<close>

lemma shut_stops_watch:
  assumes "\<not> shutp s" and "pc = WWait \<or> pc = WSend l"
  shows "\<exists>s'. shut s = Inr s' \<and> follow [SeesDone] (pc, s') = Some (WClosed, s') \<and>
    (\<forall>ev evs. follow (ev # evs) (WClosed, s') = None)"
  using shut_open [OF assms(1)] watch_done [OF assms(2)] by (auto simp: watch_returned)

end

lemmas cache_defs = poll_watch_def cd_getCurrentReplicas_def kd_getCurrentReplicas_def dd_getCurrentReplicas_def

interpretation etcd_cache: caching_service ed_replicas ed_done ed_Close UpdateCachedReplicas "\<lambda>now answer e. e" ed_Watch
  by unfold_locales (auto simp: UpdateCachedReplicas_def ed_Close_def ed_Watch_def cache_defs)

interpretation consul_cache: caching_service cd_getCurrentReplicas cd_done cd_Close cd_UpdateCachedReplicas
    "\<lambda>now answer c. c" cd_Watch
  by unfold_locales (auto simp: cd_UpdateCachedReplicas_def cd_Close_def cd_Watch_def cache_defs)

interpretation kubernetes_cache: caching_service kd_getCurrentReplicas kd_done kd_Close kd_UpdateCachedReplicas
    "\<lambda>now answer k. k" kd_Watch
  by unfold_locales (auto simp: kd_UpdateCachedReplicas_def kd_Close_def kd_Watch_def cache_defs)

interpretation dns_cache: caching_service dd_getCurrentReplicas dd_done dd_Close dd_updateReplicas dd_tick dd_Watch
  by unfold_locales
    (auto simp: dd_updateReplicas_def dd_Close_def dd_Watch_def dd_tick_def cache_defs split: sum.split)

section \<open>Lemmas for the readers of a watch\<close>

lemmas disc_snapshot = etcd_cache.watch_snapshot consul_cache.watch_snapshot kubernetes_cache.watch_snapshot
  dns_cache.watch_snapshot
lemmas disc_send = etcd_cache.watch_send consul_cache.watch_send kubernetes_cache.watch_send dns_cache.watch_send
lemmas disc_tick = etcd_cache.watch_tick consul_cache.watch_tick kubernetes_cache.watch_tick dns_cache.watch_tick

lemma disc_Watch_snapshot [simp]: "disc_Watch Snapshots WStart d = Some (WSend (getCurrentReplicas d), d)"
  by (cases d) (simp_all add: wrap_watch_def sd_Watch_def disc_snapshot)

lemma disc_Watch_send [simp]: "disc_Watch Sends (WSend l) d = Some (WWait, d)"
  by (cases d) (simp_all add: wrap_watch_def sd_Watch_def disc_send)

lemma disc_Watch_tick:
  "\<not> is_static d \<Longrightarrow> \<exists>d'. disc_Watch (Ticks now answer) WWait d = Some (WStart, d') \<and> \<not> is_static d' \<and>
     watch_capacity d' = watch_capacity d \<and>
     getCurrentReplicas d' = (case (d, answer) of (DDns _, Inr targets) \<Rightarrow> srv_infos targets | _ \<Rightarrow> getCurrentReplicas d)"
  by (cases d; cases answer) (simp_all add: wrap_watch_def disc_tick dd_tick_def dns_cache.current_update)

text \<open>Every snapshot is the list that the service holds, and only a tick changes the service.\<close>

lemma poll_watch_step: "poll_watch current shutp tick ev pc s = Some x \<Longrightarrow> watch_ok current s x"
  by (cases pc; cases ev) (auto simp: poll_watch_def watch_ok_def split: if_splits)

lemma sd_Watch_step: "sd_Watch ev pc s = Some x \<Longrightarrow> watch_ok sd_replicas s x"
  by (cases pc; cases ev) (auto simp: sd_Watch_def watch_ok_def split: if_splits)

lemma wrap_watch_step:
  assumes "wrap_watch f r = Some y" and "\<And>x. r = Some x \<Longrightarrow> watch_ok current s x"
    and "\<And>s. getCurrentReplicas (f s) = current s"
  shows "watch_ok getCurrentReplicas (f s) y \<and> (\<exists>s'. snd y = f s')"
  using assms by (fastforce simp: wrap_watch_def watch_ok_def split: watcher.splits)

lemma disc_Watch_step:
  assumes "disc_Watch ev pc d = Some y"
  shows "watch_ok getCurrentReplicas d y \<and> is_static (snd y) = is_static d \<and> watch_capacity (snd y) = watch_capacity d"
proof (cases d)
  case (DStatic s)
  with assms wrap_watch_step [of DStatic _ y sd_replicas s, OF _ sd_Watch_step] show ?thesis by fastforce
next
  case (DEtcd s)
  with assms wrap_watch_step [of DEtcd _ y ed_replicas s, OF _ poll_watch_step] show ?thesis
    by (fastforce simp: ed_Watch_def)
next
  case (DConsul s)
  with assms wrap_watch_step [of DConsul _ y cd_getCurrentReplicas s, OF _ poll_watch_step] show ?thesis
    by (fastforce simp: cd_Watch_def)
next
  case (DKubernetes s)
  with assms wrap_watch_step [of DKubernetes _ y kd_getCurrentReplicas s, OF _ poll_watch_step] show ?thesis
    by (fastforce simp: kd_Watch_def)
next
  case (DDns s)
  with assms wrap_watch_step [of DDns _ y dd_getCurrentReplicas s, OF _ poll_watch_step] show ?thesis
    by (fastforce simp: dd_Watch_def)
qed

lemma watch_capacity_cases: "watch_capacity d = 0 \<or> watch_capacity d = 1"
  by (cases d) auto

declare disc_Watch.simps [simp del]

end
