(* ===== verification/WV_Gateway.thy ===== *)
theory WV_Gateway
  imports WV_Balancer WV_Discovery
begin

text \<open>
  The gateway that routes requests (\<^verbatim>\<open>gateway.go\<close> and \<^verbatim>\<open>routing.go\<close> of \<^verbatim>\<open>src/Weaver/pkg/gateway\<close>), on top of the discovery
  services. The goroutine behind \<open>Watch\<close> of a service and the
  gateway's \<open>watchDiscovery\<close> loop are a state machine whose actions are the steps of the two goroutines.
  Routing a request is one step; the instants it reads and the state of the request's context are arguments.
\<close>

section \<open>Gateway\<close>

datatype GatewayState = GatewayStateReady | GatewayStateDegraded | GatewayStatePanic

text \<open>A health monitor is seen by whether it was started; \<open>None\<close> is nil, as for the discovery and the load balancer.\<close>

record Gateway =
  gw_name :: string
  gw_replicas :: "Replica list"
  gw_discovery :: "Discovery option"
  gw_healthMonitor :: "bool option"
  gw_lb :: "LoadBalancer option"
  gw_state :: GatewayState

definition NewGateway :: "string \<Rightarrow> Discovery option \<Rightarrow> bool option \<Rightarrow> LoadBalancer option \<Rightarrow> Gateway" where
  "NewGateway name disc mon lb =
     \<lparr>gw_name = name, gw_replicas = [], gw_discovery = disc, gw_healthMonitor = mon, gw_lb = lb,
      gw_state = GatewayStateReady\<rparr>"

definition setGatewayState :: "GatewayState \<Rightarrow> Gateway \<Rightarrow> Gateway" where
  "setGatewayState st gw = gw\<lparr>gw_state := st\<rparr>"

definition to_replicas :: "ReplicaInfo list \<Rightarrow> Replica list" where
  "to_replicas = map (\<lambda>info. NewReplica (ri_Name info) (ri_Address info) (ri_Healthy info))"

text \<open>\<open>Start\<close>; the second component is the watcher it launches, if it succeeds.\<close>

definition gw_Start :: "Gateway \<Rightarrow> string option \<times> Gateway \<times> watcher option" where
  "gw_Start gw =
     (case gw_discovery gw of
        None \<Rightarrow> (Some ''discovery service required'', gw, None)
      | Some d \<Rightarrow>
          (case Discover d of
             Inl err \<Rightarrow> (Some err, gw, None)
           | Inr infos \<Rightarrow>
               (let gw1 = gw\<lparr>gw_replicas := to_replicas infos,
                             gw_healthMonitor := map_option (\<lambda>_. True) (gw_healthMonitor gw)\<rparr>
                in (None, setGatewayState GatewayStateReady gw1, Some WStart))))"

text \<open>The body of the loop of \<open>watchDiscovery\<close> for a list received.\<close>

definition gw_receive :: "ReplicaInfo list \<Rightarrow> Gateway \<Rightarrow> Gateway" where
  "gw_receive infos gw =
     gw\<lparr>gw_replicas := to_replicas infos,
        gw_lb := map_option (\<lambda>lb. snd (lb_Rebalance (to_replicas infos) lb)) (gw_lb gw)\<rparr>"

record Request =
  rq_Method :: string
  rq_TimeoutMs :: int
  rq_RequestID :: string
  rq_ClientIP :: string

record Response =
  rs_StatusCode :: int
  rs_Payload :: string
  rs_LatencyMs :: int

text \<open>
  \<open>RouteRequest\<close>. \<open>ctxErr\<close> is the error of the context at entry, \<open>client\<close> its client identifier, \<open>t0\<close>,
  \<open>t1\<close> and \<open>t2\<close> the readings of the clock. The loop over the attempts returns in its first round on every path, so that it is
  one selection. A nil load balancer panics.
\<close>

definition RouteRequest ::
  "time \<Rightarrow> time \<Rightarrow> time \<Rightarrow> string option \<Rightarrow> string option \<Rightarrow> Request \<Rightarrow> Gateway \<Rightarrow> ((string + Response) \<times> Gateway) go"
where
  "RouteRequest t0 t1 t2 ctxErr client req gw =
     (case ctxErr of
        Some e \<Rightarrow> Inr (Inl e, gw)
      | None \<Rightarrow>
          let replicas = gw_replicas gw in
          if length replicas = 0 then Inr (Inl ''no replicas available'', setGatewayState GatewayStatePanic gw)
          else let deadline = t0 + i64 (rq_TimeoutMs req * Millisecond) in
            if deadline < t1 then Inr (Inl ''request timeout'', gw)
            else (case gw_lb gw of
                    None \<Rightarrow> Inl NilDereference
                  | Some lb \<Rightarrow>
                      go_bind (lb_Select client replicas lb)
                        (\<lambda>(x, lb').
                           let gw' = gw\<lparr>gw_lb := Some lb'\<rparr> in
                           case x of
                             Inl err \<Rightarrow> Inr (Inl err, gw')
                           | Inr None \<Rightarrow> Inr (Inl ''no healthy replica selected'', gw')
                           | Inr (Some i) \<Rightarrow>
                               let response = \<lparr>rs_StatusCode = 200, rs_Payload = ''OK'', rs_LatencyMs = 1\<rparr>;
                                   replica = rep_RecordSuccess t2 (i64 (rs_LatencyMs response * Millisecond)) (replicas ! i)
                               in Inr (Inr response, gw'\<lparr>gw_replicas := replicas[i := replica]\<rparr>))))"

definition GetReplicas :: "Gateway \<Rightarrow> Replica list" where
  "GetReplicas gw = gw_replicas gw"

definition SetReplicas :: "Replica list \<Rightarrow> Gateway \<Rightarrow> Gateway" where
  "SetReplicas replicas gw = gw\<lparr>gw_replicas := replicas\<rparr>"

definition gw_GetState :: "Gateway \<Rightarrow> GatewayState" where
  "gw_GetState gw = gw_state gw"

definition GetLoadDistribution :: "Gateway \<Rightarrow> string \<rightharpoonup> int" where
  "GetLoadDistribution gw =
     foldl (\<lambda>m r. m(rep_Name r \<mapsto> rep_ActiveConnections r)) Map.empty (gw_replicas gw)"

definition gw_Stop :: "Gateway \<Rightarrow> Gateway go" where
  "gw_Stop gw =
     (let gw1 = gw\<lparr>gw_healthMonitor := map_option (\<lambda>_. False) (gw_healthMonitor gw)\<rparr>
      in case gw_discovery gw1 of
           None \<Rightarrow> Inr gw1
         | Some d \<Rightarrow> go_bind (disc_Close d) (\<lambda>d'. Inr (gw1\<lparr>gw_discovery := Some d'\<rparr>)))"

section \<open>The gateway watching its discovery\<close>

text \<open>
  The state of the two goroutines: the gateway (with its discovery), the watcher, the lists buffered in the result channel
  and whether the gateway's loop runs.
\<close>

record watching =
  wa_gw :: Gateway
  wa_watcher :: watcher
  wa_chan :: "ReplicaInfo list list"
  wa_loop :: bool

datatype watch_act =
    Watcher watch_event
  | Receive
  | LoopStops
  | Update disc_update

definition set_discovery :: "Discovery \<Rightarrow> watching \<Rightarrow> watching" where
  "set_discovery d w = w\<lparr>wa_gw := (wa_gw w)\<lparr>gw_discovery := Some d\<rparr>\<rparr>"

text \<open>
  The send of the watcher: into the buffer while there is room, or, without a buffer, to the loop that receives.
\<close>

definition deliver :: "nat \<Rightarrow> ReplicaInfo list \<Rightarrow> watching \<Rightarrow> watching option" where
  "deliver capacity l w =
     (if capacity = 0 then if wa_loop w then Some (w\<lparr>wa_gw := gw_receive l (wa_gw w)\<rparr>) else None
      else if length (wa_chan w) < capacity then Some (w\<lparr>wa_chan := wa_chan w @ [l]\<rparr>) else None)"

text \<open>One action, or \<open>None\<close> if it is not enabled.\<close>

fun watch_step :: "watch_act \<Rightarrow> watching \<Rightarrow> watching option" where
  "watch_step (Watcher ev) w =
     (case gw_discovery (wa_gw w) of
        None \<Rightarrow> None
      | Some d \<Rightarrow>
          (case disc_Watch ev (wa_watcher w) d of
             None \<Rightarrow> None
           | Some (pc, d') \<Rightarrow>
               let w' = set_discovery d' (w\<lparr>wa_watcher := pc\<rparr>)
               in case (ev, wa_watcher w) of
                    (Sends, WSend l) \<Rightarrow> deliver (watch_capacity d) l w'
                  | _ \<Rightarrow> Some w'))"
| "watch_step Receive w =
     (if \<not> wa_loop w then None
      else case wa_chan w of
        l # ls \<Rightarrow> Some (w\<lparr>wa_chan := ls, wa_gw := gw_receive l (wa_gw w)\<rparr>)
      | [] \<Rightarrow> if wa_watcher w = WClosed then Some (w\<lparr>wa_loop := False\<rparr>) else None)"
| "watch_step LoopStops w = (if wa_loop w then Some (w\<lparr>wa_loop := False\<rparr>) else None)"
| "watch_step (Update u) w =
     (case gw_discovery (wa_gw w) of
        None \<Rightarrow> None
      | Some d \<Rightarrow> map_option (\<lambda>d'. set_discovery d' w) (disc_Update u d))"

fun watch_run :: "watch_act list \<Rightarrow> watching \<Rightarrow> watching option" where
  "watch_run [] w = Some w"
| "watch_run (a # as) w = (case watch_step a w of None \<Rightarrow> None | Some w' \<Rightarrow> watch_run as w')"

text \<open>The state right after \<open>Start\<close>, when the watch of the discovery has begun.\<close>

definition watch_init :: "Gateway \<Rightarrow> watching go" where
  "watch_init gw =
     (case gw_discovery gw of
        None \<Rightarrow> Inl NilDereference
      | Some d \<Rightarrow> go_bind (watch_launch d)
          (\<lambda>pc. Inr \<lparr>wa_gw = fst (snd (gw_Start gw)), wa_watcher = pc, wa_chan = [], wa_loop = True\<rparr>))"

text \<open>The list that the discovery of the gateway holds.\<close>

definition held :: "watching \<Rightarrow> ReplicaInfo list" where
  "held w = (case gw_discovery (wa_gw w) of None \<Rightarrow> [] | Some d \<Rightarrow> getCurrentReplicas d)"

text \<open>Once the static watcher has delivered its only list, the gateway's list is never replaced.\<close>

definition settled :: "watching \<Rightarrow> bool" where
  "settled w \<longleftrightarrow> wa_watcher w \<in> {WWait, WClosed} \<and> wa_chan w = [] \<and>
     (\<exists>d. gw_discovery (wa_gw w) = Some d \<and> is_static d)"

text \<open>Everything on its way to the gateway, and what it has, is a list that the discovery held.\<close>

definition on_the_way :: "watching \<Rightarrow> ReplicaInfo list set" where
  "on_the_way w = set (wa_chan w) \<union> (case wa_watcher w of WSend l \<Rightarrow> {l} | _ \<Rightarrow> {})"

definition traced :: "ReplicaInfo list set \<Rightarrow> watching \<Rightarrow> bool" where
  "traced H w \<longleftrightarrow> held w \<in> H \<and> on_the_way w \<subseteq> H \<and> gw_replicas (wa_gw w) \<in> to_replicas ` H"

text \<open>Requests and deliveries of discovered lists, in the order in which the gateway handles them.\<close>

datatype gw_event =
    EvRequest time time time "string option" "string option" Request
  | EvDiscovered "ReplicaInfo list"

fun gw_handle :: "gw_event \<Rightarrow> Gateway \<Rightarrow> ((string + Response) list \<times> Gateway) go" where
  "gw_handle (EvRequest t0 t1 t2 ctxErr client req) gw =
     go_bind (RouteRequest t0 t1 t2 ctxErr client req gw) (\<lambda>(r, gw'). Inr ([r], gw'))"
| "gw_handle (EvDiscovered infos) gw = Inr ([], gw_receive infos gw)"

fun gw_run :: "gw_event list \<Rightarrow> Gateway \<Rightarrow> ((string + Response) list \<times> Gateway) go" where
  "gw_run [] gw = Inr ([], gw)"
| "gw_run (e # es) gw =
     go_bind (gw_handle e gw) (\<lambda>(rs, gw'). go_bind (gw_run es gw') (\<lambda>(rs', gw''). Inr (rs @ rs', gw'')))"

text \<open>A request that has a live context and some time left, from an acceptable client.\<close>

fun servable :: "gw_event \<Rightarrow> bool" where
  "servable (EvRequest t0 t1 t2 ctxErr client req) \<longleftrightarrow>
     ctxErr = None \<and> t1 \<le> t0 + i64 (rq_TimeoutMs req * Millisecond) \<and> sticky_client client"
| "servable (EvDiscovered infos) = False"

text \<open>The strategies that choose by the count of connections, or not at all.\<close>

fun by_load :: "LoadBalancer \<Rightarrow> bool" where
  "by_load LBLeastConnections = True"
| "by_load LBResourceAware = True"
| "by_load LBRandom = True"
| "by_load _ = False"

text \<open>No connection is counted and no request was routed to any replica but the first.\<close>

definition first_only :: "Gateway \<Rightarrow> bool" where
  "first_only gw \<longleftrightarrow> (\<forall>r \<in> set (gw_replicas gw). rep_ActiveConnections r = 0) \<and>
     (\<forall>r \<in> set (tl (gw_replicas gw)). rm_RequestCount (rep_Metrics r) = 0) \<and> (\<exists>lb. gw_lb gw = Some lb \<and> by_load lb)"

definition request_counts :: "Gateway \<Rightarrow> int list" where
  "request_counts gw = map (\<lambda>r. rm_RequestCount (rep_Metrics r)) (gw_replicas gw)"

section \<open>Requests\<close>

lemma route_ok:
  assumes "servable (EvRequest t0 t1 t2 ctxErr client req)" and "gw_replicas gw \<noteq> []"
    and "gw_lb gw = Some lb" and "lb_wf (Suc n) lb"
  shows "\<exists>i lb'. i < length (gw_replicas gw) \<and> lb_wf n lb' \<and>
    RouteRequest t0 t1 t2 ctxErr client req gw =
      Inr (Inr \<lparr>rs_StatusCode = 200, rs_Payload = ''OK'', rs_LatencyMs = 1\<rparr>,
           gw\<lparr>gw_lb := Some lb',
              gw_replicas := (gw_replicas gw)[i := rep_RecordSuccess t2 (i64 Millisecond) (gw_replicas gw ! i)]\<rparr>)"
proof -
  obtain i lb' where "lb_Select client (gw_replicas gw) lb = Inr (Inr (Some i), lb')" "i < length (gw_replicas gw)"
    "lb_wf n lb'"
    using weaver_lb.sel_ok [OF assms(4) _ assms(2), of client] assms(1) by auto
  with assms show ?thesis by (auto simp: RouteRequest_def Let_def)
qed

lemma request_counts_update:
  assumes "i < length (gw_replicas gw)" and "0 \<le> request_counts gw ! i" and "request_counts gw ! i + 1 < 2 ^ 63"
  shows "request_counts (gw\<lparr>gw_lb := lb,
      gw_replicas := (gw_replicas gw)[i := rep_RecordSuccess t d (gw_replicas gw ! i)]\<rparr>) =
    (request_counts gw)[i := request_counts gw ! i + 1]"
  using assms by (simp add: request_counts_def map_update rep_RecordSuccess_def i64_id is_i64_def)

lemma route_state:
  assumes "RouteRequest t0 t1 t2 e c req gw = Inr (r, gw')"
  shows "gw_state gw' = gw_state gw \<or> gw_state gw' = GatewayStatePanic"
proof -
  have "gw_state gw' = gw_state gw"
    if lb: "gw_lb gw = Some lb" and "e = None" and "gw_replicas gw \<noteq> []"
      and "\<not> t0 + i64 (rq_TimeoutMs req * Millisecond) < t1" for lb
  proof (cases "lb_Select c (gw_replicas gw) lb")
    case (Inr y)
    obtain x lb' where y: "y = (x, lb')" by fastforce
    show ?thesis
    proof (cases x)
      case r: (Inr z)
      with that assms Inr y show ?thesis by (cases z) (auto simp: RouteRequest_def Let_def)
    qed (use that assms Inr y in \<open>auto simp: RouteRequest_def Let_def\<close>)
  qed (use that assms in \<open>auto simp: RouteRequest_def Let_def\<close>)
  then show ?thesis
    using assms by (auto simp: RouteRequest_def setGatewayState_def Let_def split: option.split_asm if_split_asm)
qed

section \<open>Choosing by load that nobody counts\<close>

lemma least_loop_none: "\<forall>r \<in> set rs. m \<le> rep_ActiveConnections r \<Longrightarrow> least_loop rs i b m = b"
  by (induction rs arbitrary: i) auto

lemma by_load_select:
  assumes "by_load lb" and "reps \<noteq> []" and "\<forall>r \<in> set reps. rep_ActiveConnections r = 0"
  shows "lb_Select client reps lb = Inr (Inr (Some 0), lb)"
proof -
  have "least_loop (tl reps) 1 0 (rep_ActiveConnections (reps ! 0)) = 0"
    using assms(2,3) by (intro least_loop_none) (cases reps, auto)
  then show ?thesis using assms(1,2)
    by (cases lb) (auto simp: with_lb_def lc_Select_def ra_Select_def rnd_Select_def at_index_def go_index_def go_rem_def)
qed

lemma first_only_handle:
  assumes fo: "first_only gw" and h: "gw_handle e gw = Inr (rs, gw')"
  shows "first_only gw'"
proof (cases e)
  case (EvDiscovered infos)
  then have "gw' = gw_receive infos gw" using h by simp
  moreover obtain lb where lb: "gw_lb gw = Some lb" "by_load lb" using fo by (auto simp: first_only_def)
  moreover have "by_load (snd (lb_Rebalance reps lb))" for reps using lb(2) by (cases lb) (simp_all add: apsnd_def)
  moreover have "tl (map f xs) = map f (tl xs)" for f :: "ReplicaInfo \<Rightarrow> Replica" and xs by (simp add: map_tl)
  ultimately show ?thesis
    by (auto simp: first_only_def gw_receive_def to_replicas_def NewReplica_def zero_metrics_def)
next
  case (EvRequest t0 t1 t2 c client req)
  obtain lb where lb: "gw_lb gw = Some lb" "by_load lb" using fo by (auto simp: first_only_def)
  have "gw_replicas gw \<noteq> [] \<Longrightarrow> lb_Select client (gw_replicas gw) lb = Inr (Inr (Some 0), lb)"
    using by_load_select [OF lb(2)] fo by (simp add: first_only_def)
  then show ?thesis using h fo lb EvRequest
    by (cases "gw_replicas gw")
      (auto simp: RouteRequest_def first_only_def rep_RecordSuccess_def setGatewayState_def Let_def go_bind_Inr_iff
        split: option.splits if_splits)
qed

lemma first_only_run: "gw_run es gw = Inr (rs, gw') \<Longrightarrow> first_only gw \<Longrightarrow> first_only gw'"
proof (induction es arbitrary: gw rs)
  case (Cons e es)
  then obtain rs1 gw1 rs2 where "gw_handle e gw = Inr (rs1, gw1)" "gw_run es gw1 = Inr (rs2, gw')"
    by (auto simp: go_bind_Inr_iff)
  with Cons.IH Cons.prems(2) first_only_handle show ?case by blast
qed simp

lemma distribution_zero:
  "\<forall>k. m n = Some k \<longrightarrow> k = 0 \<Longrightarrow> \<forall>r \<in> set reps. rep_ActiveConnections r = 0 \<Longrightarrow>
     foldl (\<lambda>m r. m(rep_Name r \<mapsto> rep_ActiveConnections r)) m reps n = Some c \<Longrightarrow> c = 0"
proof (induction reps arbitrary: m)
  case (Cons a reps)
  have "\<forall>k. (m(rep_Name a \<mapsto> rep_ActiveConnections a)) n = Some k \<longrightarrow> k = 0" using Cons.prems(1,2) by simp
  moreover have "foldl (\<lambda>m r. m(rep_Name r \<mapsto> rep_ActiveConnections r)) (m(rep_Name a \<mapsto> rep_ActiveConnections a)) reps n = Some c"
    using Cons.prems(3) by (simp only: foldl_Cons)
  ultimately show ?case using Cons.IH Cons.prems(2) by (meson list.set_intros(2))
qed simp

section \<open>Watching\<close>

lemma set_discovery_simps [simp]:
  "gw_discovery (wa_gw (set_discovery d w)) = Some d" "wa_watcher (set_discovery d w) = wa_watcher w"
  "wa_chan (set_discovery d w) = wa_chan w" "wa_loop (set_discovery d w) = wa_loop w"
  "gw_replicas (wa_gw (set_discovery d w)) = gw_replicas (wa_gw w)"
  by (simp_all add: set_discovery_def)

lemma gw_receive_simps [simp]:
  "gw_discovery (gw_receive l gw) = gw_discovery gw" "gw_replicas (gw_receive l gw) = to_replicas l"
  by (simp_all add: gw_receive_def)

lemma Discover_current: "Discover d = Inr (getCurrentReplicas d)"
  by (cases d) (simp_all add: cd_Discover_def kd_Discover_def dd_Discover_def cache_defs)

text \<open>The watch of a service made with an interval that is not negative does not panic.\<close>

lemma launch_new:
  assumes "0 \<le> ttl"
  shows "watch_launch (DEtcd (NewEtcdDiscovery now eps ttl)) = Inr WStart"
    and "watch_launch (DConsul (NewConsulDiscovery now sn dc eps ttl)) = Inr WStart"
    and "watch_launch (DKubernetes (NewKubernetesDiscovery now ns lk lv ttl)) = Inr WStart"
    and "watch_launch (DDns (NewDNSSRVDiscovery now sv pr nm ttl)) = Inr WStart"
  using assms
  by (simp_all add: NewEtcdDiscovery_def NewConsulDiscovery_def NewKubernetesDiscovery_def NewDNSSRVDiscovery_def
      new_ticker_def default_ttl_def Second_def)

text \<open>A round of the watch from the snapshot to the gateway.\<close>

lemma round_delivers:
  assumes "wa_watcher w = WStart" and "wa_chan w = []" and "wa_loop w" and "gw_discovery (wa_gw w) = Some d"
  shows "\<exists>w'. watch_run ([Watcher Snapshots, Watcher Sends] @ replicate (watch_capacity d) Receive) w = Some w' \<and>
    gw_replicas (wa_gw w') = to_replicas (getCurrentReplicas d)"
  using assms watch_capacity_cases [of d] by (auto simp: deliver_def Let_def)

lemma tick_enabled:
  assumes "wa_watcher w = WWait" and "gw_discovery (wa_gw w) = Some d" and "\<not> is_static d"
  shows "\<exists>d' w'. watch_step (Watcher (Ticks now answer)) w = Some w' \<and> wa_watcher w' = WStart \<and> wa_chan w' = wa_chan w \<and>
    wa_loop w' = wa_loop w \<and> gw_discovery (wa_gw w') = Some d' \<and> watch_capacity d' = watch_capacity d \<and>
    getCurrentReplicas d' = (case (d, answer) of (DDns _, Inr targets) \<Rightarrow> srv_infos targets | _ \<Rightarrow> getCurrentReplicas d)"
  using disc_Watch_tick [OF assms(3), of now answer] assms(1,2) by (auto simp: Let_def)

lemma disc_Update_static:
  "disc_Update u d = Some d' \<Longrightarrow> is_static d' = is_static d \<and> watch_capacity d' = watch_capacity d \<and> (\<forall>x. d' \<noteq> DDns x)"
  by (cases "(u, d)" rule: disc_Update.cases) auto

lemma disc_Update_current: "disc_Update (UInfos now infos) d = Some d' \<Longrightarrow> getCurrentReplicas d' = infos"
  by (cases d) (auto simp: cache_defs UpdateCachedReplicas_def cd_UpdateCachedReplicas_def kd_UpdateCachedReplicas_def ed_getCurrentReplicas_def)

lemma static_Watch_settled:
  "is_static d \<Longrightarrow> pc \<in> {WWait, WClosed} \<Longrightarrow> disc_Watch ev pc d = Some (pc', d') \<Longrightarrow> pc' = WClosed \<and> d' = d \<and> ev \<noteq> Sends"
  by (cases d; cases ev) (auto simp: wrap_watch_def sd_Watch_def disc_Watch.simps)

lemma settled_step:
  assumes "settled w" and "watch_step a w = Some w1"
  shows "settled w1 \<and> gw_replicas (wa_gw w1) = gw_replicas (wa_gw w)"
proof -
  obtain d where d: "gw_discovery (wa_gw w) = Some d" "is_static d" "wa_watcher w \<in> {WWait, WClosed}" "wa_chan w = []"
    using assms(1) by (auto simp: settled_def)
  show ?thesis
  proof (cases a)
    case (Watcher ev)
    then obtain pc d' where r: "disc_Watch ev (wa_watcher w) d = Some (pc, d')"
      using assms(2) d by (auto split: option.splits)
    then have "pc = WClosed \<and> d' = d \<and> ev \<noteq> Sends" using static_Watch_settled d by blast
    with assms(2) Watcher r d show ?thesis by (cases ev) (auto simp: settled_def Let_def)
  next
    case (Update u)
    with assms(2) d show ?thesis by (auto simp: settled_def dest: disc_Update_static)
  qed (use assms(2) d in \<open>auto simp: settled_def split: if_splits\<close>)
qed

lemma settled_run:
  "watch_run as w = Some w' \<Longrightarrow> settled w \<Longrightarrow> gw_replicas (wa_gw w') = gw_replicas (wa_gw w)"
proof (induction "as" arbitrary: w)
  case (Cons a "as")
  then obtain w1 where "watch_step a w = Some w1" "watch_run as w1 = Some w'" by (auto split: option.splits)
  with Cons show ?case using settled_step by metis
qed simp

lemma traced_step:
  assumes "watch_step a w = Some w'" and "traced H w"
  shows "traced (insert (held w') H) w'"
proof (cases a)
  case (Watcher ev)
  then obtain d pc d' where d: "gw_discovery (wa_gw w) = Some d" "disc_Watch ev (wa_watcher w) d = Some (pc, d')"
    using assms(1) by (auto split: option.splits)
  have s: "watch_ok getCurrentReplicas d (pc, d')" using disc_Watch_step [OF d(2)] by simp
  show ?thesis
  proof (cases "\<exists>l. ev = Sends \<and> wa_watcher w = WSend l")
    case True
    then obtain l where l: "ev = Sends" "wa_watcher w = WSend l" by blast
    with d have "pc = WWait" "d' = d" by simp_all
    with assms d l Watcher show ?thesis
      by (auto simp: traced_def held_def on_the_way_def deliver_def Let_def split: if_splits)
  next
    case False
    then have "w' = set_discovery d' (w\<lparr>wa_watcher := pc\<rparr>)"
      using assms(1) Watcher d by (cases ev; cases "wa_watcher w") (auto simp: Let_def)
    with assms(2) d s show ?thesis
      by (cases pc) (auto simp: traced_def held_def on_the_way_def watch_ok_def)
  qed
next
  case Receive
  with assms show ?thesis
    by (auto simp: traced_def held_def on_the_way_def split: if_splits list.splits watcher.splits)
qed (use assms in \<open>auto simp: traced_def held_def on_the_way_def split: if_splits option.splits\<close>)

lemma traced_run:
  "watch_run as w = Some w' \<Longrightarrow> traced H w \<Longrightarrow>
     \<exists>l. gw_replicas (wa_gw w') = to_replicas l \<and>
       (l \<in> H \<or> (\<exists>as1 as2 w1. as = as1 @ as2 \<and> watch_run as1 w = Some w1 \<and> held w1 = l))"
proof (induction "as" arbitrary: w H)
  case Nil
  then show ?case by (auto simp: traced_def)
next
  case (Cons a "as")
  then obtain w1 where w1: "watch_step a w = Some w1" "watch_run as w1 = Some w'" by (auto split: option.splits)
  obtain l where l: "gw_replicas (wa_gw w') = to_replicas l"
    "l \<in> insert (held w1) H \<or> (\<exists>as1 as2 w2. as = as1 @ as2 \<and> watch_run as1 w1 = Some w2 \<and> held w2 = l)"
    using Cons.IH [OF w1(2) traced_step [OF w1(1) Cons.prems(2)]] by blast
  have "\<exists>as1 as2 w2. a # as = as1 @ as2 \<and> watch_run as1 w = Some w2 \<and> held w2 = l" if "l = held w1"
    using w1(1) that by (intro exI [of _ "[a]"] exI [of _ "as"]) simp
  moreover have "\<exists>as1 as2 w2. a # as = as1 @ as2 \<and> watch_run as1 w = Some w2 \<and> held w2 = l"
    if "as = bs @ cs" "watch_run bs w1 = Some w2" "held w2 = l" for bs cs w2
    using w1(1) that by (intro exI [of _ "a # bs"] exI [of _ cs] exI [of _ w2]) simp
  ultimately show ?case using l by blast
qed

section \<open>Properties\<close>

text \<open>A gateway with replicas and a strategy fit for the load answers every request that has a live context and time left
  with status 200, counts every one of them on exactly one replica, and stays in its state.\<close>

lemma gateway_accounts_requests:
  assumes "\<forall>e \<in> set es. servable e" and "gw_replicas gw \<noteq> []" and "gw_lb gw = Some lb" and "lb_wf (length es) lb"
    and "\<forall>c \<in> set (request_counts gw). 0 \<le> c \<and> c + int (length es) < 2 ^ 63"
  shows "\<exists>gw'. gw_run es gw =
      Inr (replicate (length es) (Inr \<lparr>rs_StatusCode = 200, rs_Payload = ''OK'', rs_LatencyMs = 1\<rparr>), gw') \<and>
    sum_list (request_counts gw') = sum_list (request_counts gw) + int (length es) \<and> gw_state gw' = gw_state gw"
  using assms
proof (induction es arbitrary: gw lb)
  case (Cons e es)
  obtain t0 t1 t2 x c req where e: "e = EvRequest t0 t1 t2 x c req" using Cons.prems(1) by (cases e) auto
  obtain i lb' where i: "i < length (gw_replicas gw)" "lb_wf (length es) lb'"
    and r: "RouteRequest t0 t1 t2 x c req gw =
      Inr (Inr \<lparr>rs_StatusCode = 200, rs_Payload = ''OK'', rs_LatencyMs = 1\<rparr>,
           gw\<lparr>gw_lb := Some lb',
              gw_replicas := (gw_replicas gw)[i := rep_RecordSuccess t2 (i64 Millisecond) (gw_replicas gw ! i)]\<rparr>)"
    using route_ok [of t0 t1 t2 x c req gw lb "length es"] Cons.prems e by auto
  let ?gw = "gw\<lparr>gw_lb := Some lb',
      gw_replicas := (gw_replicas gw)[i := rep_RecordSuccess t2 (i64 Millisecond) (gw_replicas gw ! i)]\<rparr>"
  have li: "i < length (request_counts gw)" using i(1) by (simp add: request_counts_def)
  then have ci: "0 \<le> request_counts gw ! i" "request_counts gw ! i + 1 + int (length es) < 2 ^ 63"
    using Cons.prems(5) nth_mem [OF li] by auto
  have u: "request_counts ?gw = (request_counts gw)[i := request_counts gw ! i + 1]"
    using ci by (intro request_counts_update [OF i(1)]) auto
  have "\<forall>c \<in> set (request_counts ?gw). 0 \<le> c \<and> c + int (length es) < 2 ^ 63"
  proof
    fix k
    assume "k \<in> set (request_counts ?gw)"
    then have "k \<in> insert (request_counts gw ! i + 1) (set (request_counts gw))"
      unfolding u by (rule set_mp [OF set_update_subset_insert])
    then show "0 \<le> k \<and> k + int (length es) < 2 ^ 63" using ci Cons.prems(5) by auto
  qed
  then obtain gw' where gw': "gw_run es ?gw =
      Inr (replicate (length es) (Inr \<lparr>rs_StatusCode = 200, rs_Payload = ''OK'', rs_LatencyMs = 1\<rparr>), gw')"
    "sum_list (request_counts gw') = sum_list (request_counts ?gw) + int (length es)" "gw_state gw' = gw_state ?gw"
    using Cons.IH [of ?gw lb'] Cons.prems(1,2) i(2) by auto
  then show ?case
    using r u sum_list_add_at [OF li, of 1] by (intro exI [of _ gw']) (simp add: e)
qed simp

lemma gateway_accounts_requests_instance:
  "let gw = SetReplicas (to_replicas (static_infos 0 [''10.0.0.1'', ''10.0.0.2''])) (NewGateway ''g'' None None (Some LBLeastConnections));
       rq = EvRequest 0 5 7 None None \<lparr>rq_Method = ''m'', rq_TimeoutMs = 100, rq_RequestID = ''1'', rq_ClientIP = ''c''\<rparr>
   in \<exists>gw'. gw_run [rq, rq] gw = Inr (replicate 2 (Inr \<lparr>rs_StatusCode = 200, rs_Payload = ''OK'', rs_LatencyMs = 1\<rparr>), gw') \<and>
        sum_list (request_counts gw') = 2"
proof -
  let ?gw = "SetReplicas (to_replicas (static_infos 0 [''10.0.0.1'', ''10.0.0.2''])) (NewGateway ''g'' None None (Some LBLeastConnections))"
  let ?rq = "EvRequest 0 5 7 None None \<lparr>rq_Method = ''m'', rq_TimeoutMs = 100, rq_RequestID = ''1'', rq_ClientIP = ''c''\<rparr>"
  have s: "servable ?rq"
    by (simp add: Millisecond_def i64_def sticky_client_def extractClientID_def hashClient_def decode_rune_def)
  have c: "request_counts ?gw = [0, 0]"
    by (simp add: request_counts_def SetReplicas_def NewGateway_def to_replicas_def NewReplica_def zero_metrics_def)
  have "\<exists>gw'. gw_run [?rq, ?rq] ?gw =
      Inr (replicate (length [?rq, ?rq]) (Inr \<lparr>rs_StatusCode = 200, rs_Payload = ''OK'', rs_LatencyMs = 1\<rparr>), gw') \<and>
      sum_list (request_counts gw') = sum_list (request_counts ?gw) + int (length [?rq, ?rq]) \<and> gw_state gw' = gw_state ?gw"
  proof (rule gateway_accounts_requests)
    show "gw_lb ?gw = Some LBLeastConnections" by (simp add: SetReplicas_def NewGateway_def)
    show "gw_replicas ?gw \<noteq> []" by (simp add: SetReplicas_def NewGateway_def to_replicas_def)
    show "\<forall>c\<in>set (request_counts ?gw). 0 \<le> c \<and> c + int (length [?rq, ?rq]) < 2 ^ 63" unfolding c by simp
    show "\<forall>e\<in>set [?rq, ?rq]. servable e" using s by simp
  qed simp
  then show ?thesis unfolding Let_def c by (auto simp: numeral_2_eq_2)
qed

text \<open>The strategies that balance by load do not balance in the gateway. Nothing calls \<open>UpdateLoad\<close>, so the counts of connections stay at zero: with least
  connections, resource awareness or the strategy named random, after any history of requests and discovered lists every request since the
  last list went to its first replica, and the reported load distribution is zero everywhere.\<close>

lemma gateway_by_load_first_only:
  assumes "by_load lb" and "gw_run es (NewGateway name disc mon (Some lb)) = Inr (rs, gw')"
  shows "(\<forall>r \<in> set (tl (GetReplicas gw')). rm_RequestCount (rep_Metrics r) = 0) \<and>
    (\<forall>n c. GetLoadDistribution gw' n = Some c \<longrightarrow> c = 0)"
proof -
  have fo: "first_only gw'"
    using first_only_run [OF assms(2)] assms(1) by (simp add: first_only_def NewGateway_def)
  have "c = 0" if "GetLoadDistribution gw' n = Some c" for n c
    using distribution_zero [of Map.empty n "gw_replicas gw'" c] that fo
    by (simp add: GetLoadDistribution_def first_only_def del: fun_upd_apply)
  with fo show ?thesis by (simp add: GetReplicas_def first_only_def)
qed

lemma gateway_by_load_first_only_instance:
  "let rq = EvRequest 0 5 7 None None \<lparr>rq_Method = ''m'', rq_TimeoutMs = 100, rq_RequestID = ''1'', rq_ClientIP = ''c''\<rparr>
   in \<exists>rs gw'. gw_run (EvDiscovered (static_infos 0 [''10.0.0.1'', ''10.0.0.2'']) # replicate 3 rq)
        (NewGateway ''g'' None None (Some NewLeastConnections)) = Inr (rs, gw') \<and> length rs = 3 \<and>
      (\<forall>r \<in> set (tl (GetReplicas gw')). rm_RequestCount (rep_Metrics r) = 0)"
proof -
  let ?rq = "EvRequest 0 5 7 None None \<lparr>rq_Method = ''m'', rq_TimeoutMs = 100, rq_RequestID = ''1'', rq_ClientIP = ''c''\<rparr>"
  let ?r = "gw_run (EvDiscovered (static_infos 0 [''10.0.0.1'', ''10.0.0.2'']) # replicate 3 ?rq)
        (NewGateway ''g'' None None (Some NewLeastConnections))"
  have "case ?r of Inl _ \<Rightarrow> False | Inr (rs, gw') \<Rightarrow> length rs = 3" by code_simp
  then obtain rs gw' where run: "?r = Inr (rs, gw')" "length rs = 3" by (auto split: sum.splits)
  have "by_load NewLeastConnections" by (simp add: NewLeastConnections_def)
  from gateway_by_load_first_only [OF this run(1)] run show ?thesis unfolding Let_def by blast
qed

text \<open>A gateway that once had a request and no replicas reports the panic state for ever: neither newly discovered
  replicas nor requests that succeed lead out of it.\<close>

lemma gateway_panic_persists:
  assumes "gw_run es gw = Inr (rs, gw')" and "gw_GetState gw = GatewayStatePanic"
  shows "gw_GetState gw' = GatewayStatePanic"
  using assms
proof (induction es arbitrary: gw rs)
  case (Cons e es)
  then obtain rs1 gw1 rs2 where 1: "gw_handle e gw = Inr (rs1, gw1)" "gw_run es gw1 = Inr (rs2, gw')"
    by (auto simp: go_bind_Inr_iff)
  have "gw_GetState gw1 = GatewayStatePanic"
    using 1(1) Cons.prems(2)
    by (cases e) (auto simp: go_bind_Inr_iff gw_receive_def gw_GetState_def dest: route_state)
  with Cons.IH [OF 1(2)] show ?case by blast
qed simp

lemma gateway_panic_persists_instance:
  "let rq = EvRequest 0 5 7 None None \<lparr>rq_Method = ''m'', rq_TimeoutMs = 100, rq_RequestID = ''1'', rq_ClientIP = ''c''\<rparr> in
   \<exists>rs gw'. gw_run [EvDiscovered (static_infos 0 [''10.0.0.1'']), rq] (setGatewayState GatewayStatePanic (NewGateway ''g'' None None (Some LBLeastConnections))) =
     Inr (rs, gw') \<and> gw_GetState gw' = GatewayStatePanic"
proof -
  let ?rq = "EvRequest 0 5 7 None None \<lparr>rq_Method = ''m'', rq_TimeoutMs = 100, rq_RequestID = ''1'', rq_ClientIP = ''c''\<rparr>"
  let ?gw = "setGatewayState GatewayStatePanic (NewGateway ''g'' None None (Some LBLeastConnections))"
  have "\<exists>rs gw'. gw_run [EvDiscovered (static_infos 0 [''10.0.0.1'']), ?rq] ?gw = Inr (rs, gw')"
    by (simp add: gw_receive_def RouteRequest_def setGatewayState_def NewGateway_def to_replicas_def with_lb_def
        lc_Select_def i64_def Millisecond_def Let_def)
  then obtain rs gw' where "gw_run [EvDiscovered (static_infos 0 [''10.0.0.1'']), ?rq] ?gw = Inr (rs, gw')" by blast
  with gateway_panic_persists [OF this] show ?thesis unfolding Let_def by (auto simp: gw_GetState_def setGatewayState_def)
qed

text \<open>C31: Every list that the gateway routes by is one that its discovery held at some moment since the start, for each of the
  five services and every interleaving of the watcher, the gateway's loop and updates.\<close>

theorem gateway_list_was_held:
  assumes "watch_init gw = Inr w0" and "watch_run as w0 = Some w"
  shows "\<exists>as1 as2 w1. as = as1 @ as2 \<and> watch_run as1 w0 = Some w1 \<and> gw_replicas (wa_gw w) = to_replicas (held w1)"
proof -
  obtain d where d: "gw_discovery gw = Some d" "Discover d = Inr (getCurrentReplicas d)" "watch_launch d = Inr (wa_watcher w0)"
      "wa_gw w0 = fst (snd (gw_Start gw))" "wa_chan w0 = []"
    using assms(1) by (auto simp: watch_init_def go_bind_Inr_iff Discover_current split: option.splits)
  have "wa_watcher w0 = WStart" using d(3) by (cases d) (auto simp: new_ticker_def split: if_splits)
  with d have "traced {held w0} w0"
    by (simp add: traced_def held_def on_the_way_def gw_Start_def setGatewayState_def)
  from traced_run [OF assms(2) this] obtain l where l: "gw_replicas (wa_gw w) = to_replicas l"
    "l = held w0 \<or> (\<exists>as1 as2 w1. as = as1 @ as2 \<and> watch_run as1 w0 = Some w1 \<and> held w1 = l)" by blast
  from l(2) show ?thesis
  proof
    assume "l = held w0"
    then show ?thesis using l(1) by (intro exI [of _ "[]"] exI [of _ "as"]) simp
  qed (use l(1) in blast)
qed

theorem gateway_list_was_held_witness:
  "let gw = NewGateway ''g'' (Some (DDns (NewDNSSRVDiscovery 0 ''http'' ''tcp'' ''svc'' 0))) None None;
       as = [Watcher Snapshots, Watcher Sends, Watcher (Ticks 5 (Inr [(''a'', 80)])), Receive]
   in \<exists>w0 w as1 as2 w1. watch_init gw = Inr w0 \<and> watch_run as w0 = Some w \<and>
        as = as1 @ as2 \<and> watch_run as1 w0 = Some w1 \<and> gw_replicas (wa_gw w) = to_replicas (held w1)"
proof -
  let ?gw = "NewGateway ''g'' (Some (DDns (NewDNSSRVDiscovery 0 ''http'' ''tcp'' ''svc'' 0))) None None"
  let ?as = "[Watcher Snapshots, Watcher Sends, Watcher (Ticks 5 (Inr [(''a'', 80)])), Receive]"
  have "\<exists>w0 w. watch_init ?gw = Inr w0 \<and> watch_run ?as w0 = Some w"
    by (simp add: watch_init_def NewGateway_def NewDNSSRVDiscovery_def new_ticker_def default_ttl_def Second_def
        gw_Start_def dd_Discover_def setGatewayState_def deliver_def wrap_watch_def
        dns_cache.watch_snapshot dns_cache.watch_send dns_cache.watch_tick disc_Watch.simps Let_def)
  then obtain w0 w where w: "watch_init ?gw = Inr w0" "watch_run ?as w0 = Some w" by blast
  show ?thesis unfolding Let_def using w gateway_list_was_held [OF w] by blast
qed

text \<open>C30: When the watcher waits and the gateway has received what it sent, a list given to \<open>UpdateCachedReplicas\<close> of etcd, Consul or
  Kubernetes is the gateway's list of replicas after the next tick, and so are the records that the DNS service finds at a tick, whereas an
  error of the resolver leaves the cached list in use. Updates of the static service never reach the gateway from there on, whatever
  happens: the notification goes to a channel that nobody reads.\<close>

theorem discovery_updates:
  assumes "wa_watcher w = WWait" and "wa_chan w = []" and "wa_loop w" and "gw_discovery (wa_gw w) = Some d"
  shows "(is_static d \<longrightarrow> watch_run as w = Some w' \<longrightarrow> gw_replicas (wa_gw w') = gw_replicas (wa_gw w)) \<and>
    ((\<exists>e c k. d \<in> {DEtcd e, DConsul c, DKubernetes k}) \<longrightarrow>
      (\<exists>w'. watch_run ([Update (UInfos t infos), Watcher (Ticks now answer), Watcher Snapshots, Watcher Sends] @
           replicate (watch_capacity d) Receive) w = Some w' \<and> gw_replicas (wa_gw w') = to_replicas infos)) \<and>
    (d = DDns dns \<longrightarrow>
      (\<exists>w'. watch_run [Watcher (Ticks now answer), Watcher Snapshots, Watcher Sends, Receive] w = Some w' \<and>
         gw_replicas (wa_gw w') = to_replicas (case answer of Inl err \<Rightarrow> dd_replicas dns | Inr targets \<Rightarrow> srv_infos targets)))"
proof (intro conjI impI)
  assume "is_static d" "watch_run as w = Some w'"
  then show "gw_replicas (wa_gw w') = gw_replicas (wa_gw w)" using assms by (auto intro: settled_run simp: settled_def)
next
  assume cached: "\<exists>e c k. d \<in> {DEtcd e, DConsul c, DKubernetes k}"
  let ?u = "UInfos t infos"
  obtain d' where d: "\<not> is_static d" "disc_Update ?u d = Some d'" using cached by auto
  let ?w = "set_discovery d' w"
  note s = disc_Update_static [OF d(2)]
  obtain w1 d1 where 1: "watch_step (Watcher (Ticks now answer)) ?w = Some w1" "wa_watcher w1 = WStart" "wa_chan w1 = []"
    "wa_loop w1" "gw_discovery (wa_gw w1) = Some d1" "watch_capacity d1 = watch_capacity d"
    "getCurrentReplicas d1 = (case (d', answer) of (DDns _, Inr targets) \<Rightarrow> srv_infos targets | _ \<Rightarrow> getCurrentReplicas d')"
    using tick_enabled [of ?w d' now answer] assms d(1) s by auto
  moreover have "getCurrentReplicas d1 = infos" using 1(7) s disc_Update_current [OF d(2)] by (cases d') auto
  ultimately show "\<exists>w'. watch_run ([Update ?u, Watcher (Ticks now answer), Watcher Snapshots, Watcher Sends] @
      replicate (watch_capacity d) Receive) w = Some w' \<and> gw_replicas (wa_gw w') = to_replicas infos"
    using round_delivers [of w1 d1] assms(4) d(2) by auto
next
  assume d: "d = DDns dns"
  obtain w1 d1 where 1: "watch_step (Watcher (Ticks now answer)) w = Some w1" "wa_watcher w1 = WStart" "wa_chan w1 = []"
    "wa_loop w1" "gw_discovery (wa_gw w1) = Some d1" "watch_capacity d1 = watch_capacity d"
    "getCurrentReplicas d1 = (case answer of Inl err \<Rightarrow> dd_replicas dns | Inr targets \<Rightarrow> srv_infos targets)"
    using tick_enabled [of w d now answer] assms d
    by (auto simp: dd_getCurrentReplicas_def simp del: watch_step.simps cong: sum.case_cong)
  then show "\<exists>w'. watch_run [Watcher (Ticks now answer), Watcher Snapshots, Watcher Sends, Receive] w = Some w' \<and>
      gw_replicas (wa_gw w') = to_replicas (case answer of Inl err \<Rightarrow> dd_replicas dns | Inr targets \<Rightarrow> srv_infos targets)"
    using round_delivers [of w1 d1] d by auto
qed

theorem discovery_updates_witness:
  "let d = NewDNSSRVDiscovery 0 ''http'' ''tcp'' ''svc'' 0;
       w = \<lparr>wa_gw = NewGateway ''g'' (Some (DDns d)) None None, wa_watcher = WWait, wa_chan = [], wa_loop = True\<rparr>;
       e = NewEtcdDiscovery 0 [''x''] 0; infos = static_infos 0 [''10.0.0.1''];
       v = \<lparr>wa_gw = NewGateway ''g'' (Some (DEtcd e)) None None, wa_watcher = WWait, wa_chan = [], wa_loop = True\<rparr>
   in (\<exists>w'. watch_run [Watcher (Ticks 5 (Inr [(''a'', 80)])), Watcher Snapshots, Watcher Sends, Receive] w = Some w' \<and>
        map rep_Address (gw_replicas (wa_gw w')) = [''a:80'']) \<and>
      (\<exists>v'. watch_run ([Update (UInfos 4 infos), Watcher (Ticks 5 (Inl '''')), Watcher Snapshots, Watcher Sends] @
           replicate (watch_capacity (DEtcd e)) Receive) v = Some v' \<and> gw_replicas (wa_gw v') = to_replicas infos)"
proof -
  let ?e = "NewEtcdDiscovery 0 [''x''] 0" and ?infos = "static_infos 0 [''10.0.0.1'']"
  let ?v = "\<lparr>wa_gw = NewGateway ''g'' (Some (DEtcd ?e)) None None, wa_watcher = WWait, wa_chan = [], wa_loop = True\<rparr>"
  have etcd: "\<exists>v'. watch_run ([Update (UInfos 4 ?infos), Watcher (Ticks 5 (Inl '''')), Watcher Snapshots, Watcher Sends] @
      replicate (watch_capacity (DEtcd ?e)) Receive) ?v = Some v' \<and> gw_replicas (wa_gw v') = to_replicas ?infos"
    using discovery_updates [of ?v "DEtcd ?e" "[]" ?v 4 ?infos 5 "Inl ''''"]
    by (simp del: watch_run.simps static_infos.simps watch_capacity.simps append_Cons add: NewGateway_def)
  let ?d = "NewDNSSRVDiscovery 0 ''http'' ''tcp'' ''svc'' 0"
  let ?w = "\<lparr>wa_gw = NewGateway ''g'' (Some (DDns ?d)) None None, wa_watcher = WWait, wa_chan = [], wa_loop = True\<rparr>"
  have "\<exists>w'. watch_run [Watcher (Ticks 5 (Inr [(''a'', 80)])), Watcher Snapshots, Watcher Sends, Receive] ?w = Some w' \<and>
      gw_replicas (wa_gw w') = to_replicas (srv_infos [(''a'', 80)])"
    using discovery_updates [of ?w "DDns ?d" "[]" ?w _ _ 5 "Inr [(''a'', 80)]" ?d]
    using discovery_updates [of ?w "DDns ?d" "[]" ?w _ _ 5 "Inr [(''a'', 80)]" ?d]
    by (simp del: watch_run.simps add: NewGateway_def)
  moreover have "map rep_Address (to_replicas (srv_infos [(''a'', 80)])) = [''a:80'']"
    by code_simp
  ultimately show ?thesis unfolding Let_def using etcd by (metis (no_types, lifting))
qed

end
