(* ===== verification/WV_Routing.thy ===== *)
theory WV_Routing
  imports WV_Gateway
begin

text \<open>
  Concurrent requests in the gateway (\<^verbatim>\<open>gateway.go\<close> of \<^verbatim>\<open>src/Weaver/pkg/gateway\<close>). Requests run in goroutines of their own
  while the watch loop replaces the list of replicas. The list is a slice of pointers, so replicas live in a heap here and a list
  holds their addresses: a request goes on with the list it has read and records its success in the object it
  chose, whether or not the gateway still holds it. One step is the code between two accesses to shared state: reading the list,
  setting the state, the selection under the lock of the strategy, the recording. The writes of \<open>RecordSuccess\<close> are atomic additions
  and stores to fields that no step reads, so they are one step.
\<close>

section \<open>Requests as threads\<close>

datatype rt_pc =
    RtEmpty
  | RtSelect
  | RtRecord
  | RtReturned "string + Response"

record rthread =
  rt_client :: "string option"
  rt_list :: "nat list"
  rt_replica :: "nat option"
  rt_pc :: rt_pc

text \<open>
  The gateway: the heap of replicas, the current list, the strategy, the state, the requests in the order of their arrival, the list for
  which the watch loop has still to call \<open>Rebalance\<close>, and a panic that ended the process.
\<close>

record routing =
  rg_heap :: "Replica list"
  rg_list :: "nat list"
  rg_lb :: "LoadBalancer option"
  rg_state :: GatewayState
  rg_threads :: "rthread list"
  rg_rebalance :: "nat list option"
  rg_crashed :: "panic option"

definition new_routing :: "LoadBalancer option \<Rightarrow> routing" where
  "new_routing lb =
     \<lparr>rg_heap = [], rg_list = [], rg_lb = lb, rg_state = GatewayStateReady, rg_threads = [], rg_rebalance = None,
      rg_crashed = None\<rparr>"

definition deref :: "routing \<Rightarrow> nat list \<Rightarrow> Replica list" where
  "deref g l = map (\<lambda>a. rg_heap g ! a) l"

text \<open>\<open>RouteRequest\<close> up to the loop over the attempts.\<close>

definition route_begin :: "time \<Rightarrow> time \<Rightarrow> string option \<Rightarrow> string option \<Rightarrow> Request \<Rightarrow> routing \<Rightarrow> rthread" where
  "route_begin t0 t1 ctxErr client req g =
     \<lparr>rt_client = client, rt_list = rg_list g, rt_replica = None,
      rt_pc =
        (case ctxErr of
           Some e \<Rightarrow> RtReturned (Inl e)
         | None \<Rightarrow>
             if length (rg_list g) = 0 then RtEmpty
             else if t0 + i64 (rq_TimeoutMs req * Millisecond) < t1 then RtReturned (Inl ''request timeout'')
             else RtSelect)\<rparr>"

text \<open>The next step of a request: the changed request and the changed gateway, or a panic.\<close>

fun route_step :: "time \<Rightarrow> rthread \<Rightarrow> rt_pc \<Rightarrow> routing \<Rightarrow> (rthread \<times> routing) go" where
  "route_step t2 th RtEmpty g =
     Inr (th\<lparr>rt_pc := RtReturned (Inl ''no replicas available'')\<rparr>, g\<lparr>rg_state := GatewayStatePanic\<rparr>)"
| "route_step t2 th RtSelect g =
     (case rg_lb g of
        None \<Rightarrow> Inl NilDereference
      | Some lb \<Rightarrow>
          go_bind (lb_Select (rt_client th) (deref g (rt_list th)) lb)
            (\<lambda>(x, lb').
               Inr (case x of
                      Inl err \<Rightarrow> th\<lparr>rt_pc := RtReturned (Inl err)\<rparr>
                    | Inr None \<Rightarrow> th\<lparr>rt_pc := RtReturned (Inl ''no healthy replica selected'')\<rparr>
                    | Inr (Some i) \<Rightarrow> th\<lparr>rt_replica := Some (rt_list th ! i), rt_pc := RtRecord\<rparr>,
                    g\<lparr>rg_lb := Some lb'\<rparr>)))"
| "route_step t2 th RtRecord g =
     (case rt_replica th of
        None \<Rightarrow> Inl NilDereference
      | Some a \<Rightarrow>
          let response = \<lparr>rs_StatusCode = 200, rs_Payload = ''OK'', rs_LatencyMs = 1\<rparr>
          in Inr (th\<lparr>rt_pc := RtReturned (Inr response)\<rparr>,
                  g\<lparr>rg_heap := (rg_heap g)[a := rep_RecordSuccess t2 (i64 (rs_LatencyMs response * Millisecond)) (rg_heap g ! a)]\<rparr>))"
| "route_step t2 th (RtReturned r) g = Inr (th, g)"

section \<open>The gateway under concurrency\<close>

datatype rt_act =
    RgRequest time time "string option" "string option" Request
  | RgStep nat time
  | RgReceive "ReplicaInfo list"
  | RgRebalance

fun rt_done :: "rt_pc \<Rightarrow> bool" where
  "rt_done (RtReturned r) = True"
| "rt_done _ = False"

text \<open>The watch loop makes new replicas and publishes their list; after that it calls \<open>Rebalance\<close>, before it receives again.\<close>

definition receive_list :: "ReplicaInfo list \<Rightarrow> routing \<Rightarrow> routing" where
  "receive_list infos g =
     (let l = [length (rg_heap g)..<length (rg_heap g) + length infos]
      in g\<lparr>rg_heap := rg_heap g @ to_replicas infos, rg_list := l,
           rg_rebalance := (if rg_lb g = None then None else Some l)\<rparr>)"

fun rt_step :: "rt_act \<Rightarrow> routing \<Rightarrow> routing option" where
  "rt_step (RgRequest t0 t1 ctxErr client req) g =
     Some (g\<lparr>rg_threads := rg_threads g @ [route_begin t0 t1 ctxErr client req g]\<rparr>)"
| "rt_step (RgStep i t2) g =
     (if i < length (rg_threads g) \<and> \<not> rt_done (rt_pc (rg_threads g ! i))
      then Some (case route_step t2 (rg_threads g ! i) (rt_pc (rg_threads g ! i)) g of
                   Inl pn \<Rightarrow> g\<lparr>rg_crashed := Some pn\<rparr>
                 | Inr (th, g') \<Rightarrow> g'\<lparr>rg_threads := (rg_threads g)[i := th]\<rparr>)
      else None)"
| "rt_step (RgReceive infos) g = (if rg_rebalance g = None then Some (receive_list infos g) else None)"
| "rt_step RgRebalance g =
     (case rg_rebalance g of
        None \<Rightarrow> None
      | Some l \<Rightarrow> Some (g\<lparr>rg_lb := map_option (\<lambda>lb. snd (lb_Rebalance (deref g l) lb)) (rg_lb g), rg_rebalance := None\<rparr>))"

fun rt_run :: "rt_act list \<Rightarrow> routing \<Rightarrow> routing option" where
  "rt_run [] g = Some g"
| "rt_run (a # as) g =
     (if rg_crashed g \<noteq> None then None else case rt_step a g of None \<Rightarrow> None | Some g' \<Rightarrow> rt_run as g')"

inductive rt_reach :: "LoadBalancer option \<Rightarrow> rt_act list \<Rightarrow> routing \<Rightarrow> bool" for lb where
  rt_init: "rt_reach lb [] (new_routing lb)"
| rt_next: "rt_reach lb as g \<Longrightarrow> rg_crashed g = None \<Longrightarrow> rt_step a g = Some g' \<Longrightarrow> rt_reach lb (as @ [a]) g'"

text \<open>The lists that requests read and the entries that were discovered, as the actions say; \<open>l\<close> is the list at the beginning
  and \<open>n\<close> the number of replicas made before.\<close>

fun reads :: "nat list \<Rightarrow> nat \<Rightarrow> rt_act list \<Rightarrow> nat list list" where
  "reads l n [] = []"
| "reads l n (RgRequest t0 t1 ctxErr client req # as) = l # reads l n as"
| "reads l n (RgReceive infos # as) = reads [n..<n + length infos] (n + length infos) as"
| "reads l n (a # as) = reads l n as"

fun discovered :: "rt_act list \<Rightarrow> ReplicaInfo list" where
  "discovered [] = []"
| "discovered (RgReceive infos # as) = infos @ discovered as"
| "discovered (a # as) = discovered as"

text \<open>The requests that replica \<open>a\<close> has served.\<close>

fun success :: "rt_pc \<Rightarrow> bool" where
  "success (RtReturned (Inr r)) = True"
| "success _ = False"

definition served :: "nat \<Rightarrow> routing \<Rightarrow> nat" where
  "served a g = length (filter (\<lambda>th. success (rt_pc th) \<and> rt_replica th = Some a) (rg_threads g))"

section \<open>Invariant\<close>

fun latest :: "nat list \<Rightarrow> nat \<Rightarrow> rt_act list \<Rightarrow> nat list" where
  "latest l n [] = l"
| "latest l n (RgReceive infos # as) = latest [n..<n + length infos] (n + length infos) as"
| "latest l n (a # as) = latest l n as"

lemma discovered_append [simp]: "discovered (as @ bs) = discovered as @ discovered bs"
  by (induction "as" rule: discovered.induct) simp_all

lemma reads_append: "reads l n (as @ bs) = reads l n as @ reads (latest l n as) (n + length (discovered as)) bs"
  by (induction l n "as" rule: reads.induct) (simp_all add: add.assoc)

lemma latest_append: "latest l n (as @ bs) = latest (latest l n as) (n + length (discovered as)) bs"
  by (induction l n "as" rule: latest.induct) (simp_all add: add.assoc)

lemma lb_wf_Suc: "lb_wf (Suc n) lb \<Longrightarrow> lb_wf n lb"
  by (cases lb) (auto simp: rr_wf_def sk_wf_def)

lemma lb_wf_Rebalance: "lb_wf n lb \<Longrightarrow> lb_wf n (snd (lb_Rebalance reps lb))"
  by (cases lb) (auto simp: rr_Rebalance_def lc_Rebalance_def wt_Rebalance_def rnd_Rebalance_def ra_Rebalance_def
      sk_Rebalance_def cs_Rebalance_def sk_wf_def)

text \<open>The entry of a discovered list from which a replica was made.\<close>

definition made_from :: "ReplicaInfo \<Rightarrow> Replica \<Rightarrow> bool" where
  "made_from info r \<longleftrightarrow> rep_Name r = ri_Name info \<and> rep_Address r = ri_Address info \<and> rep_Healthy r = ri_Healthy info"

fun thread_ok :: "nat \<Rightarrow> rthread \<Rightarrow> rt_pc \<Rightarrow> bool" where
  "thread_ok n th RtSelect \<longleftrightarrow> rt_list th \<noteq> [] \<and> sticky_client (rt_client th) \<and> set (rt_list th) \<subseteq> {..<n}"
| "thread_ok n th RtRecord \<longleftrightarrow> (\<exists>a \<in> set (rt_list th). rt_replica th = Some a \<and> a < n)"
| "thread_ok n th (RtReturned (Inr r)) \<longleftrightarrow> (\<exists>a \<in> set (rt_list th). rt_replica th = Some a)"
| "thread_ok n th _ \<longleftrightarrow> True"

definition rt_inv :: "nat \<Rightarrow> rt_act list \<Rightarrow> routing \<Rightarrow> bool" where
  "rt_inv n as g \<longleftrightarrow> rg_crashed g = None \<and> map rt_list (rg_threads g) = reads [] 0 as \<and>
     rg_list g = latest [] 0 as \<and> set (rg_list g) \<subseteq> {..<length (rg_heap g)} \<and>
     list_all2 made_from (discovered as) (rg_heap g) \<and>
     (\<forall>th \<in> set (rg_threads g). thread_ok (length (rg_heap g)) th (rt_pc th)) \<and>
     (\<forall>a < length (rg_heap g). rm_RequestCount (rep_Metrics (rg_heap g ! a)) = i64 (int (served a g))) \<and>
     (\<forall>a \<ge> length (rg_heap g). served a g = 0) \<and>
     (\<exists>lb. rg_lb g = Some lb \<and> lb_wf n lb)"

fun acceptable :: "rt_act \<Rightarrow> bool" where
  "acceptable (RgRequest t0 t1 ctxErr client req) \<longleftrightarrow> sticky_client client"
| "acceptable _ \<longleftrightarrow> True"

lemma thread_ok_mono: "thread_ok n th pc \<Longrightarrow> n \<le> m \<Longrightarrow> thread_ok m th pc"
  by (induction n th pc rule: thread_ok.induct) auto

lemma rt_inv_length: "rt_inv n as g \<Longrightarrow> length (rg_heap g) = length (discovered as)"
  by (auto simp: rt_inv_def dest: list_all2_lengthD)

lemma rt_inv_new: "lb_wf n lb \<Longrightarrow> rt_inv n [] (new_routing (Some lb))"
  by (simp add: rt_inv_def new_routing_def served_def)

text \<open>A step of request \<open>i\<close> that leaves the heap alone keeps the counts if it is no success.\<close>

lemma served_update:
  assumes "i < length (rg_threads g)" "rg_threads g' = (rg_threads g)[i := th]"
    "\<not> success (rt_pc (rg_threads g ! i))"
  shows "served a g' = served a g + (if success (rt_pc th) \<and> rt_replica th = Some a then 1 else 0)"
  using filter_update_length [OF assms(1), of "\<lambda>th. success (rt_pc th) \<and> rt_replica th = Some a" th] assms(2,3)
  by (simp add: served_def)

lemma rt_inv_request:
  assumes "rt_inv (Suc n) as g" "sticky_client client"
  shows "rt_inv n (as @ [RgRequest t0 t1 ctxErr client req]) (g\<lparr>rg_threads := rg_threads g @ [route_begin t0 t1 ctxErr client req g]\<rparr>)"
proof -
  have "thread_ok (length (rg_heap g)) (route_begin t0 t1 ctxErr client req g) (rt_pc (route_begin t0 t1 ctxErr client req g))"
    using assms by (auto simp: route_begin_def rt_inv_def split: option.splits)
  moreover have "\<not> success (rt_pc (route_begin t0 t1 ctxErr client req g))" by (auto simp: route_begin_def split: option.splits)
  then have "served a (g\<lparr>rg_threads := rg_threads g @ [route_begin t0 t1 ctxErr client req g]\<rparr>) = served a g" for a
    by (simp add: served_def)
  ultimately show ?thesis using assms(1)
    by (auto simp: rt_inv_def reads_append latest_append route_begin_def dest: lb_wf_Suc)
qed

lemma rt_inv_receive:
  assumes inv: "rt_inv (Suc n) as g"
  shows "rt_inv n (as @ [RgReceive infos]) (receive_list infos g)"
proof -
  let ?g = "receive_list infos g"
  have len: "length (to_replicas infos) = length infos" by (simp add: to_replicas_def)
  have s: "served a ?g = served a g" for a by (simp add: served_def receive_list_def Let_def)
  have "list_all2 made_from infos (to_replicas infos)"
    by (simp add: to_replicas_def list_all2_conv_all_nth made_from_def NewReplica_def)
  then have "list_all2 made_from (discovered as @ infos) (rg_heap ?g)"
    using inv by (auto simp: rt_inv_def receive_list_def Let_def intro!: list_all2_appendI)
  moreover have "rm_RequestCount (rep_Metrics (rg_heap ?g ! a)) = i64 (int (served a ?g))" if "a < length (rg_heap ?g)" for a
  proof (cases "a < length (rg_heap g)")
    case True
    with inv s show ?thesis by (simp add: rt_inv_def receive_list_def Let_def nth_append)
  next
    case False
    then have "served a ?g = 0" using inv s by (simp add: rt_inv_def)
    with False that show ?thesis
      by (simp add: receive_list_def Let_def nth_append to_replicas_def NewReplica_def zero_metrics_def i64_def)
  qed
  moreover have "thread_ok (length (rg_heap ?g)) th (rt_pc th)" if "th \<in> set (rg_threads g)" for th
    using inv that by (auto simp: rt_inv_def receive_list_def Let_def intro: thread_ok_mono)
  moreover have "rg_list ?g = latest [] 0 (as @ [RgReceive infos])"
    using rt_inv_length [OF inv] by (simp add: receive_list_def Let_def latest_append)
  moreover have "set (rg_list ?g) \<subseteq> {..<length (rg_heap ?g)}" by (auto simp: receive_list_def Let_def len)
  moreover have "rg_crashed ?g = rg_crashed g" "rg_threads ?g = rg_threads g" "rg_lb ?g = rg_lb g"
    "length (rg_heap ?g) = length (rg_heap g) + length infos"
    by (simp_all add: receive_list_def Let_def len)
  ultimately show ?thesis using inv s by (auto simp: rt_inv_def reads_append dest: lb_wf_Suc)
qed

lemma rt_inv_rebalance:
  assumes "rt_inv (Suc n) as g"
  shows "rt_inv n (as @ [RgRebalance])
    (g\<lparr>rg_lb := map_option (\<lambda>lb. snd (lb_Rebalance (deref g l) lb)) (rg_lb g), rg_rebalance := None\<rparr>)"
  using assms by (auto simp: rt_inv_def reads_append latest_append served_def intro: lb_wf_Rebalance lb_wf_Suc)

lemma rt_inv_update:
  assumes inv: "rt_inv (Suc n) as g" and i: "i < length (rg_threads g)" "\<not> success (rt_pc (rg_threads g ! i))"
    and th: "rt_list th = rt_list (rg_threads g ! i)" "thread_ok (length (rg_heap g)) th (rt_pc th)" "\<not> success (rt_pc th)"
    and lb: "lb_wf n lb"
  shows "rt_inv n (as @ [RgStep i t]) (g\<lparr>rg_lb := Some lb, rg_state := st, rg_threads := (rg_threads g)[i := th]\<rparr>)"
proof -
  let ?g = "g\<lparr>rg_lb := Some lb, rg_state := st, rg_threads := (rg_threads g)[i := th]\<rparr>"
  have "served a ?g = served a g" for a
    using served_update [of i g ?g th a] i th(3) by simp
  moreover have "map rt_list ((rg_threads g)[i := th]) = map rt_list (rg_threads g)"
    by (metis list_update_id map_update th(1))
  moreover have "\<forall>x \<in> set ((rg_threads g)[i := th]). thread_ok (length (rg_heap g)) x (rt_pc x)"
    using inv th(2) set_update_subset_insert [of "rg_threads g" i th] by (auto simp: rt_inv_def)
  ultimately show ?thesis using inv lb by (auto simp: rt_inv_def reads_append latest_append)
qed

lemma rt_inv_record:
  assumes inv: "rt_inv (Suc n) as g" and i: "i < length (rg_threads g)" "rt_pc (rg_threads g ! i) = RtRecord"
    and th: "rt_list th = rt_list (rg_threads g ! i)" "rt_replica th = Some a" "rt_pc th = RtReturned (Inr r)"
    and a: "a \<in> set (rt_list th)" "a < length (rg_heap g)"
  shows "rt_inv n (as @ [RgStep i t])
    (g\<lparr>rg_heap := (rg_heap g)[a := rep_RecordSuccess t2 d (rg_heap g ! a)], rg_threads := (rg_threads g)[i := th]\<rparr>)"
proof -
  let ?g = "g\<lparr>rg_heap := (rg_heap g)[a := rep_RecordSuccess t2 d (rg_heap g ! a)], rg_threads := (rg_threads g)[i := th]\<rparr>"
  have s: "served b ?g = served b g + (if a = b then 1 else 0)" for b
    using served_update [of i g ?g th b] i th by simp
  have "rm_RequestCount (rep_Metrics (rg_heap ?g ! b)) = i64 (int (served b ?g))" if "b < length (rg_heap ?g)" for b
    using inv that s [of b] by (auto simp: rt_inv_def nth_list_update rep_RecordSuccess_def add.commute)
  moreover have "map rt_list ((rg_threads g)[i := th]) = map rt_list (rg_threads g)"
    by (metis list_update_id map_update th(1))
  moreover have "\<forall>x \<in> set ((rg_threads g)[i := th]). thread_ok (length (rg_heap g)) x (rt_pc x)"
    using inv th a set_update_subset_insert [of "rg_threads g" i th] by (auto simp: rt_inv_def)
  moreover have "list_all2 made_from (discovered as) (rg_heap ?g)"
    using inv a(2) by (auto simp: rt_inv_def list_all2_conv_all_nth nth_list_update made_from_def rep_RecordSuccess_def)
  moreover have "served b ?g = 0" if "length (rg_heap g) \<le> b" for b
    using that a(2) s [of b] inv by (auto simp: rt_inv_def)
  ultimately show ?thesis using inv by (auto simp: rt_inv_def reads_append latest_append dest: lb_wf_Suc)
qed

lemma rt_inv_ok: "rt_inv n as g \<Longrightarrow> i < length (rg_threads g) \<Longrightarrow> thread_ok (length (rg_heap g)) (rg_threads g ! i) (rt_pc (rg_threads g ! i))"
  unfolding rt_inv_def by (meson nth_mem)

lemma rt_inv_thread:
  assumes inv: "rt_inv (Suc n) as g" and i: "i < length (rg_threads g)" "\<not> rt_done (rt_pc (rg_threads g ! i))"
  shows "\<exists>g'. rt_step (RgStep i t) g = Some g' \<and> rt_inv n (as @ [RgStep i t]) g'"
proof (cases "rt_pc (rg_threads g ! i)")
  case RtEmpty
  let ?th = "(rg_threads g ! i)\<lparr>rt_pc := RtReturned (Inl ''no replicas available'')\<rparr>"
  obtain lb where lb: "rg_lb g = Some lb" "lb_wf (Suc n) lb" using inv by (auto simp: rt_inv_def)
  then have "g\<lparr>rg_lb := Some lb, rg_state := st, rg_threads := ths\<rparr> = g\<lparr>rg_state := st, rg_threads := ths\<rparr>" for st ths
    by (cases g) simp
  with rt_inv_update [OF inv i(1), of ?th lb t GatewayStatePanic] lb_wf_Suc [OF lb(2)] show ?thesis using i RtEmpty by simp
next
  case RtSelect
  let ?th = "rg_threads g ! i"
  obtain lb where lb: "rg_lb g = Some lb" "lb_wf (Suc n) lb" using inv by (auto simp: rt_inv_def)
  have ok: "rt_list ?th \<noteq> []" "sticky_client (rt_client ?th)" "set (rt_list ?th) \<subseteq> {..<length (rg_heap g)}"
    using rt_inv_ok [OF inv i(1)] RtSelect by simp_all
  obtain k lb' where k: "lb_Select (rt_client ?th) (deref g (rt_list ?th)) lb = Inr (Inr (Some k), lb')"
      "k < length (rt_list ?th)" "lb_wf n lb'"
    using weaver_lb.sel_ok [OF lb(2) ok(2), of "deref g (rt_list ?th)"] ok(1) by (auto simp: deref_def)
  let ?th' = "?th\<lparr>rt_replica := Some (rt_list ?th ! k), rt_pc := RtRecord\<rparr>"
  have "thread_ok (length (rg_heap g)) ?th' (rt_pc ?th')" using k(2) ok(3) by (auto dest: nth_mem)
  with rt_inv_update [OF inv i(1), of ?th' lb' t "rg_state g"] k(3)
  have "rt_inv n (as @ [RgStep i t]) (g\<lparr>rg_lb := Some lb', rg_threads := (rg_threads g)[i := ?th']\<rparr>)" using RtSelect by simp
  then show ?thesis using i RtSelect lb(1) k(1) by simp
next
  case RtRecord
  let ?th = "rg_threads g ! i"
  obtain a where a: "a \<in> set (rt_list ?th)" "rt_replica ?th = Some a" "a < length (rg_heap g)"
    using rt_inv_ok [OF inv i(1)] RtRecord by auto
  let ?r = "\<lparr>rs_StatusCode = 200, rs_Payload = ''OK'', rs_LatencyMs = 1\<rparr>"
  from rt_inv_record [OF inv i(1) RtRecord, of "?th\<lparr>rt_pc := RtReturned (Inr ?r)\<rparr>" a ?r t t "i64 Millisecond"] a
  show ?thesis using i RtRecord by (simp add: Let_def)
qed (use i in simp)

lemma rt_inv_step:
  assumes "rt_inv (Suc n) as g" "acceptable a" "rt_step a g = Some g'"
  shows "rt_inv n (as @ [a]) g'"
proof (cases a)
  case (RgRequest t0 t1 e c req)
  with assms rt_inv_request [OF assms(1)] show ?thesis by auto
next
  case (RgStep i t)
  with assms rt_inv_thread [OF assms(1), of i t] show ?thesis by (auto simp del: rt_step.simps simp: rt_step.simps(2) split: if_splits)
next
  case (RgReceive infos)
  with assms rt_inv_receive [OF assms(1)] show ?thesis by (auto split: if_splits)
next
  case RgRebalance
  with assms rt_inv_rebalance [OF assms(1)] show ?thesis by (auto split: option.splits)
qed

lemma rt_reach_inv:
  "rt_reach (Some lb) as g \<Longrightarrow> lb_wf (n + length as) lb \<Longrightarrow> \<forall>a \<in> set as. acceptable a \<Longrightarrow> rt_inv n as g"
proof (induction arbitrary: n rule: rt_reach.induct)
  case rt_init
  then show ?case by (simp add: rt_inv_new)
next
  case (rt_next as g a g')
  then have "rt_inv (Suc n) as g" using rt_next.IH [of "Suc n"] by simp
  with rt_inv_step [of n "as" g a g'] rt_next.hyps(3) rt_next.prems(2) show ?case by simp
qed

lemma rt_run_reach:
  assumes "rt_run bs g = Some g'" "rt_reach lb as g"
  shows "rt_reach lb (as @ bs) g'"
  using assms
proof (induction bs arbitrary: g "as")
  case (Cons b bs)
  then obtain g1 where "rg_crashed g = None" "rt_step b g = Some g1" "rt_run bs g1 = Some g'"
    by (auto split: if_splits option.splits)
  with Cons.IH [of g1 "as @ [b]"] rt_next [OF Cons.prems(2)] show ?case by simp
qed simp

lemma rt_run_init: "rt_run as (new_routing lb) = Some g \<Longrightarrow> rt_reach lb as g"
  using rt_run_reach [OF _ rt_init] by fastforce

section \<open>One request alone is \<open>RouteRequest\<close>\<close>

text \<open>The gateway that the heap and the list stand for.\<close>

definition rg_abs :: "Gateway \<Rightarrow> routing \<Rightarrow> Gateway" where
  "rg_abs gw g = gw\<lparr>gw_replicas := deref g (rg_list g), gw_lb := rg_lb g, gw_state := rg_state g\<rparr>"

lemma deref_update:
  assumes "distinct l" "k < length l" "set l \<subseteq> {..<length h}"
  shows "map (\<lambda>a. h[l ! k := r] ! a) l = (map (\<lambda>a. h ! a) l)[k := r]"
  using assms by (intro nth_equalityI) (auto simp: nth_list_update nth_eq_iff_index_eq subset_iff)

lemma rt_run_first:
  assumes "rg_threads g = ths" "rg_crashed g = None"
  shows "rt_run (RgRequest t0 t1 ctxErr client req # bs) g =
    rt_run bs (g\<lparr>rg_threads := ths @ [route_begin t0 t1 ctxErr client req g]\<rparr>)"
  using assms by simp

text \<open>
  The steps of a request that runs alone: none after an error at the beginning, one if there are no replicas or the
  selection fails, and two if it succeeds.
\<close>

lemma alone_select:
  assumes crash: "rg_crashed g = None" and pc: "rt_pc th = RtSelect" and lb: "rg_lb g = Some lb"
    and sel: "lb_Select (rt_client th) (deref g (rt_list th)) lb = Inr (x, lb')"
  shows "\<exists>bs th' g'. rt_run bs (g\<lparr>rg_threads := ths @ [th]\<rparr>) = Some (g'\<lparr>rg_threads := ths @ [th']\<rparr>) \<and>
    (case x of
       Inl err \<Rightarrow> rt_pc th' = RtReturned (Inl err) \<and> g' = g\<lparr>rg_lb := Some lb'\<rparr>
     | Inr None \<Rightarrow> rt_pc th' = RtReturned (Inl ''no healthy replica selected'') \<and> g' = g\<lparr>rg_lb := Some lb'\<rparr>
     | Inr (Some k) \<Rightarrow> rt_pc th' = RtReturned (Inr \<lparr>rs_StatusCode = 200, rs_Payload = ''OK'', rs_LatencyMs = 1\<rparr>) \<and>
         g' = g\<lparr>rg_lb := Some lb', rg_heap := (rg_heap g)[rt_list th ! k :=
           rep_RecordSuccess t2 (i64 Millisecond) (rg_heap g ! (rt_list th ! k))]\<rparr>)"
proof -
  have d: "deref (g\<lparr>rg_threads := ths'\<rparr>) l = deref g l" for ths' l by (simp add: deref_def)
  have step: "rt_step (RgStep (length ths) t2) (g\<lparr>rg_threads := ths @ [th]\<rparr>) =
      Some (g\<lparr>rg_lb := Some lb', rg_threads := ths @ [case x of
              Inl err \<Rightarrow> th\<lparr>rt_pc := RtReturned (Inl err)\<rparr>
            | Inr None \<Rightarrow> th\<lparr>rt_pc := RtReturned (Inl ''no healthy replica selected'')\<rparr>
            | Inr (Some i) \<Rightarrow> th\<lparr>rt_replica := Some (rt_list th ! i), rt_pc := RtRecord\<rparr>]\<rparr>)"
    using pc lb sel by (simp add: d)
  show ?thesis
  proof (cases x)
    case (Inl err)
    with step crash show ?thesis by (intro exI [of _ "[RgStep (length ths) t2]"] exI) auto
  next
    case (Inr z)
    show ?thesis
    proof (cases z)
      case None
      with Inr step crash show ?thesis by (intro exI [of _ "[RgStep (length ths) t2]"] exI) auto
    next
      case (Some k)
      with Inr step crash show ?thesis
        by (intro exI [of _ "[RgStep (length ths) t2, RgStep (length ths) t2]"] exI) (auto simp: Let_def)
    qed
  qed
qed

lemma latest_distinct: "distinct l \<Longrightarrow> distinct (latest l n as)"
  by (induction l n "as" rule: latest.induct) simp_all

lemma rt_inv_distinct: "rt_inv n as g \<Longrightarrow> distinct (rg_list g)"
  by (simp add: rt_inv_def latest_distinct)

text \<open>What \<open>RouteRequest\<close> computes is what the thread computes.\<close>

definition routes_alone :: "time \<Rightarrow> time \<Rightarrow> time \<Rightarrow> string option \<Rightarrow> string option \<Rightarrow> Request \<Rightarrow> Gateway \<Rightarrow> routing \<Rightarrow> bool" where
  "routes_alone t0 t1 t2 ctxErr client req gw g \<longleftrightarrow>
     (\<exists>r bs th g'. RouteRequest t0 t1 t2 ctxErr client req (rg_abs gw g) = Inr (r, rg_abs gw g') \<and>
        rt_run (RgRequest t0 t1 ctxErr client req # bs) g = Some g' \<and> rg_threads g' = rg_threads g @ [th] \<and>
        rt_pc th = RtReturned r)"

lemma routes_aloneI:
  assumes "rt_run bs (g\<lparr>rg_threads := rg_threads g @ [route_begin t0 t1 ctxErr client req g]\<rparr>) = Some g'" "rg_crashed g = None"
    and "rg_threads g' = rg_threads g @ [th]" "rt_pc th = RtReturned r"
    and "RouteRequest t0 t1 t2 ctxErr client req (rg_abs gw g) = Inr (r, rg_abs gw g')"
  shows "routes_alone t0 t1 t2 ctxErr client req gw g"
  unfolding routes_alone_def using assms rt_run_first [OF refl assms(2)] by metis

lemma alone_early:
  assumes "rg_crashed g = None"
    and "ctxErr = Some e \<or> ctxErr = None \<and> rg_list g \<noteq> [] \<and> t0 + i64 (rq_TimeoutMs req * Millisecond) < t1"
  shows "routes_alone t0 t1 t2 ctxErr client req gw g"
proof (rule routes_aloneI [OF rt_run.simps(1) assms(1)])
  show "rt_pc (route_begin t0 t1 ctxErr client req g) =
      RtReturned (Inl (case ctxErr of Some e \<Rightarrow> e | None \<Rightarrow> ''request timeout''))"
    using assms(2) by (auto simp: route_begin_def)
  show "RouteRequest t0 t1 t2 ctxErr client req (rg_abs gw g) =
      Inr (Inl (case ctxErr of Some e \<Rightarrow> e | None \<Rightarrow> ''request timeout''),
           rg_abs gw (g\<lparr>rg_threads := rg_threads g @ [route_begin t0 t1 ctxErr client req g]\<rparr>))"
    using assms(2) by (auto simp: RouteRequest_def rg_abs_def deref_def Let_def)
qed simp

lemma alone_empty:
  assumes "rg_crashed g = None" and "ctxErr = None" "rg_list g = []"
  shows "routes_alone t0 t1 t2 ctxErr client req gw g"
proof (rule routes_aloneI [OF _ assms(1)])
  let ?th = "(route_begin t0 t1 ctxErr client req g)\<lparr>rt_pc := RtReturned (Inl ''no replicas available'')\<rparr>"
  show "rt_run [RgStep (length (rg_threads g)) t2] (g\<lparr>rg_threads := rg_threads g @ [route_begin t0 t1 ctxErr client req g]\<rparr>) =
      Some (g\<lparr>rg_state := GatewayStatePanic, rg_threads := rg_threads g @ [?th]\<rparr>)"
    using assms by (simp add: route_begin_def)
  show "RouteRequest t0 t1 t2 ctxErr client req (rg_abs gw g) =
      Inr (Inl ''no replicas available'', rg_abs gw (g\<lparr>rg_state := GatewayStatePanic, rg_threads := rg_threads g @ [?th]\<rparr>))"
    using assms by (simp add: RouteRequest_def rg_abs_def deref_def setGatewayState_def)
  have "rt_pc (th\<lparr>rt_pc := x\<rparr>) = x" for th :: rthread and x by simp
  then show "rt_pc ?th = RtReturned (Inl ''no replicas available'')" .
qed simp

lemma alone_routed:
  assumes inv: "rt_inv (Suc n) as g" and client: "sticky_client client"
    and routed: "ctxErr = None" "rg_list g \<noteq> []" "\<not> t0 + i64 (rq_TimeoutMs req * Millisecond) < t1"
  shows "routes_alone t0 t1 t2 ctxErr client req gw g"
proof -
  let ?th = "route_begin t0 t1 ctxErr client req g"
  have crash: "rg_crashed g = None" using inv by (simp add: rt_inv_def)
  obtain lb where lb: "rg_lb g = Some lb" "lb_wf (Suc n) lb" using inv by (auto simp: rt_inv_def)
  have range: "set (rg_list g) \<subseteq> {..<length (rg_heap g)}" using inv unfolding rt_inv_def by blast
  have th: "rt_pc ?th = RtSelect" "rt_list ?th = rg_list g" "rt_client ?th = client" using routed by (simp_all add: route_begin_def)
  obtain k lb' where k: "lb_Select client (deref g (rg_list g)) lb = Inr (Inr (Some k), lb')" "k < length (rg_list g)"
    using weaver_lb.sel_ok [OF lb(2) client, of "deref g (rg_list g)"] routed(2) by (auto simp: deref_def)
  let ?r = "\<lparr>rs_StatusCode = 200, rs_Payload = ''OK'', rs_LatencyMs = 1\<rparr>"
  let ?rep = "rep_RecordSuccess t2 (i64 Millisecond) (rg_heap g ! (rg_list g ! k))"
  let ?g = "g\<lparr>rg_lb := Some lb', rg_heap := (rg_heap g)[rg_list g ! k := ?rep]\<rparr>"
  obtain bs th' where run: "rt_run bs (g\<lparr>rg_threads := rg_threads g @ [?th]\<rparr>) = Some (?g\<lparr>rg_threads := rg_threads g @ [th']\<rparr>)"
    "rt_pc th' = RtReturned (Inr ?r)"
    using alone_select [OF crash th(1) lb(1), of "Inr (Some k)" lb' "rg_threads g" t2] k(1) th(2,3) by auto
  have "deref ?g (rg_list g) = (deref g (rg_list g))[k := ?rep]"
    using deref_update [OF rt_inv_distinct [OF inv] k(2) range] by (simp add: deref_def)
  then have "RouteRequest t0 t1 t2 ctxErr client req (rg_abs gw g) = Inr (Inr ?r, rg_abs gw (?g\<lparr>rg_threads := rg_threads g @ [th']\<rparr>))"
    using routed k lb(1) by (simp add: RouteRequest_def rg_abs_def deref_def Let_def)
  then show ?thesis using run by (intro routes_aloneI [OF run(1) crash, where th = th' and r = "Inr ?r"]) simp_all
qed

lemma alone_ok:
  assumes "rt_inv (Suc n) as g" and "sticky_client client"
  shows "routes_alone t0 t1 t2 ctxErr client req gw g"
proof -
  have "rg_crashed g = None" using assms(1) by (simp add: rt_inv_def)
  then show ?thesis
    using alone_early [of g ctxErr _ t0 req t1 t2 client gw] alone_empty [of g ctxErr t0 t1 t2 client req gw]
      alone_routed [OF assms, of ctxErr t0 req t1 t2 gw]
    by (cases ctxErr; cases "rg_list g = []"; cases "t0 + i64 (rq_TimeoutMs req * Millisecond) < t1") auto
qed

section \<open>Every request returns\<close>

fun route_left :: "rt_pc \<Rightarrow> nat" where
  "route_left RtSelect = 2"
| "route_left RtEmpty = 1"
| "route_left RtRecord = 1"
| "route_left (RtReturned r) = 0"

definition routing_left :: "routing \<Rightarrow> nat" where
  "routing_left g = sum_list (map (\<lambda>th. route_left (rt_pc th)) (rg_threads g))"

fun is_route_step :: "rt_act \<Rightarrow> bool" where
  "is_route_step (RgStep i t) = True"
| "is_route_step _ = False"

lemma route_step_left:
  assumes "route_step t th (rt_pc th) g = Inr (th', g')" "\<not> rt_done (rt_pc th)"
  shows "route_left (rt_pc th') < route_left (rt_pc th)"
proof (cases "rt_pc th")
  case RtSelect
  with assms(1) obtain lb x lb' where "th' = (case x of
        Inl err \<Rightarrow> th\<lparr>rt_pc := RtReturned (Inl err)\<rparr>
      | Inr None \<Rightarrow> th\<lparr>rt_pc := RtReturned (Inl ''no healthy replica selected'')\<rparr>
      | Inr (Some i) \<Rightarrow> th\<lparr>rt_replica := Some (rt_list th ! i), rt_pc := RtRecord\<rparr>)"
    by (cases "rg_lb g") (auto simp: go_bind_Inr_iff)
  with RtSelect show ?thesis by (cases x rule: sum.exhaust) (auto split: option.splits)
qed (use assms in \<open>auto simp: Let_def split: option.splits\<close>)

lemma rt_step_left:
  assumes "rt_step a g = Some g'" "rg_crashed g' = None"
  shows "routing_left g' + (if is_route_step a then 1 else 0) \<le> routing_left g + 2 * (length (rg_threads g') - length (rg_threads g)) \<and>
    length (rg_threads g) \<le> length (rg_threads g')"
proof (cases a)
  case (RgRequest t0 t1 e c req)
  have "route_left (rt_pc (route_begin t0 t1 e c req g)) \<le> 2" by (auto simp: route_begin_def split: option.splits)
  with RgRequest assms show ?thesis by (auto simp: routing_left_def)
next
  case (RgStep i t)
  with assms obtain th g1 where i: "i < length (rg_threads g)" "\<not> rt_done (rt_pc (rg_threads g ! i))"
    "route_step t (rg_threads g ! i) (rt_pc (rg_threads g ! i)) g = Inr (th, g1)" "g' = g1\<lparr>rg_threads := (rg_threads g)[i := th]\<rparr>"
    by (auto split: if_splits sum.splits)
  from sum_list_map_update [OF i(1), of "\<lambda>th. route_left (rt_pc th)" th] route_step_left [OF i(3,2)] i(4)
  show ?thesis using RgStep by (simp add: routing_left_def)
qed (use assms in \<open>auto simp: routing_left_def receive_list_def Let_def split: if_splits option.splits\<close>)

lemma rt_reach_left:
  "rt_reach lb as g \<Longrightarrow> rg_crashed g = None \<Longrightarrow>
     routing_left g + length (filter is_route_step as) \<le> 2 * length (rg_threads g)"
proof (induction rule: rt_reach.induct)
  case (rt_next as g a g')
  from rt_step_left [OF rt_next.hyps(3) rt_next.prems] rt_next.IH [OF rt_next.hyps(2)] show ?case by auto
qed (simp add: routing_left_def new_routing_def)

lemma rt_finish:
  "rt_inv (n + routing_left g) as g \<Longrightarrow>
     \<exists>bs g'. rt_run bs g = Some g' \<and> (\<forall>b \<in> set bs. is_route_step b) \<and> (\<forall>th \<in> set (rg_threads g'). rt_done (rt_pc th)) \<and>
       length (rg_threads g') = length (rg_threads g)"
proof (induction "routing_left g" arbitrary: n g "as" rule: less_induct)
  case less
  show ?case
  proof (cases "\<forall>th \<in> set (rg_threads g). rt_done (rt_pc th)")
    case True
    then show ?thesis by (intro exI [of _ "[]"]) auto
  next
    case False
    then obtain i where i: "i < length (rg_threads g)" "\<not> rt_done (rt_pc (rg_threads g ! i))" by (auto simp: in_set_conv_nth)
    have "0 < route_left (rt_pc (rg_threads g ! i))" using i(2) by (cases "rt_pc (rg_threads g ! i)") auto
    moreover have "route_left (rt_pc (rg_threads g ! i)) \<le> routing_left g"
      unfolding routing_left_def using i(1) by (intro member_le_sum_list) auto
    ultimately obtain m where m: "n + routing_left g = Suc m" "n + routing_left g - 1 = m" by (cases "n + routing_left g") auto
    obtain g1 where g1: "rt_step (RgStep i 0) g = Some g1" "rt_inv m (as @ [RgStep i 0]) g1"
      using rt_inv_thread [OF _ i, of m "as" 0] less.prems m(1) by auto
    have "rg_crashed g1 = None" "rg_crashed g = None" using g1(2) less.prems by (simp_all add: rt_inv_def)
    moreover have len: "length (rg_threads g1) = length (rg_threads g)"
      using g1(1) i by (auto split: if_splits sum.splits)
    ultimately have left: "routing_left g1 < routing_left g" using rt_step_left [OF g1(1)] by simp
    then have "rt_inv ((m - routing_left g1) + routing_left g1) (as @ [RgStep i 0]) g1" using g1(2) m by simp
    from less.hyps [OF left this] obtain bs g' where "rt_run bs g1 = Some g'" "\<forall>b \<in> set bs. is_route_step b"
      "\<forall>th \<in> set (rg_threads g'). rt_done (rt_pc th)" "length (rg_threads g') = length (rg_threads g1)" by blast
    with g1(1) \<open>rg_crashed g = None\<close> len show ?thesis by (intro exI [of _ "RgStep i 0 # bs"] exI [of _ g']) (auto simp del: rt_step.simps)
  qed
qed

section \<open>Properties\<close>

text \<open>A request for which there is time, and a list of two replicas.\<close>

definition example_request :: rt_act where
  "example_request = RgRequest 0 5 None None \<lparr>rq_Method = ''m'', rq_TimeoutMs = 100, rq_RequestID = ''1'', rq_ClientIP = ''c''\<rparr>"

definition example_list :: rt_act where
  "example_list = RgReceive (static_infos 0 [''10.0.0.1'', ''10.0.0.2''])"

text \<open>The list is replaced while a request is between its selection and its recording.\<close>

definition replaced_schedule :: "rt_act list" where
  "replaced_schedule = [example_list, RgRebalance, example_request, RgStep 0 6, example_list, example_request, RgStep 0 7]"

text \<open>C23: Concurrent requests are routed and counted exactly, also while the list of replicas is replaced under them. For a strategy
  in a proper state and acceptable clients, under every interleaving of requests with the watch loop: nothing panics; every
  request reads the list that was received last before it began; a request that succeeded was served by a replica
  of the list it read; every replica object was made from its entry of the discovered lists; and the request count of every replica
  that was ever made, in the current list or not, is the number of requests it served, in 64-bit arithmetic.\<close>

theorem routing_accounted:
  assumes "rt_reach (Some lb) as g" and "lb_wf (length as) lb" and "\<forall>a \<in> set as. acceptable a"
  shows "rg_crashed g = None \<and> map rt_list (rg_threads g) = reads [] 0 as \<and>
    (\<forall>th \<in> set (rg_threads g). success (rt_pc th) \<longrightarrow> (\<exists>a \<in> set (rt_list th). rt_replica th = Some a)) \<and>
    list_all2 made_from (discovered as) (rg_heap g) \<and>
    (\<forall>a < length (rg_heap g). rm_RequestCount (rep_Metrics (rg_heap g ! a)) = i64 (int (served a g)))"
proof -
  have inv: "rt_inv 0 as g" using rt_reach_inv [OF assms(1), of 0] assms(2,3) by simp
  have "\<exists>a \<in> set (rt_list th). rt_replica th = Some a" if "th \<in> set (rg_threads g)" "success (rt_pc th)" for th
  proof -
    have "thread_ok (length (rg_heap g)) th (rt_pc th)" using inv that(1) unfolding rt_inv_def by blast
    with that(2) show ?thesis by (cases "(length (rg_heap g), th, rt_pc th)" rule: thread_ok.cases) auto
  qed
  with inv show ?thesis unfolding rt_inv_def by blast
qed

theorem routing_accounted_witness:
  "\<exists>g. rt_reach (Some (LBRoundRobin NewRoundRobin)) replaced_schedule g \<and> map rt_list (rg_threads g) = [[0, 1], [2, 3]] \<and>
     rm_RequestCount (rep_Metrics (rg_heap g ! 0)) = 1"
proof -
  let ?r = "rt_run replaced_schedule (new_routing (Some (LBRoundRobin NewRoundRobin)))"
  have "case ?r of None \<Rightarrow> False | Some g \<Rightarrow> length (rg_heap g) = 4 \<and> served 0 g = 1" by code_simp
  then obtain g where g: "?r = Some g" "length (rg_heap g) = 4" "served 0 g = 1" by (auto split: option.splits)
  have "lb_wf (length replaced_schedule) (LBRoundRobin NewRoundRobin)"
    by (simp add: rr_wf_def NewRoundRobin_def replaced_schedule_def)
  moreover have "list_all acceptable replaced_schedule" "reads [] 0 replaced_schedule = [[0, 1], [2, 3]]" by code_simp+
  ultimately show ?thesis using routing_accounted [OF rt_run_init [OF g(1)]] rt_run_init [OF g(1)] g(2,3)
    by (auto simp: list_all_iff i64_def)
qed

text \<open>Routing terminates for every request. Any number of concurrent requests take at most two steps each together after
  they have read the list, however the watch loop interferes; and from every reachable state there is a continuation by
  steps of the requests alone after which all of them have returned.\<close>

lemma routing_finishes:
  assumes "rt_reach (Some lb) as g" and "lb_wf (length as + 2 * length (rg_threads g)) lb" and "\<forall>a \<in> set as. acceptable a"
  shows "length (filter is_route_step as) \<le> 2 * length (rg_threads g) \<and>
    (\<exists>bs g'. rt_reach (Some lb) (as @ bs) g' \<and> (\<forall>b \<in> set bs. is_route_step b) \<and>
       length (rg_threads g') = length (rg_threads g) \<and> (\<forall>th \<in> set (rg_threads g'). rt_done (rt_pc th)))"
proof -
  let ?n = "2 * length (rg_threads g)"
  have inv: "rt_inv ?n as g" using rt_reach_inv [OF assms(1), of ?n] assms(2,3) by (simp add: add.commute)
  then have left: "routing_left g + length (filter is_route_step as) \<le> ?n" using rt_reach_left [OF assms(1)] by (simp add: rt_inv_def)
  then have "rt_inv ((?n - routing_left g) + routing_left g) as g" using inv by simp
  from rt_finish [OF this] obtain bs g' where "rt_run bs g = Some g'" "\<forall>b \<in> set bs. is_route_step b"
    "\<forall>th \<in> set (rg_threads g'). rt_done (rt_pc th)" "length (rg_threads g') = length (rg_threads g)" by blast
  with left rt_run_reach [OF _ assms(1)] show ?thesis by (metis add_leD2)
qed

lemma routing_finishes_instance:
  "\<exists>bs g'. rt_reach (Some (LBRoundRobin NewRoundRobin)) (replaced_schedule @ bs) g' \<and> (\<forall>th \<in> set (rg_threads g'). rt_done (rt_pc th))"
proof -
  let ?r = "rt_run replaced_schedule (new_routing (Some (LBRoundRobin NewRoundRobin)))"
  have "case ?r of None \<Rightarrow> False | Some g \<Rightarrow> length (rg_threads g) = 2" by code_simp
  then obtain g where g: "?r = Some g" "length (rg_threads g) = 2" by (auto split: option.splits)
  have "lb_wf (length replaced_schedule + 2 * 2) (LBRoundRobin NewRoundRobin)"
    by (simp add: rr_wf_def NewRoundRobin_def replaced_schedule_def)
  moreover have "list_all acceptable replaced_schedule" by code_simp
  ultimately show ?thesis using routing_finishes [OF rt_run_init [OF g(1)]] g(2) by (auto simp: list_all_iff)
qed

text \<open>The threads refine the sequential \<open>RouteRequest\<close>. From every reachable state, whatever \<open>RouteRequest\<close> computes on the
  gateway that the heap and the current list stand for (the response or error, the metrics, the strategy, the state) is computed by
  a new request whose steps nobody interrupts.\<close>

lemma route_alone:
  assumes "rt_reach (Some lb) as g" and "lb_wf (Suc (length as)) lb" and "\<forall>a \<in> set as. acceptable a" and "sticky_client client"
  shows "\<exists>r bs th g'. RouteRequest t0 t1 t2 ctxErr client req (rg_abs gw g) = Inr (r, rg_abs gw g') \<and>
    rt_run (RgRequest t0 t1 ctxErr client req # bs) g = Some g' \<and> rg_threads g' = rg_threads g @ [th] \<and> rt_pc th = RtReturned r"
proof -
  have "rt_inv 1 as g" using rt_reach_inv [OF assms(1), of 1] assms(2,3) by simp
  with alone_ok [of 0 "as" g client t0 t1 t2 ctxErr req gw] assms(4) show ?thesis by (simp add: routes_alone_def)
qed

lemma route_alone_instance:
  "\<exists>r bs g'. rt_run (RgRequest 0 5 None None \<lparr>rq_Method = ''m'', rq_TimeoutMs = 100, rq_RequestID = ''1'', rq_ClientIP = ''c''\<rparr> # bs)
      (new_routing (Some LBLeastConnections)) = Some g' \<and> map rt_pc (rg_threads g') = [RtReturned r]"
proof -
  have "sticky_client None" by code_simp
  from route_alone [OF rt_init _ _ this, of LBLeastConnections 0 5 0 None
      "\<lparr>rq_Method = ''m'', rq_TimeoutMs = 100, rq_RequestID = ''1'', rq_ClientIP = ''c''\<rparr>"
      "NewGateway ''g'' None None None"]
  obtain r bs th g' where *: "rt_run (RgRequest 0 5 None None \<lparr>rq_Method = ''m'', rq_TimeoutMs = 100, rq_RequestID = ''1'', rq_ClientIP = ''c''\<rparr> # bs)
      (new_routing (Some LBLeastConnections)) = Some g'" "rg_threads g' = rg_threads (new_routing (Some LBLeastConnections)) @ [th]"
      "rt_pc th = RtReturned r"
    by auto
  have "map rt_pc (rg_threads g') = [RtReturned r]" unfolding *(2) by (simp add: new_routing_def *(3))
  with *(1) show ?thesis by (intro exI conjI)
qed

text \<open>What is counted on a replaced replica is lost to the gateway: a request that was under way when the list was replaced
  succeeds, but no replica that the gateway still has counts it.\<close>

lemma replaced_count_lost:
  "\<exists>g. rt_reach (Some LBLeastConnections) replaced_schedule g \<and> map (\<lambda>th. success (rt_pc th)) (rg_threads g) = [True, False] \<and>
     map (\<lambda>r. rm_RequestCount (rep_Metrics r)) (deref g (rg_list g)) = [0, 0]"
proof -
  let ?r = "rt_run replaced_schedule (new_routing (Some LBLeastConnections))"
  have r: "case ?r of None \<Rightarrow> False | Some g \<Rightarrow> map (\<lambda>th. success (rt_pc th)) (rg_threads g) = [True, False] \<and>
      map (\<lambda>r. rm_RequestCount (rep_Metrics r)) (deref g (rg_list g)) = [0, 0]"
    by code_simp
  show ?thesis
  proof (cases ?r)
    case None
    with r show ?thesis by (simp only: option.case)
  next
    case (Some g)
    with r have "map (\<lambda>th. success (rt_pc th)) (rg_threads g) = [True, False] \<and>
      map (\<lambda>r. rm_RequestCount (rep_Metrics r)) (deref g (rg_list g)) = [0, 0]" by (simp only: option.case)
    with rt_run_init [OF Some] show ?thesis by (intro exI conjI) auto
  qed
qed

end
