(* ===== verification/WV_Health.thy ===== *)
theory WV_Health
  imports WV_Balancer Breaker_Contract "HOL-Library.AList"
begin

text \<open>
  The health monitor of the gateway (\<^verbatim>\<open>src/Weaver/pkg/health/monitor.go\<close>). The map from names to replica states is an association
  list with distinct keys; the processing of a check result is one step, at an instant given as an argument. The goroutines of the
  monitor only differ in the replica they check.
\<close>

section \<open>State\<close>

datatype ReplicaHealthState = StateHealthy | StateUnhealthy | StatePanic

record HealthConfig =
  hc_CheckType :: string
  hc_CheckInterval :: duration
  hc_CheckTimeout :: duration
  hc_FailureThreshold :: int
  hc_SuccessThreshold :: int
  hc_PanicTimeout :: duration

record replicaState =
  rst_name :: string
  rst_state :: ReplicaHealthState
  rst_consecutiveFailures :: int
  rst_consecutiveSuccess :: int
  rst_lastFailureTime :: time
  rst_lastCheckTime :: time

record StateChange =
  sc_ReplicaName :: string
  sc_OldState :: ReplicaHealthState
  sc_NewState :: ReplicaHealthState
  sc_Timestamp :: time

record HealthCheckResult =
  hr_Healthy :: bool
  hr_ResponseTimeMs :: int
  hr_Error :: string
  hr_CheckedAt :: time

record Monitor =
  mo_replicas :: "Replica list"
  mo_config :: HealthConfig
  mo_states :: "(string \<times> replicaState) list"
  mo_globalPanicMode :: bool
  mo_globalPanicTime :: time
  mo_stateChanges :: "StateChange list"
  mo_stopped :: bool

section \<open>Operations\<close>

definition effective_config :: "HealthConfig \<Rightarrow> HealthConfig" where
  "effective_config c =
     c\<lparr>hc_FailureThreshold := (if hc_FailureThreshold c \<le> 0 then 3 else hc_FailureThreshold c),
       hc_SuccessThreshold := (if hc_SuccessThreshold c \<le> 0 then 2 else hc_SuccessThreshold c),
       hc_CheckInterval := (if hc_CheckInterval c \<le> 0 then 5 * Second else hc_CheckInterval c),
       hc_CheckTimeout := (if hc_CheckTimeout c \<le> 0 then 2 * Second else hc_CheckTimeout c),
       hc_PanicTimeout := (if hc_PanicTimeout c \<le> 0 then 30 * Second else hc_PanicTimeout c)\<rparr>"

definition new_state :: "string \<Rightarrow> replicaState" where
  "new_state name =
     \<lparr>rst_name = name, rst_state = StateHealthy, rst_consecutiveFailures = 0, rst_consecutiveSuccess = 0,
      rst_lastFailureTime = 0, rst_lastCheckTime = 0\<rparr>"

definition NewMonitor :: "Replica list \<Rightarrow> HealthConfig \<Rightarrow> Monitor" where
  "NewMonitor replicas config =
     \<lparr>mo_replicas = replicas, mo_config = effective_config config,
      mo_states = foldl (\<lambda>m r. AList.update (rep_Name r) (new_state (rep_Name r)) m) [] replicas,
      mo_globalPanicMode = False, mo_globalPanicTime = 0, mo_stateChanges = [], mo_stopped = False\<rparr>"

definition performCheck :: "time \<Rightarrow> Replica \<Rightarrow> HealthCheckResult" where
  "performCheck now replica = \<lparr>hr_Healthy = True, hr_ResponseTimeMs = 1, hr_Error = '''', hr_CheckedAt = now\<rparr>"

text \<open>The lines of \<open>processCheckResult\<close> that update the counters and the state of the replica.\<close>

definition update_state :: "time \<Rightarrow> HealthConfig \<Rightarrow> HealthCheckResult \<Rightarrow> replicaState \<Rightarrow> replicaState" where
  "update_state now cfg result state =
     (let state1 = state\<lparr>rst_lastCheckTime := hr_CheckedAt result\<rparr>
      in if hr_Healthy result
         then let state2 = state1\<lparr>rst_consecutiveFailures := 0,
                                  rst_consecutiveSuccess := i32 (rst_consecutiveSuccess state1 + 1)\<rparr>
              in if rst_state state2 = StateUnhealthy \<and> rst_consecutiveSuccess state2 \<ge> i32 (hc_SuccessThreshold cfg)
                 then state2\<lparr>rst_state := StateHealthy, rst_consecutiveSuccess := 0\<rparr>
                 else if rst_state state2 = StateHealthy then state2\<lparr>rst_consecutiveSuccess := 0\<rparr>
                 else state2
         else let state2 = state1\<lparr>rst_consecutiveSuccess := 0,
                                  rst_consecutiveFailures := i32 (rst_consecutiveFailures state1 + 1),
                                  rst_lastFailureTime := now\<rparr>
              in if rst_consecutiveFailures state2 \<ge> i32 (hc_FailureThreshold cfg)
                 then state2\<lparr>rst_state := StateUnhealthy, rst_consecutiveFailures := 0\<rparr>
                 else state2)"

definition updatePanicMode :: "time \<Rightarrow> Monitor \<Rightarrow> Monitor" where
  "updatePanicMode now m =
     (let healthyCount = length (filter (\<lambda>(n, s). rst_state s = StateHealthy) (mo_states m));
          wasPanic = mo_globalPanicMode m;
          isPanic = (healthyCount = 0 \<and> length (mo_states m) > 0);
          m1 = m\<lparr>mo_globalPanicMode := isPanic\<rparr>;
          m2 = (if isPanic \<and> \<not> wasPanic then m1\<lparr>mo_globalPanicTime := now\<rparr> else m1)
      in if \<not> isPanic \<and> wasPanic then m2\<lparr>mo_globalPanicTime := 0\<rparr> else m2)"

text \<open>The notification of a state change: the channel has room for ten entries and the send does not block.\<close>

definition send_change :: "time \<Rightarrow> string \<Rightarrow> ReplicaHealthState \<Rightarrow> ReplicaHealthState \<Rightarrow> Monitor \<Rightarrow> Monitor" where
  "send_change now name oldState newState m =
     (if oldState \<noteq> newState \<and> length (mo_stateChanges m) < 10
      then m\<lparr>mo_stateChanges := mo_stateChanges m @
          [\<lparr>sc_ReplicaName = name, sc_OldState = oldState, sc_NewState = newState, sc_Timestamp = now\<rparr>]\<rparr>
      else m)"

text \<open>\<open>processCheckResult\<close> for the replica at position \<open>i\<close>, with the state registered under its name: the lines up to the
  notification, and the whole function.\<close>

definition record_result :: "time \<Rightarrow> nat \<Rightarrow> HealthCheckResult \<Rightarrow> Monitor \<Rightarrow> Monitor go" where
  "record_result now i result m =
     (let replica = mo_replicas m ! i; name = rep_Name replica in
      case map_of (mo_states m) name of
        None \<Rightarrow> Inl NilDereference
      | Some state \<Rightarrow>
          let state' = update_state now (mo_config m) result state;
              m1 = m\<lparr>mo_states := AList.update name state' (mo_states m),
                     mo_replicas := (mo_replicas m)[i := replica\<lparr>rep_Healthy := (rst_state state' = StateHealthy)\<rparr>]\<rparr>
          in Inr (send_change now name (rst_state state) (rst_state state') m1))"

definition processCheckResult :: "time \<Rightarrow> nat \<Rightarrow> HealthCheckResult \<Rightarrow> Monitor \<Rightarrow> Monitor go" where
  "processCheckResult now i result m = go_bind (record_result now i result m) (\<lambda>m'. Inr (updatePanicMode now m'))"

text \<open>One tick of the goroutine that monitors the replica at position \<open>i\<close>.\<close>

definition monitorReplica :: "time \<Rightarrow> nat \<Rightarrow> Monitor \<Rightarrow> Monitor go" where
  "monitorReplica now i m = processCheckResult now i (performCheck now (mo_replicas m ! i)) m"

definition mo_Stop :: "Monitor \<Rightarrow> Monitor go" where
  "mo_Stop m = (if mo_stopped m then Inl CloseOfClosedChannel else Inr (m\<lparr>mo_stopped := True\<rparr>))"

definition mo_GetState :: "Monitor \<Rightarrow> string \<Rightarrow> ReplicaHealthState" where
  "mo_GetState m name = (case map_of (mo_states m) name of None \<Rightarrow> StateHealthy | Some s \<Rightarrow> rst_state s)"

definition IsHealthy :: "Monitor \<Rightarrow> string \<Rightarrow> bool" where
  "IsHealthy m name = (mo_GetState m name = StateHealthy)"

definition IsPanicMode :: "Monitor \<Rightarrow> bool" where
  "IsPanicMode m = mo_globalPanicMode m"

definition GetHealthyReplicas :: "Monitor \<Rightarrow> Replica list" where
  "GetHealthyReplicas m = filter (\<lambda>r. IsHealthy m (rep_Name r)) (mo_replicas m)"

section \<open>Sequences of results\<close>

text \<open>Results for replicas, in the order in which the monitor handles them.\<close>

fun mo_run :: "(time \<times> nat \<times> HealthCheckResult) list \<Rightarrow> Monitor \<Rightarrow> Monitor go" where
  "mo_run [] m = Inr m"
| "mo_run ((t, i, r) # rs) m = go_bind (processCheckResult t i r m) (mo_run rs)"

definition result_of :: "time \<Rightarrow> bool \<Rightarrow> HealthCheckResult" where
  "result_of t h = \<lparr>hr_Healthy = h, hr_ResponseTimeMs = 1, hr_Error = '''', hr_CheckedAt = t\<rparr>"

text \<open>A replica is in state \<open>st\<close> at some point while the given outcomes are processed.\<close>

fun reaches :: "ReplicaHealthState \<Rightarrow> HealthConfig \<Rightarrow> (time \<times> bool) list \<Rightarrow> replicaState \<Rightarrow> bool" where
  "reaches st cfg [] s = (rst_state s = st)"
| "reaches st cfg ((t, h) # rs) s = (rst_state s = st \<or> reaches st cfg rs (update_state t cfg (result_of t h) s))"

text \<open>Ticks of the goroutines: the instant and the replica checked.\<close>

fun mo_ticks :: "(time \<times> nat) list \<Rightarrow> Monitor \<Rightarrow> Monitor go" where
  "mo_ticks [] m = Inr m"
| "mo_ticks ((t, i) # ts) m = go_bind (monitorReplica t i m) (mo_ticks ts)"

definition mo_wf :: "Monitor \<Rightarrow> bool" where
  "mo_wf m \<longleftrightarrow> set (map fst (mo_states m)) = set (map rep_Name (mo_replicas m)) \<and> distinct (map fst (mo_states m))"

section \<open>Thresholds\<close>

lemma i32_id: "- (2 ^ 31) \<le> x \<Longrightarrow> x < 2 ^ 31 \<Longrightarrow> i32 x = x"
  by (simp add: i32_def)

lemma update_healthy:
  assumes "rst_state s = StateHealthy" and "int c < hc_FailureThreshold cfg" and "hc_FailureThreshold cfg < 2 ^ 31"
    and "rst_consecutiveFailures s = int c"
  shows "update_state t cfg (result_of t True) s =
      s\<lparr>rst_lastCheckTime := t, rst_consecutiveFailures := 0, rst_consecutiveSuccess := 0\<rparr>"
    and "update_state t cfg (result_of t False) s =
      (if hc_FailureThreshold cfg \<le> int (Suc c)
       then s\<lparr>rst_lastCheckTime := t, rst_consecutiveSuccess := 0, rst_consecutiveFailures := 0, rst_lastFailureTime := t,
              rst_state := StateUnhealthy\<rparr>
       else s\<lparr>rst_lastCheckTime := t, rst_consecutiveSuccess := 0, rst_consecutiveFailures := int (Suc c),
              rst_lastFailureTime := t\<rparr>)"
  using assms by (auto simp: update_state_def result_of_def Let_def i32_id)

lemma update_unhealthy:
  assumes "rst_state s = StateUnhealthy" and "int c < hc_SuccessThreshold cfg" and "hc_SuccessThreshold cfg < 2 ^ 31"
    and "rst_consecutiveSuccess s = int c"
  shows "update_state t cfg (result_of t True) s =
      (if hc_SuccessThreshold cfg \<le> int (Suc c)
       then s\<lparr>rst_lastCheckTime := t, rst_consecutiveFailures := 0, rst_consecutiveSuccess := 0, rst_state := StateHealthy\<rparr>
       else s\<lparr>rst_lastCheckTime := t, rst_consecutiveFailures := 0, rst_consecutiveSuccess := int (Suc c)\<rparr>)"
    and "rst_state (update_state t cfg (result_of t False) s) = StateUnhealthy"
    and "rst_consecutiveSuccess (update_state t cfg (result_of t False) s) = 0"
  using assms by (auto simp: update_state_def result_of_def Let_def i32_id)

text \<open>The first change of state is governed by a counter of consecutive outcomes.\<close>

lemma leaves_healthy:
  assumes "rst_state s = StateHealthy" and "c < nat (hc_FailureThreshold cfg)" and "hc_FailureThreshold cfg < 2 ^ 31"
    and "rst_consecutiveFailures s = int c"
  shows "reaches StateUnhealthy cfg rs s \<longleftrightarrow> trips (nat (hc_FailureThreshold cfg)) c (map snd rs)"
  using assms
proof (induction rs arbitrary: s c)
  case (Cons x rs)
  obtain t h where x: "x = (t, h)" by fastforce
  have c: "int c < hc_FailureThreshold cfg" using Cons.prems(2) by linarith
  note u = update_healthy [OF Cons.prems(1) c Cons.prems(3,4), of t]
  show ?case
  proof (cases "\<not> h \<and> hc_FailureThreshold cfg \<le> int (Suc c)")
    case True
    then have "nat (hc_FailureThreshold cfg) \<le> Suc c" by linarith
    moreover have "reaches StateUnhealthy cfg rs s'" if "rst_state s' = StateUnhealthy" for s'
      using that by (cases rs) auto
    ultimately show ?thesis using True u(2) by (simp add: x)
  next
    case False
    then have "\<not> h \<Longrightarrow> \<not> nat (hc_FailureThreshold cfg) \<le> Suc c" by linarith
    moreover have "reaches StateUnhealthy cfg rs (update_state t cfg (result_of t h) s) \<longleftrightarrow>
        trips (nat (hc_FailureThreshold cfg)) (if h then 0 else Suc c) (map snd rs)"
      using Cons.prems False u by (cases h; intro Cons.IH) auto
    ultimately show ?thesis using Cons.prems(1) by (cases h) (simp_all add: x)
  qed
qed simp

lemma leaves_unhealthy:
  assumes "rst_state s = StateUnhealthy" and "c < nat (hc_SuccessThreshold cfg)" and "hc_SuccessThreshold cfg < 2 ^ 31"
    and "rst_consecutiveSuccess s = int c"
  shows "reaches StateHealthy cfg rs s \<longleftrightarrow> trips (nat (hc_SuccessThreshold cfg)) c (map (Not \<circ> snd) rs)"
  using assms
proof (induction rs arbitrary: s c)
  case (Cons x rs)
  obtain t h where x: "x = (t, h)" by fastforce
  have c: "int c < hc_SuccessThreshold cfg" using Cons.prems(2) by linarith
  note u = update_unhealthy [OF Cons.prems(1) c Cons.prems(3,4), of t]
  show ?case
  proof (cases "h \<and> hc_SuccessThreshold cfg \<le> int (Suc c)")
    case True
    then have "nat (hc_SuccessThreshold cfg) \<le> Suc c" by linarith
    moreover have "reaches StateHealthy cfg rs s'" if "rst_state s' = StateHealthy" for s'
      using that by (cases rs) auto
    ultimately show ?thesis using True u(1) by (simp add: x)
  next
    case False
    then have "h \<Longrightarrow> \<not> nat (hc_SuccessThreshold cfg) \<le> Suc c" by linarith
    moreover have "reaches StateHealthy cfg rs (update_state t cfg (result_of t h) s) \<longleftrightarrow>
        trips (nat (hc_SuccessThreshold cfg)) (if h then Suc c else 0) (map (Not \<circ> snd) rs)"
      using Cons.prems False u by (cases h; intro Cons.IH) auto
    ultimately show ?thesis using Cons.prems(1) by (cases h) (simp_all add: x comp_def)
  qed
qed simp

section \<open>The monitor\<close>

lemma NewMonitor_states:
  "set (map fst (foldl (\<lambda>m r. AList.update (rep_Name r) (new_state (rep_Name r)) m) al reps)) =
     set (map fst al) \<union> set (map rep_Name reps) \<and>
   (distinct (map fst al) \<longrightarrow>
     distinct (map fst (foldl (\<lambda>m r. AList.update (rep_Name r) (new_state (rep_Name r)) m) al reps))) \<and>
   ((\<forall>x \<in> set al. rst_state (snd x) = StateHealthy) \<longrightarrow>
     (\<forall>x \<in> set (foldl (\<lambda>m r. AList.update (rep_Name r) (new_state (rep_Name r)) m) al reps). rst_state (snd x) = StateHealthy))"
proof (induction reps arbitrary: al)
  case (Cons r reps)
  let ?al = "AList.update (rep_Name r) (new_state (rep_Name r)) al"
  have k: "set (map fst ?al) = insert (rep_Name r) (set (map fst al))" by (auto simp: AList.update_keys)
  have "\<forall>x \<in> set ?al. rst_state (snd x) = StateHealthy" if "\<forall>x \<in> set al. rst_state (snd x) = StateHealthy"
    using that by (induction al) (auto simp: new_state_def)
  moreover have "distinct (map fst al) \<Longrightarrow> distinct (map fst ?al)" by (simp add: distinct_update)
  moreover have "set (map fst ?al) \<union> set (map rep_Name reps) = set (map fst al) \<union> set (map rep_Name (r # reps))"
    unfolding k by simp
  ultimately show ?case using Cons.IH [of ?al] unfolding foldl_Cons by presburger
qed simp

lemma mo_wf_New: "mo_wf (NewMonitor reps cfg)"
  using NewMonitor_states [of "[]" reps] by (simp add: mo_wf_def NewMonitor_def)

lemma updatePanicMode_simps:
  "mo_states (updatePanicMode t m) = mo_states m" "mo_replicas (updatePanicMode t m) = mo_replicas m"
  "mo_config (updatePanicMode t m) = mo_config m" "mo_stateChanges (updatePanicMode t m) = mo_stateChanges m"
  "mo_globalPanicMode (updatePanicMode t m) \<longleftrightarrow>
     (\<forall>x \<in> set (mo_states m). rst_state (snd x) \<noteq> StateHealthy) \<and> mo_states m \<noteq> []"
  by (auto simp: updatePanicMode_def Let_def filter_empty_conv split: if_splits)

lemma send_change_simps [simp]:
  "mo_states (send_change t n o' n' m) = mo_states m" "mo_replicas (send_change t n o' n' m) = mo_replicas m"
  "send_change t n n' n' m = m"
  by (simp_all add: send_change_def)

text \<open>Processing a result keeps the invariant and sets the panic mode to what the states say.\<close>

lemma process_step:
  assumes "mo_wf m" and "i < length (mo_replicas m)"
  shows "\<exists>m'. processCheckResult t i r m = Inr m' \<and> mo_wf m' \<and>
    map rep_Name (mo_replicas m') = map rep_Name (mo_replicas m) \<and>
    (IsPanicMode m' \<longleftrightarrow> (\<forall>n \<in> set (map rep_Name (mo_replicas m')). \<not> IsHealthy m' n))"
proof -
  let ?n = "rep_Name (mo_replicas m ! i)"
  have n: "?n \<in> set (map fst (mo_states m))" using assms by (simp add: mo_wf_def)
  then obtain st where st: "map_of (mo_states m) ?n = Some st" by (metis map_of_eq_None_iff not_None_eq list.set_map)
  define al where "al = AList.update ?n (update_state t (mo_config m) r st) (mo_states m)"
  have al: "set (map fst al) = set (map fst (mo_states m))" "distinct (map fst al)"
    using assms(1) n unfolding al_def by (auto simp: AList.update_keys mo_wf_def distinct_update)
  obtain m' where m': "processCheckResult t i r m = Inr m'" "mo_states m' = al"
    "map rep_Name (mo_replicas m') = map rep_Name (mo_replicas m)"
    "IsPanicMode m' \<longleftrightarrow> (\<forall>x \<in> set al. rst_state (snd x) \<noteq> StateHealthy) \<and> al \<noteq> []"
    using assms(2)
    by (auto simp: processCheckResult_def record_result_def st al_def updatePanicMode_simps IsPanicMode_def map_update
        list_update_same_conv Let_def)
  have ne: "al \<noteq> []" using n al(1) by auto
  have eq: "(\<forall>x \<in> set al. rst_state (snd x) \<noteq> StateHealthy) \<longleftrightarrow> (\<forall>k \<in> set (map fst al). \<not> IsHealthy m' k)"
    using al(2) by (force simp: IsHealthy_def mo_GetState_def m'(2) split: option.splits)
  have keys: "set (map fst al) = set (map rep_Name (mo_replicas m'))"
    using al(1) assms(1) m'(3) by (metis mo_wf_def)
  have "IsPanicMode m' \<longleftrightarrow> (\<forall>n \<in> set (map rep_Name (mo_replicas m')). \<not> IsHealthy m' n)"
    unfolding keys [symmetric] using eq m'(4) ne by metis
  moreover have "mo_wf m'" using keys al(2) m'(2) by (simp add: mo_wf_def)
  ultimately show ?thesis using m'(1,3) by blast
qed

lemma mo_run_step:
  assumes "mo_wf m" and "\<forall>(t, i, r) \<in> set rs. i < length (mo_replicas m)"
  shows "\<exists>m'. mo_run rs m = Inr m' \<and> mo_wf m' \<and>
    (rs \<noteq> [] \<longrightarrow> (IsPanicMode m' \<longleftrightarrow> (\<forall>n \<in> set (map rep_Name (mo_replicas m')). \<not> IsHealthy m' n)))"
  using assms
proof (induction rs arbitrary: m)
  case (Cons x rs)
  obtain t i r where x: "x = (t, i, r)" by (cases x) auto
  have il: "i < length (mo_replicas m)" using Cons.prems(2) by (simp add: x)
  obtain m1 where 1: "processCheckResult t i r m = Inr m1" "mo_wf m1"
    "map rep_Name (mo_replicas m1) = map rep_Name (mo_replicas m)"
    "IsPanicMode m1 \<longleftrightarrow> (\<forall>n \<in> set (map rep_Name (mo_replicas m1)). \<not> IsHealthy m1 n)"
    using process_step [OF Cons.prems(1) il] by blast
  have "length (mo_replicas m1) = length (mo_replicas m)" using 1(3) by (metis length_map)
  with Cons.IH [OF 1(2)] Cons.prems(2) 1(1,2,4) show ?case by (cases rs) (auto simp: x)
qed simp

lemma sublist_replicate_Not: "sublist (replicate n False) (map Not xs) \<longleftrightarrow> sublist (replicate n True) xs"
proof
  assume "sublist (replicate n False) (map Not xs)"
  then have "sublist (map Not (replicate n False)) (map Not (map Not xs))" by (rule map_mono_sublist)
  then show "sublist (replicate n True) xs" by (simp add: comp_def)
next
  assume "sublist (replicate n True) xs"
  then have "sublist (map Not (replicate n True)) (map Not xs)" by (rule map_mono_sublist)
  then show "sublist (replicate n False) (map Not xs)" by simp
qed

lemma update_state_ok:
  "rst_state s = StateHealthy \<Longrightarrow> hr_Healthy r \<Longrightarrow> rst_state (update_state t cfg r s) = StateHealthy"
  by (simp add: update_state_def Let_def)

section \<open>Properties\<close>

text \<open>A new replica becomes unhealthy exactly if as many consecutive checks fail as the failure threshold says (3 if it is not
  positive), and an unhealthy one recovers exactly if as many consecutive checks succeed as the success threshold says (2 if it is
  not positive).\<close>

lemma health_thresholds:
  assumes "hc_FailureThreshold cfg < 2 ^ 31" and "hc_SuccessThreshold cfg < 2 ^ 31"
    and "rst_state s = StateUnhealthy" and "rst_consecutiveSuccess s = 0"
  shows "(reaches StateUnhealthy (effective_config cfg) rs (new_state name) \<longleftrightarrow>
      sublist (replicate (nat (if hc_FailureThreshold cfg \<le> 0 then 3 else hc_FailureThreshold cfg)) False) (map snd rs)) \<and>
    (reaches StateHealthy (effective_config cfg) rs s \<longleftrightarrow>
      sublist (replicate (nat (if hc_SuccessThreshold cfg \<le> 0 then 2 else hc_SuccessThreshold cfg)) True) (map snd rs))"
proof
  let ?c = "effective_config cfg"
  have f: "0 < nat (hc_FailureThreshold ?c)" "hc_FailureThreshold ?c < 2 ^ 31"
    "hc_FailureThreshold ?c = (if hc_FailureThreshold cfg \<le> 0 then 3 else hc_FailureThreshold cfg)"
    using assms(1) by (simp_all add: effective_config_def)
  show "reaches StateUnhealthy ?c rs (new_state name) \<longleftrightarrow>
      sublist (replicate (nat (if hc_FailureThreshold cfg \<le> 0 then 3 else hc_FailureThreshold cfg)) False) (map snd rs)"
    using leaves_healthy [OF _ f(1,2), of "new_state name" rs] trips_iff [OF f(1)] unfolding f(3)
    by (simp add: new_state_def split del: if_split)
  have g: "0 < nat (hc_SuccessThreshold ?c)" "hc_SuccessThreshold ?c < 2 ^ 31"
    "hc_SuccessThreshold ?c = (if hc_SuccessThreshold cfg \<le> 0 then 2 else hc_SuccessThreshold cfg)"
    using assms(2) by (simp_all add: effective_config_def)
  show "reaches StateHealthy ?c rs s \<longleftrightarrow>
      sublist (replicate (nat (if hc_SuccessThreshold cfg \<le> 0 then 2 else hc_SuccessThreshold cfg)) True) (map snd rs)"
    using leaves_unhealthy [OF assms(3) g(1,2), of rs] trips_iff [OF g(1)] assms(4)
      sublist_replicate_Not [of _ "map snd rs"] unfolding g(3)
    by (simp split del: if_split)
qed

lemma health_thresholds_instance:
  "reaches StateUnhealthy (effective_config \<lparr>hc_CheckType = ''tcp'', hc_CheckInterval = 0, hc_CheckTimeout = 0,
       hc_FailureThreshold = 2, hc_SuccessThreshold = 0, hc_PanicTimeout = 0\<rparr>)
     [(1, False), (2, True), (3, False), (4, False)] (new_state ''a'')"
proof -
  let ?cfg = "\<lparr>hc_CheckType = ''tcp'', hc_CheckInterval = 0, hc_CheckTimeout = 0, hc_FailureThreshold = 2, hc_SuccessThreshold = 0,
      hc_PanicTimeout = 0\<rparr>"
  have "sublist (replicate (nat 2) False) [False, True, False, False]"
    by (simp add: numeral_2_eq_2 sublist_Cons_right)
  then show ?thesis
    using health_thresholds [of ?cfg "(new_state ''b'')\<lparr>rst_state := StateUnhealthy\<rparr>"
        "[(1, False), (2, True), (3, False), (4, False)]" "''a''"]
    by (simp add: new_state_def)
qed

text \<open>Whatever results the monitor processes for its replicas, it does not fail, and after each of them it is in panic mode exactly
  if none of its replicas is healthy.\<close>

lemma panic_mode_sequential:
  assumes "\<forall>(t, i, r) \<in> set rs. i < length reps" and "rs \<noteq> []"
  shows "\<exists>m. mo_run rs (NewMonitor reps cfg) = Inr m \<and> (IsPanicMode m \<longleftrightarrow> GetHealthyReplicas m = [])"
proof -
  have "mo_replicas (NewMonitor reps cfg) = reps" by (simp add: NewMonitor_def)
  then show ?thesis
    using mo_run_step [OF mo_wf_New, of rs reps cfg] assms by (auto simp: GetHealthyReplicas_def filter_empty_conv)
qed

lemma panic_mode_sequential_instance:
  "let cfg = \<lparr>hc_CheckType = ''tcp'', hc_CheckInterval = 0, hc_CheckTimeout = 0, hc_FailureThreshold = 1, hc_SuccessThreshold = 0,
       hc_PanicTimeout = 0\<rparr>
   in \<exists>m. mo_run [(5, 0, result_of 5 False)] (NewMonitor [NewReplica ''a'' ''10.0.0.1'' True] cfg) = Inr m \<and>
     (IsPanicMode m \<longleftrightarrow> GetHealthyReplicas m = [])"
  unfolding Let_def by (rule panic_mode_sequential) simp_all

text \<open>With the checks as they are, nothing is ever reported: however often the goroutines tick, every replica stays healthy and
  the monitor never enters panic mode.\<close>

lemma monitor_never_reports:
  assumes "\<forall>(t, i) \<in> set ts. i < length reps"
  shows "\<exists>m. mo_ticks ts (NewMonitor reps cfg) = Inr m \<and> \<not> IsPanicMode m \<and> (\<forall>n. IsHealthy m n) \<and> mo_stateChanges m = []"
proof -
  have "\<exists>m'. mo_ticks ts m = Inr m' \<and> \<not> IsPanicMode m' \<and> (\<forall>n. IsHealthy m' n) \<and> mo_stateChanges m' = []"
    if "mo_wf m" "\<forall>x \<in> set (mo_states m). rst_state (snd x) = StateHealthy" "\<not> IsPanicMode m" "mo_stateChanges m = []"
      "\<forall>(t, i) \<in> set ts. i < length (mo_replicas m)" for m
    using that
  proof (induction ts arbitrary: m)
    case Nil
    have "\<forall>n. IsHealthy m n"
      using Nil.prems(2) by (force simp: IsHealthy_def mo_GetState_def dest: map_of_SomeD split: option.splits)
    with Nil.prems show ?case by simp
  next
    case (Cons x ts)
    obtain t i where x: "x = (t, i)" by fastforce
    let ?n = "rep_Name (mo_replicas m ! i)"
    have il: "i < length (mo_replicas m)" using Cons.prems(5) by (simp add: x)
    then have "?n \<in> set (map fst (mo_states m))" using Cons.prems(1) by (simp add: mo_wf_def)
    then obtain st where st: "map_of (mo_states m) ?n = Some st" by (metis map_of_eq_None_iff not_None_eq list.set_map)
    have h: "rst_state st = StateHealthy" using Cons.prems(2) map_of_SomeD [OF st] by auto
    let ?st = "update_state t (mo_config m) (performCheck t (mo_replicas m ! i)) st"
    have h': "rst_state ?st = StateHealthy" by (rule update_state_ok [OF h]) (simp add: performCheck_def)
    obtain m1 where m1: "monitorReplica t i m = Inr m1" "mo_wf m1" "map rep_Name (mo_replicas m1) = map rep_Name (mo_replicas m)"
      using process_step [OF Cons.prems(1) il] unfolding monitorReplica_def by blast
    have e: "m1 = updatePanicMode t (m\<lparr>mo_states := AList.update ?n ?st (mo_states m),
        mo_replicas := (mo_replicas m)[i := (mo_replicas m ! i)\<lparr>rep_Healthy := True\<rparr>]\<rparr>)"
      using m1(1) h h' by (auto simp: monitorReplica_def processCheckResult_def record_result_def st Let_def)
    have s1: "mo_states m1 = AList.update ?n ?st (mo_states m)" "mo_stateChanges m1 = mo_stateChanges m"
      "IsPanicMode m1 \<longleftrightarrow> (\<forall>x \<in> set (mo_states m1). rst_state (snd x) \<noteq> StateHealthy) \<and> mo_states m1 \<noteq> []"
      unfolding e IsPanicMode_def by (simp_all add: updatePanicMode_simps)
    have all: "\<forall>x \<in> set (AList.update ?n ?st al). rst_state (snd x) = StateHealthy"
      if "\<forall>x \<in> set al. rst_state (snd x) = StateHealthy" for al
      using that h' by (induction al) auto
    have "length (mo_replicas m1) = length (mo_replicas m)" using m1(3) by (metis length_map)
    moreover have "\<not> IsPanicMode m1" using s1(3) all [OF Cons.prems(2)] unfolding s1(1) by (cases "AList.update ?n ?st (mo_states m)") auto
    ultimately show ?case
      using Cons.IH [OF m1(2)] all [OF Cons.prems(2)] s1 Cons.prems(4,5) m1(1) by (simp add: x)
  qed
  from this [OF mo_wf_New] show ?thesis
    using assms NewMonitor_states [of "[]" reps] by (simp add: NewMonitor_def IsPanicMode_def)
qed

lemma monitor_never_reports_instance:
  "let cfg = \<lparr>hc_CheckType = ''tcp'', hc_CheckInterval = 0, hc_CheckTimeout = 0, hc_FailureThreshold = 1, hc_SuccessThreshold = 0,
       hc_PanicTimeout = 0\<rparr>
   in \<exists>m. mo_ticks [(5, 0), (6, 0)] (NewMonitor [NewReplica ''a'' ''10.0.0.1'' True] cfg) = Inr m \<and> \<not> IsPanicMode m \<and>
     (\<forall>n. IsHealthy m n) \<and> mo_stateChanges m = []"
  unfolding Let_def by (rule monitor_never_reports) simp

end
