(* ===== verification/WV_Monitor.thy ===== *)
theory WV_Monitor
  imports WV_Health
begin

text \<open>
  The goroutines of the health monitor (file \<^verbatim>\<open>monitor.go\<close> of \<^verbatim>\<open>src/Weaver/pkg/health\<close>). \<open>Start\<close> runs one goroutine
  per replica. A goroutine holds the mutex of its replica's state from the update of that state to the end of
  \<open>updatePanicMode\<close>, which takes the mutex of the monitor; between the two, the goroutines of other replicas may act. Hence the
  two steps of a check, with a program counter in between. The outcome of a check is an argument of the step. \<open>Stop\<close> closes
  the stop channel and waits for the wait group; it has a program counter of its own, because a \<open>Start\<close> at that time misuses the wait group.
\<close>

section \<open>State machine\<close>

datatype mon_pc = MpSelect | MpPanic | MpExit

text \<open>
  Where the call of \<open>Stop\<close> that closed the channel is: before \<open>Wait\<close>, registered as a waiter, being released by the goroutine
  that returned last, released, or returned. Any other call of \<open>Stop\<close> panics.
\<close>

datatype stop_pc = SpNone | SpWait | SpBlocked | SpReleasing | SpWoken | SpReturned

text \<open>The goroutines, each with the position of its replica; the wait group counts those that have not returned.\<close>

record mon_sys =
  ms_mon :: Monitor
  ms_gos :: "(nat \<times> mon_pc) list"
  ms_stop :: stop_pc
  ms_crashed :: "panic option"

definition new_mon_sys :: "Monitor \<Rightarrow> mon_sys" where
  "new_mon_sys m = \<lparr>ms_mon = m, ms_gos = [], ms_stop = SpNone, ms_crashed = None\<rparr>"

text \<open>The panics of the wait group.\<close>

definition WaitGroupReused :: panic where
  "WaitGroupReused = PanicValue ''sync: WaitGroup is reused before previous Wait has returned''"

definition WaitGroupMisuse :: panic where
  "WaitGroupMisuse = PanicValue ''sync: WaitGroup misuse: Add called concurrently with Wait''"

definition mo_Start :: "Monitor \<Rightarrow> (nat \<times> mon_pc) list" where
  "mo_Start m = map (\<lambda>i. (i, MpSelect)) [0..<length (mo_replicas m)]"

definition wait_group :: "mon_sys \<Rightarrow> nat" where
  "wait_group y = length (filter (\<lambda>(i, pc). pc \<noteq> MpExit) (ms_gos y))"

text \<open>Whether a goroutine holds the mutex of the state registered under a name.\<close>

definition state_locked :: "mon_sys \<Rightarrow> string \<Rightarrow> bool" where
  "state_locked y name \<longleftrightarrow> (\<exists>g \<in> set (ms_gos y). snd g = MpPanic \<and> rep_Name (mo_replicas (ms_mon y) ! fst g) = name)"

definition set_go :: "nat \<Rightarrow> mon_pc \<Rightarrow> mon_sys \<Rightarrow> mon_sys" where
  "set_go g pc y = y\<lparr>ms_gos := (ms_gos y)[g := (fst (ms_gos y ! g), pc)]\<rparr>"

text \<open>
  The actions: \<open>Start\<close>, the closing of the stop channel by \<open>Stop\<close>, its call of \<open>Wait\<close>, the end of the \<open>Done\<close> that
  releases it, its return from the wait, a tick of goroutine \<open>g\<close> with the outcome of the check, its
  evaluation of the panic mode, its return (with whether its context is cancelled), and a receiver of notifications.
\<close>

datatype mon_action =
    MaStart
  | MaStop
  | MaWait
  | MaRelease
  | MaWake
  | MaTick nat time HealthCheckResult
  | MaPanic nat time
  | MaLeave nat bool
  | MaReceive

text \<open>The goroutine returns; if it is the last one it begins to release the waiter.\<close>

definition wg_Done :: "nat \<Rightarrow> mon_sys \<Rightarrow> mon_sys" where
  "wg_Done g y =
     (let y' = set_go g MpExit y
      in if ms_stop y = SpBlocked \<and> wait_group y' = 0 then y'\<lparr>ms_stop := SpReleasing\<rparr> else y')"

fun mon_act :: "mon_action \<Rightarrow> mon_sys \<Rightarrow> mon_sys option" where
  "mon_act MaStart y =
     Some (if ms_stop y = SpReleasing \<and> mo_replicas (ms_mon y) \<noteq> [] then y\<lparr>ms_crashed := Some WaitGroupMisuse\<rparr>
           else y\<lparr>ms_gos := ms_gos y @ mo_Start (ms_mon y)\<rparr>)"
| "mon_act MaStop y =
     Some (case mo_Stop (ms_mon y) of Inl pn \<Rightarrow> y\<lparr>ms_crashed := Some pn\<rparr> | Inr m \<Rightarrow> y\<lparr>ms_mon := m, ms_stop := SpWait\<rparr>)"
| "mon_act MaWait y =
     (if ms_stop y = SpWait then Some (y\<lparr>ms_stop := (if wait_group y = 0 then SpReturned else SpBlocked)\<rparr>) else None)"
| "mon_act MaRelease y = (if ms_stop y = SpReleasing then Some (y\<lparr>ms_stop := SpWoken\<rparr>) else None)"
| "mon_act MaWake y =
     (if ms_stop y = SpWoken
      then Some (if wait_group y \<noteq> 0 then y\<lparr>ms_crashed := Some WaitGroupReused\<rparr> else y\<lparr>ms_stop := SpReturned\<rparr>)
      else None)"
| "mon_act (MaTick g now result) y =
     (if g < length (ms_gos y) \<and> snd (ms_gos y ! g) = MpSelect \<and>
         \<not> state_locked y (rep_Name (mo_replicas (ms_mon y) ! fst (ms_gos y ! g)))
      then Some (case record_result now (fst (ms_gos y ! g)) result (ms_mon y) of
                   Inl pn \<Rightarrow> y\<lparr>ms_crashed := Some pn\<rparr>
                 | Inr m \<Rightarrow> set_go g MpPanic (y\<lparr>ms_mon := m\<rparr>))
      else None)"
| "mon_act (MaPanic g now) y =
     (if g < length (ms_gos y) \<and> snd (ms_gos y ! g) = MpPanic
      then Some (set_go g MpSelect (y\<lparr>ms_mon := updatePanicMode now (ms_mon y)\<rparr>))
      else None)"
| "mon_act (MaLeave g cancelled) y =
     (if g < length (ms_gos y) \<and> snd (ms_gos y ! g) = MpSelect \<and> (cancelled \<or> mo_stopped (ms_mon y))
      then Some (wg_Done g y)
      else None)"
| "mon_act MaReceive y =
     (case mo_stateChanges (ms_mon y) of
        [] \<Rightarrow> None
      | c # cs \<Rightarrow> Some (y\<lparr>ms_mon := (ms_mon y)\<lparr>mo_stateChanges := cs\<rparr>\<rparr>))"

inductive mon_reach :: "Monitor \<Rightarrow> mon_sys \<Rightarrow> bool" for m0 where
  mon_init: "mon_reach m0 (new_mon_sys m0)"
| mon_next: "mon_reach m0 y \<Longrightarrow> ms_crashed y = None \<Longrightarrow> mon_act a y = Some z \<Longrightarrow> mon_reach m0 z"

fun mon_run :: "mon_action list \<Rightarrow> mon_sys \<Rightarrow> mon_sys option" where
  "mon_run [] y = Some y"
| "mon_run (a # as) y =
     (if ms_crashed y \<noteq> None then None else case mon_act a y of None \<Rightarrow> None | Some z \<Rightarrow> mon_run as z)"

text \<open>No goroutine is between the two steps of a check.\<close>

definition quiescent :: "mon_sys \<Rightarrow> bool" where
  "quiescent y \<longleftrightarrow> (\<forall>g \<in> set (ms_gos y). snd g \<noteq> MpPanic)"

section \<open>Invariant\<close>

definition panic_exact :: "Monitor \<Rightarrow> bool" where
  "panic_exact m \<longleftrightarrow> (IsPanicMode m \<longleftrightarrow> mo_states m \<noteq> [] \<and> (\<forall>x \<in> set (mo_states m). rst_state (snd x) \<noteq> StateHealthy))"

definition mon_inv :: "nat \<Rightarrow> mon_sys \<Rightarrow> bool" where
  "mon_inv n y \<longleftrightarrow> mo_wf (ms_mon y) \<and> length (mo_replicas (ms_mon y)) = n \<and> (\<forall>g \<in> set (ms_gos y). fst g < n) \<and>
     (quiescent y \<longrightarrow> panic_exact (ms_mon y)) \<and> (mo_stopped (ms_mon y) \<longleftrightarrow> ms_stop y \<noteq> SpNone) \<and>
     (ms_stop y = SpBlocked \<longrightarrow> wait_group y \<noteq> 0) \<and>
     (\<forall>pn. ms_crashed y = Some pn \<longrightarrow> mo_stopped (ms_mon y) \<and> pn \<in> {CloseOfClosedChannel, WaitGroupReused, WaitGroupMisuse})"

lemma record_step:
  assumes "mo_wf m" and "i < length (mo_replicas m)"
  shows "\<exists>m'. record_result t i r m = Inr m' \<and> mo_wf m' \<and> length (mo_replicas m') = length (mo_replicas m) \<and>
    mo_stopped m' = mo_stopped m"
proof -
  obtain m'' where "processCheckResult t i r m = Inr m''" "mo_wf m''" "map rep_Name (mo_replicas m'') = map rep_Name (mo_replicas m)"
    using process_step [OF assms] by blast
  then obtain m' where m': "record_result t i r m = Inr m'" "m'' = updatePanicMode t m'"
    by (cases "record_result t i r m") (auto simp: processCheckResult_def)
  moreover have "mo_stopped m' = mo_stopped m"
    using m'(1) by (auto simp: record_result_def send_change_def Let_def split: option.splits if_splits)
  moreover have "mo_wf m'" using \<open>mo_wf m''\<close> unfolding m'(2) by (simp add: mo_wf_def updatePanicMode_simps)
  moreover have "length (mo_replicas m') = length (mo_replicas m)"
    using \<open>map rep_Name (mo_replicas m'') = map rep_Name (mo_replicas m)\<close> unfolding m'(2)
    by (simp add: updatePanicMode_simps) (metis length_map)
  ultimately show ?thesis by blast
qed

lemma updatePanicMode_wf [simp]: "mo_wf (updatePanicMode t m) = mo_wf m"
  by (simp add: mo_wf_def updatePanicMode_simps)

lemma updatePanicMode_exact [simp]: "panic_exact (updatePanicMode t m)"
  by (auto simp: panic_exact_def IsPanicMode_def updatePanicMode_simps)

lemma updatePanicMode_stopped [simp]: "mo_stopped (updatePanicMode t m) = mo_stopped m"
  by (simp add: updatePanicMode_def Let_def)

lemma wf_exact_updates [simp]:
  "mo_wf (m\<lparr>mo_stopped := b\<rparr>) = mo_wf m" "mo_wf (m\<lparr>mo_stateChanges := cs\<rparr>) = mo_wf m"
  "panic_exact (m\<lparr>mo_stopped := b\<rparr>) = panic_exact m" "panic_exact (m\<lparr>mo_stateChanges := cs\<rparr>) = panic_exact m"
  by (simp_all add: mo_wf_def panic_exact_def IsPanicMode_def)

lemma set_go_simps [simp]:
  "ms_mon (set_go g pc y) = ms_mon y" "ms_crashed (set_go g pc y) = ms_crashed y" "ms_stop (set_go g pc y) = ms_stop y"
  "length (ms_gos (set_go g pc y)) = length (ms_gos y)"
  by (simp_all add: set_go_def)

lemma wait_group_upd [simp]:
  "wait_group (y\<lparr>ms_mon := m\<rparr>) = wait_group y" "wait_group (y\<lparr>ms_crashed := c\<rparr>) = wait_group y" "wait_group (y\<lparr>ms_stop := p\<rparr>) = wait_group y"
  "wait_group (y\<lparr>ms_gos := ms_gos y @ gs\<rparr>) = wait_group y + length (filter (\<lambda>(i, pc). pc \<noteq> MpExit) gs)"
  by (simp_all add: wait_group_def)

lemma wait_group_set:
  assumes "g < length (ms_gos y)" and "snd (ms_gos y ! g) \<noteq> MpExit"
  shows "wait_group y = wait_group (set_go g MpExit y) + 1" "pc \<noteq> MpExit \<Longrightarrow> wait_group (set_go g pc y) = wait_group y"
proof -
  have e: "ms_gos y = take g (ms_gos y) @ ms_gos y ! g # drop (Suc g) (ms_gos y)" using assms(1) by (rule id_take_nth_drop)
  have u: "ms_gos (set_go g pc y) = take g (ms_gos y) @ (fst (ms_gos y ! g), pc) # drop (Suc g) (ms_gos y)" for pc
    using assms(1) by (simp add: set_go_def upd_conv_take_nth_drop)
  show "wait_group y = wait_group (set_go g MpExit y) + 1" using assms(2)
    unfolding wait_group_def u by (subst e) (auto simp: case_prod_unfold)
  show "pc \<noteq> MpExit \<Longrightarrow> wait_group (set_go g pc y) = wait_group y" using assms(2)
    unfolding wait_group_def u by (subst (2) e) (auto simp: case_prod_unfold)
qed

lemma wg_Done_simps [simp]:
  "ms_mon (wg_Done g y) = ms_mon y" "ms_crashed (wg_Done g y) = ms_crashed y" "ms_gos (wg_Done g y) = ms_gos (set_go g MpExit y)"
  "wait_group (wg_Done g y) = wait_group (set_go g MpExit y)" "quiescent (wg_Done g y) = quiescent (set_go g MpExit y)"
  "ms_stop (wg_Done g y) = SpNone \<longleftrightarrow> ms_stop y = SpNone"
  "ms_stop (wg_Done g y) = SpBlocked \<longleftrightarrow> ms_stop y = SpBlocked \<and> wait_group (set_go g MpExit y) \<noteq> 0"
  by (auto simp: wg_Done_def Let_def quiescent_def)

lemma set_go_range: "\<forall>x \<in> set (ms_gos y). fst x < n \<Longrightarrow> g < length (ms_gos y) \<Longrightarrow> \<forall>x \<in> set (ms_gos (set_go g pc y)). fst x < n"
  by (auto simp: set_go_def dest!: set_update_subset_insert [THEN subsetD])

lemma set_go_busy: "g < length (ms_gos y) \<Longrightarrow> \<not> quiescent (set_go g MpPanic y)"
  by (auto simp: quiescent_def set_go_def intro!: bexI [where x = "(fst (ms_gos y ! g), MpPanic)"] set_update_memI)

lemma set_go_quiet:
  assumes "quiescent (set_go g pc y)" and "g < length (ms_gos y)" and "snd (ms_gos y ! g) \<noteq> MpPanic"
  shows "quiescent y"
  unfolding quiescent_def
proof
  fix x assume "x \<in> set (ms_gos y)"
  then obtain h where h: "h < length (ms_gos y)" "x = ms_gos y ! h" by (auto simp: in_set_conv_nth)
  show "snd x \<noteq> MpPanic"
  proof (cases "h = g")
    case False
    then have "x \<in> set (ms_gos (set_go g pc y))" using h by (auto simp: set_go_def in_set_conv_nth intro!: exI [of _ h])
    then show ?thesis using assms(1) by (simp add: quiescent_def)
  qed (use h assms(3) in simp)
qed

lemma mon_act_inv:
  assumes inv: "mon_inv n y" and "ms_crashed y = None" and act: "mon_act a y = Some z"
  shows "mon_inv n z"
proof (cases a)
  case (MaTick g t r)
  then have g: "g < length (ms_gos y)" using act by (auto split: if_splits)
  then have "fst (ms_gos y ! g) < length (mo_replicas (ms_mon y))" using inv nth_mem [OF g] by (auto simp: mon_inv_def)
  then obtain m' where "record_result t (fst (ms_gos y ! g)) r (ms_mon y) = Inr m'" "mo_wf m'"
      "length (mo_replicas m') = length (mo_replicas (ms_mon y))" "mo_stopped m' = mo_stopped (ms_mon y)"
    using record_step [of "ms_mon y"] inv unfolding mon_inv_def by blast
  with MaTick act g inv assms(2) show ?thesis
    using set_go_busy [of g "y\<lparr>ms_mon := m'\<rparr>"] set_go_range [of "y\<lparr>ms_mon := m'\<rparr>" n g MpPanic]
      wait_group_set(2) [of g "y\<lparr>ms_mon := m'\<rparr>" MpPanic]
    by (auto simp: mon_inv_def split: if_splits)
next
  case (MaPanic g t)
  with act inv assms(2) show ?thesis
    using set_go_range [of "y\<lparr>ms_mon := updatePanicMode t (ms_mon y)\<rparr>" n g MpSelect]
      wait_group_set(2) [of g "y\<lparr>ms_mon := updatePanicMode t (ms_mon y)\<rparr>" MpSelect]
    by (auto simp: mon_inv_def updatePanicMode_simps split: if_splits)
next
  case (MaLeave g c)
  with act inv assms(2) show ?thesis
    using set_go_range [of y n g MpExit] set_go_quiet [of g MpExit y] by (auto simp: mon_inv_def split: if_splits)
next
  case MaStart
  have s: "\<forall>g \<in> set (mo_Start (ms_mon y)). snd g = MpSelect \<and> fst g < length (mo_replicas (ms_mon y))" by (auto simp: mo_Start_def)
  then have "quiescent (y\<lparr>ms_gos := ms_gos y @ mo_Start (ms_mon y)\<rparr>) = quiescent y" by (auto simp: quiescent_def)
  moreover have "\<forall>g \<in> set (ms_gos y @ mo_Start (ms_mon y)). fst g < n" using s inv unfolding mon_inv_def set_append by blast
  moreover have "z = (if ms_stop y = SpReleasing \<and> mo_replicas (ms_mon y) \<noteq> [] then y\<lparr>ms_crashed := Some WaitGroupMisuse\<rparr>
      else y\<lparr>ms_gos := ms_gos y @ mo_Start (ms_mon y)\<rparr>)" using act MaStart by simp
  ultimately show ?thesis using inv assms(2) by (simp add: mon_inv_def quiescent_def)
next
  case MaStop
  with act inv assms(2) show ?thesis
    by (auto simp: mon_inv_def mo_Stop_def quiescent_def split: if_splits)
next
  case MaWait
  with act inv assms(2) show ?thesis by (auto simp: mon_inv_def quiescent_def split: if_splits)
next
  case MaRelease
  with act inv assms(2) show ?thesis by (auto simp: mon_inv_def quiescent_def split: if_splits)
next
  case MaWake
  with act inv assms(2) show ?thesis by (auto simp: mon_inv_def quiescent_def split: if_splits)
next
  case MaReceive
  with act inv assms(2) show ?thesis
    by (auto simp: mon_inv_def quiescent_def split: list.splits)
qed

lemma mon_inv_init: "mon_inv (length reps) (new_mon_sys (NewMonitor reps cfg))"
proof -
  have "panic_exact (NewMonitor reps cfg)"
    using NewMonitor_states [of "[]" reps]
    by (cases "mo_states (NewMonitor reps cfg)") (auto simp: panic_exact_def IsPanicMode_def NewMonitor_def)
  then show ?thesis using mo_wf_New [of reps cfg] by (simp add: mon_inv_def new_mon_sys_def) (simp add: NewMonitor_def)
qed

lemma mon_reach_inv: "mon_reach (NewMonitor reps cfg) y \<Longrightarrow> mon_inv (length reps) y"
  by (induction rule: mon_reach.induct) (auto intro: mon_inv_init mon_act_inv)

lemma mon_run_reach: "mon_run as y = Some z \<Longrightarrow> mon_reach m0 y \<Longrightarrow> mon_reach m0 z"
  by (induction as arbitrary: y) (auto split: if_splits option.splits intro: mon_next)



section \<open>Stopping\<close>

lemma nth_set_go: "g < length (ms_gos y) \<Longrightarrow> ms_gos (set_go g pc y) ! g = (fst (ms_gos y ! g), pc)"
  by (simp add: set_go_def)

lemma leave_one:
  assumes "mo_stopped (ms_mon y)" and "ms_crashed y = None" and "wait_group y \<noteq> 0"
  shows "\<exists>as z. mon_run as y = Some z \<and> wait_group z < wait_group y \<and> mo_stopped (ms_mon z) \<and> ms_crashed z = None"
proof -
  from assms(3) obtain g where g: "g < length (ms_gos y)" "snd (ms_gos y ! g) \<noteq> MpExit"
    by (auto simp: wait_group_def filter_empty_conv in_set_conv_nth)
  show ?thesis
  proof (cases "snd (ms_gos y ! g) = MpPanic")
    case True
    let ?m = "updatePanicMode 0 (ms_mon y)"
    let ?y = "set_go g MpSelect (y\<lparr>ms_mon := ?m\<rparr>)"
    have "mon_run [MaPanic g 0, MaLeave g False] y = Some (wg_Done g ?y)"
      using True g assms(1,2) by (simp add: nth_set_go)
    moreover have "wait_group ?y = wait_group y"
      using wait_group_set(2) [of g "y\<lparr>ms_mon := ?m\<rparr>" MpSelect] g by simp
    moreover have "wait_group ?y = wait_group (set_go g MpExit ?y) + 1"
      using g by (intro wait_group_set(1)) (simp_all add: nth_set_go)
    ultimately show ?thesis using assms(1,2) by (intro exI [of _ "[MaPanic g 0, MaLeave g False]"] exI [of _ "wg_Done g ?y"]) simp
  next
    case False
    then have "snd (ms_gos y ! g) = MpSelect" using g(2) by (cases "snd (ms_gos y ! g)") auto
    then have "mon_run [MaLeave g False] y = Some (wg_Done g y)" using g(1) assms(1,2) by simp
    then show ?thesis using wait_group_set(1) [OF g] assms(1,2)
      by (intro exI [of _ "[MaLeave g False]"] exI [of _ "wg_Done g y"]) simp
  qed
qed

lemma mon_run_append: "mon_run as y = Some z \<Longrightarrow> mon_run (as @ bs) y = mon_run bs z"
  by (induction as arbitrary: y) (auto split: if_splits option.splits)

lemma goroutines_leave:
  assumes "mo_stopped (ms_mon y)" and "ms_crashed y = None"
  shows "\<exists>as z. mon_run as y = Some z \<and> wait_group z = 0 \<and> ms_crashed z = None \<and> mo_stopped (ms_mon z)"
  using assms
proof (induction "wait_group y" arbitrary: y rule: less_induct)
  case less
  show ?case
  proof (cases "wait_group y = 0")
    case True
    then show ?thesis using less.prems by (intro exI [of _ "[]"]) simp
  next
    case False
    then obtain as z where "mon_run as y = Some z" "wait_group z < wait_group y" "mo_stopped (ms_mon z)" "ms_crashed z = None"
      using leave_one [OF less.prems] by blast
    with less.hyps [of z] show ?thesis by (metis mon_run_append)
  qed
qed

text \<open>With no goroutine left, a call of \<open>Stop\<close> that has not returned can return.\<close>

lemma stop_wakes:
  assumes "mon_inv n y" and "mo_stopped (ms_mon y)" and "ms_crashed y = None" and "wait_group y = 0"
  shows "\<exists>as z. mon_run as y = Some z \<and> wait_group z = 0 \<and> ms_crashed z = None \<and> ms_stop z = SpReturned"
proof (cases "ms_stop y")
  case SpWait
  then show ?thesis using assms(3,4) by (intro exI [of _ "[MaWait]"]) simp
next
  case SpReleasing
  then show ?thesis using assms(3,4) by (intro exI [of _ "[MaRelease, MaWake]"]) simp
next
  case SpWoken
  then show ?thesis using assms(3,4) by (intro exI [of _ "[MaWake]"]) simp
next
  case SpReturned
  then show ?thesis using assms(3,4) by (intro exI [of _ "[]"]) simp
qed (use assms in \<open>auto simp: mon_inv_def\<close>)

section \<open>Properties\<close>

definition one_replica :: mon_sys where
  "one_replica = new_mon_sys (NewMonitor [NewReplica ''a'' ''10.0.0.1'' True]
     \<lparr>hc_CheckType = ''tcp'', hc_CheckInterval = 0, hc_CheckTimeout = 0, hc_FailureThreshold = 1, hc_SuccessThreshold = 0, hc_PanicTimeout = 0\<rparr>)"



text \<open>C33: Stopping the monitor. Nothing panics before \<open>Stop\<close> is called; after that the panics there can be are the second close of the
  stop channel and the two misuses of the wait group. As long as nothing has panicked, from every state that is reachable once \<open>Stop\<close> has closed
  the channel, also with goroutines that a later \<open>Start\<close> added, there is a continuation in which every goroutine returns and then \<open>Stop\<close>
  returns, without a panic.\<close>

theorem monitor_stop_returns:
  assumes "mon_reach (NewMonitor reps cfg) y"
  shows "(\<forall>pn. ms_crashed y = Some pn \<longrightarrow> mo_stopped (ms_mon y) \<and> pn \<in> {CloseOfClosedChannel, WaitGroupReused, WaitGroupMisuse}) \<and>
    (mo_stopped (ms_mon y) \<and> ms_crashed y = None \<longrightarrow>
      (\<exists>as z. mon_run as y = Some z \<and> wait_group z = 0 \<and> ms_stop z = SpReturned \<and> ms_crashed z = None))"
proof (intro conjI impI)
  have inv: "mon_inv (length reps) y" by (rule mon_reach_inv [OF assms])
  then show "\<forall>pn. ms_crashed y = Some pn \<longrightarrow> mo_stopped (ms_mon y) \<and> pn \<in> {CloseOfClosedChannel, WaitGroupReused, WaitGroupMisuse}"
    unfolding mon_inv_def by blast
  assume "mo_stopped (ms_mon y) \<and> ms_crashed y = None"
  then obtain as z where z: "mon_run as y = Some z" "wait_group z = 0" "ms_crashed z = None" "mo_stopped (ms_mon z)"
    using goroutines_leave by blast
  have "mon_inv (length reps) z" by (rule mon_reach_inv [OF mon_run_reach [OF z(1) assms]])
  from stop_wakes [OF this z(4,3,2)] mon_run_append [OF z(1)]
  show "\<exists>as z. mon_run as y = Some z \<and> wait_group z = 0 \<and> ms_stop z = SpReturned \<and> ms_crashed z = None" by metis
qed

theorem monitor_stop_returns_witness:
  "\<exists>y. mon_run [MaStart, MaStop, MaWait, MaStart] one_replica = Some y \<and>
     (\<exists>as z. mon_run as y = Some z \<and> wait_group z = 0 \<and> ms_stop z = SpReturned)"
proof -
  have "case mon_run [MaStart, MaStop, MaWait, MaStart] one_replica of None \<Rightarrow> False | Some y \<Rightarrow> mo_stopped (ms_mon y) \<and> ms_crashed y = None"
    by code_simp
  then obtain y where y: "mon_run [MaStart, MaStop, MaWait, MaStart] one_replica = Some y" "mo_stopped (ms_mon y) \<and> ms_crashed y = None"
    by (auto split: option.splits)
  from monitor_stop_returns [OF mon_run_reach [OF y(1) [unfolded one_replica_def] mon_init]] y show ?thesis by blast
qed

text \<open>A call of \<open>Start\<close> while \<open>Stop\<close> waits can end the process.\<close>

lemma start_races_stop:
  "map_option ms_crashed (mon_run [MaStart, MaStop, MaWait, MaLeave 0 False, MaStart] one_replica) = Some (Some WaitGroupMisuse)"
  "map_option ms_crashed (mon_run [MaStart, MaStop, MaWait, MaLeave 0 False, MaRelease, MaStart, MaWake] one_replica) = Some (Some WaitGroupReused)"
  by code_simp+

end
