(* ===== verification/WV_Checkers.thy ===== *)
theory WV_Checkers
  imports WV_Health
begin

text \<open>
  The health checkers of the gateway (\<^verbatim>\<open>src/Weaver/pkg/health/checkers.go\<close>) and their factory. Dialling belongs to package net and is an
  argument: from the instant of the call, the timeout of the dialer, the deadline of the context and the address, it gives an
  error or a connection, and the instant at which it returns. The readings of the clock around the call coincide with these two
  instants.
\<close>

section \<open>Checkers\<close>

datatype HealthCheckType = HealthCheckTypeTCP | HealthCheckTypeGRPC | HealthCheckTypeHTTP | HealthCheckTypeCustom | UnknownType string

type_synonym dial = "time \<Rightarrow> duration \<Rightarrow> time option \<Rightarrow> string \<Rightarrow> (string + unit) \<times> time"

record TCPHealthChecker =
  th_timeout :: duration

definition NewTCPHealthChecker :: "duration \<Rightarrow> TCPHealthChecker" where
  "NewTCPHealthChecker timeout = \<lparr>th_timeout = (if timeout = 0 then 5 * Second else timeout)\<rparr>"

definition Milliseconds :: "duration \<Rightarrow> int" where
  "Milliseconds d = sgn d * (\<bar>d\<bar> div Millisecond)"

text \<open>
  The check by dialling that the TCP and the gRPC checker share; \<open>deadline\<close> is that of the context, if it has one.
\<close>

definition dial_check :: "dial \<Rightarrow> string \<Rightarrow> duration \<Rightarrow> time \<Rightarrow> time option \<Rightarrow> Replica \<Rightarrow> HealthCheckResult" where
  "dial_check dial protocol timeout start deadline replica =
     (let result = \<lparr>hr_Healthy = False, hr_ResponseTimeMs = 0, hr_Error = '''', hr_CheckedAt = start\<rparr>;
          checkDeadline = (case deadline of None \<Rightarrow> Some (start + timeout) | Some d \<Rightarrow> Some d)
      in case dial start timeout checkDeadline (rep_Address replica) of
           (Inl err, now) \<Rightarrow> result\<lparr>hr_Error := protocol @ '' health check failed: '' @ err\<rparr>
         | (Inr conn, now) \<Rightarrow> result\<lparr>hr_Healthy := True, hr_ResponseTimeMs := Milliseconds (time_since now start)\<rparr>)"

definition th_Check :: "dial \<Rightarrow> time \<Rightarrow> time option \<Rightarrow> Replica \<Rightarrow> TCPHealthChecker \<Rightarrow> HealthCheckResult" where
  "th_Check dial start deadline replica th = dial_check dial ''tcp'' (th_timeout th) start deadline replica"

record GRPCHealthChecker =
  gh_timeout :: duration
  gh_service :: string

definition NewGRPCHealthChecker :: "string \<Rightarrow> duration \<Rightarrow> GRPCHealthChecker" where
  "NewGRPCHealthChecker service timeout =
     \<lparr>gh_timeout = (if timeout = 0 then 5 * Second else timeout),
      gh_service = (if service = '''' then ''weaver.gateway.Health'' else service)\<rparr>"

definition gh_Check :: "dial \<Rightarrow> time \<Rightarrow> time option \<Rightarrow> Replica \<Rightarrow> GRPCHealthChecker \<Rightarrow> HealthCheckResult" where
  "gh_Check dial start deadline replica gh = dial_check dial ''grpc'' (gh_timeout gh) start deadline replica"

text \<open>A custom check is a function of the caller, nil or not; its context is seen by its deadline.\<close>

type_synonym check_fn = "time option \<Rightarrow> Replica \<Rightarrow> HealthCheckResult"

record CustomHealthChecker =
  ch_checkFn :: "check_fn option"

definition NewCustomHealthChecker :: "check_fn option \<Rightarrow> CustomHealthChecker" where
  "NewCustomHealthChecker checkFn = \<lparr>ch_checkFn = checkFn\<rparr>"

definition ch_Check :: "time \<Rightarrow> time option \<Rightarrow> Replica \<Rightarrow> CustomHealthChecker \<Rightarrow> HealthCheckResult" where
  "ch_Check now deadline replica ch =
     (case ch_checkFn ch of
        None \<Rightarrow> \<lparr>hr_Healthy = False, hr_ResponseTimeMs = 0, hr_Error = ''custom health check function not defined'',
                 hr_CheckedAt = now\<rparr>
      | Some f \<Rightarrow> f deadline replica)"

datatype HealthChecker = HCTcp TCPHealthChecker | HCGrpc GRPCHealthChecker | HCCustom CustomHealthChecker

fun hc_Check :: "dial \<Rightarrow> time \<Rightarrow> time option \<Rightarrow> Replica \<Rightarrow> HealthChecker \<Rightarrow> HealthCheckResult" where
  "hc_Check dial now deadline replica (HCTcp th) = th_Check dial now deadline replica th"
| "hc_Check dial now deadline replica (HCGrpc gh) = gh_Check dial now deadline replica gh"
| "hc_Check dial now deadline replica (HCCustom ch) = ch_Check now deadline replica ch"

text \<open>\<open>Close\<close> of the three checkers does nothing and returns no error.\<close>

definition hc_Close :: "HealthChecker \<Rightarrow> string option \<times> HealthChecker" where
  "hc_Close h = (None, h)"

section \<open>The factory\<close>

datatype check_cfg = HDuration duration | HString string | HFunction "check_fn option" | HOther

fun type_name :: "HealthCheckType \<Rightarrow> string" where
  "type_name HealthCheckTypeTCP = ''tcp''"
| "type_name HealthCheckTypeGRPC = ''grpc''"
| "type_name HealthCheckTypeHTTP = ''http''"
| "type_name HealthCheckTypeCustom = ''custom''"
| "type_name (UnknownType s) = s"

definition NewHealthChecker :: "HealthCheckType \<Rightarrow> (string \<rightharpoonup> check_cfg) \<Rightarrow> string + HealthChecker" where
  "NewHealthChecker checkType config =
     (let timeout = (case config ''timeout'' of Some (HDuration d) \<Rightarrow> d | _ \<Rightarrow> 5 * Second)
      in case checkType of
           HealthCheckTypeTCP \<Rightarrow> Inr (HCTcp (NewTCPHealthChecker timeout))
         | HealthCheckTypeGRPC \<Rightarrow>
             (let service = (case config ''service'' of Some (HString s) \<Rightarrow> s | _ \<Rightarrow> ''weaver.gateway.Health'')
              in Inr (HCGrpc (NewGRPCHealthChecker service timeout)))
         | HealthCheckTypeCustom \<Rightarrow>
             (case config ''check_fn'' of
                Some (HFunction f) \<Rightarrow> Inr (HCCustom (NewCustomHealthChecker f))
              | _ \<Rightarrow> Inl ''custom health checker requires 'check_fn' in config'')
         | t \<Rightarrow> Inl (''unknown health check type: '' @ type_name t))"

text \<open>
  What package net documents of a dial: it does not return before it is called, and a connection is made within the timeout and before
  the deadline.
\<close>

definition dial_contract :: "dial \<Rightarrow> bool" where
  "dial_contract dial \<longleftrightarrow> (\<forall>t d dl a. t \<le> snd (dial t d dl a) \<and>
     (fst (dial t d dl a) = Inr () \<longrightarrow>
        (d \<noteq> 0 \<longrightarrow> snd (dial t d dl a) \<le> t + d) \<and> (case dl of None \<Rightarrow> True | Some x \<Rightarrow> snd (dial t d dl a) \<le> x)))"

text \<open>The timeout of a checker that dials.\<close>

fun hc_timeout :: "HealthChecker \<Rightarrow> duration option" where
  "hc_timeout (HCTcp th) = Some (th_timeout th)"
| "hc_timeout (HCGrpc gh) = Some (gh_timeout gh)"
| "hc_timeout (HCCustom ch) = None"

section \<open>Lemmas\<close>

lemma Milliseconds_mono: "0 \<le> d \<Longrightarrow> d \<le> e \<Longrightarrow> 0 \<le> Milliseconds d \<and> Milliseconds d \<le> Milliseconds e"
  by (cases "d = 0"; cases "e = 0") (auto simp: Milliseconds_def Millisecond_def zdiv_mono1)

lemma dial_check_result:
  assumes "dial_contract dial" and "timeout \<noteq> 0" and "timeout < 2 ^ 63"
    and "dial_check dial protocol timeout start deadline replica = r"
    and "dial start timeout (Some (case deadline of None \<Rightarrow> start + timeout | Some d \<Rightarrow> d)) (rep_Address replica) = (x, now)"
  shows "(hr_Healthy r \<longleftrightarrow> x = Inr ()) \<and> hr_CheckedAt r = start \<and>
    (hr_Healthy r \<longrightarrow> hr_Error r = '''' \<and> 0 \<le> hr_ResponseTimeMs r \<and> hr_ResponseTimeMs r \<le> Milliseconds timeout) \<and>
    (\<not> hr_Healthy r \<longrightarrow> hr_Error r \<noteq> '''' \<and> hr_ResponseTimeMs r = 0)"
proof -
  have d: "(case deadline of None \<Rightarrow> Some (start + timeout) | Some d \<Rightarrow> Some d) =
      Some (case deadline of None \<Rightarrow> start + timeout | Some d \<Rightarrow> d)"
    by (cases deadline) auto
  show ?thesis
  proof (cases x)
    case (Inl err)
    with assms(4,5) show ?thesis by (auto simp: dial_check_def d)
  next
    case (Inr u)
    then have x: "x = Inr ()" by simp
    have c: "start \<le> now" "now \<le> start + timeout"
      using assms(1,2,5) x unfolding dial_contract_def by (metis fst_conv snd_conv)+
    then have "time_since now start = now - start" using assms(3) by (auto simp: time_since_def time_sub_def max_duration_def min_duration_def)
    then show ?thesis
      using assms(4,5) x c Milliseconds_mono [of "now - start" timeout] by (auto simp: dial_check_def d)
  qed
qed

section \<open>Properties\<close>

text \<open>A checker made by the factory that dials reports a replica as healthy exactly if the dial succeeds; a
  healthy result has no error and a response time between zero and the checker's timeout, an unhealthy one has an error and no
  response time.\<close>

lemma checker_results:
  assumes "dial_contract dial" and "NewHealthChecker t config = Inr h" and "hc_timeout h = Some timeout" and "timeout < 2 ^ 63"
    and "dial now timeout (Some (case deadline of None \<Rightarrow> now + timeout | Some d \<Rightarrow> d)) (rep_Address replica) = (x, later)"
  shows "let r = hc_Check dial now deadline replica h
    in (hr_Healthy r \<longleftrightarrow> x = Inr ()) \<and> hr_CheckedAt r = now \<and>
       (hr_Healthy r \<longrightarrow> hr_Error r = '''' \<and> 0 \<le> hr_ResponseTimeMs r \<and> hr_ResponseTimeMs r \<le> Milliseconds timeout) \<and>
       (\<not> hr_Healthy r \<longrightarrow> hr_Error r \<noteq> '''' \<and> hr_ResponseTimeMs r = 0)"
proof -
  have "timeout \<noteq> 0"
    using assms(2,3)
    by (auto simp: NewHealthChecker_def NewTCPHealthChecker_def NewGRPCHealthChecker_def Second_def Let_def
        split: HealthCheckType.splits option.splits check_cfg.splits if_splits)
  then show ?thesis
    using assms dial_check_result [OF assms(1) _ assms(4) refl assms(5)]
    by (cases h) (auto simp: th_Check_def gh_Check_def Let_def)
qed

lemma checker_results_instance:
  "let dial = (\<lambda>t d dl a. if a = ''up'' \<and> 7 \<le> d \<and> (case dl of None \<Rightarrow> True | Some x \<Rightarrow> t + 7 \<le> x) then (Inr (), t + 7) else (Inl ''refused'', t));
       h = HCTcp (NewTCPHealthChecker 0)
   in NewHealthChecker HealthCheckTypeTCP [''timeout'' \<mapsto> HDuration 0] = Inr h \<and>
      hr_Healthy (hc_Check dial 100 None (NewReplica ''r'' ''up'' True) h) \<and>
      hr_ResponseTimeMs (hc_Check dial 100 None (NewReplica ''r'' ''up'' True) h) \<le> 5000"
proof -
  let ?dial = "\<lambda>t d dl a. if a = ''up'' \<and> 7 \<le> d \<and> (case dl of None \<Rightarrow> True | Some x \<Rightarrow> t + 7 \<le> x) then (Inr (), t + 7) else (Inl ''refused'', t)"
  have n: "NewHealthChecker HealthCheckTypeTCP [''timeout'' \<mapsto> HDuration 0] = Inr (HCTcp (NewTCPHealthChecker 0))"
    by (simp add: NewHealthChecker_def)
  have c: "dial_contract ?dial" by (auto simp: dial_contract_def split: option.splits)
  have t: "hc_timeout (HCTcp (NewTCPHealthChecker 0)) = Some (5 * Second)" by (simp add: NewTCPHealthChecker_def)
  have d: "?dial 100 (5 * Second) (Some (case None of None \<Rightarrow> 100 + 5 * Second | Some d \<Rightarrow> d)) (rep_Address (NewReplica ''r'' ''up'' True)) = (Inr (), 107)"
    by (simp add: Second_def NewReplica_def)
  have "5 * Second < 2 ^ 63" "Milliseconds (5 * Second) = 5000" by (simp_all add: Second_def Milliseconds_def Millisecond_def)
  with checker_results [OF c n t _ d] n show ?thesis unfolding Let_def by auto
qed

text \<open>The factory knows TCP, gRPC and custom checkers: it fails exactly for a custom checker without a function and for any
  other type. HTTP is among those, although it is a declared type.\<close>

lemma checker_factory_errors:
  "((\<exists>e. NewHealthChecker t config = Inl e) \<longleftrightarrow>
      t = HealthCheckTypeHTTP \<or> (\<exists>s. t = UnknownType s) \<or>
      t = HealthCheckTypeCustom \<and> (\<forall>f. config ''check_fn'' \<noteq> Some (HFunction f))) \<and>
   NewHealthChecker HealthCheckTypeHTTP config = Inl ''unknown health check type: http''"
  by (cases t) (auto simp: NewHealthChecker_def Let_def split: option.splits check_cfg.splits)

end
