(* ===== verification/WV_Reliability.thy ===== *)
theory WV_Reliability
  imports Breaker_Contract Go_Float
begin

text \<open>
  The reliability primitives of the gateway (package reliability, files \<^verbatim>\<open>circuit_breaker.go\<close>,
  \<^verbatim>\<open>retry.go\<close> and \<^verbatim>\<open>timeout.go\<close> of \<^verbatim>\<open>src/Weaver/pkg/reliability\<close>). Unlike the
  Fabric Manager's, this breaker has permission and recording as separate operations. Instants,
  random numbers and the cancellations of a context are arguments, as in the theory of the Fabric
  Manager's primitives.
\<close>

section \<open>Circuit breaker\<close>

record WCircuitBreaker =
  wcb_failureThreshold :: int
  wcb_successThreshold :: int
  wcb_timeout :: duration
  wcb_state :: CircuitState
  wcb_lastFailureTime :: time
  wcb_consecutiveFailures :: int
  wcb_consecutiveSuccesses :: int
  wcb_totalFailures :: int
  wcb_totalSuccesses :: int
  wcb_stateChanges :: int

definition wcb_New :: "time \<Rightarrow> int \<Rightarrow> int \<Rightarrow> duration \<Rightarrow> WCircuitBreaker" where
  "wcb_New now failureThreshold successThreshold timeout =
     \<lparr>wcb_failureThreshold = (if failureThreshold = 0 then 5 else failureThreshold),
      wcb_successThreshold = (if successThreshold = 0 then 2 else successThreshold),
      wcb_timeout = (if timeout = 0 then 30 * Second else timeout),
      wcb_state = StateClosed, wcb_lastFailureTime = now,
      wcb_consecutiveFailures = 0, wcb_consecutiveSuccesses = 0,
      wcb_totalFailures = 0, wcb_totalSuccesses = 0, wcb_stateChanges = 0\<rparr>"

definition wcb_Allow :: "time \<Rightarrow> WCircuitBreaker \<Rightarrow> bool \<times> WCircuitBreaker" where
  "wcb_Allow now cb =
     (case wcb_state cb of
        StateClosed \<Rightarrow> (True, cb)
      | StateOpen \<Rightarrow>
          if time_since now (wcb_lastFailureTime cb) \<ge> wcb_timeout cb
          then (True, cb\<lparr>wcb_state := StateHalfOpen, wcb_consecutiveSuccesses := 0,
                         wcb_consecutiveFailures := 0,
                         wcb_stateChanges := i64 (wcb_stateChanges cb + 1)\<rparr>)
          else (False, cb)
      | StateHalfOpen \<Rightarrow> (True, cb))"

definition wcb_RecordSuccess :: "WCircuitBreaker \<Rightarrow> WCircuitBreaker" where
  "wcb_RecordSuccess cb =
     (let cb' = cb\<lparr>wcb_totalSuccesses := i64 (wcb_totalSuccesses cb + 1), wcb_consecutiveFailures := 0\<rparr>
      in case wcb_state cb' of
           StateHalfOpen \<Rightarrow>
             (let cb'' = cb'\<lparr>wcb_consecutiveSuccesses := i64 (wcb_consecutiveSuccesses cb' + 1)\<rparr>
              in if wcb_consecutiveSuccesses cb'' \<ge> wcb_successThreshold cb''
                 then cb''\<lparr>wcb_state := StateClosed, wcb_consecutiveSuccesses := 0,
                           wcb_stateChanges := i64 (wcb_stateChanges cb'' + 1)\<rparr>
                 else cb'')
         | _ \<Rightarrow> cb')"

definition wcb_RecordFailure :: "time \<Rightarrow> WCircuitBreaker \<Rightarrow> WCircuitBreaker" where
  "wcb_RecordFailure now cb =
     (let cb' = cb\<lparr>wcb_totalFailures := i64 (wcb_totalFailures cb + 1), wcb_lastFailureTime := now,
                   wcb_consecutiveSuccesses := 0\<rparr>
      in case wcb_state cb' of
           StateClosed \<Rightarrow>
             (let cb'' = cb'\<lparr>wcb_consecutiveFailures := i64 (wcb_consecutiveFailures cb' + 1)\<rparr>
              in if wcb_consecutiveFailures cb'' \<ge> wcb_failureThreshold cb''
                 then cb''\<lparr>wcb_state := StateOpen, wcb_consecutiveFailures := 0,
                           wcb_stateChanges := i64 (wcb_stateChanges cb'' + 1)\<rparr>
                 else cb'')
         | StateHalfOpen \<Rightarrow>
             cb'\<lparr>wcb_state := StateOpen, wcb_consecutiveFailures := 0,
                 wcb_stateChanges := i64 (wcb_stateChanges cb' + 1)\<rparr>
         | StateOpen \<Rightarrow> cb')"

definition wcb_GetState :: "WCircuitBreaker \<Rightarrow> CircuitState" where
  "wcb_GetState cb = wcb_state cb"

text \<open>The entries of the metrics snapshot: state, failures, successes, state changes.\<close>

definition wcb_GetMetrics :: "WCircuitBreaker \<Rightarrow> string \<times> int \<times> int \<times> int" where
  "wcb_GetMetrics cb =
     (CircuitState_String (wcb_state cb), wcb_totalFailures cb, wcb_totalSuccesses cb, wcb_stateChanges cb)"

definition wcb_Reset :: "time \<Rightarrow> WCircuitBreaker \<Rightarrow> WCircuitBreaker" where
  "wcb_Reset now cb =
     cb\<lparr>wcb_state := StateClosed, wcb_consecutiveFailures := 0, wcb_consecutiveSuccesses := 0,
        wcb_totalFailures := 0, wcb_totalSuccesses := 0, wcb_stateChanges := 0,
        wcb_lastFailureTime := now\<rparr>"

section \<open>Retry\<close>

record RetryConfig =
  rc_MaxAttempts :: int
  rc_InitialBackoff :: duration
  rc_MaxBackoff :: duration
  rc_Multiplier :: rat
  rc_JitterFraction :: rat

definition NewRetry :: "RetryConfig \<Rightarrow> RetryConfig" where
  "NewRetry c =
     \<lparr>rc_MaxAttempts = (if rc_MaxAttempts c = 0 then 3 else rc_MaxAttempts c),
      rc_InitialBackoff = (if rc_InitialBackoff c = 0 then 100 * Millisecond else rc_InitialBackoff c),
      rc_MaxBackoff = (if rc_MaxBackoff c = 0 then 30 * Second else rc_MaxBackoff c),
      rc_Multiplier = (if rc_Multiplier c = 0 then 2 else rc_Multiplier c),
      rc_JitterFraction = (if rc_JitterFraction c = 0 then 1 / 10 else rc_JitterFraction c)\<rparr>"

text \<open>
  What the retry logic observes of an error: its text and whether it wraps one of the two sentinel
  errors of the standard library. The text is ASCII.
\<close>

record wv_error =
  we_text :: string
  we_is_DeadlineExceeded :: bool
  we_is_ErrClosed :: bool

definition to_lower_char :: "char \<Rightarrow> char" where
  "to_lower_char c =
     (if 65 \<le> (of_char c :: nat) \<and> of_char c \<le> (90 :: nat) then char_of (of_char c + 32 :: nat) else c)"

definition retryablePatterns :: "string list" where
  "retryablePatterns =
     [''connection refused'', ''timeout'', ''temporarily unavailable'', ''reset by peer'', ''broken pipe'',
      ''unavailable'']"

definition isRetryable :: "wv_error option \<Rightarrow> bool" where
  "isRetryable err =
     (case err of
        None \<Rightarrow> False
      | Some e \<Rightarrow>
          if we_is_DeadlineExceeded e then True
          else if we_is_ErrClosed e then True
          else list_ex (\<lambda>pat. sublist pat (map to_lower_char (we_text e))) retryablePatterns)"

definition wr_calculateBackoff :: "RetryConfig \<Rightarrow> nat \<Rightarrow> duration" where
  "wr_calculateBackoff c attempt =
     (let backoff = to_duration (of_int (rc_InitialBackoff c) * rc_Multiplier c ^ attempt)
      in if backoff > rc_MaxBackoff c then rc_MaxBackoff c else backoff)"

definition wr_calculateJitter :: "rat \<Rightarrow> RetryConfig \<Rightarrow> duration \<Rightarrow> duration" where
  "wr_calculateJitter r c backoff =
     to_duration ((r - 1 / 2) * 2 * (of_int backoff * rc_JitterFraction c))"

text \<open>The wait after an attempt, for the random number \<open>r\<close> between 0 and 1.\<close>

definition wr_totalWait :: "rat \<Rightarrow> RetryConfig \<Rightarrow> nat \<Rightarrow> duration" where
  "wr_totalWait r c attempt =
     (let backoff = wr_calculateBackoff c attempt in i64 (backoff + wr_calculateJitter r c backoff))"

text \<open>
  The loop of \<open>Execute\<close>. \<open>during\<close> gives the error of the context if its cancellation is what ends the
  wait after an attempt. The result is the error returned and the state left behind by the function.
\<close>

function exec_loop ::
  "(nat \<Rightarrow> wv_error option) \<Rightarrow> int \<Rightarrow> ('s \<Rightarrow> wv_error option \<times> 's) \<Rightarrow> nat \<Rightarrow> wv_error option \<Rightarrow> 's \<Rightarrow>
     wv_error option \<times> 's"
where
  "exec_loop during mx fn attempt lastErr s =
     (if int attempt < mx then
        case fn s of
          (None, s') \<Rightarrow> (None, s')
        | (Some err, s') \<Rightarrow>
            if \<not> isRetryable (Some err) then (Some err, s')
            else if int attempt = mx - 1 then (Some err, s')
            else (case during attempt of
                    Some ctxErr \<Rightarrow> (Some ctxErr, s')
                  | None \<Rightarrow> exec_loop during mx fn (Suc attempt) (Some err) s')
      else (lastErr, s))"
  by pat_completeness auto
termination
  by (relation "measure (\<lambda>(during, mx, fn, attempt, lastErr, s). nat (mx - int attempt))") auto

declare exec_loop.simps [simp del]

definition wr_Execute ::
  "(nat \<Rightarrow> wv_error option) \<Rightarrow> RetryConfig \<Rightarrow> ('s \<Rightarrow> wv_error option \<times> 's) \<Rightarrow> 's \<Rightarrow> wv_error option \<times> 's"
where
  "wr_Execute during c fn s = exec_loop during (rc_MaxAttempts c) fn 0 None s"

section \<open>Timeouts\<close>

record TimeoutConfig =
  tc_GlobalTimeout :: duration
  tc_ReplicaTimeout :: duration
  tc_ConnectTimeout :: duration
  tc_ReadTimeout :: duration

definition wtm_New :: "TimeoutConfig \<Rightarrow> TimeoutConfig" where
  "wtm_New c =
     \<lparr>tc_GlobalTimeout = (if tc_GlobalTimeout c = 0 then 15 * Second else tc_GlobalTimeout c),
      tc_ReplicaTimeout = (if tc_ReplicaTimeout c = 0 then 5 * Second else tc_ReplicaTimeout c),
      tc_ConnectTimeout = (if tc_ConnectTimeout c = 0 then Second else tc_ConnectTimeout c),
      tc_ReadTimeout = (if tc_ReadTimeout c = 0 then 4 * Second else tc_ReadTimeout c)\<rparr>"

definition CalculateAttemptTimeout ::
  "time \<Rightarrow> TimeoutConfig \<Rightarrow> time \<Rightarrow> int \<Rightarrow> int \<Rightarrow> duration go"
where
  "CalculateAttemptTimeout now c globalDeadline maxAttempts currentAttempt =
     (let timeRemaining = time_sub globalDeadline now
      in if timeRemaining \<le> 0 then Inr 0
         else go_bind (go_quot timeRemaining (i64 (i64 (maxAttempts - currentAttempt) + 1)))
           (\<lambda>share.
              let perAttempt = i64 (share - 50 * Millisecond);
                  perAttempt' = (if perAttempt > tc_ReplicaTimeout c then tc_ReplicaTimeout c else perAttempt)
              in Inr (if perAttempt' < 0 then 0 else perAttempt')))"

text \<open>
  A context is seen through its deadline, if it has one. A derived context has the earlier of the two
  deadlines.
\<close>

definition ctx_WithDeadline :: "time option \<Rightarrow> time \<Rightarrow> time option" where
  "ctx_WithDeadline parent d =
     (case parent of Some c \<Rightarrow> if c < d then Some c else Some d | None \<Rightarrow> Some d)"

definition CreateRequestContext :: "time \<Rightarrow> TimeoutConfig \<Rightarrow> time option \<Rightarrow> int \<Rightarrow> time option" where
  "CreateRequestContext now c parent clientTimeoutMs =
     (let timeout = (if clientTimeoutMs > 0 then i64 (clientTimeoutMs * Millisecond) else tc_GlobalTimeout c)
      in ctx_WithDeadline parent (now + timeout))"

text \<open>The three readings of the clock in the source are \<open>t0\<close>, \<open>t1\<close> and \<open>t2\<close>.\<close>

definition CreateAttemptContext ::
  "time \<Rightarrow> time \<Rightarrow> time \<Rightarrow> TimeoutConfig \<Rightarrow> time option \<Rightarrow> int \<Rightarrow> int \<Rightarrow> time option go"
where
  "CreateAttemptContext t0 t1 t2 c requestCtx maxAttempts currentAttempt =
     (let deadline = (case requestCtx of Some d \<Rightarrow> d | None \<Rightarrow> t0 + tc_GlobalTimeout c)
      in go_bind (CalculateAttemptTimeout t1 c deadline maxAttempts currentAttempt)
           (\<lambda>attemptTimeout.
              let attemptDeadline = t2 + attemptTimeout;
                  attemptDeadline' = (if attemptDeadline > deadline then deadline else attemptDeadline)
              in Inr (ctx_WithDeadline requestCtx attemptDeadline')))"

definition GetGlobalTimeout :: "TimeoutConfig \<Rightarrow> duration" where
  "GetGlobalTimeout c = tc_GlobalTimeout c"

definition GetReplicaTimeout :: "TimeoutConfig \<Rightarrow> duration" where
  "GetReplicaTimeout c = tc_ReplicaTimeout c"

section \<open>The breaker satisfies the contract\<close>

definition wcb_wf :: "WCircuitBreaker \<Rightarrow> bool" where
  "wcb_wf cb \<longleftrightarrow>
     1 \<le> wcb_failureThreshold cb \<and> wcb_failureThreshold cb < 2 ^ 63 \<and>
     1 \<le> wcb_successThreshold cb \<and> wcb_successThreshold cb < 2 ^ 63 \<and>
     (wcb_state cb = StateClosed \<longrightarrow>
        0 \<le> wcb_consecutiveFailures cb \<and> wcb_consecutiveFailures cb < wcb_failureThreshold cb) \<and>
     (wcb_state cb = StateHalfOpen \<longrightarrow>
        0 \<le> wcb_consecutiveSuccesses cb \<and> wcb_consecutiveSuccesses cb < wcb_successThreshold cb)"

text \<open>One recorded outcome, with its instant.\<close>

definition wcb_record :: "WCircuitBreaker \<Rightarrow> time \<times> bool \<Rightarrow> WCircuitBreaker" where
  "wcb_record cb = (\<lambda>(t, r). if r then wcb_RecordSuccess cb else wcb_RecordFailure t cb)"

text \<open>A function whose outcome depends on how often it was called before.\<close>

definition wr_numbered :: "(nat \<Rightarrow> wv_error option) \<Rightarrow> nat \<Rightarrow> wv_error option \<times> nat" where
  "wr_numbered res i = (res i, Suc i)"

lemma wcb_wf_New:
  "0 \<le> ft \<Longrightarrow> ft < 2 ^ 63 \<Longrightarrow> 0 \<le> sth \<Longrightarrow> sth < 2 ^ 63 \<Longrightarrow> wcb_wf (wcb_New t ft sth tmo)"
  by (auto simp: wcb_wf_def wcb_New_def)

interpretation wv_cb: circuit_breaker wcb_wf wcb_state "\<lambda>cb. nat (wcb_failureThreshold cb)"
  "\<lambda>cb. nat (wcb_consecutiveFailures cb)" "\<lambda>cb. nat (wcb_successThreshold cb)"
  "\<lambda>cb. nat (wcb_consecutiveSuccesses cb)"
  "\<lambda>now cb. time_since now (wcb_lastFailureTime cb) \<ge> wcb_timeout cb" wcb_Allow wcb_RecordSuccess wcb_RecordFailure
proof (unfold_locales, goal_cases)
  case (3 b t)
  then have "i64 (wcb_consecutiveFailures b + 1) = wcb_consecutiveFailures b + 1"
    by (auto simp: wcb_wf_def intro: i64_succ)
  with 3 show ?case by (auto simp: wcb_RecordFailure_def wcb_wf_def Let_def nat_less_iff Suc_nat_eq_nat_zadd1)
next
  case (5 b)
  then have "i64 (wcb_consecutiveSuccesses b + 1) = wcb_consecutiveSuccesses b + 1"
    by (auto simp: wcb_wf_def intro: i64_succ)
  with 5 show ?case by (auto simp: wcb_RecordSuccess_def wcb_wf_def Let_def nat_less_iff Suc_nat_eq_nat_zadd1)
qed (auto simp: wcb_wf_def wcb_RecordSuccess_def wcb_Allow_def Let_def split: CircuitState.splits)

lemma wcb_record_open: "wcb_state cb = StateOpen \<Longrightarrow> wcb_state (foldl wcb_record cb rs) = StateOpen"
  by (induction rs arbitrary: cb)
    (auto simp: wcb_record_def wcb_RecordSuccess_def wcb_RecordFailure_def Let_def split: prod.splits)

lemma wcb_record_closed:
  "wcb_state cb \<noteq> StateHalfOpen \<Longrightarrow>
     wcb_state (foldl wcb_record cb rs) = wcb_state (record_closed wcb_state wcb_RecordSuccess wcb_RecordFailure cb rs)"
proof (induction rs arbitrary: cb)
  case (Cons x rs)
  obtain t r where x: "x = (t, r)" by fastforce
  show ?case
  proof (cases "wcb_state cb")
    case StateClosed
    then have "wcb_state (wcb_record cb x) \<noteq> StateHalfOpen"
      by (simp add: x wcb_record_def wcb_RecordSuccess_def wcb_RecordFailure_def Let_def)
    with Cons.IH StateClosed show ?thesis by (simp add: x wcb_record_def)
  qed (use Cons.prems wcb_record_open [of cb \<open>x # rs\<close>] in \<open>simp_all add: x\<close>)
qed simp

section \<open>Attempts\<close>

lemma exec_loop_numbered:
  "a \<le> m \<Longrightarrow> exec_loop (\<lambda>_. None) (int m) (wr_numbered res) a lastErr a =
     (case List.find (\<lambda>i. \<not> isRetryable (res i)) [a..<m] of
        Some k \<Rightarrow> (res k, Suc k)
      | None \<Rightarrow> (if a = m then lastErr else res (m - 1), m))"
proof (induction "m - a" arbitrary: a lastErr)
  case 0
  then show ?case by (simp add: exec_loop.simps)
next
  case (Suc n)
  then have a: "a < m" by simp
  then have upt: "[a..<m] = a # [Suc a..<m]" by (simp add: upt_conv_Cons)
  show ?case
  proof (cases "isRetryable (res a)")
    case False
    then show ?thesis
      using a unfolding upt by (subst exec_loop.simps) (auto simp: wr_numbered_def split: option.splits)
  next
    case True
    then obtain e where e: "res a = Some e" by (cases "res a") (auto simp: isRetryable_def)
    show ?thesis
    proof (cases "m = Suc a")
      case last: True
      then show ?thesis using True e by (subst exec_loop.simps) (simp add: wr_numbered_def)
    next
      case False
      then have "exec_loop (\<lambda>_. None) (int m) (wr_numbered res) a lastErr a =
          exec_loop (\<lambda>_. None) (int m) (wr_numbered res) (Suc a) (Some e) (Suc a)"
        using a True e by (subst exec_loop.simps) (simp add: wr_numbered_def)
      with Suc.hyps(1) [of "Suc a" "Some e"] Suc.hyps(2) a True False show ?thesis
        unfolding upt by (auto split: option.splits)
    qed
  qed
qed

lemma exec_loop_calls:
  "snd (exec_loop during mx (wr_numbered res) a lastErr i) \<le> i + nat (mx - int a)"
proof (induction "nat (mx - int a)" arbitrary: a lastErr i)
  case 0
  then show ?case by (subst exec_loop.simps) simp
next
  case (Suc n)
  then have a: "int a < mx" "n = nat (mx - int (Suc a))" by simp_all
  have "snd (exec_loop during mx (wr_numbered res) (Suc a) l (Suc i)) \<le> i + nat (mx - int a)" for l
    using Suc.hyps(1) [OF a(2), of l "Suc i"] a Suc.hyps(2) by simp
  then show ?case
    using a by (subst exec_loop.simps) (auto simp: wr_numbered_def split: option.splits)
qed

section \<open>Properties\<close>

text \<open>A new breaker of the gateway, given any sequence of outcomes, ends open exactly if as many consecutive
  outcomes are failures as its failure threshold says (5 if the configured one is 0).\<close>

lemma weaver_breaker_trips:
  assumes "0 \<le> ft" and "ft < 2 ^ 63" and "0 \<le> sth" and "sth < 2 ^ 63"
  shows "wcb_GetState (foldl wcb_record (wcb_New t ft sth tmo) rs) = StateOpen \<longleftrightarrow>
    sublist (replicate (nat (if ft = 0 then 5 else ft)) False) (map snd rs)"
  using wv_cb.opens_iff [OF wcb_wf_New [OF assms], of t tmo rs]
  by (simp add: wcb_GetState_def wcb_record_closed wcb_New_def split del: if_split)

lemma weaver_breaker_trips_instance:
  "wcb_GetState (foldl wcb_record (wcb_New 0 2 0 0) [(1, False), (2, True), (3, False), (4, False)]) = StateOpen"
proof -
  have "sublist (replicate (nat 2) False) [False, True, False, False]"
    by (simp add: numeral_2_eq_2 sublist_Cons_right)
  then show ?thesis
    using weaver_breaker_trips [of 2 0 0 0 "[(1, False), (2, True), (3, False), (4, False)]"] by simp
qed

text \<open>C29: A breaker of the gateway with proper thresholds (from 1 to below 2 to the 63) that is open refuses every request without changing until its timeout has passed since the last
  failure. Then it lets a request through, and is half-open until as many successes as the success threshold says close
  it, or a single failure opens it again, from whose instant the timeout runs anew.\<close>

theorem weaver_breaker_recovers:
  assumes "wcb_wf cb" and "wcb_GetState cb = StateOpen"
  shows "if time_since now (wcb_lastFailureTime cb) \<ge> wcb_timeout cb
    then fst (wcb_Allow now cb) \<and>
      (let b = snd (wcb_Allow now cb); n = nat (wcb_successThreshold cb) in
        wcb_GetState ((wcb_RecordSuccess ^^ n) b) = StateClosed \<and>
        (\<forall>k<n. wcb_GetState ((wcb_RecordSuccess ^^ k) b) = StateHalfOpen \<and>
           (let b' = wcb_RecordFailure t ((wcb_RecordSuccess ^^ k) b)
            in wcb_GetState b' = StateOpen \<and> wcb_lastFailureTime b' = t)))
    else wcb_Allow now cb = (False, cb)"
proof (cases "time_since now (wcb_lastFailureTime cb) \<ge> wcb_timeout cb")
  case True
  have o: "wcb_state cb = StateOpen" using assms(2) by (simp add: wcb_GetState_def)
  obtain b where b: "wcb_Allow now cb = (True, b)" "wcb_wf b" "wcb_state b = StateHalfOpen"
    "nat (wcb_consecutiveSuccesses b) = 0" "nat (wcb_successThreshold b) = nat (wcb_successThreshold cb)"
    using wv_cb.admit_over [OF assms(1) o True] by blast
  have h: "wcb_state ((wcb_RecordSuccess ^^ k) b) = StateHalfOpen" if "k < nat (wcb_successThreshold cb)" for k
    using wv_cb.half_open_closes(1) [OF b(2,3), of k] that b(4,5) by simp
  then have "wcb_state (wcb_RecordFailure t ((wcb_RecordSuccess ^^ k) b)) = StateOpen \<and>
      wcb_lastFailureTime (wcb_RecordFailure t ((wcb_RecordSuccess ^^ k) b)) = t"
    if "k < nat (wcb_successThreshold cb)" for k
    using that by (simp add: wcb_RecordFailure_def Let_def)
  with h wv_cb.recovers [OF assms(1) o True] True show ?thesis by (simp add: wcb_GetState_def b(1) Let_def)
next
  case False
  then show ?thesis using assms(2) by (simp add: wcb_Allow_def wcb_GetState_def)
qed

theorem weaver_breaker_recovers_witness:
  "wcb_GetState ((wcb_RecordSuccess ^^ 2) (snd (wcb_Allow 101 (wcb_RecordFailure 1 (wcb_New 0 1 2 100))))) =
     StateClosed"
proof -
  let ?b = "wcb_RecordFailure 1 (wcb_New 0 1 2 100)"
  have "wcb_wf ?b" "wcb_GetState ?b = StateOpen" "time_since 101 (wcb_lastFailureTime ?b) \<ge> wcb_timeout ?b"
    "nat (wcb_successThreshold ?b) = 2"
    by (simp_all add: wcb_New_def wcb_RecordFailure_def wcb_wf_def wcb_GetState_def
        time_since_def time_sub_def min_duration_def max_duration_def i64_def)
  with weaver_breaker_recovers [of ?b 101 0] show ?thesis by (simp add: Let_def)
qed

text \<open>Without cancellation, \<open>Execute\<close> calls its function until the first result that is not a retryable error and at
  most as often as configured, and returns the last result; cancellation never adds calls. A configured negative number of
  attempts makes it report success without calling the function at all.\<close>

lemma weaver_retry_outcome:
  "wr_Execute (\<lambda>_. None) (c\<lparr>rc_MaxAttempts := int m\<rparr>) (wr_numbered res) 0 =
     (case List.find (\<lambda>i. \<not> isRetryable (res i)) [0..<m] of
        Some k \<Rightarrow> (res k, Suc k)
      | None \<Rightarrow> (if m = 0 then None else res (m - 1), m)) \<and>
   snd (wr_Execute during (c\<lparr>rc_MaxAttempts := int m\<rparr>) (wr_numbered res) 0) \<le> m \<and>
   wr_Execute during (NewRetry (c\<lparr>rc_MaxAttempts := - int (Suc m)\<rparr>)) fn s = (None, s)"
  using exec_loop_calls [of during "int m" res 0 None 0]
  by (simp add: wr_Execute_def NewRetry_def exec_loop_numbered exec_loop.simps [of during _ fn])

text \<open>The timeout of an attempt is between 0 and the replica timeout and leaves its share to every attempt still to
  come: the attempts left, each with the 50 milliseconds of overhead, fit in the time that remains. The context of the attempt
  never outlives the request. Asking for one attempt beyond the maximum divides by zero.\<close>

lemma attempt_budget:
  assumes "1 \<le> cur" and "cur \<le> mx" and "mx < 2 ^ 62" and "0 \<le> tc_ReplicaTimeout c"
  shows "(\<exists>t. CalculateAttemptTimeout now c dl mx cur = Inr t \<and> 0 \<le> t \<and> t \<le> tc_ReplicaTimeout c \<and>
      (0 < t \<longrightarrow> (mx - cur + 1) * (t + 50 * Millisecond) \<le> dl - now)) \<and>
    (\<exists>d. CreateAttemptContext t0 now t2 c (Some dl) mx cur = Inr (Some d) \<and> d \<le> dl) \<and>
    (now < dl \<longrightarrow> CalculateAttemptTimeout now c dl mx (mx + 1) = Inl DivideByZero)"
proof -
  define n where "n = mx - cur + 1"
  define rem where "rem = time_sub dl now"
  define t where "t = (if rem \<le> 0 then 0 else max 0 (min (tc_ReplicaTimeout c) (rem div n - 50 * Millisecond)))"
  have n: "1 \<le> n" "i64 (mx - cur + 1) = n" using assms by (auto simp: n_def is_i64_def intro!: i64_id)
  have rem: "rem < 2 ^ 63" "rem \<le> 0 \<or> rem \<le> dl - now"
    by (auto simp: rem_def time_sub_def max_duration_def min_duration_def)
  have q: "go_quot rem n = Inr (rem div n)" "i64 (rem div n - 50 * Millisecond) = rem div n - 50 * Millisecond"
    if "0 < rem"
  proof -
    have "0 \<le> rem div n" "rem div n \<le> rem" using that n(1) zdiv_mono2 [of rem 1 n] by (simp_all add: pos_imp_zdiv_nonneg_iff)
    then show "go_quot rem n = Inr (rem div n)" "i64 (rem div n - 50 * Millisecond) = rem div n - 50 * Millisecond"
      using that n(1) rem(1) by (auto simp: go_quot_def is_i64_def Millisecond_def intro!: i64_id)
  qed
  have eq: "CalculateAttemptTimeout now c dl mx cur = Inr t"
    using q assms(4) by (cases "rem \<le> 0") (auto simp: CalculateAttemptTimeout_def t_def n(2) Let_def rem_def [symmetric])
  have "n * (t + 50 * Millisecond) \<le> dl - now" if "0 < t"
  proof -
    have r: "0 < rem" and "t + 50 * Millisecond \<le> rem div n" using that by (auto simp: t_def split: if_splits)
    then have "n * (t + 50 * Millisecond) \<le> n * (rem div n)" using n(1) by (intro mult_left_mono) auto
    also have "\<dots> \<le> rem" using mult_div_mod_eq [of n rem] n(1) by (smt (verit) pos_mod_sign)
    finally show ?thesis using rem(2) r by simp
  qed
  moreover have "0 \<le> t" "t \<le> tc_ReplicaTimeout c" using assms(4) by (auto simp: t_def)
  moreover have "\<exists>d. CreateAttemptContext t0 now t2 c (Some dl) mx cur = Inr (Some d) \<and> d \<le> dl"
    by (auto simp: CreateAttemptContext_def eq ctx_WithDeadline_def Let_def)
  moreover have "now < dl \<longrightarrow> CalculateAttemptTimeout now c dl mx (mx + 1) = Inl DivideByZero"
    by (auto simp: CalculateAttemptTimeout_def go_quot_def time_sub_def max_duration_def min_duration_def i64_def Let_def)
  ultimately show ?thesis using eq unfolding n_def by simp
qed

lemma attempt_budget_instance:
  "\<exists>d. CreateAttemptContext 0 0 5 (wtm_New \<lparr>tc_GlobalTimeout = 0, tc_ReplicaTimeout = 0, tc_ConnectTimeout = 0, tc_ReadTimeout = 0\<rparr>)
      (Some (3 * Second)) 3 1 = Inr (Some d) \<and> d \<le> 3 * Second"
  using attempt_budget [of 1 3 "wtm_New \<lparr>tc_GlobalTimeout = 0, tc_ReplicaTimeout = 0, tc_ConnectTimeout = 0, tc_ReadTimeout = 0\<rparr>" 0 "3 * Second" 0 5]
  by (simp add: wtm_New_def Second_def)

end
