(* ===== verification/WV_RateLimit.thy ===== *)
theory WV_RateLimit
  imports Go_Float
begin

text \<open>
  Rate limiting of the gateway (\<^verbatim>\<open>src/Weaver/pkg/ratelimit/limiter.go\<close>): the token bucket, the limiter over several
  dimensions and the counter of rejected requests. Token counts are rationals. A bucket reads the clock when it is made and twice per
  request. Requests to the limiter run concurrently: each check of a dimension is one step, under the mutex of the limiter.
\<close>

section \<open>Token bucket\<close>

record TokenBucket =
  tb_capacity :: rat
  tb_tokens :: rat
  tb_refillRate :: rat
  tb_lastRefill :: time

definition NewTokenBucket :: "time \<Rightarrow> rat \<Rightarrow> rat \<Rightarrow> TokenBucket" where
  "NewTokenBucket now capacity refillRate =
     \<lparr>tb_capacity = capacity, tb_tokens = capacity, tb_refillRate = refillRate, tb_lastRefill = now\<rparr>"

definition go_min :: "rat \<Rightarrow> rat \<Rightarrow> rat" where
  "go_min a b = (if a < b then a else b)"

definition tb_Allow :: "time \<Rightarrow> time \<Rightarrow> rat \<Rightarrow> TokenBucket \<Rightarrow> bool \<times> TokenBucket" where
  "tb_Allow t1 t2 tokensRequested tb =
     (let elapsed = duration_Seconds (time_since t1 (tb_lastRefill tb));
          tokens = go_min (tb_capacity tb) (tb_tokens tb + elapsed * tb_refillRate tb);
          tb' = tb\<lparr>tb_tokens := tokens, tb_lastRefill := t2\<rparr>
      in if tokens \<ge> tokensRequested then (True, tb'\<lparr>tb_tokens := tokens - tokensRequested\<rparr>) else (False, tb'))"

section \<open>Limiter over several dimensions\<close>

type_synonym Dimension = string

definition DimensionGlobal :: Dimension where "DimensionGlobal = ''global''"
definition DimensionPerClient :: Dimension where "DimensionPerClient = ''per_client''"
definition DimensionPerIP :: Dimension where "DimensionPerIP = ''per_ip''"
definition DimensionPerTenant :: Dimension where "DimensionPerTenant = ''per_tenant''"

record MultiDimensionalLimiter =
  md_limiters :: "string \<rightharpoonup> TokenBucket"
  md_dimensions :: "Dimension list"
  md_config :: "Dimension \<rightharpoonup> rat"

definition NewMultiDimensionalLimiter :: "(Dimension \<rightharpoonup> rat) \<Rightarrow> Dimension list \<Rightarrow> MultiDimensionalLimiter" where
  "NewMultiDimensionalLimiter config dimensions =
     \<lparr>md_limiters = Map.empty, md_dimensions = dimensions, md_config = config\<rparr>"

definition limiter_key :: "Dimension \<Rightarrow> string \<Rightarrow> string" where
  "limiter_key dm ident = dm @ '':'' @ ident"

definition dimension_rate :: "(Dimension \<rightharpoonup> rat) \<Rightarrow> Dimension \<Rightarrow> rat" where
  "dimension_rate config dm = (case config dm of Some rate \<Rightarrow> rate | None \<Rightarrow> 1000)"

text \<open>The readings of the clock in one check: by the constructor of a bucket, and the two of the bucket.\<close>

type_synonym clock = "time \<times> time \<times> time"

fun allowForDimension :: "clock \<Rightarrow> Dimension \<Rightarrow> string \<Rightarrow> MultiDimensionalLimiter \<Rightarrow> bool \<times> MultiDimensionalLimiter" where
  "allowForDimension (t0, t1, t2) dm ident m =
     (if ident = '''' then (True, m)
      else let key = limiter_key dm ident;
               rate = dimension_rate (md_config m) dm;
               limiter = (case md_limiters m key of Some l \<Rightarrow> l | None \<Rightarrow> NewTokenBucket t0 rate (rate / 60));
               (allowed, limiter') = tb_Allow t1 t2 1 limiter
           in (allowed, m\<lparr>md_limiters := (md_limiters m)(key \<mapsto> limiter')\<rparr>))"

text \<open>The identifiers of a request per dimension; another dimension has the empty one.\<close>

definition checks :: "string \<Rightarrow> string \<Rightarrow> string \<Rightarrow> Dimension \<Rightarrow> string" where
  "checks clientID clientIP tenantID dm =
     (if dm = DimensionGlobal then ''global''
      else if dm = DimensionPerClient then clientID
      else if dm = DimensionPerIP then clientIP
      else if dm = DimensionPerTenant then tenantID
      else '''')"

text \<open>\<open>Allow\<close> without other requests in between; \<open>clock k\<close> are the readings at the check of the \<open>k\<close>th dimension.\<close>

fun allow_loop :: "(nat \<Rightarrow> clock) \<Rightarrow> nat \<Rightarrow> (Dimension \<Rightarrow> string) \<Rightarrow> Dimension list \<Rightarrow> MultiDimensionalLimiter \<Rightarrow> bool \<times> MultiDimensionalLimiter" where
  "allow_loop clock k ids [] m = (True, m)"
| "allow_loop clock k ids (dm # dms) m =
     (let (allowed, m') = allowForDimension (clock k) dm (ids dm) m
      in if \<not> allowed then (False, m') else allow_loop clock (Suc k) ids dms m')"

definition md_Allow :: "(nat \<Rightarrow> clock) \<Rightarrow> string \<Rightarrow> string \<Rightarrow> string \<Rightarrow> MultiDimensionalLimiter \<Rightarrow> bool \<times> MultiDimensionalLimiter" where
  "md_Allow clock clientID clientIP tenantID m =
     allow_loop clock 0 (checks clientID clientIP tenantID) (md_dimensions m) m"


text \<open>The statistics of an identifier: capacity and tokens, 0 if it has no bucket.\<close>

definition md_GetStats :: "MultiDimensionalLimiter \<Rightarrow> Dimension \<Rightarrow> string \<Rightarrow> string \<times> string \<times> rat \<times> rat" where
  "md_GetStats m dm ident =
     (case md_limiters m (limiter_key dm ident) of
        None \<Rightarrow> (dm, ident, 0, 0)
      | Some l \<Rightarrow> (dm, ident, tb_capacity l, tb_tokens l))"

section \<open>Counter\<close>

record RateLimitCounter =
  rl_exceeded :: int

definition NewRateLimitCounter :: RateLimitCounter where
  "NewRateLimitCounter = \<lparr>rl_exceeded = 0\<rparr>"

definition RecordExceeded :: "RateLimitCounter \<Rightarrow> RateLimitCounter" where
  "RecordExceeded r = r\<lparr>rl_exceeded := i64 (rl_exceeded r + 1)\<rparr>"

definition GetExceeded :: "RateLimitCounter \<Rightarrow> int" where
  "GetExceeded r = rl_exceeded r"

definition rl_Reset :: "RateLimitCounter \<Rightarrow> RateLimitCounter" where
  "rl_Reset r = r\<lparr>rl_exceeded := 0\<rparr>"

section \<open>Sequences of requests\<close>

text \<open>Requests to a bucket: the two readings of the clock and the tokens asked for. The result is the number of tokens granted.\<close>

fun tb_run :: "(time \<times> time \<times> rat) list \<Rightarrow> TokenBucket \<Rightarrow> rat \<times> TokenBucket" where
  "tb_run [] tb = (0, tb)"
| "tb_run ((t1, t2, k) # rs) tb =
     (let (allowed, tb1) = tb_Allow t1 t2 k tb; (granted, tb2) = tb_run rs tb1
      in ((if allowed then k else 0) + granted, tb2))"

text \<open>Readings of the clock that do not go back, from \<open>t\<close> on.\<close>

fun clock_ok :: "time \<Rightarrow> (time \<times> time \<times> rat) list \<Rightarrow> bool" where
  "clock_ok t [] = True"
| "clock_ok t ((t1, t2, k) # rs) \<longleftrightarrow> t \<le> t1 \<and> t1 \<le> t2 \<and> 0 \<le> k \<and> clock_ok t2 rs"

section \<open>Concurrent requests\<close>













definition tb_wf :: "TokenBucket \<Rightarrow> bool" where
  "tb_wf tb \<longleftrightarrow> 0 \<le> tb_tokens tb \<and> tb_tokens tb \<le> tb_capacity tb \<and> 0 \<le> tb_refillRate tb"


section \<open>The bucket\<close>

lemma elapsed_bounds:
  "t \<le> now \<Longrightarrow> 0 \<le> duration_Seconds (time_since now t) \<and> duration_Seconds (time_since now t) \<le> duration_Seconds (now - t)"
  by (auto intro!: duration_Seconds_mono duration_Seconds_nonneg
      simp: time_since_def time_sub_def min_duration_def max_duration_def)

text \<open>One request: the invariant, the tokens in the bucket and those granted.\<close>

lemma tb_Allow_step:
  assumes "tb_wf tb" and "tb_lastRefill tb \<le> t1" and "t1 \<le> t2" and "0 \<le> k" and "tb_Allow t1 t2 k tb = (a, tb')"
  shows "tb_wf tb' \<and> tb_capacity tb' = tb_capacity tb \<and> tb_refillRate tb' = tb_refillRate tb \<and> tb_lastRefill tb' = t2 \<and>
    tb_tokens tb' + (if a then k else 0) \<le>
      tb_tokens tb + tb_refillRate tb * duration_Seconds (t2 - tb_lastRefill tb) \<and>
    tb_tokens tb' + (if a then k else 0) \<le> tb_capacity tb"
proof -
  define e where "e = duration_Seconds (time_since t1 (tb_lastRefill tb))"
  have e: "0 \<le> e" "e \<le> duration_Seconds (t1 - tb_lastRefill tb)"
    using elapsed_bounds [OF assms(2)] by (simp_all add: e_def)
  have "duration_Seconds (t1 - tb_lastRefill tb) \<le> duration_Seconds (t2 - tb_lastRefill tb)"
    using assms(3) by (intro duration_Seconds_mono) simp
  with e(2) have "e \<le> duration_Seconds (t2 - tb_lastRefill tb)" by (rule order_trans)
  then have "e * tb_refillRate tb \<le> tb_refillRate tb * duration_Seconds (t2 - tb_lastRefill tb)"
    using assms(1) by (subst mult.commute) (auto simp: tb_wf_def intro: mult_left_mono)
  moreover have "0 \<le> e * tb_refillRate tb" using e(1) assms(1) by (simp add: tb_wf_def)
  ultimately show ?thesis
    using assms(1,4,5) by (auto simp: tb_Allow_def tb_wf_def go_min_def e_def [symmetric] Let_def split: if_splits)
qed

lemma tb_run_bound:
  "tb_wf tb \<Longrightarrow> tb_lastRefill tb \<le> t \<Longrightarrow> clock_ok (tb_lastRefill tb) rs \<Longrightarrow> \<forall>(t1, t2, k) \<in> set rs. t2 \<le> t \<Longrightarrow>
     tb_run rs tb = (granted, tb') \<Longrightarrow>
     tb_wf tb' \<and> granted + tb_tokens tb' \<le> tb_tokens tb + tb_refillRate tb * duration_Seconds (t - tb_lastRefill tb)"
proof (induction rs arbitrary: tb granted)
  case Nil
  then show ?case by (simp add: tb_wf_def duration_Seconds_nonneg)
next
  case (Cons r rs)
  obtain t1 t2 k where r: "r = (t1, t2, k)" by (cases r) auto
  obtain a tb1 where 1: "tb_Allow t1 t2 k tb = (a, tb1)" by fastforce
  obtain g where 2: "tb_run rs tb1 = (g, tb')" "granted = (if a then k else 0) + g"
    using Cons.prems(5) by (auto simp: r 1 split: prod.splits)
  have s: "tb_wf tb1" "tb_refillRate tb1 = tb_refillRate tb" "tb_lastRefill tb1 = t2"
    "tb_tokens tb1 + (if a then k else 0) \<le> tb_tokens tb + tb_refillRate tb * duration_Seconds (t2 - tb_lastRefill tb)"
    using tb_Allow_step [OF Cons.prems(1) _ _ _ 1] Cons.prems(3) by (simp_all add: r)
  have "tb_wf tb' \<and> g + tb_tokens tb' \<le> tb_tokens tb1 + tb_refillRate tb1 * duration_Seconds (t - tb_lastRefill tb1)"
    using Cons.prems s by (intro Cons.IH [OF s(1) _ _ _ 2(1)]) (auto simp: r)
  moreover have "duration_Seconds (t - tb_lastRefill tb) =
      duration_Seconds (t2 - tb_lastRefill tb) + duration_Seconds (t - t2)"
    by (simp flip: duration_Seconds_add)
  ultimately show ?case using s by (simp add: 2(2) distrib_left)
qed

section \<open>The limiter\<close>





















section \<open>Properties\<close>

text \<open>A token bucket never grants more than its capacity and the refill of the time that has passed, whatever amounts are
  asked for, and its tokens stay between 0 and the capacity.\<close>

lemma token_bucket_bound:
  assumes "0 \<le> capacity" and "0 \<le> rate" and "clock_ok t0 rs" and "\<forall>(t1, t2, k) \<in> set rs. t2 \<le> t" and "t0 \<le> t"
  shows "let (granted, tb) = tb_run rs (NewTokenBucket t0 capacity rate) in
    granted \<le> capacity + rate * duration_Seconds (t - t0) \<and> 0 \<le> tb_tokens tb \<and> tb_tokens tb \<le> tb_capacity tb"
proof -
  let ?tb = "NewTokenBucket t0 capacity rate"
  obtain g tb' where r: "tb_run rs ?tb = (g, tb')" by fastforce
  have "tb_wf ?tb" using assms(1,2) by (simp add: tb_wf_def NewTokenBucket_def)
  from tb_run_bound [OF this _ _ assms(4) r] assms(3,5) show ?thesis
    by (simp add: NewTokenBucket_def tb_wf_def) (simp add: NewTokenBucket_def [symmetric] r)
qed

lemma token_bucket_bound_instance:
  "fst (tb_run [(0, 0, 2), (0, 0, 2), (Second, Second, 1)] (NewTokenBucket 0 3 1)) \<le> 3 + 1 * duration_Seconds (Second - 0)"
  using token_bucket_bound [of 3 1 0 "[(0, 0, 2), (0, 0, 2), (Second, Second, 1)]" Second]
  by (simp add: Second_def case_prod_beta' Let_def)

text \<open>The dimensions are charged one after the other and never refunded: requests of a client that its own limit rejects use
  up the global tokens, until a client that has made no request at all is rejected.\<close>

lemma limiter_charges_rejected:
  "let c = (\<lambda>_. (t, t, t));
       m = NewMultiDimensionalLimiter [DimensionGlobal \<mapsto> 2, DimensionPerClient \<mapsto> 1] [DimensionGlobal, DimensionPerClient];
       (a1, m1) = md_Allow c ''a'' '''' '''' m; (a2, m2) = md_Allow c ''a'' '''' '''' m1; (b, m3) = md_Allow c ''b'' '''' '''' m2
   in (a1, a2, b) = (True, False, False)"
  by (simp add: md_Allow_def NewMultiDimensionalLimiter_def tb_Allow_def NewTokenBucket_def checks_def
      limiter_key_def dimension_rate_def DimensionGlobal_def DimensionPerClient_def go_min_def duration_Seconds_def
      time_since_def time_sub_def min_duration_def max_duration_def Let_def)




text \<open>The counter of rejected requests is exact in 64-bit arithmetic, and a reset starts it again.\<close>

lemma exceeded_count:
  "GetExceeded ((RecordExceeded ^^ n) r) = i64 (GetExceeded r + int n)"
  if "is_i64 (GetExceeded r)" for r
  using that by (induction n) (auto simp: RecordExceeded_def GetExceeded_def i64_id algebra_simps)

lemma exceeded_reset: "GetExceeded ((RecordExceeded ^^ n) (rl_Reset r)) = i64 (int n)"
  using exceeded_count [of "rl_Reset r" n] by (simp add: rl_Reset_def GetExceeded_def is_i64_def)

end
