(* ===== verification/WV_Auth.thy ===== *)
theory WV_Auth
  imports Go_Strings
begin

text \<open>
  Authentication and authorization of the gateway (\<^verbatim>\<open>auth.go\<close> and \<^verbatim>\<open>rbac.go\<close> of \<^verbatim>\<open>src/Weaver/pkg/auth\<close>).
  The decoding of a JSON object into claims is an argument of the JWT authenticator, and a client certificate is what the code looks
  at of it: the number of its parts and the subject of the parsed leaf, if there is one.
\<close>

section \<open>Users and authenticators\<close>

record AuthenticatedUser =
  au_ID :: string
  au_Name :: string
  au_Role :: string
  au_Scopes :: "string list"

subsection \<open>Bearer tokens\<close>

type_synonym BearerTokenAuth = "string \<rightharpoonup> AuthenticatedUser"

definition NewBearerTokenAuth :: BearerTokenAuth where
  "NewBearerTokenAuth = Map.empty"

definition RegisterToken :: "string \<Rightarrow> AuthenticatedUser \<Rightarrow> BearerTokenAuth \<Rightarrow> BearerTokenAuth" where
  "RegisterToken token user b = b(token \<mapsto> user)"

definition bearer_prefix :: string where
  "bearer_prefix = ''Bearer ''"

definition bearer_Authenticate :: "BearerTokenAuth \<Rightarrow> string \<Rightarrow> string + AuthenticatedUser" where
  "bearer_Authenticate b authHeader =
     (if \<not> HasPrefix authHeader bearer_prefix then Inl ''invalid bearer token format''
      else case b (TrimPrefix authHeader bearer_prefix) of
             None \<Rightarrow> Inl ''invalid or expired token''
           | Some user \<Rightarrow> Inr user)"

subsection \<open>JSON web tokens\<close>

record JWTClaims =
  jc_UserID :: string
  jc_Name :: string
  jc_Role :: string
  jc_Scopes :: "string list"
  jc_Exp :: int

text \<open>\<open>time.Unix\<close>, on instants that count from the year 1.\<close>

definition time_Unix :: "int \<Rightarrow> time" where
  "time_Unix sec = (62135596800 + sec) * Second"

text \<open>The authenticator holds a public key, which \<open>Authenticate\<close> does not use.\<close>

record JWTAuth =
  ja_publicKey :: string

definition NewJWTAuth :: "string \<Rightarrow> JWTAuth" where
  "NewJWTAuth publicKeyPEM = \<lparr>ja_publicKey = publicKeyPEM\<rparr>"

definition jwt_Authenticate ::
  "(string \<Rightarrow> string + JWTClaims) \<Rightarrow> time \<Rightarrow> JWTAuth \<Rightarrow> string \<Rightarrow> string + AuthenticatedUser"
where
  "jwt_Authenticate unmarshal now j tokenString =
     (if tokenString = '''' then Inl ''empty token''
      else let parts = split_on CHR ''.'' tokenString in
        if length parts \<noteq> 3 then Inl ''invalid JWT format''
        else (case unmarshal (parts ! 1) of
                Inl err \<Rightarrow> Inl (''failed to parse JWT claims: '' @ err)
              | Inr claims \<Rightarrow>
                  if time_Unix (jc_Exp claims) < now then Inl ''token expired''
                  else Inr \<lparr>au_ID = jc_UserID claims, au_Name = jc_Name claims, au_Role = jc_Role claims,
                            au_Scopes = jc_Scopes claims\<rparr>))"

subsection \<open>API keys\<close>

type_synonym APIKeyAuth = "string \<rightharpoonup> AuthenticatedUser"

definition NewAPIKeyAuth :: APIKeyAuth where
  "NewAPIKeyAuth = Map.empty"

definition RegisterKey :: "string \<Rightarrow> AuthenticatedUser \<Rightarrow> APIKeyAuth \<Rightarrow> APIKeyAuth" where
  "RegisterKey key user a = a(key \<mapsto> user)"

definition apikey_Authenticate :: "APIKeyAuth \<Rightarrow> string \<Rightarrow> string + AuthenticatedUser" where
  "apikey_Authenticate a apiKey =
     (if apiKey = '''' then Inl ''empty API key''
      else case a apiKey of None \<Rightarrow> Inl ''invalid API key'' | Some user \<Rightarrow> Inr user)"

subsection \<open>Client certificates\<close>

record Certificate =
  ce_Certificate :: "string list"
  ce_Leaf :: "string option"

text \<open>The pool of accepted authorities is stored and not consulted.\<close>

record MTLSAuth =
  mt_clientCAs :: "string list"

text \<open>The constructor, with the certificates that \<open>AppendCertsFromPEM\<close> finds in a text.\<close>

definition NewMTLSAuth :: "(string \<Rightarrow> string list) \<Rightarrow> string \<Rightarrow> string + MTLSAuth" where
  "NewMTLSAuth parsePEM clientCACert =
     (let certs = parsePEM clientCACert
      in if certs = [] then Inl ''failed to parse client CA certificate'' else Inr \<lparr>mt_clientCAs = certs\<rparr>)"

definition mtls_Authenticate :: "MTLSAuth \<Rightarrow> Certificate option \<Rightarrow> string + AuthenticatedUser" where
  "mtls_Authenticate m clientCert =
     (case clientCert of
        None \<Rightarrow> Inl ''client certificate required''
      | Some c \<Rightarrow>
          if length (ce_Certificate c) = 0 then Inl ''client certificate empty''
          else let subject = (case ce_Leaf c of Some s \<Rightarrow> s | None \<Rightarrow> ''client'')
               in Inr \<lparr>au_ID = subject, au_Name = subject, au_Role = ''default'', au_Scopes = []\<rparr>)"

section \<open>Roles\<close>

type_synonym RBAC = "string \<rightharpoonup> string list"

definition NewRBAC :: RBAC where
  "NewRBAC = Map.empty"

definition DefineRole :: "string \<Rightarrow> string list \<Rightarrow> RBAC \<Rightarrow> RBAC" where
  "DefineRole role permissions r = r(role \<mapsto> permissions)"

fun matches_any :: "string list \<Rightarrow> string \<Rightarrow> bool" where
  "matches_any [] x = False"
| "matches_any (p # ps) x = (if p = x \<or> p = ''*'' then True else matches_any ps x)"

definition Authorize :: "RBAC \<Rightarrow> AuthenticatedUser option \<Rightarrow> string \<Rightarrow> bool" where
  "Authorize r user action =
     (case user of
        None \<Rightarrow> False
      | Some u \<Rightarrow> (case r (au_Role u) of None \<Rightarrow> False | Some permissions \<Rightarrow> matches_any permissions action))"

definition AuthorizeScope :: "RBAC \<Rightarrow> AuthenticatedUser option \<Rightarrow> string \<Rightarrow> bool" where
  "AuthorizeScope r user scope =
     (case user of None \<Rightarrow> False | Some u \<Rightarrow> matches_any (au_Scopes u) scope)"

definition GetPermissions :: "RBAC \<Rightarrow> string \<Rightarrow> string + string list" where
  "GetPermissions r role =
     (case r role of None \<Rightarrow> Inl (''role '' @ role @ '' not found'') | Some permissions \<Rightarrow> Inr permissions)"

section \<open>Sequences of registrations\<close>

definition register_all :: "(string \<times> AuthenticatedUser) list \<Rightarrow> BearerTokenAuth" where
  "register_all rs = foldl (\<lambda>b (t, u). RegisterToken t u b) NewBearerTokenAuth rs"

definition define_all :: "(string \<times> string list) list \<Rightarrow> RBAC" where
  "define_all ds = foldl (\<lambda>r (n, ps). DefineRole n ps r) NewRBAC ds"

section \<open>Lemmas\<close>

lemma matches_any_iff: "matches_any ps x \<longleftrightarrow> x \<in> set ps \<or> ''*'' \<in> set ps"
  by (induction ps) auto

lemma foldl_map_updates: "foldl (\<lambda>m (k, v). m(k \<mapsto> v)) m kvs = m ++ map_of (rev kvs)"
  by (induction kvs arbitrary: m) (auto simp: map_add_def fun_eq_iff split: option.splits)

lemma register_all_map: "register_all rs = map_of (rev rs)"
  using foldl_map_updates [of Map.empty rs] by (simp add: register_all_def RegisterToken_def NewBearerTokenAuth_def)

lemma define_all_map: "define_all ds = map_of (rev ds)"
  using foldl_map_updates [of Map.empty ds] by (simp add: define_all_def DefineRole_def NewRBAC_def)

lemma split_token:
  assumes "CHR ''.'' \<notin> set h" and "CHR ''.'' \<notin> set p" and "CHR ''.'' \<notin> set s"
  shows "split_on CHR ''.'' (h @ ''.'' @ p @ ''.'' @ s) = [h, p, s]"
  using assms by (simp add: split_on_sep split_on_no_sep)

section \<open>Properties\<close>

text \<open>A bearer header authenticates exactly as the user of the last registration of its token, and a user so authenticated is
  allowed an action exactly if the last definition of the user's role lists the action or the wildcard.\<close>

lemma bearer_and_roles:
  "bearer_Authenticate (register_all rs) (bearer_prefix @ token) =
     (case map_of (rev rs) token of Some u \<Rightarrow> Inr u | None \<Rightarrow> Inl ''invalid or expired token'') \<and>
   (bearer_Authenticate (register_all rs) hdr = Inr u \<longrightarrow>
      (\<exists>t. hdr = bearer_prefix @ t \<and> map_of (rev rs) t = Some u)) \<and>
   (Authorize (define_all ds) (Some u) action \<longleftrightarrow>
      (\<exists>ps. map_of (rev ds) (au_Role u) = Some ps \<and> (action \<in> set ps \<or> ''*'' \<in> set ps)))"
proof (intro conjI impI)
  show "bearer_Authenticate (register_all rs) (bearer_prefix @ token) =
      (case map_of (rev rs) token of Some u \<Rightarrow> Inr u | None \<Rightarrow> Inl ''invalid or expired token'')"
    by (simp add: bearer_Authenticate_def register_all_map HasPrefix_def TrimPrefix_def split: option.splits)
next
  assume "bearer_Authenticate (register_all rs) hdr = Inr u"
  then have p: "take (length bearer_prefix) hdr = bearer_prefix"
    and m: "map_of (rev rs) (drop (length bearer_prefix) hdr) = Some u"
    by (auto simp: bearer_Authenticate_def register_all_map HasPrefix_def TrimPrefix_def split: if_splits option.splits)
  have "hdr = bearer_prefix @ drop (length bearer_prefix) hdr" using p by (metis append_take_drop_id)
  with m show "\<exists>t. hdr = bearer_prefix @ t \<and> map_of (rev rs) t = Some u" by blast
next
  show "Authorize (define_all ds) (Some u) action \<longleftrightarrow>
      (\<exists>ps. map_of (rev ds) (au_Role u) = Some ps \<and> (action \<in> set ps \<or> ''*'' \<in> set ps))"
    by (auto simp: Authorize_def define_all_map matches_any_iff split: option.splits)
qed

lemma bearer_and_roles_instance:
  "Authorize (define_all [(''user'', [''read'']), (''admin'', [''*''])])
     (Some \<lparr>au_ID = ''1'', au_Name = ''Alice'', au_Role = ''admin'', au_Scopes = []\<rparr>) ''delete''"
  using bearer_and_roles [of "[]" "''t''" "''x''" "\<lparr>au_ID = ''1'', au_Name = ''Alice'', au_Role = ''admin'', au_Scopes = []\<rparr>"
      "[(''user'', [''read'']), (''admin'', [''*''])]" "''delete''"]
  by simp

text \<open>Whoever can write claims that are not expired is authenticated with the role they name: neither the signature part nor the
  header of the token nor the public key has any influence, so that a forged token authorizes every action of that role.\<close>

lemma jwt_forgery:
  assumes "CHR ''.'' \<notin> set h" and "CHR ''.'' \<notin> set p" and "CHR ''.'' \<notin> set s"
    and "unmarshal p = Inr claims" and "now \<le> time_Unix (jc_Exp claims)"
    and "rbac (jc_Role claims) = Some ps" and "action \<in> set ps"
  shows "\<exists>u. jwt_Authenticate unmarshal now j (h @ ''.'' @ p @ ''.'' @ s) = Inr u \<and> au_Role u = jc_Role claims \<and>
    Authorize rbac (Some u) action"
proof -
  have "split_on CHR ''.'' (h @ CHR ''.'' # p @ CHR ''.'' # s) = [h, p, s]" using split_token [OF assms(1-3)] by simp
  then show ?thesis
    using assms(4-7) by (auto simp: jwt_Authenticate_def Authorize_def matches_any_iff Let_def)
qed

lemma jwt_forgery_instance:
  "\<exists>u. jwt_Authenticate (\<lambda>x. if x = ''c'' then Inr \<lparr>jc_UserID = ''m'', jc_Name = ''Mallory'', jc_Role = ''admin'', jc_Scopes = [], jc_Exp = 5\<rparr>
        else Inl ''unexpected end of JSON input'') (time_Unix 4) (NewJWTAuth ''key'') (''h'' @ ''.'' @ ''c'' @ ''.'' @ ''forged'') = Inr u \<and>
     au_Role u = ''admin'' \<and> Authorize (DefineRole ''admin'' [''delete''] NewRBAC) (Some u) ''delete''"
  using jwt_forgery [of "''h''" "''c''" "''forged''"
      "\<lambda>x. if x = ''c'' then Inr \<lparr>jc_UserID = ''m'', jc_Name = ''Mallory'', jc_Role = ''admin'', jc_Scopes = [], jc_Exp = 5\<rparr>
        else Inl ''unexpected end of JSON input''"
      "\<lparr>jc_UserID = ''m'', jc_Name = ''Mallory'', jc_Role = ''admin'', jc_Scopes = [], jc_Exp = 5\<rparr>"
      "time_Unix 4" "DefineRole ''admin'' [''delete''] NewRBAC" "[''delete'']" "''delete''" "NewJWTAuth ''key''"]
  by (simp add: time_Unix_def Second_def DefineRole_def)

end
