(* ===== verification/WV_Plugins.thy ===== *)
theory WV_Plugins
  imports Prelude
begin

text \<open>
  Plugins of the gateway (\<^verbatim>\<open>src/Weaver/pkg/plugins/manager.go\<close>): the manager of shared objects with its life-cycle hooks,
  and the registry of built-in factories. Opening a shared object and looking up a symbol in it belong to Go's
  \<open>plugin\<close> package and are arguments, as is the dynamic type test of a symbol. A hook is a function of the caller that may also
  change the world it runs in, whose type is a parameter.
\<close>

section \<open>The manager\<close>

text \<open>The field \<open>Symbol\<close> of the source is never set.\<close>

record ('m, 'y) LoadedPlugin =
  lp_Name :: string
  lp_Module :: 'm
  lp_Symbol :: "'y option"

type_synonym ('m, 'y, 'w) PluginHook = "string \<Rightarrow> ('m, 'y) LoadedPlugin \<Rightarrow> 'w \<Rightarrow> string option \<times> 'w"

record ('m, 'y, 'w) PluginManager =
  pm_loadedPlugins :: "string \<rightharpoonup> ('m, 'y) LoadedPlugin"
  pm_hooks :: "string \<rightharpoonup> ('m, 'y, 'w) PluginHook list"

definition NewPluginManager :: "('m, 'y, 'w) PluginManager" where
  "NewPluginManager = \<lparr>pm_loadedPlugins = Map.empty, pm_hooks = Map.empty\<rparr>"

text \<open>The loop of \<open>fireHooks\<close>, which stops at the first error.\<close>

fun hooks_loop :: "string \<Rightarrow> ('m, 'y) LoadedPlugin \<Rightarrow> ('m, 'y, 'w) PluginHook list \<Rightarrow> 'w \<Rightarrow> string option \<times> 'w" where
  "hooks_loop event loaded [] w = (None, w)"
| "hooks_loop event loaded (hook # hooks) w =
     (case hook event loaded w of
        (Some err, w') \<Rightarrow> (Some err, w')
      | (None, w') \<Rightarrow> hooks_loop event loaded hooks w')"

definition fireHooks ::
  "string \<Rightarrow> ('m, 'y) LoadedPlugin \<Rightarrow> ('m, 'y, 'w) PluginManager \<Rightarrow> 'w \<Rightarrow> string option \<times> 'w" where
  "fireHooks event loaded pm w =
     (case pm_hooks pm event of None \<Rightarrow> (None, w) | Some hooks \<Rightarrow> hooks_loop event loaded hooks w)"

definition RegisterHook ::
  "string \<Rightarrow> ('m, 'y, 'w) PluginHook \<Rightarrow> ('m, 'y, 'w) PluginManager \<Rightarrow> ('m, 'y, 'w) PluginManager" where
  "RegisterHook event hook pm =
     pm\<lparr>pm_hooks := (pm_hooks pm)(event \<mapsto> (case pm_hooks pm event of None \<Rightarrow> [] | Some hs \<Rightarrow> hs) @ [hook])\<rparr>"

text \<open>\<open>LoadPlugin\<close>; \<open>openp\<close> is \<open>plugin.Open\<close>.\<close>

definition LoadPlugin ::
  "(string \<Rightarrow> string + 'm) \<Rightarrow> string \<Rightarrow> string \<Rightarrow> ('m, 'y, 'w) PluginManager \<Rightarrow> 'w \<Rightarrow>
   string option \<times> ('m, 'y, 'w) PluginManager \<times> 'w"
where
  "LoadPlugin openp name path pm w =
     (if pm_loadedPlugins pm name \<noteq> None then (Some (''plugin '' @ name @ '' already loaded''), pm, w)
      else case openp path of
        Inl err \<Rightarrow> (Some (''failed to load plugin '' @ name @ '': '' @ err), pm, w)
      | Inr p \<Rightarrow>
          (case fireHooks ''plugin_preload'' \<lparr>lp_Name = name, lp_Module = p, lp_Symbol = None\<rparr> pm w of
             (Some err, w1) \<Rightarrow> (Some err, pm, w1)
           | (None, w1) \<Rightarrow>
               let loaded = \<lparr>lp_Name = name, lp_Module = p, lp_Symbol = None\<rparr>;
                   pm1 = pm\<lparr>pm_loadedPlugins := (pm_loadedPlugins pm)(name \<mapsto> loaded)\<rparr>
               in case fireHooks ''plugin_loaded'' loaded pm1 w1 of
                    (Some err, w2) \<Rightarrow>
                      (Some err, pm1\<lparr>pm_loadedPlugins := (pm_loadedPlugins pm1)(name := None)\<rparr>, w2)
                  | (None, w2) \<Rightarrow> (None, pm1, w2)))"

definition UnloadPlugin ::
  "string \<Rightarrow> ('m, 'y, 'w) PluginManager \<Rightarrow> 'w \<Rightarrow> string option \<times> ('m, 'y, 'w) PluginManager \<times> 'w" where
  "UnloadPlugin name pm w =
     (case pm_loadedPlugins pm name of
        None \<Rightarrow> (Some (''plugin '' @ name @ '' not loaded''), pm, w)
      | Some loaded \<Rightarrow>
          (case fireHooks ''plugin_preunload'' loaded pm w of
             (Some err, w1) \<Rightarrow> (Some err, pm, w1)
           | (None, w1) \<Rightarrow>
               let pm1 = pm\<lparr>pm_loadedPlugins := (pm_loadedPlugins pm)(name := None)\<rparr>
               in case fireHooks ''plugin_unloaded'' loaded pm1 w1 of
                    (Some err, w2) \<Rightarrow> (Some err, pm1, w2)
                  | (None, w2) \<Rightarrow> (None, pm1, w2)))"

text \<open>
  The three typed accessors. \<open>lookup\<close> is the method \<open>Lookup\<close> of a module, and the last argument the test
  whether a symbol has the interface asked for.
\<close>

definition GetLoadBalancerPlugin ::
  "('m \<Rightarrow> string \<Rightarrow> string + 'y) \<Rightarrow> ('y \<Rightarrow> 'lb option) \<Rightarrow> string \<Rightarrow> ('m, 'y, 'w) PluginManager \<Rightarrow> string + 'lb" where
  "GetLoadBalancerPlugin lookup asLB name pm =
     (case pm_loadedPlugins pm name of
        None \<Rightarrow> Inl (''plugin '' @ name @ '' not loaded'')
      | Some loaded \<Rightarrow>
          (case lookup (lp_Module loaded) ''LoadBalancer'' of
             Inl err \<Rightarrow> Inl (''plugin '' @ name @ '' missing LoadBalancer symbol: '' @ err)
           | Inr symbol \<Rightarrow>
               (case asLB symbol of
                  None \<Rightarrow> Inl (''plugin '' @ name @ '' LoadBalancer is not of type LoadBalancerPlugin'')
                | Some lbPlugin \<Rightarrow> Inr lbPlugin)))"

definition GetDiscoveryPlugin ::
  "('m \<Rightarrow> string \<Rightarrow> string + 'y) \<Rightarrow> ('y \<Rightarrow> 'd option) \<Rightarrow> string \<Rightarrow> ('m, 'y, 'w) PluginManager \<Rightarrow> string + 'd" where
  "GetDiscoveryPlugin lookup asDisc name pm =
     (case pm_loadedPlugins pm name of
        None \<Rightarrow> Inl (''plugin '' @ name @ '' not loaded'')
      | Some loaded \<Rightarrow>
          (case lookup (lp_Module loaded) ''Discovery'' of
             Inl err \<Rightarrow> Inl (''plugin '' @ name @ '' missing Discovery symbol: '' @ err)
           | Inr symbol \<Rightarrow>
               (case asDisc symbol of
                  None \<Rightarrow> Inl (''plugin '' @ name @ '' Discovery is not of type DiscoveryPlugin'')
                | Some discPlugin \<Rightarrow> Inr discPlugin)))"

definition GetHealthCheckerPlugin ::
  "('m \<Rightarrow> string \<Rightarrow> string + 'y) \<Rightarrow> ('y \<Rightarrow> 'h option) \<Rightarrow> string \<Rightarrow> ('m, 'y, 'w) PluginManager \<Rightarrow> string + 'h" where
  "GetHealthCheckerPlugin lookup asHC name pm =
     (case pm_loadedPlugins pm name of
        None \<Rightarrow> Inl (''plugin '' @ name @ '' not loaded'')
      | Some loaded \<Rightarrow>
          (case lookup (lp_Module loaded) ''HealthChecker'' of
             Inl err \<Rightarrow> Inl (''plugin '' @ name @ '' missing HealthChecker symbol: '' @ err)
           | Inr symbol \<Rightarrow>
               (case asHC symbol of
                  None \<Rightarrow> Inl (''plugin '' @ name @ '' HealthChecker is not of type HealthCheckerPlugin'')
                | Some hcPlugin \<Rightarrow> Inr hcPlugin)))"

text \<open>\<open>order\<close> is the order in which the iteration over the map meets its keys.\<close>

definition ListPlugins :: "string list \<Rightarrow> ('m, 'y, 'w) PluginManager \<Rightarrow> string list" where
  "ListPlugins order pm = filter (\<lambda>name. pm_loadedPlugins pm name \<noteq> None) order"

text \<open>The calls that change the manager.\<close>

datatype ('m, 'y, 'w) pm_call =
    PLoad string string
  | PUnload string
  | PHook string "('m, 'y, 'w) PluginHook"

fun pm_apply ::
  "(string \<Rightarrow> string + 'm) \<Rightarrow> ('m, 'y, 'w) pm_call \<Rightarrow> ('m, 'y, 'w) PluginManager \<times> 'w \<Rightarrow> ('m, 'y, 'w) PluginManager \<times> 'w"
where
  "pm_apply openp (PLoad name path) (pm, w) = snd (LoadPlugin openp name path pm w)"
| "pm_apply openp (PUnload name) (pm, w) = snd (UnloadPlugin name pm w)"
| "pm_apply openp (PHook event hook) (pm, w) = (RegisterHook event hook pm, w)"

text \<open>Every loaded plugin is stored under its own name and holds a module that was opened.\<close>

definition pm_inv :: "(string \<Rightarrow> string + 'm) \<Rightarrow> ('m, 'y, 'w) PluginManager \<Rightarrow> bool" where
  "pm_inv openp pm \<longleftrightarrow> (\<forall>name loaded. pm_loadedPlugins pm name = Some loaded \<longrightarrow>
     lp_Name loaded = name \<and> (\<exists>path. openp path = Inr (lp_Module loaded)))"

text \<open>The unload hooks of a manager never return an error.\<close>

definition unload_agrees :: "('m, 'y, 'w) PluginManager \<Rightarrow> bool" where
  "unload_agrees pm \<longleftrightarrow> (\<forall>p v. fst (fireHooks ''plugin_preunload'' p pm v) = None \<and>
     fst (fireHooks ''plugin_unloaded'' p pm v) = None)"

section \<open>The registry of factories\<close>

text \<open>A factory makes an instance from a configuration, or returns an error.\<close>

type_synonym ('c, 'a) factory = "'c \<Rightarrow> string + 'a"

record ('c, 'lb, 'd, 'h) wv_PluginRegistry =
  pr_loadBalancers :: "string \<rightharpoonup> ('c, 'lb) factory"
  pr_discoveries :: "string \<rightharpoonup> ('c, 'd) factory"
  pr_healthCheckers :: "string \<rightharpoonup> ('c, 'h) factory"

definition wv_NewPluginRegistry :: "('c, 'lb, 'd, 'h) wv_PluginRegistry" where
  "wv_NewPluginRegistry = \<lparr>pr_loadBalancers = Map.empty, pr_discoveries = Map.empty, pr_healthCheckers = Map.empty\<rparr>"

definition RegisterLoadBalancer ::
  "string \<Rightarrow> ('c, 'lb) factory \<Rightarrow> ('c, 'lb, 'd, 'h) wv_PluginRegistry \<Rightarrow> string option \<times> ('c, 'lb, 'd, 'h) wv_PluginRegistry" where
  "RegisterLoadBalancer name factory pr =
     (if pr_loadBalancers pr name \<noteq> None then (Some (''load balancer '' @ name @ '' already registered''), pr)
      else (None, pr\<lparr>pr_loadBalancers := (pr_loadBalancers pr)(name \<mapsto> factory)\<rparr>))"

definition RegisterDiscovery ::
  "string \<Rightarrow> ('c, 'd) factory \<Rightarrow> ('c, 'lb, 'd, 'h) wv_PluginRegistry \<Rightarrow> string option \<times> ('c, 'lb, 'd, 'h) wv_PluginRegistry" where
  "RegisterDiscovery name factory pr =
     (if pr_discoveries pr name \<noteq> None then (Some (''discovery '' @ name @ '' already registered''), pr)
      else (None, pr\<lparr>pr_discoveries := (pr_discoveries pr)(name \<mapsto> factory)\<rparr>))"

definition RegisterHealthChecker ::
  "string \<Rightarrow> ('c, 'h) factory \<Rightarrow> ('c, 'lb, 'd, 'h) wv_PluginRegistry \<Rightarrow> string option \<times> ('c, 'lb, 'd, 'h) wv_PluginRegistry" where
  "RegisterHealthChecker name factory pr =
     (if pr_healthCheckers pr name \<noteq> None then (Some (''health checker '' @ name @ '' already registered''), pr)
      else (None, pr\<lparr>pr_healthCheckers := (pr_healthCheckers pr)(name \<mapsto> factory)\<rparr>))"

definition GetLoadBalancer :: "string \<Rightarrow> 'c \<Rightarrow> ('c, 'lb, 'd, 'h) wv_PluginRegistry \<Rightarrow> string + 'lb" where
  "GetLoadBalancer name config pr =
     (case pr_loadBalancers pr name of
        None \<Rightarrow> Inl (''load balancer '' @ name @ '' not registered'')
      | Some factory \<Rightarrow> factory config)"

definition GetDiscovery :: "string \<Rightarrow> 'c \<Rightarrow> ('c, 'lb, 'd, 'h) wv_PluginRegistry \<Rightarrow> string + 'd" where
  "GetDiscovery name config pr =
     (case pr_discoveries pr name of
        None \<Rightarrow> Inl (''discovery '' @ name @ '' not registered'')
      | Some factory \<Rightarrow> factory config)"

definition GetHealthChecker :: "string \<Rightarrow> 'c \<Rightarrow> ('c, 'lb, 'd, 'h) wv_PluginRegistry \<Rightarrow> string + 'h" where
  "GetHealthChecker name config pr =
     (case pr_healthCheckers pr name of
        None \<Rightarrow> Inl (''health checker '' @ name @ '' not registered'')
      | Some factory \<Rightarrow> factory config)"

definition ListRegistered :: "string list \<Rightarrow> string \<Rightarrow> ('c, 'lb, 'd, 'h) wv_PluginRegistry \<Rightarrow> string list" where
  "ListRegistered order componentType pr =
     (if componentType = ''load_balancer'' then filter (\<lambda>name. pr_loadBalancers pr name \<noteq> None) order
      else if componentType = ''discovery'' then filter (\<lambda>name. pr_discoveries pr name \<noteq> None) order
      else if componentType = ''health_checker'' then filter (\<lambda>name. pr_healthCheckers pr name \<noteq> None) order
      else [])"

text \<open>The registrations, of the three kinds, and what each kind registers.\<close>

datatype ('c, 'lb, 'd, 'h) registration =
    RegLB string "('c, 'lb) factory"
  | RegDisc string "('c, 'd) factory"
  | RegHC string "('c, 'h) factory"

fun register :: "('c, 'lb, 'd, 'h) registration \<Rightarrow> ('c, 'lb, 'd, 'h) wv_PluginRegistry \<Rightarrow> ('c, 'lb, 'd, 'h) wv_PluginRegistry" where
  "register (RegLB name f) pr = snd (RegisterLoadBalancer name f pr)"
| "register (RegDisc name f) pr = snd (RegisterDiscovery name f pr)"
| "register (RegHC name f) pr = snd (RegisterHealthChecker name f pr)"

fun lb_entry :: "('c, 'lb, 'd, 'h) registration \<Rightarrow> (string \<times> ('c, 'lb) factory) option" where
  "lb_entry (RegLB name f) = Some (name, f)"
| "lb_entry _ = None"

fun disc_entry :: "('c, 'lb, 'd, 'h) registration \<Rightarrow> (string \<times> ('c, 'd) factory) option" where
  "disc_entry (RegDisc name f) = Some (name, f)"
| "disc_entry _ = None"

fun hc_entry :: "('c, 'lb, 'd, 'h) registration \<Rightarrow> (string \<times> ('c, 'h) factory) option" where
  "hc_entry (RegHC name f) = Some (name, f)"
| "hc_entry _ = None"

section \<open>First registration wins\<close>

text \<open>
  The contract of a named store: \<open>apply_op\<close> performs an operation, \<open>entry\<close> tells what it registers in this store, if
  anything, and \<open>find\<close> reads the store. A name keeps the value that was registered first.
\<close>

locale first_wins =
  fixes find :: "'n \<Rightarrow> 's \<Rightarrow> 'v option"
    and apply_op :: "'o \<Rightarrow> 's \<Rightarrow> 's"
    and entry :: "'o \<Rightarrow> ('n \<times> 'v) option"
  assumes find_other: "entry opn = None \<Longrightarrow> find n (apply_op opn s) = find n s"
    and find_own: "entry opn = Some (m, v) \<Longrightarrow>
      find n (apply_op opn s) = (if n = m \<and> find n s = None then Some v else find n s)"
begin

lemma find_history:
  "find n (fold apply_op ops s) =
     (case find n s of Some v \<Rightarrow> Some v | None \<Rightarrow> map_of (List.map_filter entry ops) n)"
proof (induction ops arbitrary: s)
  case (Cons opn ops)
  show ?case
  proof (cases "entry opn")
    case None
    then show ?thesis by (simp add: Cons find_other List.map_filter_def split: option.split)
  next
    case (Some mv)
    then show ?thesis by (cases mv) (auto simp: Cons find_own List.map_filter_def split: option.splits)
  qed
qed (simp add: List.map_filter_def split: option.splits)

end

lemmas register_defs = RegisterLoadBalancer_def RegisterDiscovery_def RegisterHealthChecker_def

lemma lb_register:
  "pr_loadBalancers (register opn pr) n =
     (case lb_entry opn of
        None \<Rightarrow> pr_loadBalancers pr n
      | Some (m, v) \<Rightarrow> if n = m \<and> pr_loadBalancers pr n = None then Some v else pr_loadBalancers pr n)"
  by (cases opn) (auto simp: register_defs)

interpretation lb_store: first_wins "\<lambda>n pr. pr_loadBalancers pr n" register lb_entry
  by unfold_locales (simp_all add: lb_register)

lemma disc_register:
  "pr_discoveries (register opn pr) n =
     (case disc_entry opn of
        None \<Rightarrow> pr_discoveries pr n
      | Some (m, v) \<Rightarrow> if n = m \<and> pr_discoveries pr n = None then Some v else pr_discoveries pr n)"
  by (cases opn) (auto simp: register_defs)

interpretation disc_store: first_wins "\<lambda>n pr. pr_discoveries pr n" register disc_entry
  by unfold_locales (simp_all add: disc_register)

lemma hc_register:
  "pr_healthCheckers (register opn pr) n =
     (case hc_entry opn of
        None \<Rightarrow> pr_healthCheckers pr n
      | Some (m, v) \<Rightarrow> if n = m \<and> pr_healthCheckers pr n = None then Some v else pr_healthCheckers pr n)"
  by (cases opn) (auto simp: register_defs)

interpretation hc_store: first_wins "\<lambda>n pr. pr_healthCheckers pr n" register hc_entry
  by unfold_locales (simp_all add: hc_register)

text \<open>The listing of a kind is the names registered for it, each once if the iteration meets each key once.\<close>

lemma ListRegistered_names:
  assumes "distinct order" and "set order \<supseteq> dom (pr_loadBalancers pr) \<union> dom (pr_discoveries pr) \<union> dom (pr_healthCheckers pr)"
  shows "set (ListRegistered order ''load_balancer'' pr) = dom (pr_loadBalancers pr)"
    and "set (ListRegistered order ''discovery'' pr) = dom (pr_discoveries pr)"
    and "set (ListRegistered order ''health_checker'' pr) = dom (pr_healthCheckers pr)"
    and "distinct (ListRegistered order t pr)"
  using assms by (auto simp: ListRegistered_def)

section \<open>Hooks\<close>

lemma hooks_loop_append:
  "hooks_loop ev p (hs @ hs') w =
     (case hooks_loop ev p hs w of (Some err, w') \<Rightarrow> (Some err, w') | (None, w') \<Rightarrow> hooks_loop ev p hs' w')"
  by (induction hs arbitrary: w) (auto split: prod.splits option.splits)

text \<open>A hook registered last runs last, and only if every earlier one succeeded.\<close>

lemma fireHooks_RegisterHook:
  "fireHooks ev p (RegisterHook ev' hook pm) w =
     (if ev = ev' then case fireHooks ev p pm w of (Some err, w') \<Rightarrow> (Some err, w') | (None, w') \<Rightarrow> hook ev p w'
      else fireHooks ev p pm w)"
  by (auto simp: fireHooks_def RegisterHook_def hooks_loop_append split: option.splits prod.splits)

lemma fireHooks_loaded [simp]: "fireHooks ev p (pm\<lparr>pm_loadedPlugins := m\<rparr>) w = fireHooks ev p pm w"
  by (simp add: fireHooks_def)

section \<open>Loading and unloading\<close>

lemma LoadPlugin_cases:
  assumes "LoadPlugin openp name path pm w = (err, pm', w')"
  shows "(case err of
      Some e \<Rightarrow> pm' = pm
    | None \<Rightarrow> pm_loadedPlugins pm name = None \<and> (\<exists>p. openp path = Inr p \<and>
        pm' = pm\<lparr>pm_loadedPlugins := (pm_loadedPlugins pm)(name \<mapsto> \<lparr>lp_Name = name, lp_Module = p, lp_Symbol = None\<rparr>)\<rparr>))"
  using assms
  by (auto simp: LoadPlugin_def Let_def fun_upd_idem split: if_splits sum.splits prod.splits option.splits)

lemma UnloadPlugin_cases:
  assumes "UnloadPlugin name pm w = (err, pm', w')"
  shows "pm' = pm \<and> err \<noteq> None \<or> pm_loadedPlugins pm name \<noteq> None \<and>
    pm' = pm\<lparr>pm_loadedPlugins := (pm_loadedPlugins pm)(name := None)\<rparr>"
  using assms by (auto simp: UnloadPlugin_def Let_def split: prod.splits option.splits)

lemma pm_apply_inv:
  assumes "pm_inv openp (fst s)"
  shows "pm_inv openp (fst (pm_apply openp c s))"
proof -
  obtain pm w where s: "s = (pm, w)" by (cases s)
  show ?thesis
  proof (cases c)
    case (PLoad name path)
    obtain err pm' w' where r: "LoadPlugin openp name path pm w = (err, pm', w')" by (metis surj_pair)
    show ?thesis
    proof (cases err)
      case None
      then obtain p where "openp path = Inr p" "pm' = pm\<lparr>pm_loadedPlugins :=
          (pm_loadedPlugins pm)(name \<mapsto> \<lparr>lp_Name = name, lp_Module = p, lp_Symbol = None\<rparr>)\<rparr>"
        using LoadPlugin_cases [OF r] by auto
      moreover from this(1) have "\<exists>path. openp path = Inr p" by blast
      ultimately show ?thesis using assms PLoad r s by (auto simp: pm_inv_def)
    qed (use LoadPlugin_cases [OF r] assms PLoad r s in auto)
  next
    case (PUnload name)
    obtain err pm' w' where r: "UnloadPlugin name pm w = (err, pm', w')" by (metis surj_pair)
    show ?thesis using UnloadPlugin_cases [OF r] assms PUnload r s by (auto simp: pm_inv_def split: if_split_asm)
  next
    case (PHook ev h)
    then show ?thesis using assms s by (simp add: pm_inv_def RegisterHook_def)
  qed
qed

lemma pm_history_inv: "pm_inv openp (fst s) \<Longrightarrow> pm_inv openp (fst (fold (pm_apply openp) cs s))"
  by (induction cs arbitrary: s) (simp_all add: pm_apply_inv)

lemma UnloadPlugin_after_load:
  assumes "LoadPlugin openp name path pm w = (None, pm', w')"
    and "unload_agrees pm"
  shows "fst (UnloadPlugin name pm' w') = None \<and> fst (snd (UnloadPlugin name pm' w')) = pm"
proof -
  obtain p where n: "pm_loadedPlugins pm name = None"
    and pm': "pm' = pm\<lparr>pm_loadedPlugins := (pm_loadedPlugins pm)(name \<mapsto> \<lparr>lp_Name = name, lp_Module = p, lp_Symbol = None\<rparr>)\<rparr>"
    using LoadPlugin_cases [OF assms(1)] by auto
  let ?p = "\<lparr>lp_Name = name, lp_Module = p, lp_Symbol = None\<rparr>"
  obtain w1 where 1: "fireHooks ''plugin_preunload'' ?p pm w' = (None, w1)"
    using assms(2) unfolding unload_agrees_def by (cases "fireHooks ''plugin_preunload'' ?p pm w'") (metis fst_conv)
  obtain w2 where 2: "fireHooks ''plugin_unloaded'' ?p pm w1 = (None, w2)"
    using assms(2) unfolding unload_agrees_def by (cases "fireHooks ''plugin_unloaded'' ?p pm w1") (metis fst_conv)
  show ?thesis using 1 2 n by (simp add: UnloadPlugin_def pm' Let_def fun_upd_idem)
qed

section \<open>Properties\<close>

text \<open>After any sequence of registrations of the three kinds, an instance asked for by name is made by the factory that was
  registered first under that name for that kind, and a name that was never registered for it is an error.\<close>

lemma plugin_registry_first_wins:
  "GetLoadBalancer n cfg (fold register rs wv_NewPluginRegistry) =
     (case map_of (List.map_filter lb_entry rs) n of
        None \<Rightarrow> Inl (''load balancer '' @ n @ '' not registered'') | Some f \<Rightarrow> f cfg) \<and>
   GetDiscovery n cfg (fold register rs wv_NewPluginRegistry) =
     (case map_of (List.map_filter disc_entry rs) n of
        None \<Rightarrow> Inl (''discovery '' @ n @ '' not registered'') | Some f \<Rightarrow> f cfg) \<and>
   GetHealthChecker n cfg (fold register rs wv_NewPluginRegistry) =
     (case map_of (List.map_filter hc_entry rs) n of
        None \<Rightarrow> Inl (''health checker '' @ n @ '' not registered'') | Some f \<Rightarrow> f cfg)"
  by (simp add: GetLoadBalancer_def GetDiscovery_def GetHealthChecker_def wv_NewPluginRegistry_def
      lb_store.find_history disc_store.find_history hc_store.find_history)

text \<open>In every history of loads, unloads and hook registrations, a plugin is stored under its own name with a module that was
  opened; a load that fails, for whatever reason, leaves the manager as it was; a load that succeeds adds just that plugin; and
  an unload whose hooks agree takes the manager back to what it was before the load.\<close>

lemma plugin_load_atomic:
  assumes "fold (pm_apply openp) cs (NewPluginManager, w0) = (pm, w)"
    and "LoadPlugin openp name path pm w = (err, pm', w')"
  shows "pm_inv openp pm \<and> (err \<noteq> None \<longrightarrow> pm' = pm) \<and>
    (err = None \<longrightarrow> pm_loadedPlugins pm name = None \<and> dom (pm_loadedPlugins pm') = insert name (dom (pm_loadedPlugins pm)) \<and>
       (unload_agrees pm \<longrightarrow>
          fst (UnloadPlugin name pm' w') = None \<and> fst (snd (UnloadPlugin name pm' w')) = pm))"
proof -
  have "pm_inv openp pm"
    using pm_history_inv [of openp "(NewPluginManager, w0)" cs] assms(1) by (simp add: pm_inv_def NewPluginManager_def)
  with LoadPlugin_cases [OF assms(2)] UnloadPlugin_after_load [of openp name path pm w pm' w'] assms(2)
  show ?thesis by (cases err) auto
qed

lemma plugin_load_atomic_instance:
  "let openp = (\<lambda>path. if path = ''bad'' then Inl ''no such file'' else Inr path);
       veto = (\<lambda>ev p w. (if lp_Name p = ''y'' then Some ''vetoed'' else None, w + (1::nat)));
       (pm, w) = fold (pm_apply openp) [PHook ''plugin_loaded'' veto, PLoad ''x'' ''x.so''] (NewPluginManager, 0);
       (err, pm', w') = LoadPlugin openp ''y'' ''y.so'' pm w
   in err = Some ''vetoed'' \<and> pm' = (pm :: (string, unit, nat) PluginManager) \<and> w' = 2 \<and> pm_loadedPlugins pm ''x'' \<noteq> None"
proof -
  let ?openp = "\<lambda>path. if path = ''bad'' then Inl ''no such file'' else Inr path"
  let ?veto = "\<lambda>ev p w. (if lp_Name p = ''y'' then Some ''vetoed'' else None, w + (1::nat))"
  let ?pm = "fold (pm_apply ?openp) [PHook ''plugin_loaded'' ?veto, PLoad ''x'' ''x.so''] (NewPluginManager, 0)
    :: (string, unit, nat) PluginManager \<times> nat"
  note defs = LoadPlugin_def NewPluginManager_def RegisterHook_def fireHooks_def
  let ?m = "\<lparr>pm_loadedPlugins = [''x'' \<mapsto> \<lparr>lp_Name = ''x'', lp_Module = ''x.so'', lp_Symbol = None\<rparr>],
    pm_hooks = [''plugin_loaded'' \<mapsto> [?veto]]\<rparr> :: (string, unit, nat) PluginManager"
  have pm: "?pm = (?m, 1)" by (simp add: defs)
  obtain pm' where l: "LoadPlugin ?openp ''y'' ''y.so'' ?m 1 = (Some ''vetoed'', pm', 2)" by (simp add: defs)
  with plugin_load_atomic [OF pm l] have "pm' = ?m" by blast
  with l show ?thesis unfolding Let_def pm by simp
qed

end
