(* ===== verification/WV_Tracing.thy ===== *)
theory WV_Tracing
  imports Prelude "HOL-Library.Multiset" "HOL-Library.Sublist"
begin

text \<open>
  Distributed tracing (\<^verbatim>\<open>src/Weaver/pkg/observability/tracing.go\<close>): the manager of traces and the exporter with its
  background goroutine. The manager hands out pointers to traces, so a trace is an address in a store and the manager maps
  identifiers to addresses. The exporter, its worker, the callers of \<open>Export\<close> and one call of \<open>Close\<close> are a state
  machine. Tag values have a type that is a parameter; \<open>sendToJaeger\<close> does nothing in the source.
\<close>

section \<open>Traces\<close>

type_synonym TraceStatus = string

definition TraceStatusOK :: TraceStatus where "TraceStatusOK = ''ok''"
definition TraceStatusError :: TraceStatus where "TraceStatusError = ''error''"
definition TraceStatusUnknown :: TraceStatus where "TraceStatusUnknown = ''unknown''"

record 'v TraceLog =
  tl_Timestamp :: time
  tl_Fields :: "string \<rightharpoonup> 'v"

record 'v Trace =
  tr_TraceID :: string
  tr_SpanID :: string
  tr_ParentSpanID :: string
  tr_Operation :: string
  tr_StartTime :: time
  tr_EndTime :: time
  tr_Duration :: duration
  tr_Tags :: "string \<rightharpoonup> 'v"
  tr_Logs :: "'v TraceLog list"
  tr_Status :: TraceStatus
  tr_Error :: string

record 'v TracingManager =
  tm_traces :: "string \<rightharpoonup> nat"
  tm_store :: "'v Trace list"

definition NewTracingManager :: "'v TracingManager" where
  "NewTracingManager = \<lparr>tm_traces = Map.empty, tm_store = []\<rparr>"

definition new_trace :: "time \<Rightarrow> string \<Rightarrow> string \<Rightarrow> string \<Rightarrow> 'v Trace" where
  "new_trace now traceID spanID operation =
     \<lparr>tr_TraceID = traceID, tr_SpanID = spanID, tr_ParentSpanID = '''', tr_Operation = operation, tr_StartTime = now,
      tr_EndTime = 0, tr_Duration = 0, tr_Tags = Map.empty, tr_Logs = [], tr_Status = TraceStatusUnknown, tr_Error = ''''\<rparr>"

definition StartTrace ::
  "time \<Rightarrow> string \<Rightarrow> string \<Rightarrow> string \<Rightarrow> 'v TracingManager \<Rightarrow> nat \<times> 'v TracingManager" where
  "StartTrace now traceID spanID operation tm =
     (let a = length (tm_store tm)
      in (a, \<lparr>tm_traces = (tm_traces tm)(traceID \<mapsto> a),
              tm_store = tm_store tm @ [new_trace now traceID spanID operation]\<rparr>))"

text \<open>Writing through the pointer that the manager holds for an identifier.\<close>

definition modify_trace :: "string \<Rightarrow> ('v Trace \<Rightarrow> 'v Trace) \<Rightarrow> 'v TracingManager \<Rightarrow> 'v TracingManager" where
  "modify_trace traceID f tm =
     (case tm_traces tm traceID of
        None \<Rightarrow> tm
      | Some a \<Rightarrow> tm\<lparr>tm_store := (tm_store tm)[a := f (tm_store tm ! a)]\<rparr>)"

definition end_trace :: "time \<Rightarrow> TraceStatus \<Rightarrow> string \<Rightarrow> 'v Trace \<Rightarrow> 'v Trace" where
  "end_trace now status errMsg trace =
     trace\<lparr>tr_EndTime := now, tr_Duration := time_sub now (tr_StartTime trace), tr_Status := status, tr_Error := errMsg\<rparr>"

definition EndTrace :: "time \<Rightarrow> string \<Rightarrow> TraceStatus \<Rightarrow> string \<Rightarrow> 'v TracingManager \<Rightarrow> 'v TracingManager" where
  "EndTrace now traceID status errMsg = modify_trace traceID (end_trace now status errMsg)"

definition add_tag :: "string \<Rightarrow> 'v \<Rightarrow> 'v Trace \<Rightarrow> 'v Trace" where
  "add_tag key v trace = trace\<lparr>tr_Tags := (tr_Tags trace)(key \<mapsto> v)\<rparr>"

definition AddTag :: "string \<Rightarrow> string \<Rightarrow> 'v \<Rightarrow> 'v TracingManager \<Rightarrow> 'v TracingManager" where
  "AddTag traceID key v = modify_trace traceID (add_tag key v)"

definition add_log :: "time \<Rightarrow> (string \<rightharpoonup> 'v) \<Rightarrow> 'v Trace \<Rightarrow> 'v Trace" where
  "add_log now flds trace = trace\<lparr>tr_Logs := tr_Logs trace @ [\<lparr>tl_Timestamp = now, tl_Fields = flds\<rparr>]\<rparr>"

definition AddLog :: "time \<Rightarrow> string \<Rightarrow> (string \<rightharpoonup> 'v) \<Rightarrow> 'v TracingManager \<Rightarrow> 'v TracingManager" where
  "AddLog now traceID flds = modify_trace traceID (add_log now flds)"

definition GetTrace :: "string \<Rightarrow> 'v TracingManager \<Rightarrow> nat option" where
  "GetTrace traceID tm = tm_traces tm traceID"

text \<open>\<open>order\<close> is the order in which the iteration over the map meets its keys.\<close>

definition ExportTraces :: "string list \<Rightarrow> 'v TracingManager \<Rightarrow> nat list" where
  "ExportTraces order tm = List.map_filter (tm_traces tm) order"

definition tm_Clear :: "'v TracingManager \<Rightarrow> 'v TracingManager" where
  "tm_Clear tm = tm\<lparr>tm_traces := Map.empty\<rparr>"

datatype 'v tm_call =
    TStart time string string string
  | TEnd time string TraceStatus string
  | TTag string string 'v
  | TLog time string "string \<rightharpoonup> 'v"
  | TClear

fun tm_apply :: "'v tm_call \<Rightarrow> 'v TracingManager \<Rightarrow> 'v TracingManager" where
  "tm_apply (TStart now tid sid opn) tm = snd (StartTrace now tid sid opn tm)"
| "tm_apply (TEnd now tid st e) tm = EndTrace now tid st e tm"
| "tm_apply (TTag tid key v) tm = AddTag tid key v tm"
| "tm_apply (TLog now tid flds) tm = AddLog now tid flds tm"
| "tm_apply TClear tm = tm_Clear tm"

text \<open>The specification: a map from identifiers to traces, with no pointers.\<close>

fun tm_spec :: "'v tm_call \<Rightarrow> (string \<rightharpoonup> 'v Trace) \<Rightarrow> (string \<rightharpoonup> 'v Trace)" where
  "tm_spec (TStart now tid sid opn) m = m(tid \<mapsto> new_trace now tid sid opn)"
| "tm_spec (TEnd now tid st e) m = m(tid := map_option (end_trace now st e) (m tid))"
| "tm_spec (TTag tid key v) m = m(tid := map_option (add_tag key v) (m tid))"
| "tm_spec (TLog now tid flds) m = m(tid := map_option (add_log now flds) (m tid))"
| "tm_spec TClear m = Map.empty"

definition tm_abs :: "'v TracingManager \<Rightarrow> string \<rightharpoonup> 'v Trace" where
  "tm_abs tm = (\<lambda>tid. map_option (\<lambda>a. tm_store tm ! a) (tm_traces tm tid))"

text \<open>Every identifier has an address of its own within the store, and the trace there carries it.\<close>

definition tm_inv :: "'v TracingManager \<Rightarrow> bool" where
  "tm_inv tm \<longleftrightarrow> (\<forall>tid a. tm_traces tm tid = Some a \<longrightarrow> a < length (tm_store tm) \<and> tr_TraceID (tm_store tm ! a) = tid)"

section \<open>Trace contexts\<close>

record TraceContext =
  tc_TraceID :: string
  tc_SpanID :: string
  tc_ParentSpanID :: string
  tc_Baggage :: "string \<rightharpoonup> string"

text \<open>A context carries values under keys, the innermost first.\<close>

datatype ctx_value = CtxTrace "TraceContext option" | CtxString string | CtxOther

type_synonym ctx = "(string \<times> ctx_value) list"

definition ContextWithTrace :: "ctx \<Rightarrow> TraceContext option \<Rightarrow> ctx" where
  "ContextWithTrace ctx tc = (''trace_context'', CtxTrace tc) # ctx"

definition TraceFromContext :: "ctx \<Rightarrow> TraceContext option" where
  "TraceFromContext ctx = (case map_of ctx ''trace_context'' of Some (CtxTrace tc) \<Rightarrow> tc | _ \<Rightarrow> None)"

section \<open>The exporter\<close>

text \<open>
  The manager that the exporter keeps a pointer to is not used by it. \<open>je_stopCh\<close> says whether the channel of that
  name was closed.
\<close>

record JaegerExporter =
  je_endpoint :: string
  je_serviceName :: string
  je_buffer :: "nat list"
  je_stopCh :: bool
  je_exportedCount :: int
  je_stopped :: bool

definition NewJaegerExporter :: "string \<Rightarrow> string \<Rightarrow> JaegerExporter" where
  "NewJaegerExporter endpoint serviceName =
     \<lparr>je_endpoint = endpoint, je_serviceName = serviceName, je_buffer = [], je_stopCh = False, je_exportedCount = 0,
      je_stopped = False\<rparr>"

definition je_capacity :: nat where
  "je_capacity = 1000"

text \<open>
  The \<open>select\<close> of \<open>Export\<close>. When there is room and the exporter was stopped, both cases are ready and either may be taken:
  \<open>pick\<close> chooses the second.
\<close>

definition je_offer :: "bool \<Rightarrow> nat \<Rightarrow> JaegerExporter \<Rightarrow> string option \<times> JaegerExporter" where
  "je_offer pick trace je =
     (if length (je_buffer je) < je_capacity \<and> \<not> (je_stopCh je \<and> pick)
      then (None, je\<lparr>je_buffer := je_buffer je @ [trace]\<rparr>)
      else if je_stopCh je then (Some ''exporter stopped'', je)
      else (Some ''buffer full'', je))"

definition je_Export :: "bool \<Rightarrow> nat option \<Rightarrow> JaegerExporter \<Rightarrow> string option \<times> JaegerExporter" where
  "je_Export pick trace je =
     (case trace of
        None \<Rightarrow> (Some ''trace cannot be nil'', je)
      | Some t \<Rightarrow> if je_stopped je then (Some ''exporter stopped'', je) else je_offer pick t je)"

definition GetExportedCount :: "JaegerExporter \<Rightarrow> int" where
  "GetExportedCount je = je_exportedCount je"

text \<open>The goroutine \<open>exportWorker\<close>: at its \<open>select\<close>, with a trace in hand, returned.\<close>

datatype exp_worker = WkSelect | WkHas nat | WkGone

definition worker_take :: "JaegerExporter \<Rightarrow> (exp_worker \<times> JaegerExporter) option" where
  "worker_take je = (case je_buffer je of [] \<Rightarrow> None | t # ts \<Rightarrow> Some (WkHas t, je\<lparr>je_buffer := ts\<rparr>))"

definition worker_done :: "JaegerExporter \<Rightarrow> exp_worker \<times> JaegerExporter" where
  "worker_done je = (WkSelect, je\<lparr>je_exportedCount := i64 (je_exportedCount je + 1)\<rparr>)"

text \<open>
  A call of \<open>Close\<close>: not begun, the flag is set, the channel is closed and the buffer is being drained, waiting for the worker,
  returned.
\<close>

datatype closer = ClNone | ClMarked | ClDraining | ClWaiting | ClReturned

definition close_mark :: "JaegerExporter \<Rightarrow> JaegerExporter" where
  "close_mark je = je\<lparr>je_stopped := True\<rparr>"

definition close_channel :: "JaegerExporter \<Rightarrow> JaegerExporter go" where
  "close_channel je = (if je_stopCh je then Inl CloseOfClosedChannel else Inr (je\<lparr>je_stopCh := True\<rparr>))"

text \<open>
  The whole machine, with three lists for the statement of its properties: the traces for which \<open>Export\<close> returned no
  error, those handed to \<open>sendToJaeger\<close>, and those that \<open>Close\<close> took out of the buffer.
\<close>

record exporting =
  ex_je :: JaegerExporter
  ex_worker :: exp_worker
  ex_closer :: closer
  ex_accepted :: "nat list"
  ex_exported :: "nat list"
  ex_drained :: "nat list"

text \<open>
  \<open>ALate\<close> is a caller that read the flag before \<open>Close\<close> set it and reaches its \<open>select\<close> later.
\<close>

datatype ex_act =
    AExport bool "nat option"
  | ALate bool nat
  | ATake
  | ADone
  | AStop
  | AMark
  | ACloseCh
  | ADrain
  | ADrainEnd bool
  | AReturn

definition ex_record :: "nat \<Rightarrow> string option \<times> JaegerExporter \<Rightarrow> exporting \<Rightarrow> exporting" where
  "ex_record t r s =
     s\<lparr>ex_je := snd r, ex_accepted := (if fst r = None then ex_accepted s @ [t] else ex_accepted s)\<rparr>"

fun ex_step :: "ex_act \<Rightarrow> exporting \<Rightarrow> exporting option" where
  "ex_step (AExport pick None) s = Some (s\<lparr>ex_je := snd (je_Export pick None (ex_je s))\<rparr>)"
| "ex_step (AExport pick (Some t)) s = Some (ex_record t (je_Export pick (Some t) (ex_je s)) s)"
| "ex_step (ALate pick t) s = Some (ex_record t (je_offer pick t (ex_je s)) s)"
| "ex_step ATake s =
     (case (ex_worker s, worker_take (ex_je s)) of
        (WkSelect, Some (wk, je)) \<Rightarrow> Some (s\<lparr>ex_worker := wk, ex_je := je\<rparr>)
      | _ \<Rightarrow> None)"
| "ex_step ADone s =
     (case ex_worker s of
        WkHas t \<Rightarrow> Some (s\<lparr>ex_worker := fst (worker_done (ex_je s)), ex_je := snd (worker_done (ex_je s)),
                          ex_exported := ex_exported s @ [t]\<rparr>)
      | _ \<Rightarrow> None)"
| "ex_step AStop s =
     (if ex_worker s = WkSelect \<and> je_stopCh (ex_je s) then Some (s\<lparr>ex_worker := WkGone\<rparr>) else None)"
| "ex_step AMark s =
     (if ex_closer s = ClNone then Some (s\<lparr>ex_closer := ClMarked, ex_je := close_mark (ex_je s)\<rparr>) else None)"
| "ex_step ACloseCh s =
     (if ex_closer s = ClMarked
      then (case close_channel (ex_je s) of Inl p \<Rightarrow> None | Inr je \<Rightarrow> Some (s\<lparr>ex_closer := ClDraining, ex_je := je\<rparr>))
      else None)"
| "ex_step ADrain s =
     (case (ex_closer s, je_buffer (ex_je s)) of
        (ClDraining, t # ts) \<Rightarrow> Some (s\<lparr>ex_je := (ex_je s)\<lparr>je_buffer := ts\<rparr>, ex_drained := ex_drained s @ [t]\<rparr>)
      | _ \<Rightarrow> None)"
| "ex_step (ADrainEnd timeout) s =
     (if ex_closer s = ClDraining \<and> (timeout \<or> je_buffer (ex_je s) = []) then Some (s\<lparr>ex_closer := ClWaiting\<rparr>) else None)"
| "ex_step AReturn s =
     (if ex_closer s = ClWaiting \<and> ex_worker s = WkGone then Some (s\<lparr>ex_closer := ClReturned\<rparr>) else None)"

fun ex_run :: "ex_act list \<Rightarrow> exporting \<Rightarrow> exporting option" where
  "ex_run [] s = Some s"
| "ex_run (a # as) s = (case ex_step a s of None \<Rightarrow> None | Some s' \<Rightarrow> ex_run as s')"

definition ex_init :: "string \<Rightarrow> string \<Rightarrow> exporting" where
  "ex_init endpoint serviceName =
     \<lparr>ex_je = NewJaegerExporter endpoint serviceName, ex_worker = WkSelect, ex_closer = ClNone, ex_accepted = [],
      ex_exported = [], ex_drained = []\<rparr>"

definition hand :: "exporting \<Rightarrow> nat list" where
  "hand s = (case ex_worker s of WkHas t \<Rightarrow> [t] | _ \<Rightarrow> [])"

text \<open>The invariant of the machine: nothing is lost except by the drain, in order, and the flags follow the closer.\<close>

definition ex_inv :: "exporting \<Rightarrow> bool" where
  "ex_inv s \<longleftrightarrow>
     mset (ex_accepted s) = mset (ex_exported s @ hand s @ je_buffer (ex_je s)) + mset (ex_drained s) \<and>
     subseq (ex_exported s @ hand s @ je_buffer (ex_je s)) (ex_accepted s) \<and>
     length (je_buffer (ex_je s)) \<le> je_capacity \<and>
     je_exportedCount (ex_je s) = i64 (int (length (ex_exported s))) \<and>
     (je_stopped (ex_je s) \<longleftrightarrow> ex_closer s \<noteq> ClNone) \<and>
     (je_stopCh (ex_je s) \<longleftrightarrow> ex_closer s \<notin> {ClNone, ClMarked}) \<and>
     (ex_worker s = WkGone \<longrightarrow> je_stopCh (ex_je s)) \<and>
     (ex_closer s = ClReturned \<longrightarrow> ex_worker s = WkGone) \<and>
     (ex_drained s \<noteq> [] \<longrightarrow> ex_closer s \<notin> {ClNone, ClMarked})"

section \<open>The manager implements a map\<close>

lemma tm_inv_inj: "tm_inv tm \<Longrightarrow> tm_traces tm x = Some a \<Longrightarrow> tm_traces tm y = Some a \<Longrightarrow> x = y"
  by (auto simp: tm_inv_def)

lemma modify_trace_abs:
  assumes "tm_inv tm" and "\<And>t. tr_TraceID (f t) = tr_TraceID t"
  shows "tm_inv (modify_trace tid f tm)" and "tm_abs (modify_trace tid f tm) = (tm_abs tm)(tid := map_option f (tm_abs tm tid))"
proof -
  show "tm_inv (modify_trace tid f tm)"
    using assms by (auto simp: tm_inv_def modify_trace_def nth_list_update split: option.split)
  have "map_option ((!) ((tm_store tm)[a := t])) (tm_traces tm x) = map_option ((!) (tm_store tm)) (tm_traces tm x)"
    if "tm_traces tm tid = Some a" "x \<noteq> tid" for a t x
  proof (cases "tm_traces tm x")
    case (Some b)
    then have "a \<noteq> b" using that tm_inv_inj [OF assms(1)] by blast
    with Some show ?thesis by simp
  qed simp
  moreover have "a < length (tm_store tm)" if "tm_traces tm tid = Some a" for a
    using assms(1) that by (auto simp: tm_inv_def)
  ultimately show "tm_abs (modify_trace tid f tm) = (tm_abs tm)(tid := map_option f (tm_abs tm tid))"
    by (auto simp: tm_abs_def modify_trace_def fun_eq_iff split: option.split)
qed

lemma StartTrace_abs:
  assumes "tm_inv tm"
  shows "tm_inv (snd (StartTrace now tid sid opn tm))"
    and "tm_abs (snd (StartTrace now tid sid opn tm)) = (tm_abs tm)(tid \<mapsto> new_trace now tid sid opn)"
  using assms
  by (auto simp: tm_inv_def tm_abs_def StartTrace_def new_trace_def nth_append fun_eq_iff Let_def less_SucI
      intro!: option.map_cong)

lemma tm_apply_abs:
  assumes "tm_inv tm"
  shows "tm_inv (tm_apply c tm) \<and> tm_abs (tm_apply c tm) = tm_spec c (tm_abs tm)"
proof (cases c)
  case TClear
  then show ?thesis by (simp add: tm_inv_def tm_abs_def tm_Clear_def)
qed (use assms in \<open>simp_all add: StartTrace_abs EndTrace_def AddTag_def AddLog_def modify_trace_abs end_trace_def
       add_tag_def add_log_def\<close>)

lemma tm_history_abs:
  "tm_inv tm \<Longrightarrow> tm_inv (fold tm_apply cs tm) \<and> tm_abs (fold tm_apply cs tm) = fold tm_spec cs (tm_abs tm)"
  by (induction cs arbitrary: tm) (simp_all add: tm_apply_abs)

section \<open>The exporter keeps what it accepts\<close>

lemma subseq_drop_mid: "subseq (xs @ y # ys) zs \<Longrightarrow> subseq (xs @ ys) zs"
  by (meson subseq_order.trans list_emb_append_mono subseq_order.order_refl list_emb_Cons)

text \<open>An accepted trace enters at the end of the buffer.\<close>

lemma ex_inv_offer:
  assumes "ex_inv s"
  shows "ex_inv (ex_record t (je_offer pick t (ex_je s)) s)"
  using assms by (auto simp: ex_inv_def ex_record_def je_offer_def hand_def simp flip: append_assoc split: exp_worker.splits)

lemma ex_inv_step:
  assumes "ex_inv s" and "ex_step a s = Some s'"
  shows "ex_inv s'"
proof (cases a)
  case (AExport pick t)
  show ?thesis
  proof (cases t)
    case None
    with assms AExport show ?thesis by (simp add: je_Export_def)
  next
    case (Some u)
    show ?thesis
    proof (cases "je_stopped (ex_je s)")
      case True
      with assms AExport Some show ?thesis by (auto simp: je_Export_def ex_record_def)
    next
      case False
      with assms AExport Some show ?thesis using ex_inv_offer [OF assms(1)] by (auto simp: je_Export_def)
    qed
  qed
next
  case (ALate pick t)
  with assms show ?thesis using ex_inv_offer by auto
next
  case ATake
  then obtain t ts where b: "ex_worker s = WkSelect" "je_buffer (ex_je s) = t # ts"
      "s' = s\<lparr>ex_worker := WkHas t, ex_je := (ex_je s)\<lparr>je_buffer := ts\<rparr>\<rparr>"
    using assms(2) by (auto simp: worker_take_def split: exp_worker.splits list.splits)
  have "hand s = []" "hand s' = [t]" by (simp_all add: hand_def b)
  with assms(1) b show ?thesis by (simp add: ex_inv_def)
next
  case ADone
  then obtain t where b: "ex_worker s = WkHas t" "s' = s\<lparr>ex_worker := WkSelect,
      ex_je := (ex_je s)\<lparr>je_exportedCount := i64 (je_exportedCount (ex_je s) + 1)\<rparr>, ex_exported := ex_exported s @ [t]\<rparr>"
    using assms(2) by (auto simp: worker_done_def split: exp_worker.splits)
  have "hand s = [t]" "hand s' = []" by (simp_all add: hand_def b)
  with assms(1) b show ?thesis by (simp add: ex_inv_def add.commute)
next
  case ADrain
  then obtain t ts where b: "je_buffer (ex_je s) = t # ts" "ex_closer s = ClDraining"
      "s' = s\<lparr>ex_je := (ex_je s)\<lparr>je_buffer := ts\<rparr>, ex_drained := ex_drained s @ [t]\<rparr>"
    using assms(2) by (auto split: closer.splits list.splits)
  have "subseq ((ex_exported s @ hand s) @ ts) (ex_accepted s)"
    by (rule subseq_drop_mid [where y = t]) (use assms(1) b(1) in \<open>simp add: ex_inv_def\<close>)
  moreover have "hand s' = hand s" by (simp add: hand_def b(3))
  ultimately show ?thesis using assms(1) b by (simp add: ex_inv_def)
qed (use assms in \<open>auto simp: ex_inv_def hand_def close_mark_def close_channel_def split: if_splits sum.splits\<close>)

lemma ex_inv_run: "ex_inv s \<Longrightarrow> ex_run as s = Some s' \<Longrightarrow> ex_inv s'"
  by (induction "as" arbitrary: s) (auto split: option.splits intro: ex_inv_step)

lemma ex_inv_init: "ex_inv (ex_init ep sn)"
  by (simp add: ex_inv_def ex_init_def hand_def NewJaegerExporter_def i64_def)

lemma returned_step:
  assumes "ex_inv s" and "ex_closer s = ClReturned" and "ex_step a s = Some s'"
  shows "ex_closer s' = ClReturned \<and> ex_exported s' = ex_exported s"
proof -
  have "ex_worker s = WkGone" using assms(1,2) by (simp add: ex_inv_def)
  with assms(2,3) show ?thesis
    by (cases "(a, s)" rule: ex_step.cases) (auto simp: ex_record_def split: if_splits)
qed

lemma returned_run:
  "ex_run as s = Some s' \<Longrightarrow> ex_inv s \<Longrightarrow> ex_closer s = ClReturned \<Longrightarrow> ex_exported s' = ex_exported s"
proof (induction "as" arbitrary: s)
  case (Cons a "as")
  then obtain s1 where "ex_step a s = Some s1" "ex_run as s1 = Some s'" by (auto split: option.splits)
  with Cons show ?case using returned_step ex_inv_step by metis
qed simp

text \<open>Draining the whole buffer.\<close>

lemma drain_all:
  "ex_closer s = ClDraining \<Longrightarrow> ex_run (replicate (length (je_buffer (ex_je s))) ADrain) s =
     Some (s\<lparr>ex_je := (ex_je s)\<lparr>je_buffer := []\<rparr>, ex_drained := ex_drained s @ je_buffer (ex_je s)\<rparr>)"
proof (induction "je_buffer (ex_je s)" arbitrary: s)
  case (Cons t ts)
  let ?s = "s\<lparr>ex_je := (ex_je s)\<lparr>je_buffer := ts\<rparr>, ex_drained := ex_drained s @ [t]\<rparr>"
  have "ex_run (replicate (length ts) ADrain) ?s =
      Some (?s\<lparr>ex_je := (ex_je ?s)\<lparr>je_buffer := []\<rparr>, ex_drained := ex_drained ?s @ ts\<rparr>)"
    using Cons(1) [of ?s] Cons.prems by simp
  with Cons(2) [symmetric] Cons.prems show ?case by simp
qed simp

lemma ex_run_append: "ex_run (as @ bs) s = (case ex_run as s of None \<Rightarrow> None | Some s' \<Rightarrow> ex_run bs s')"
  by (induction "as" arbitrary: s) (auto split: option.splits)

section \<open>Properties\<close>

text \<open>C35: The tracing manager, which works on traces through pointers that it hands out, behaves as a map from identifiers to
  traces: every call changes the trace of its own identifier only, and starting an identifier again replaces its trace.\<close>

theorem tracing_refines_map:
  "tm_inv (fold tm_apply cs (NewTracingManager :: 'v TracingManager)) \<and>
   tm_abs (fold tm_apply cs (NewTracingManager :: 'v TracingManager)) = fold tm_spec cs Map.empty"
proof -
  have "tm_inv NewTracingManager" "tm_abs NewTracingManager = (Map.empty :: string \<rightharpoonup> 'v Trace)"
    by (simp_all add: tm_inv_def tm_abs_def NewTracingManager_def fun_eq_iff)
  with tm_history_abs [of "NewTracingManager :: 'v TracingManager"] show ?thesis by simp
qed

text \<open>C34: In every interleaving of callers, the export worker and a call of Close, each trace that Export accepted is exported,
  in the worker's hand, buffered or discarded by Close, exactly once; the worker exports in the order of acceptance; and as
  long as Close was not called the exported traces are a prefix of the accepted ones, with at most the one in the worker's hand and the thousand
  buffered ones behind.\<close>

theorem jaeger_conserves:
  assumes "ex_run as (ex_init ep sn) = Some s"
  shows "mset (ex_accepted s) = mset (ex_exported s) + mset (hand s) + mset (je_buffer (ex_je s)) + mset (ex_drained s) \<and>
    subseq (ex_exported s) (ex_accepted s) \<and> length (je_buffer (ex_je s)) \<le> 1000 \<and>
    GetExportedCount (ex_je s) = i64 (int (length (ex_exported s))) \<and>
    (ex_closer s = ClNone \<longrightarrow> ex_accepted s = ex_exported s @ hand s @ je_buffer (ex_je s))"
proof -
  have inv: "ex_inv s" using ex_inv_run [OF ex_inv_init assms] .
  then have sub: "subseq (ex_exported s @ hand s @ je_buffer (ex_je s)) (ex_accepted s)" by (simp add: ex_inv_def)
  then have "subseq (ex_exported s) (ex_accepted s)" by (meson list_emb_append2 subseq_order.refl subseq_order.trans subseq_rev_drop_many)
  moreover have "ex_accepted s = ex_exported s @ hand s @ je_buffer (ex_je s)" if "ex_closer s = ClNone"
  proof -
    have "ex_drained s = []" using inv that by (auto simp: ex_inv_def)
    then have "mset (ex_accepted s) = mset (ex_exported s @ hand s @ je_buffer (ex_je s))" using inv by (simp add: ex_inv_def)
    then have "length (ex_accepted s) = length (ex_exported s @ hand s @ je_buffer (ex_je s))" by (rule mset_eq_length)
    with sub show ?thesis by (metis subseq_same_length)
  qed
  ultimately show ?thesis using inv by (auto simp: ex_inv_def GetExportedCount_def je_capacity_def)
qed

text \<open>Close can always be carried through once it has closed the channel and the worker is at its select, and after it has returned nothing
  is exported any more, whatever Export still accepts; the traces that were in the buffer are discarded and not exported.\<close>

lemma jaeger_close_discards:
  assumes "ex_run as (ex_init ep sn) = Some s" and "ex_closer s = ClDraining" and "ex_worker s = WkSelect"
  shows "\<exists>s'. ex_run (replicate (length (je_buffer (ex_je s))) ADrain @ [ADrainEnd False, AStop, AReturn]) s = Some s' \<and>
    ex_closer s' = ClReturned \<and> ex_exported s' = ex_exported s \<and> ex_drained s' = ex_drained s @ je_buffer (ex_je s) \<and>
    (\<forall>bs s''. ex_run bs s' = Some s'' \<longrightarrow> ex_exported s'' = ex_exported s)"
proof -
  have inv: "ex_inv s" using ex_inv_run [OF ex_inv_init assms(1)] .
  then have stop: "je_stopCh (ex_je s)" using assms(2) by (simp add: ex_inv_def)
  let ?as = "replicate (length (je_buffer (ex_je s))) ADrain @ [ADrainEnd False, AStop, AReturn]"
  let ?s = "s\<lparr>ex_je := (ex_je s)\<lparr>je_buffer := []\<rparr>, ex_drained := ex_drained s @ je_buffer (ex_je s),
    ex_closer := ClReturned, ex_worker := WkGone\<rparr>"
  have r: "ex_run ?as s = Some ?s" using stop assms(2,3) by (simp add: ex_run_append drain_all)
  have "ex_inv ?s" using ex_inv_run [OF inv r] .
  with r returned_run [of _ ?s] show ?thesis by (intro exI [of _ ?s]) auto
qed

theorem jaeger_conserves_witness:
  "\<exists>s. ex_run [AExport False (Some 7), AExport False (Some 8), ATake, ADone] (ex_init ''e'' ''s'') = Some s \<and>
     ex_accepted s = [7, 8] \<and> ex_accepted s = ex_exported s @ hand s @ je_buffer (ex_je s)"
proof -
  have "\<exists>s. ex_run [AExport False (Some 7), AExport False (Some 8), ATake, ADone] (ex_init ''e'' ''s'') = Some s \<and>
     ex_accepted s = [7, 8] \<and> ex_closer s = ClNone"
    by (simp add: ex_init_def NewJaegerExporter_def je_Export_def je_offer_def je_capacity_def ex_record_def worker_take_def
        worker_done_def)
  then show ?thesis using jaeger_conserves by blast
qed

lemma jaeger_close_discards_instance:
  "\<exists>s s'. ex_run [AExport False (Some 7), AMark, ACloseCh] (ex_init ''e'' ''s'') = Some s \<and> je_buffer (ex_je s) = [7] \<and>
     ex_run (replicate (length (je_buffer (ex_je s))) ADrain @ [ADrainEnd False, AStop, AReturn]) s = Some s' \<and>
     ex_drained s' = [7] \<and> ex_exported s' = []"
proof -
  have "\<exists>s. ex_run [AExport False (Some 7), AMark, ACloseCh] (ex_init ''e'' ''s'') = Some s \<and> ex_closer s = ClDraining \<and>
     ex_worker s = WkSelect \<and> je_buffer (ex_je s) = [7] \<and> ex_drained s = [] \<and> ex_exported s = []"
    by (simp add: ex_init_def NewJaegerExporter_def je_Export_def je_offer_def je_capacity_def ex_record_def close_mark_def
        close_channel_def)
  then show ?thesis using jaeger_close_discards by (metis append_Nil)
qed

end
