(* ===== verification/WV_Logging.thy ===== *)
theory WV_Logging
  imports WV_Tracing Go_Fmt Go_Float
begin

text \<open>
  The structured logger of the gateway (\<^verbatim>\<open>src/Weaver/pkg/observability/logging.go\<close>). Every method builds an event and writes
  it; the encoding of an event by \<open>json.Marshal\<close> and the construction of the zap logger are arguments. What is written to the
  standard output and to the zap logger is the state.
\<close>

section \<open>Events\<close>

datatype log_value = LString string | LInt int

record LogEvent =
  le_Timestamp :: time
  le_EventType :: string
  le_TraceID :: string
  le_RequestID :: string
  le_Level :: string
  le_Message :: string
  le_Context :: "(string \<times> log_value) list"
  le_Error :: string
  le_Duration :: rat

text \<open>The lines on the standard output, and the messages of the zap logger.\<close>

record StructuredLogger =
  sl_service :: string
  sl_out :: "string list"
  sl_errors :: "string list"

text \<open>The two base configurations of zap, and the fields that the source sets on top of them.\<close>

datatype zap_base = ZapDevelopment | ZapProduction

record zap_config =
  zc_base :: zap_base
  zc_Encoding :: string
  zc_TimeKey :: string
  zc_StacktraceKey :: string

definition logger_config :: "bool \<Rightarrow> zap_config" where
  "logger_config development =
     \<lparr>zc_base = (if development then ZapDevelopment else ZapProduction), zc_Encoding = ''json'', zc_TimeKey = ''timestamp'',
      zc_StacktraceKey = ''stack''\<rparr>"

text \<open>\<open>build\<close> is the method \<open>Build\<close> of a configuration: an error, if any.\<close>

definition NewStructuredLogger :: "(zap_config \<Rightarrow> string option) \<Rightarrow> string \<Rightarrow> bool \<Rightarrow> string + StructuredLogger" where
  "NewStructuredLogger build serviceName development =
     (case build (logger_config development) of
        Some err \<Rightarrow> Inl err
      | None \<Rightarrow> Inr \<lparr>sl_service = serviceName, sl_out = [], sl_errors = []\<rparr>)"

definition logEvent :: "(LogEvent \<Rightarrow> string + string) \<Rightarrow> LogEvent \<Rightarrow> StructuredLogger \<Rightarrow> StructuredLogger" where
  "logEvent marshal event sl =
     (case marshal event of
        Inl err \<Rightarrow> sl\<lparr>sl_errors := sl_errors sl @ [''failed to marshal log event'']\<rparr>
      | Inr data \<Rightarrow> sl\<lparr>sl_out := sl_out sl @ [data @ ''\<newline>'']\<rparr>)"

definition ContextWithTraceID :: "ctx \<Rightarrow> string \<Rightarrow> ctx" where
  "ContextWithTraceID ctx traceID = (''trace_id'', CtxString traceID) # ctx"

definition extractTraceID :: "time \<Rightarrow> ctx \<Rightarrow> string" where
  "extractTraceID now ctx =
     (case map_of ctx ''trace_id'' of
        Some (CtxString traceID) \<Rightarrow> if traceID \<noteq> '''' then traceID else ''trace-'' @ show_int (UnixNano now)
      | _ \<Rightarrow> ''trace-'' @ show_int (UnixNano now))"

definition blank_event :: "time \<Rightarrow> string \<Rightarrow> string \<Rightarrow> LogEvent" where
  "blank_event now eventType traceID =
     \<lparr>le_Timestamp = now, le_EventType = eventType, le_TraceID = traceID, le_RequestID = '''', le_Level = '''',
      le_Message = '''', le_Context = [], le_Error = '''', le_Duration = 0\<rparr>"

text \<open>
  The events of the methods; \<open>t0\<close> is the instant at which the trace identifier is made up, if the context has none, and \<open>t1\<close>
  the timestamp. An arrow in a message takes three bytes.
\<close>

definition arrow :: string where
  "arrow = [CHR 0xE2, CHR 0x86, CHR 0x92]"

definition LogRequestStarted :: "time \<Rightarrow> time \<Rightarrow> ctx \<Rightarrow> string \<Rightarrow> string \<Rightarrow> string \<Rightarrow> LogEvent" where
  "LogRequestStarted t0 t1 ctx requestID method clientIP =
     (blank_event t1 ''request_started'' (extractTraceID t0 ctx))
       \<lparr>le_RequestID := requestID, le_Level := ''info'',
        le_Message := ''Request started: '' @ method @ '' from '' @ clientIP,
        le_Context := [(''method'', LString method), (''client_ip'', LString clientIP)]\<rparr>"

definition completed_level :: "int \<Rightarrow> string option \<Rightarrow> string" where
  "completed_level status err =
     (let level = ''info'';
          level = (if status \<ge> 400 then ''warn'' else level)
      in if err \<noteq> None \<or> status \<ge> 500 then ''error'' else level)"

definition LogRequestCompleted ::
  "time \<Rightarrow> time \<Rightarrow> ctx \<Rightarrow> string \<Rightarrow> int \<Rightarrow> duration \<Rightarrow> string option \<Rightarrow> LogEvent" where
  "LogRequestCompleted t0 t1 ctx requestID status latency err =
     (blank_event t1 ''request_completed'' (extractTraceID t0 ctx))
       \<lparr>le_RequestID := requestID, le_Level := completed_level status err,
        le_Message := ''Request completed: status='' @ show_int status @ '', latency='' @ duration_String latency,
        le_Duration := duration_Seconds latency, le_Context := [(''status'', LInt status)],
        le_Error := (case err of None \<Rightarrow> '''' | Some e \<Rightarrow> e)\<rparr>"

definition LogReplicaStatusChanged :: "time \<Rightarrow> time \<Rightarrow> ctx \<Rightarrow> string \<Rightarrow> string \<Rightarrow> string \<Rightarrow> LogEvent" where
  "LogReplicaStatusChanged t0 t1 ctx replica oldStatus newStatus =
     (blank_event t1 ''replica_status_changed'' (extractTraceID t0 ctx))
       \<lparr>le_Level := ''warn'',
        le_Message := ''Replica '' @ replica @ '' status changed: '' @ oldStatus @ '' '' @ arrow @ '' '' @ newStatus,
        le_Context := [(''replica'', LString replica), (''old_status'', LString oldStatus), (''new_status'', LString newStatus)]\<rparr>"

definition LogCircuitBreakerStateChanged :: "time \<Rightarrow> time \<Rightarrow> ctx \<Rightarrow> string \<Rightarrow> string \<Rightarrow> string \<Rightarrow> LogEvent" where
  "LogCircuitBreakerStateChanged t0 t1 ctx replica oldState newState =
     (blank_event t1 ''circuit_breaker_state_changed'' (extractTraceID t0 ctx))
       \<lparr>le_Level := (if newState = ''OPEN'' then ''error'' else ''warn''),
        le_Message := ''Circuit breaker for '' @ replica @ '': '' @ oldState @ '' '' @ arrow @ '' '' @ newState,
        le_Context := [(''replica'', LString replica), (''old_state'', LString oldState), (''new_state'', LString newState)]\<rparr>"

definition LogRetryAttempt :: "time \<Rightarrow> time \<Rightarrow> ctx \<Rightarrow> string \<Rightarrow> int \<Rightarrow> string \<Rightarrow> LogEvent" where
  "LogRetryAttempt t0 t1 ctx requestID attempt reason =
     (blank_event t1 ''retry_attempt'' (extractTraceID t0 ctx))
       \<lparr>le_RequestID := requestID, le_Level := ''info'',
        le_Message := ''Retry attempt '' @ show_int attempt @ '': '' @ reason,
        le_Context := [(''attempt'', LInt attempt), (''reason'', LString reason)]\<rparr>"

definition LogTimeoutOccurred :: "time \<Rightarrow> time \<Rightarrow> ctx \<Rightarrow> string \<Rightarrow> string \<Rightarrow> duration \<Rightarrow> LogEvent" where
  "LogTimeoutOccurred t0 t1 ctx requestID timeoutType duration =
     (blank_event t1 ''timeout_occurred'' (extractTraceID t0 ctx))
       \<lparr>le_RequestID := requestID, le_Level := ''error'',
        le_Message := ''Timeout occurred: '' @ timeoutType @ '' after '' @ duration_String duration,
        le_Duration := duration_Seconds duration, le_Context := [(''timeout_type'', LString timeoutType)]\<rparr>"

text \<open>\<open>LogError\<close> calls a method of its error argument: a nil error panics.\<close>

definition LogError :: "time \<Rightarrow> time \<Rightarrow> ctx \<Rightarrow> string \<Rightarrow> string \<Rightarrow> string option \<Rightarrow> LogEvent go" where
  "LogError t0 t1 ctx requestID errorType err =
     (case err of
        None \<Rightarrow> Inl NilDereference
      | Some e \<Rightarrow> Inr ((blank_event t1 ''error'' (extractTraceID t0 ctx))
          \<lparr>le_RequestID := requestID, le_Level := ''error'', le_Message := ''Error: '' @ errorType, le_Error := e\<rparr>))"

section \<open>The calls of the logger\<close>

datatype log_call =
    LStarted string string string
  | LCompleted string int duration "string option"
  | LReplica string string string
  | LBreaker string string string
  | LRetry string int string
  | LTimeout string string duration
  | LError string string "string option"

fun log_event :: "time \<Rightarrow> time \<Rightarrow> ctx \<Rightarrow> log_call \<Rightarrow> LogEvent go" where
  "log_event t0 t1 ctx (LStarted rid method ip) = Inr (LogRequestStarted t0 t1 ctx rid method ip)"
| "log_event t0 t1 ctx (LCompleted rid status latency err) = Inr (LogRequestCompleted t0 t1 ctx rid status latency err)"
| "log_event t0 t1 ctx (LReplica replica old new) = Inr (LogReplicaStatusChanged t0 t1 ctx replica old new)"
| "log_event t0 t1 ctx (LBreaker replica old new) = Inr (LogCircuitBreakerStateChanged t0 t1 ctx replica old new)"
| "log_event t0 t1 ctx (LRetry rid attempt reason) = Inr (LogRetryAttempt t0 t1 ctx rid attempt reason)"
| "log_event t0 t1 ctx (LTimeout rid timeoutType d) = Inr (LogTimeoutOccurred t0 t1 ctx rid timeoutType d)"
| "log_event t0 t1 ctx (LError rid errorType err) = LogError t0 t1 ctx rid errorType err"

definition log_write ::
  "(LogEvent \<Rightarrow> string + string) \<Rightarrow> time \<Rightarrow> time \<Rightarrow> ctx \<Rightarrow> log_call \<Rightarrow> StructuredLogger \<Rightarrow> StructuredLogger go" where
  "log_write marshal t0 t1 ctx c sl = go_bind (log_event t0 t1 ctx c) (\<lambda>e. Inr (logEvent marshal e sl))"

text \<open>What makes a call report an error: the classification that a reader of the log relies on.\<close>

fun reports_error :: "log_call \<Rightarrow> bool" where
  "reports_error (LCompleted rid status latency err) \<longleftrightarrow> err \<noteq> None \<or> status \<ge> 500"
| "reports_error (LBreaker replica old new) \<longleftrightarrow> new = ''OPEN''"
| "reports_error (LTimeout rid timeoutType d) \<longleftrightarrow> True"
| "reports_error (LError rid errorType err) \<longleftrightarrow> True"
| "reports_error _ \<longleftrightarrow> False"

fun reports_warning :: "log_call \<Rightarrow> bool" where
  "reports_warning (LCompleted rid status latency err) \<longleftrightarrow> err = None \<and> 400 \<le> status \<and> status < 500"
| "reports_warning (LBreaker replica old new) \<longleftrightarrow> new \<noteq> ''OPEN''"
| "reports_warning (LReplica replica old new) \<longleftrightarrow> True"
| "reports_warning _ \<longleftrightarrow> False"

lemmas log_defs = LogRequestStarted_def LogRequestCompleted_def LogReplicaStatusChanged_def LogCircuitBreakerStateChanged_def
  LogRetryAttempt_def LogTimeoutOccurred_def LogError_def blank_event_def completed_level_def

lemma extractTraceID_set:
  "extractTraceID now (ContextWithTraceID ctx tid) = (if tid = '''' then ''trace-'' @ show_int (UnixNano now) else tid)"
  by (simp add: extractTraceID_def ContextWithTraceID_def)

lemma extractTraceID_nonempty: "extractTraceID now ctx \<noteq> ''''"
  by (auto simp: extractTraceID_def split: option.split ctx_value.split)

lemma TraceFromContext_set:
  "TraceFromContext (ContextWithTrace ctx tc) = tc" "TraceFromContext (ContextWithTraceID ctx tid) = TraceFromContext ctx"
  by (simp_all add: TraceFromContext_def ContextWithTrace_def ContextWithTraceID_def)

section \<open>Properties\<close>

text \<open>Every call of the logger other than LogError with a nil error, which panics, makes one event: it carries the trace identifier of
  the context, or one made from the clock, never an empty one, and its level is error, warn or info according to what the call
  reports: failed requests, opened circuit breakers, timeouts and errors; client errors and changes of replicas and
  breakers; everything else.\<close>

lemma log_event_levels:
  "(go_panics (log_event t0 t1 ctx c) \<longleftrightarrow> (\<exists>rid ty. c = LError rid ty None)) \<and>
   (case log_event t0 t1 ctx c of
      Inl p \<Rightarrow> p = NilDereference
    | Inr e \<Rightarrow> le_TraceID e = extractTraceID t0 ctx \<and> le_TraceID e \<noteq> '''' \<and> le_Timestamp e = t1 \<and>
        le_Level e = (if reports_error c then ''error'' else if reports_warning c then ''warn'' else ''info''))"
proof -
  have "extractTraceID t0 ctx \<noteq> ''''" by (rule extractTraceID_nonempty)
  then show ?thesis by (cases c) (auto simp: log_defs Let_def split: option.splits)
qed

end
