(* ===== verification/WV_Metrics.thy ===== *)
theory WV_Metrics
  imports Metric_Calls Go_Fmt
begin

text \<open>
  The metrics of the gateway (\<^verbatim>\<open>src/Weaver/pkg/observability/metrics.go\<close>): the declarations, one operation per recorder, and
  the counters kept in memory. \<open>BuildFQName\<close> of the Prometheus library is an argument of \<open>RecordRetry\<close>.
\<close>

section \<open>The collector\<close>

record MetricsCollector =
  mc_RequestsTotal :: metric
  mc_RequestLatency :: metric
  mc_ErrorsTotal :: metric
  mc_RetriesTotal :: metric
  mc_TimeoutsTotal :: metric
  mc_ReplicasHealthy :: metric
  mc_ReplicaLatency :: metric
  mc_ReplicaErrorRate :: metric
  mc_CircuitBreakerState :: metric
  mc_CircuitBreakerTrips :: metric
  mc_RateLimitExceeded :: metric
  mc_requestCount :: int
  mc_errorCount :: int
  mc_retryCount :: int
  mc_timeoutCount :: int
  mc_cbTripCount :: int
  mc_rateLimitCount :: int

definition new_vec :: "metric_kind \<Rightarrow> string \<Rightarrow> string \<Rightarrow> string \<Rightarrow> string list \<Rightarrow> rat list \<Rightarrow> metric" where
  "new_vec k ns name hlp labels buckets =
     \<lparr>mt_kind = k, mt_namespace = ns, mt_name = name, mt_help = hlp, mt_labels = labels, mt_buckets = buckets\<rparr>"

definition NewMetricsCollector :: "string \<Rightarrow> MetricsCollector" where
  "NewMetricsCollector ns = \<lparr>
      mc_RequestsTotal = new_vec KCounter ns ''requests_total'' ''Total number of requests processed''
        [''method'', ''replica'', ''status''] [],
      mc_RequestLatency = new_vec KHistogram ns ''request_latency_seconds'' ''Request latency in seconds''
        [''method'', ''replica'']
        [1 / 1000, 5 / 1000, 1 / 100, 25 / 1000, 5 / 100, 1 / 10, 25 / 100, 5 / 10, 1, 25 / 10, 5],
      mc_ErrorsTotal = new_vec KCounter ns ''errors_total'' ''Total number of errors'' [''error_type'', ''replica''] [],
      mc_RetriesTotal = new_vec KCounter ns ''retries_total'' ''Total number of retries'' [''attempt'', ''reason''] [],
      mc_TimeoutsTotal = new_vec KCounter ns ''timeouts_total'' ''Total number of timeouts'' [''timeout_type''] [],
      mc_ReplicasHealthy = new_vec KGauge ns ''replicas_healthy'' ''Number of healthy replicas'' [''replica''] [],
      mc_ReplicaLatency = new_vec KHistogram ns ''replica_latency_seconds'' ''Per-replica latency in seconds''
        [''replica''] [1 / 1000, 5 / 1000, 1 / 100, 25 / 1000, 5 / 100, 1 / 10, 25 / 100, 5 / 10, 1],
      mc_ReplicaErrorRate = new_vec KGauge ns ''replica_error_rate'' ''Error rate per replica (0.0-1.0)'' [''replica''] [],
      mc_CircuitBreakerState = new_vec KGauge ns ''circuit_breaker_state''
        ''Circuit breaker state (0=CLOSED, 1=OPEN, 2=HALF_OPEN)'' [''replica''] [],
      mc_CircuitBreakerTrips = new_vec KCounter ns ''circuit_breaker_trips_total''
        ''Total number of circuit breaker trips'' [''replica'', ''reason''] [],
      mc_RateLimitExceeded = new_vec KCounter ns ''rate_limit_exceeded_total'' ''Total number of rate limit exceeded''
        [''dimension''] [],
      mc_requestCount = 0, mc_errorCount = 0, mc_retryCount = 0, mc_timeoutCount = 0, mc_cbTripCount = 0,
      mc_rateLimitCount = 0\<rparr>"

definition RecordRequest ::
  "string \<Rightarrow> string \<Rightarrow> string \<Rightarrow> duration \<Rightarrow> MetricsCollector \<Rightarrow> metric_call list \<times> MetricsCollector" where
  "RecordRequest method replica status latency m =
     ([MInc (mc_RequestsTotal m) [method, replica, status],
       MObserve (mc_RequestLatency m) [method, replica] (duration_Seconds latency)],
      m\<lparr>mc_requestCount := i64 (mc_requestCount m + 1)\<rparr>)"

definition mc_RecordError :: "string \<Rightarrow> string \<Rightarrow> MetricsCollector \<Rightarrow> metric_call list \<times> MetricsCollector" where
  "mc_RecordError errorType replica m =
     ([MInc (mc_ErrorsTotal m) [errorType, replica]], m\<lparr>mc_errorCount := i64 (mc_errorCount m + 1)\<rparr>)"

text \<open>The conversion of an integer to a rune keeps its lower 32 bits.\<close>

definition to_rune :: "int \<Rightarrow> int" where
  "to_rune x = (x + 2 ^ 31) mod 2 ^ 32 - 2 ^ 31"

definition retry_label :: "int \<Rightarrow> string" where
  "retry_label attempt = encode_rune (to_rune (i64 (48 + attempt)))"

definition RecordRetry ::
  "(string \<Rightarrow> string \<Rightarrow> string \<Rightarrow> string) \<Rightarrow> int \<Rightarrow> string \<Rightarrow> MetricsCollector \<Rightarrow> metric_call list \<times> MetricsCollector" where
  "RecordRetry buildFQName attempt reason m =
     ([MInc (mc_RetriesTotal m) [buildFQName '''' '''' (retry_label attempt), reason]],
      m\<lparr>mc_retryCount := i64 (mc_retryCount m + 1)\<rparr>)"

definition RecordTimeout :: "string \<Rightarrow> MetricsCollector \<Rightarrow> metric_call list \<times> MetricsCollector" where
  "RecordTimeout timeoutType m =
     ([MInc (mc_TimeoutsTotal m) [timeoutType]], m\<lparr>mc_timeoutCount := i64 (mc_timeoutCount m + 1)\<rparr>)"

definition UpdateReplicaHealth :: "string \<Rightarrow> bool \<Rightarrow> MetricsCollector \<Rightarrow> metric_call list \<times> MetricsCollector" where
  "UpdateReplicaHealth replica healthy m = ([MSet (mc_ReplicasHealthy m) [replica] (if healthy then 1 else 0)], m)"

definition RecordReplicaLatency :: "string \<Rightarrow> duration \<Rightarrow> MetricsCollector \<Rightarrow> metric_call list \<times> MetricsCollector" where
  "RecordReplicaLatency replica latency m = ([MObserve (mc_ReplicaLatency m) [replica] (duration_Seconds latency)], m)"

definition clamp_rate :: "rat \<Rightarrow> rat" where
  "clamp_rate errorRate =
     (let r = (if errorRate < 0 then 0 else errorRate) in if r > 1 then 1 else r)"

definition UpdateReplicaErrorRate :: "string \<Rightarrow> rat \<Rightarrow> MetricsCollector \<Rightarrow> metric_call list \<times> MetricsCollector" where
  "UpdateReplicaErrorRate replica errorRate m = ([MSet (mc_ReplicaErrorRate m) [replica] (clamp_rate errorRate)], m)"

definition RecordCircuitBreakerState :: "string \<Rightarrow> int \<Rightarrow> MetricsCollector \<Rightarrow> metric_call list \<times> MetricsCollector" where
  "RecordCircuitBreakerState replica state m = ([MSet (mc_CircuitBreakerState m) [replica] (of_int state)], m)"

definition RecordCircuitBreakerTrip :: "string \<Rightarrow> string \<Rightarrow> MetricsCollector \<Rightarrow> metric_call list \<times> MetricsCollector" where
  "RecordCircuitBreakerTrip replica reason m =
     ([MInc (mc_CircuitBreakerTrips m) [replica, reason]], m\<lparr>mc_cbTripCount := i64 (mc_cbTripCount m + 1)\<rparr>)"

definition RecordRateLimitExceeded :: "string \<Rightarrow> MetricsCollector \<Rightarrow> metric_call list \<times> MetricsCollector" where
  "RecordRateLimitExceeded dimension m =
     ([MInc (mc_RateLimitExceeded m) [dimension]], m\<lparr>mc_rateLimitCount := i64 (mc_rateLimitCount m + 1)\<rparr>)"

definition GetCounters :: "MetricsCollector \<Rightarrow> string \<rightharpoonup> int" where
  "GetCounters m =
     [''requests'' \<mapsto> mc_requestCount m, ''errors'' \<mapsto> mc_errorCount m, ''retries'' \<mapsto> mc_retryCount m,
      ''timeouts'' \<mapsto> mc_timeoutCount m, ''circuit_breaker_trips'' \<mapsto> mc_cbTripCount m,
      ''rate_limit_exceeded'' \<mapsto> mc_rateLimitCount m]"

section \<open>Histories\<close>

datatype mc_op =
    ORequest string string string duration
  | OError string string
  | ORetry int string
  | OTimeout string
  | OHealth string bool
  | OLatency string duration
  | OErrorRate string rat
  | OState string int
  | OTrip string string
  | ORateLimit string

fun mc_step :: "(string \<Rightarrow> string \<Rightarrow> string \<Rightarrow> string) \<Rightarrow> mc_op \<Rightarrow> MetricsCollector \<Rightarrow> metric_call list \<times> MetricsCollector" where
  "mc_step fq (ORequest method replica status latency) m = RecordRequest method replica status latency m"
| "mc_step fq (OError errorType replica) m = mc_RecordError errorType replica m"
| "mc_step fq (ORetry attempt reason) m = RecordRetry fq attempt reason m"
| "mc_step fq (OTimeout timeoutType) m = RecordTimeout timeoutType m"
| "mc_step fq (OHealth replica healthy) m = UpdateReplicaHealth replica healthy m"
| "mc_step fq (OLatency replica latency) m = RecordReplicaLatency replica latency m"
| "mc_step fq (OErrorRate replica rate) m = UpdateReplicaErrorRate replica rate m"
| "mc_step fq (OState replica state) m = RecordCircuitBreakerState replica state m"
| "mc_step fq (OTrip replica reason) m = RecordCircuitBreakerTrip replica reason m"
| "mc_step fq (ORateLimit dimension) m = RecordRateLimitExceeded dimension m"

datatype mc_counter = CRequests | CErrors | CRetries | CTimeouts | CTrips | CRateLimits

fun mc_count :: "mc_counter \<Rightarrow> MetricsCollector \<Rightarrow> int" where
  "mc_count CRequests m = mc_requestCount m"
| "mc_count CErrors m = mc_errorCount m"
| "mc_count CRetries m = mc_retryCount m"
| "mc_count CTimeouts m = mc_timeoutCount m"
| "mc_count CTrips m = mc_cbTripCount m"
| "mc_count CRateLimits m = mc_rateLimitCount m"

fun mc_counted :: "mc_counter \<Rightarrow> MetricsCollector \<Rightarrow> metric" where
  "mc_counted CRequests m = mc_RequestsTotal m"
| "mc_counted CErrors m = mc_ErrorsTotal m"
| "mc_counted CRetries m = mc_RetriesTotal m"
| "mc_counted CTimeouts m = mc_TimeoutsTotal m"
| "mc_counted CTrips m = mc_CircuitBreakerTrips m"
| "mc_counted CRateLimits m = mc_RateLimitExceeded m"

text \<open>The metrics of a collector are those declared by its constructor, for some namespace.\<close>

definition metrics_of :: "MetricsCollector \<Rightarrow> metric list" where
  "metrics_of m = [mc_RequestsTotal m, mc_RequestLatency m, mc_ErrorsTotal m, mc_RetriesTotal m, mc_TimeoutsTotal m,
     mc_ReplicasHealthy m, mc_ReplicaLatency m, mc_ReplicaErrorRate m, mc_CircuitBreakerState m, mc_CircuitBreakerTrips m,
     mc_RateLimitExceeded m]"

definition mc_inv :: "string \<Rightarrow> MetricsCollector \<Rightarrow> bool" where
  "mc_inv ns m \<longleftrightarrow> metrics_of m = metrics_of (NewMetricsCollector ns)"

definition mc_ok :: "string \<Rightarrow> MetricsCollector \<Rightarrow> bool" where
  "mc_ok ns m \<longleftrightarrow> mc_inv ns m \<and> (\<forall>k. is_i64 (mc_count k m))"

text \<open>A call sets the error rate of a replica to a number between zero and one only.\<close>

fun rate_ok :: "metric_call \<Rightarrow> bool" where
  "rate_ok (MSet m ls v) \<longleftrightarrow> (if mt_name m = ''replica_error_rate'' then 0 \<le> v \<and> v \<le> 1 else True)"
| "rate_ok _ \<longleftrightarrow> True"

lemmas mc_op_defs = RecordRequest_def mc_RecordError_def RecordRetry_def RecordTimeout_def UpdateReplicaHealth_def
  RecordReplicaLatency_def UpdateReplicaErrorRate_def RecordCircuitBreakerState_def RecordCircuitBreakerTrip_def
  RecordRateLimitExceeded_def

lemma mc_step_metrics: "metrics_of (snd (mc_step fq opn m)) = metrics_of m"
  by (cases opn) (simp_all add: mc_op_defs metrics_of_def)

lemma mc_counted_metrics: "metrics_of m = metrics_of m' \<Longrightarrow> mc_counted k m = mc_counted k m'"
  by (cases k) (simp_all add: metrics_of_def)

lemma mc_step_calls: "mc_inv ns m \<Longrightarrow> c \<in> set (fst (mc_step fq opn m)) \<Longrightarrow> call_ok c"
  by (cases opn) (auto simp: mc_op_defs mc_inv_def metrics_of_def NewMetricsCollector_def new_vec_def)

lemma metrics_distinct: "distinct (metrics_of (NewMetricsCollector ns))"
  by (simp add: metrics_of_def NewMetricsCollector_def new_vec_def)

lemma mc_step_count:
  assumes "mc_inv ns m" "is_i64 (mc_count k m)"
  shows "mc_count k (snd (mc_step fq opn m)) = i64 (mc_count k m + int (incs (mc_counted k m) (fst (mc_step fq opn m))))"
proof -
  have "distinct (metrics_of m)" using assms(1) metrics_distinct by (simp add: mc_inv_def)
  with assms(2) show ?thesis
    by (cases opn; cases k) (auto simp: mc_op_defs incs_def metrics_of_def i64_id)
qed

lemma mc_step_rates: "mc_inv ns m \<Longrightarrow> list_all rate_ok (fst (mc_step fq opn m))"
  by (cases opn) (auto simp: mc_op_defs mc_inv_def metrics_of_def NewMetricsCollector_def new_vec_def clamp_rate_def Let_def)

lemma mc_step_ok: "mc_ok ns m \<Longrightarrow> mc_ok ns (snd (mc_step fq opn m))"
  by (auto simp: mc_ok_def mc_inv_def mc_step_metrics mc_step_count i64_range)

lemma mc_ok_new: "mc_ok ns (NewMetricsCollector ns)"
proof -
  have "mc_count k (NewMetricsCollector ns) = 0" for k by (cases k) (simp_all add: NewMetricsCollector_def)
  then show ?thesis by (simp add: mc_ok_def mc_inv_def is_i64_def)
qed

interpretation gateway_metrics: counting_emitter "mc_step fq" "mc_ok ns" mc_count mc_counted for fq ns
proof unfold_locales
  fix m opn c k
  show "mc_ok ns m \<Longrightarrow> mc_ok ns (snd (mc_step fq opn m))" by (rule mc_step_ok)
  show "mc_ok ns m \<Longrightarrow> c \<in> set (fst (mc_step fq opn m)) \<Longrightarrow> call_ok c" by (auto simp: mc_ok_def dest: mc_step_calls)
  show "mc_ok ns m \<Longrightarrow> mc_count k (snd (mc_step fq opn m)) =
      i64 (mc_count k m + int (incs (mc_counted k m) (fst (mc_step fq opn m))))"
    by (auto simp: mc_ok_def intro: mc_step_count)
  show "mc_counted k (snd (mc_step fq opn m)) = mc_counted k m"
    by (intro mc_counted_metrics mc_step_metrics)
qed

lemma emit_all_rates: "mc_ok ns m \<Longrightarrow> list_all rate_ok (fst (emit_all (mc_step fq) ops m))"
proof (induction ops arbitrary: m)
  case (Cons opn ops)
  then have "mc_inv ns m" by (simp add: mc_ok_def)
  with Cons mc_step_ok [of ns m fq opn] show ?case by (simp add: Let_def case_prod_beta mc_step_rates)
qed simp

lemma retry_label_digit:
  assumes "0 \<le> attempt" and "attempt \<le> 9"
  shows "retry_label attempt = show_nat (nat attempt)"
  using assms
  by (simp add: retry_label_def to_rune_def i64_id is_i64_def encode_rune_def Let_def nat_add_distrib show_nat.simps)

lemma retry_label_ten: "retry_label 10 = '':''"
  by (simp add: retry_label_def to_rune_def i64_def encode_rune_def Let_def, code_simp)

section \<open>Properties\<close>

text \<open>In every history of the collector, each call to the metrics library is one the library accepts (the right kind of
  metric and as many label values as were declared), error rates stay between zero and one, and each counter in
  memory is the number of increments of the corresponding metric, modulo the wrap-around of 64 bits.\<close>

lemma metrics_counters_agree:
  "let (cs, m) = emit_all (mc_step fq) ops (NewMetricsCollector ns);
       total = (\<lambda>k. i64 (int (incs (mc_counted k (NewMetricsCollector ns)) cs)))
   in list_all call_ok cs \<and> list_all rate_ok cs \<and>
      GetCounters m = [''requests'' \<mapsto> total CRequests, ''errors'' \<mapsto> total CErrors, ''retries'' \<mapsto> total CRetries,
        ''timeouts'' \<mapsto> total CTimeouts, ''circuit_breaker_trips'' \<mapsto> total CTrips,
        ''rate_limit_exceeded'' \<mapsto> total CRateLimits]"
proof -
  obtain cs m where r: "emit_all (mc_step fq) ops (NewMetricsCollector ns) = (cs, m)" by fastforce
  have z: "mc_count k (NewMetricsCollector ns) = i64 0" for k
    by (cases k) (simp_all add: NewMetricsCollector_def i64_def)
  have c: "mc_count k m = i64 (int (incs (mc_counted k (NewMetricsCollector ns)) cs))" for k
    using gateway_metrics.emit_all_count [OF mc_ok_new z, of k fq ops] r by simp
  have "list_all call_ok cs" using gateway_metrics.emit_all_calls [OF mc_ok_new, of _ fq ops ns] r
    by (fastforce simp: list_all_iff)
  moreover have "list_all rate_ok cs" using emit_all_rates [OF mc_ok_new, of fq ops ns] r by simp
  ultimately show ?thesis
    using c [of CRequests] c [of CErrors] c [of CRetries] c [of CTimeouts] c [of CTrips] c [of CRateLimits]
    by (simp add: r GetCounters_def)
qed

end
