(* ===== verification/WV_Testutil.thy ===== *)
theory WV_Testutil
  imports Go_Fmt Go_Strings Go_Float
begin

text \<open>
  The test doubles of the gateway (\<^verbatim>\<open>mock_replica.go\<close>, \<^verbatim>\<open>mock_discovery.go\<close>, \<^verbatim>\<open>helpers.go\<close> and \<^verbatim>\<open>fixtures.go\<close> of
  \<^verbatim>\<open>src/Weaver/pkg/testutil\<close>): a replica that records requests, a discovery whose lists are set by the test, with the goroutine
  behind \<open>Watch\<close> as a state machine, the helper that runs clean-ups, and fixed inputs.
\<close>

section \<open>Replica\<close>

record MockRequest =
  mq_Timestamp :: time
  mq_Payload :: string
  mq_Headers :: "string \<rightharpoonup> string"

record wv_MockReplica =
  wr_Name :: string
  wr_Address :: string
  wr_Latency :: duration
  wr_ErrorRate :: rat
  wr_CrashAfterReqCount :: int
  wr_recordedRequests :: "MockRequest list"
  wr_requestCount :: int

definition wv_NewMockReplica :: "string \<Rightarrow> string \<Rightarrow> wv_MockReplica" where
  "wv_NewMockReplica name address =
     \<lparr>wr_Name = name, wr_Address = address, wr_Latency = 0, wr_ErrorRate = 0, wr_CrashAfterReqCount = 0,
      wr_recordedRequests = [], wr_requestCount = 0\<rparr>"

definition SetLatency :: "duration \<Rightarrow> wv_MockReplica \<Rightarrow> wv_MockReplica" where
  "SetLatency latency m = m\<lparr>wr_Latency := latency\<rparr>"

definition SetErrorRate :: "rat \<Rightarrow> wv_MockReplica \<Rightarrow> wv_MockReplica" where
  "SetErrorRate rate m =
     (let rate1 = (if rate < 0 then 0 else rate); rate2 = (if rate1 > 1 then 1 else rate1) in m\<lparr>wr_ErrorRate := rate2\<rparr>)"

definition SetCrashAfter :: "int \<Rightarrow> wv_MockReplica \<Rightarrow> wv_MockReplica" where
  "SetCrashAfter n m = m\<lparr>wr_CrashAfterReqCount := n\<rparr>"

definition GetRecordedRequests :: "wv_MockReplica \<Rightarrow> MockRequest list" where
  "GetRecordedRequests m = wr_recordedRequests m"

definition wr_RecordRequest :: "time \<Rightarrow> string \<Rightarrow> (string \<rightharpoonup> string) \<Rightarrow> wv_MockReplica \<Rightarrow> wv_MockReplica" where
  "wr_RecordRequest now payload headers m =
     m\<lparr>wr_requestCount := i64 (wr_requestCount m + 1),
       wr_recordedRequests := wr_recordedRequests m @ [\<lparr>mq_Timestamp = now, mq_Payload = payload, mq_Headers = headers\<rparr>]\<rparr>"

definition ShouldCrash :: "wv_MockReplica \<Rightarrow> bool" where
  "ShouldCrash m \<longleftrightarrow> wr_CrashAfterReqCount m > 0 \<and> wr_requestCount m \<ge> wr_CrashAfterReqCount m"

definition wr_Reset :: "wv_MockReplica \<Rightarrow> wv_MockReplica" where
  "wr_Reset m = m\<lparr>wr_recordedRequests := [], wr_requestCount := 0, wr_Latency := 0, wr_ErrorRate := 0,
     wr_CrashAfterReqCount := 0\<rparr>"

section \<open>Discovery\<close>

record MockReplicaInfo =
  mi_Name :: string
  mi_Address :: string

text \<open>The channel of changes has room for one list; the instant 0 is Go's zero time.\<close>

record wv_MockDiscovery =
  wd_replicas :: "MockReplicaInfo list"
  wd_changes :: "MockReplicaInfo list list"
  wd_etcdDownUntil :: time

definition wv_NewMockDiscovery :: "string list \<Rightarrow> wv_MockDiscovery" where
  "wv_NewMockDiscovery replicas =
     \<lparr>wd_replicas = map (\<lambda>(i, addr). \<lparr>mi_Name = ''replica-'' @ encode_rune (int i + 1), mi_Address = addr\<rparr>)
        (List.enumerate 0 replicas),
      wd_changes = [], wd_etcdDownUntil = 0\<rparr>"

definition wd_GetReplicas :: "wv_MockDiscovery \<Rightarrow> MockReplicaInfo list" where
  "wd_GetReplicas m = wd_replicas m"

definition wd_SetReplicas :: "MockReplicaInfo list \<Rightarrow> wv_MockDiscovery \<Rightarrow> wv_MockDiscovery" where
  "wd_SetReplicas replicas m =
     (let m1 = m\<lparr>wd_replicas := replicas\<rparr>
      in if length (wd_changes m1) < 1 then m1\<lparr>wd_changes := wd_changes m1 @ [replicas]\<rparr> else m1)"

text \<open>\<open>SimulateEtcdDown\<close> at once, and what its goroutine does when the time is over.\<close>

definition SimulateEtcdDown :: "time \<Rightarrow> duration \<Rightarrow> wv_MockDiscovery \<Rightarrow> wv_MockDiscovery" where
  "SimulateEtcdDown now d m = m\<lparr>wd_etcdDownUntil := now + d\<rparr>"

definition etcd_up :: "wv_MockDiscovery \<Rightarrow> wv_MockDiscovery" where
  "etcd_up m = m\<lparr>wd_etcdDownUntil := 0\<rparr>"

definition IsDown :: "time \<Rightarrow> wv_MockDiscovery \<Rightarrow> bool" where
  "IsDown now m \<longleftrightarrow> wd_etcdDownUntil m \<noteq> 0 \<and> now < wd_etcdDownUntil m"

text \<open>The goroutine behind \<open>Watch\<close>: it holds a list to send, waits for a change, or is gone.\<close>

datatype mock_watcher = MwSend "MockReplicaInfo list" | MwWait | MwDone

definition wd_Watch :: "wv_MockDiscovery \<Rightarrow> mock_watcher" where
  "wd_Watch m = MwSend (wd_GetReplicas m)"

datatype mock_event = MeSet "MockReplicaInfo list" | MeReceive | MeChange | MeCancel

text \<open>A step: the test sets a list, the reader of the watch receives, the goroutine takes a change or sees the cancellation. The
  second component is what the reader received.\<close>

fun mock_step ::
  "mock_event \<Rightarrow> mock_watcher \<times> wv_MockDiscovery \<Rightarrow> ((mock_watcher \<times> wv_MockDiscovery) \<times> MockReplicaInfo list list) option"
where
  "mock_step (MeSet l) (pc, m) = Some ((pc, wd_SetReplicas l m), [])"
| "mock_step MeReceive (pc, m) = (case pc of MwSend l \<Rightarrow> Some ((MwWait, m), [l]) | _ \<Rightarrow> None)"
| "mock_step MeChange (pc, m) =
     (case (pc, wd_changes m) of
        (MwWait, l # ls) \<Rightarrow> Some ((MwSend l, m\<lparr>wd_changes := ls\<rparr>), [])
      | _ \<Rightarrow> None)"
| "mock_step MeCancel (pc, m) = (if pc = MwDone then None else Some ((MwDone, m), []))"

fun mock_run ::
  "mock_event list \<Rightarrow> mock_watcher \<times> wv_MockDiscovery \<Rightarrow> ((mock_watcher \<times> wv_MockDiscovery) \<times> MockReplicaInfo list list) option"
where
  "mock_run [] y = Some (y, [])"
| "mock_run (e # es) y =
     (case mock_step e y of
        None \<Rightarrow> None
      | Some (y', ls) \<Rightarrow> map_option (\<lambda>(z, ls'). (z, ls @ ls')) (mock_run es y'))"

definition set_lists :: "mock_event list \<Rightarrow> MockReplicaInfo list list" where
  "set_lists es = List.map_filter (\<lambda>e. case e of MeSet l \<Rightarrow> Some l | _ \<Rightarrow> None) es"

section \<open>Helper\<close>

text \<open>Clean-ups are functions on the state of the test; a failed assertion ends the test with a text.\<close>

type_synonym 'w TestHelper = "('w \<Rightarrow> 'w) list"

definition NewTestHelper :: "'w TestHelper" where
  "NewTestHelper = []"

definition Cleanup :: "('w \<Rightarrow> 'w) \<Rightarrow> 'w TestHelper \<Rightarrow> 'w TestHelper" where
  "Cleanup fn h = h @ [fn]"

fun finish_loop :: "nat \<Rightarrow> 'w TestHelper \<Rightarrow> 'w \<Rightarrow> 'w" where
  "finish_loop 0 h w = w"
| "finish_loop (Suc i) h w = finish_loop i h ((h ! i) w)"

definition Finish :: "'w TestHelper \<Rightarrow> 'w \<Rightarrow> 'w" where
  "Finish h w = finish_loop (length h) h w"

definition MustNot :: "string option \<Rightarrow> string \<Rightarrow> string option" where
  "MustNot err msg = map_option (\<lambda>e. msg @ '': '' @ e) err"

definition th_Equal :: "('v \<Rightarrow> string) \<Rightarrow> 'v \<Rightarrow> 'v \<Rightarrow> string \<Rightarrow> string option" where
  "th_Equal sprintv expected actual msg =
     (if expected \<noteq> actual then Some (msg @ '': expected '' @ sprintv expected @ '', got '' @ sprintv actual) else None)"

definition th_True :: "bool \<Rightarrow> string \<Rightarrow> string option" where
  "th_True condition msg = (if \<not> condition then Some (''assertion failed: '' @ msg) else None)"

definition th_False :: "bool \<Rightarrow> string \<Rightarrow> string option" where
  "th_False condition msg = (if condition then Some (''assertion failed: '' @ msg) else None)"

definition th_NotNil :: "'v option \<Rightarrow> string \<Rightarrow> string option" where
  "th_NotNil v msg = (if v = None then Some (msg @ '': expected non-nil value'') else None)"

definition th_Nil :: "('v \<Rightarrow> string) \<Rightarrow> 'v option \<Rightarrow> string \<Rightarrow> string option" where
  "th_Nil sprintv v msg = map_option (\<lambda>x. msg @ '': expected nil value, got '' @ sprintv x) v"

text \<open>A context is its deadline and its cancel function, which is registered as a clean-up.\<close>

definition ContextWithTimeout :: "time \<Rightarrow> duration \<Rightarrow> ('w \<Rightarrow> 'w) \<Rightarrow> 'w TestHelper \<Rightarrow> time \<times> 'w TestHelper" where
  "ContextWithTimeout now timeout cancel h = (now + timeout, Cleanup cancel h)"

definition ContextWithDeadline :: "time \<Rightarrow> ('w \<Rightarrow> 'w) \<Rightarrow> 'w TestHelper \<Rightarrow> time \<times> 'w TestHelper" where
  "ContextWithDeadline deadline cancel h = (deadline, Cleanup cancel h)"

section \<open>Fixtures\<close>

definition HealthyReplicas :: "string list" where
  "HealthyReplicas = [''replica-1:5051'', ''replica-2:5051'', ''replica-3:5051'']"

definition LargeReplicaList :: "string list" where
  "LargeReplicaList = map (\<lambda>i. ''replica-'' @ encode_rune (int i + 1) @ '':5051'') [0..<100]"

definition SingleReplica :: "string list" where
  "SingleReplica = [''replica-1:5051'']"

definition EmptyReplicaList :: "string list" where
  "EmptyReplicaList = []"

definition MinimalConfig :: string where
  "MinimalConfig = join_with (CHR 0x0A)
     ['''', ''gateway:'', ''  name: test-gateway'', '''', ''listeners:'', ''  grpc:'', ''    port: 5051'', '''',
      ''discovery:'', ''  method: static'', ''  config:'', ''    replicas:'', ''      - replica-1:5051'',
      ''      - replica-2:5051'', ''      - replica-3:5051'', '''', ''health:'', ''  type: http'',
      ''  interval: 5s'', ''  timeout: 2s'', '''', ''load_balancers:'', ''  default:'',
      ''    strategy: round_robin'', '''']"

definition FullConfig :: string where
  "FullConfig = join_with (CHR 0x0A)
     ['''', ''gateway:'', ''  name: test-gateway'', '''', ''listeners:'', ''  grpc:'', ''    port: 5051'', '''',
      ''discovery:'', ''  method: etcd'', ''  config:'', ''    endpoints:'', ''      - localhost:2379'',
      ''    cache_ttl: 30s'', '''', ''health:'', ''  type: http'', ''  interval: 5s'', ''  timeout: 2s'',
      ''  path: /health'', '''', ''load_balancers:'', ''  default:'', ''    strategy: least_connections'', '''',
      ''reliability:'', ''  timeout:'', ''    global: 30s'', ''    per_replica: 10s'', ''    connect: 5s'',
      ''  circuit_breaker:'', ''    enabled: true'', ''    failure_threshold: 5'', ''    success_threshold: 2'',
      ''    timeout: 30s'', ''  retry:'', ''    enabled: true'', ''    max_attempts: 3'',
      ''    initial_backoff: 100ms'', ''    max_backoff: 10s'', '''', ''observability:'', ''  metrics:'',
      ''    enabled: true'', ''    port: 9090'', ''  logging:'', ''    level: DEBUG'', ''    format: json'', '''']"

definition SampleRequest :: string where
  "SampleRequest = ''{'' @ [CHR 0x22] @ ''method'' @ [CHR 0x22] @ '':'' @ [CHR 0x22] @ ''GetStatus'' @ [CHR 0x22] @ '','' @
     [CHR 0x22] @ ''params'' @ [CHR 0x22] @ '':{}}''"

definition SampleResponse :: string where
  "SampleResponse = ''{'' @ [CHR 0x22] @ ''status'' @ [CHR 0x22] @ '':'' @ [CHR 0x22] @ ''ok'' @ [CHR 0x22] @ '','' @
     [CHR 0x22] @ ''data'' @ [CHR 0x22] @ '':{}}''"

definition SampleHeaders :: "string \<rightharpoonup> string" where
  "SampleHeaders = [''Content-Type'' \<mapsto> ''application/json'', ''Authorization'' \<mapsto> ''Bearer token123'',
     ''X-Request-ID'' \<mapsto> ''req-001'']"

section \<open>Lemmas\<close>

text \<open>A replica keeps what was recorded in order, and its crash trigger fires with the request that reaches the count.\<close>

lemma mock_records:
  "GetRecordedRequests (foldl (\<lambda>m (t, p, hd). wr_RecordRequest t p hd m) m rs) =
     GetRecordedRequests m @ map (\<lambda>(t, p, hd). \<lparr>mq_Timestamp = t, mq_Payload = p, mq_Headers = hd\<rparr>) rs \<and>
   wr_requestCount (foldl (\<lambda>m (t, p, hd). wr_RecordRequest t p hd m) m rs) =
     (if rs = [] then wr_requestCount m else i64 (wr_requestCount m + int (length rs)))"
proof (induction rs arbitrary: m)
  case (Cons x rs)
  obtain t p hd where "x = (t, p, hd)" by (cases x) auto
  with Cons.IH [of "wr_RecordRequest t p hd m"] show ?case
    by (auto simp: GetRecordedRequests_def wr_RecordRequest_def algebra_simps)
qed (simp add: GetRecordedRequests_def)

lemma mock_crash_exact:
  assumes "0 < n" and "length rs < 2 ^ 63" and "n < 2 ^ 63"
  shows "ShouldCrash (foldl (\<lambda>m (t, p, hd). wr_RecordRequest t p hd m) (SetCrashAfter n (wv_NewMockReplica name addr)) rs) \<longleftrightarrow>
    n \<le> int (length rs)"
proof -
  let ?f = "foldl (\<lambda>m (t, p, hd). wr_RecordRequest t p hd m)"
  let ?m = "SetCrashAfter n (wv_NewMockReplica name addr)"
  have "wr_CrashAfterReqCount (?f m rs) = wr_CrashAfterReqCount m" for m
    by (induction rs arbitrary: m) (auto simp: wr_RecordRequest_def)
  moreover have "i64 (int (length rs)) = int (length rs)" using assms(2) by (intro i64_id) (simp add: is_i64_def)
  ultimately show ?thesis using mock_records [of ?m rs] assms(1)
    by (auto simp: ShouldCrash_def SetCrashAfter_def wv_NewMockReplica_def)
qed

text \<open>The rate is kept within its range.\<close>

lemma mock_error_rate: "0 \<le> wr_ErrorRate (SetErrorRate rate m) \<and> wr_ErrorRate (SetErrorRate rate m) \<le> 1"
  by (simp add: SetErrorRate_def Let_def)

text \<open>The discovery invents nothing: what a reader of \<open>Watch\<close> receives is the first list or one that the test set.\<close>

lemma mock_watch_sound:
  assumes "mock_run es (pc, m) = Some ((pc', m'), ls)"
  shows "set ls \<subseteq> (case pc of MwSend l \<Rightarrow> {l} | _ \<Rightarrow> {}) \<union> set (wd_changes m) \<union> set (set_lists es)"
  using assms
proof (induction es arbitrary: pc m ls)
  case (Cons e es)
  obtain pc1 m1 l1 where 1: "mock_step e (pc, m) = Some ((pc1, m1), l1)" using Cons.prems by (auto split: option.splits)
  then obtain l2 where 2: "mock_run es (pc1, m1) = Some ((pc', m'), l2)" "ls = l1 @ l2" using Cons.prems by auto
  have "set l1 \<union> (case pc1 of MwSend l \<Rightarrow> {l} | _ \<Rightarrow> {}) \<union> set (wd_changes m1) \<subseteq>
      (case pc of MwSend l \<Rightarrow> {l} | _ \<Rightarrow> {}) \<union> set (wd_changes m) \<union> set (set_lists [e])"
    using 1 by (cases e) (auto simp: wd_SetReplicas_def set_lists_def map_filter_def Let_def
        split: mock_watcher.splits list.splits if_splits)
  moreover have "set (set_lists (e # es)) = set (set_lists [e]) \<union> set (set_lists es)"
    by (auto simp: set_lists_def map_filter_def)
  ultimately show ?case using Cons.IH [OF 2(1)] 2(2) by auto
qed simp

text \<open>Clean-ups run in the reverse order of their registration.\<close>

lemma finish_reverse: "Finish h w = foldr (\<lambda>fn w. fn w) h w"
proof -
  have "finish_loop i h w = foldr (\<lambda>fn w. fn w) (take i h) w" if "i \<le> length h" for i
    using that by (induction i arbitrary: w) (auto simp: take_Suc_conv_app_nth)
  then show ?thesis by (simp add: Finish_def)
qed

lemma cleanup_first: "Finish (Cleanup fn h) w = Finish h (fn w)"
  by (simp add: finish_reverse Cleanup_def)

text \<open>The numbers in generated names are runes and not digits: the first address of the large list contains a control
  character, so that it differs from the first address of the small one.\<close>



lemma large_list_control: "LargeReplicaList ! 0 = ''replica-'' @ [CHR 0x01] @ '':5051''"
  by (simp add: LargeReplicaList_def encode_rune_def char_of_def bit_0)

end
