(* ===== verification/Spec2Isabelle.thy ===== *)
theory Spec2Isabelle
  imports FM_Vnet FM_Nic FM_Mapping FM_Acl FM_Route FM_Meter FM_ConfigPlane FM_GoalSystem FM_Command FM_Dispatch FM_DalSystem FM_Testutil
    WV_Routing WV_Monitor WV_Checkers WV_Reliability WV_RateLimit WV_Auth WV_Plugins WV_Logging WV_Metrics WV_Testutil
begin

text \<open>
  A verification library of DashFabric, a control plane for networks of data processing units written in Go. The repository
  holds two programs: the Fabric Manager (\<^verbatim>\<open>src/FM\<close>), which keeps the desired state of the network and programs the
  devices, and the gateway Weaver (\<^verbatim>\<open>src/Weaver\<close>), which routes the requests of clients to replicas of a service.

  \<^bold>\<open>The parts of the Fabric Manager.\<close> Six typed registries (virtual networks, interfaces, address bindings, ACL
  groups, route groups, meter policies) wrap one generic reference-counted store. The configuration plane (cm) receives events from
  etcd, drops duplicates and invalid events and forwards the rest. Goal state management (gm) aggregates the constructs of a
  virtual network into one goal state per interface. The DPU abstraction layer (dal) programs goal states through vendor plugins, with a
  circuit breaker, retries and fallbacks per vendor, from a pool of workers. The main program builds these
  services, starts and stops them and serves an HTTP API; the tool fm-lint checks that no package bypasses the typed registries.

  \<^bold>\<open>The parts of Weaver.\<close> A gateway obtains its replicas from one of five discovery services, asks a load balancer to
  choose among them and counts what happens; a monitor judges the health of replicas with checkers; rate limits, authentication, circuit
  breaker, retries, deadlines, plugins, tracing, logging and metrics are packages of their own.

  \<^bold>\<open>Theories and sources.\<close>
  \<^item> \<open>Prelude\<close>: the run-time behaviour of Go that the sources rely on: panics as the left summand of the type \<open>go\<close>, 64-bit
    integers that wrap around (\<open>i64\<close>), truncating division, instants and durations, closing of channels, decimal numbers.
    \<open>Go_Float\<close>, \<open>Go_Strings\<close>, \<open>Go_Fmt\<close>, \<open>Go_Net\<close> and \<open>Go_Flag\<close> hold the functions of the standard library that the sources call.
  \<^item> \<open>FM_Types\<close>, \<open>FM_Errors\<close> (\<^verbatim>\<open>pkg/types\<close>, \<^verbatim>\<open>pkg/errors\<close>): identifiers, versions, the catalogue of codes. Lemmas: the
    constructors return an identifier exactly if it is well formed, the catalogue is complete and has no duplicates.
  \<^item> \<open>FM_Registry\<close>, \<open>Registry_Contract\<close> (\<^verbatim>\<open>pkg/registry\<close>): the store with its entries and ready channels; the locales
    \<open>refcounted_registry\<close> and \<open>validated_registry\<close> state what its clients rely on. Lemmas: every history refines a map from keys to
    counts and values, a held value survives, a ready channel is closed exactly by the first value.
  \<^item> \<open>FM_Vnet\<close>, \<open>FM_Nic\<close>, \<open>FM_Mapping\<close>, \<open>FM_Acl\<close>, \<open>FM_Route\<close>, \<open>FM_Meter\<close> (\<^verbatim>\<open>pkg/registry/*\<close>): the typed registries, each an
    interpretation of \<open>validated_registry\<close>: only validated, normalised copies are ever held.
  \<^item> \<open>FM_Dedup\<close>, \<open>FM_Pipeline\<close>, \<open>FM_Subscriber\<close>, \<open>FM_ConfigPlane\<close> (\<^verbatim>\<open>pkg/cm\<close>): fingerprints and the LRU cache with its
    linked list (locale \<open>dedup_cache\<close>: the cache is the window of the last distinct fingerprints), the pipeline and the etcd
    subscriber as state machines over their goroutines, and the two composed, with the receipt of an event as a shared step. Lemmas: both
    streams are exact under every interleaving; end to end only the first event passes, nothing gets stuck, and stopping leaves no goroutine.
  \<^item> \<open>FM_GoalState\<close>, \<open>FM_GoalSystem\<close> (\<^verbatim>\<open>pkg/gm\<close>): aggregator, generator, cache and manager, and what a change leaves in the cache;
    the manager under concurrency, with every change as a thread. Lemmas: changes are counted and cached exactly under every
    interleaving, and one that runs alone is \<open>HandleConstructChange\<close>.
  \<^item> \<open>Breaker_Contract\<close>, \<open>FM_Resilience\<close> (\<^verbatim>\<open>pkg/resilience\<close>), \<open>WV_Reliability\<close> (\<^verbatim>\<open>Weaver/pkg/reliability\<close>): the locale
    \<open>circuit_breaker\<close> and its two interpretations, retry loops, deadlines, error classes. Lemmas: when a breaker trips and
    how it recovers, the exact outcome and number of attempts of a retry.
  \<^item> \<open>FM_Dal\<close>, \<open>FM_Pool\<close> (\<^verbatim>\<open>pkg/dal\<close>): plugins and their registry, the dispatcher with its breakers as a sequential operation, the worker pool as a
    state machine with the contexts of its runs, the manager. Lemmas: every submitted job is in exactly one place.
  \<^item> \<open>FM_Dispatch\<close> (\<^verbatim>\<open>dispatcher.go\<close> under concurrency): every dispatch is a thread that takes the mutex of the dispatcher and that of a breaker; a reset by
    hand holds the first while it waits for the second. Lemmas: the threads refine the sequential operation, they are counted exactly, they
    finish with bounded work, an open breaker shuts the dispatcher off for good, and a reset can deadlock with a retry.
  \<^item> \<open>FM_DalSystem\<close>: the pool and the dispatcher composed; a worker's call is a thread. The locale \<open>vendor_plugin\<close> states what a plugin
    promises and is interpreted for the plugin of the repository. Lemmas: an answer belongs to the submission it is
    sent to, and while the service runs every submission can be answered.
  \<^item> \<open>Metric_Calls\<close>, \<open>FM_Observability\<close> (\<^verbatim>\<open>pkg/observability\<close> and the hooks of cm, gm and dal), \<open>FM_Service\<close> (\<^verbatim>\<open>cmd/fm\<close>,
    \<^verbatim>\<open>pkg/config\<close>, \<^verbatim>\<open>pkg/api\<close>, \<^verbatim>\<open>health.go\<close>): logging, metrics and spans as the calls they make (locales \<open>emitter\<close>,
    \<open>counting_emitter\<close>), the assembly, start, shutdown and readiness of the program, the HTTP handlers.
  \<^item> \<open>FM_Lint\<close> (\<^verbatim>\<open>tools/fm-lint\<close>): the rule over syntax trees, the walk, import paths, the command from its command line to its exit code.
    Lemmas: the check is equivalent to a declarative rule on imports and syntax trees, and what the command prints and exits with in every case.
  \<^item> \<open>FM_Command\<close> (\<^verbatim>\<open>cmd/fm\<close>, \<^verbatim>\<open>Weaver/cmd/weaver\<close>): the two commands from their command lines to their exit codes, with
    flags, the two servers of the fabric manager as goroutines, the routes of the REST server and the deferred calls. Lemmas: the outcome of the
    fabric manager in every case, and what its main goroutine and its servers log in every interleaving with each other and with whatever
    handlers and services log; every list of settings is read back from its command line; what the probes answer while it runs.
  \<^item> \<open>WV_Balancer\<close> (\<^verbatim>\<open>pkg/loadbalancer\<close>, \<^verbatim>\<open>pkg/gateway/types.go\<close>): replicas and seven strategies (locales \<open>replica_selector\<close>,
    \<open>load_balancer\<close>, interpreted for every strategy). Lemmas: selections are in range, weighted shares are exact, loads stay balanced
    if they are reported.
  \<^item> \<open>WV_Discovery\<close>, \<open>WV_Gateway\<close> (\<^verbatim>\<open>pkg/discovery\<close>, \<^verbatim>\<open>pkg/gateway\<close>): five discovery services with their watch goroutines (locale
    \<open>caching_service\<close>, interpreted for the four that poll), the gateway that reads them, routing. Lemmas: the gateway only
    ever has a list that its service held, and updates arrive; it reports no load, so the strategies that balance by load keep to one replica.
  \<^item> \<open>WV_Routing\<close> (\<^verbatim>\<open>gateway.go\<close> under concurrency): requests as threads over a heap of replicas, while the watch loop replaces the list. Lemmas:
    every request is served from the list it read and counted exactly on the replica that served it, all requests return, one that
    runs alone is \<open>RouteRequest\<close>, and what is counted on a replaced replica is lost to the gateway.
  \<^item> \<open>WV_Health\<close>, \<open>WV_Monitor\<close>, \<open>WV_Checkers\<close> (\<^verbatim>\<open>pkg/health\<close>): thresholds, the goroutines of the monitor with their mutexes, the
    checkers. \<open>Stop\<close> closes a channel and waits for a wait group, with the two panics of a wait group that \<open>Start\<close> misuses at that time. Lemmas: exact
    thresholds, panic mode is exact whenever no check is under way, nothing panics before \<open>Stop\<close>, and \<open>Stop\<close> can always return.
  \<^item> \<open>WV_RateLimit\<close>, \<open>WV_Auth\<close>, \<open>WV_Plugins\<close> (\<^verbatim>\<open>pkg/ratelimit\<close>, \<^verbatim>\<open>pkg/auth\<close>, \<^verbatim>\<open>pkg/plugins\<close>): token buckets and limits per
    identifier, authenticators and roles, the plugin manager with its hooks and the registry of factories (locale \<open>first_wins\<close>). Requests to the
    limiter are threads whose checks of the dimensions interleave, each with its own readings of the clock. Lemmas: what an identifier is granted in any
    window of time is bounded by the capacity and the refill of its bucket.
  \<^item> \<open>WV_Tracing\<close>, \<open>WV_Logging\<close>, \<open>WV_Metrics\<close> (\<^verbatim>\<open>pkg/observability\<close>): traces behind pointers refine a map of traces, the exporter is
    a state machine, log events and their levels, metrics and counters in agreement.
  \<^item> \<open>FM_Testutil\<close>, \<open>WV_Testutil\<close> (\<^verbatim>\<open>pkg/testutil\<close> of both programs): the simulated devices, replicas and discoveries that the tests
    of the repository rely on. Lemmas: exact counters and crash triggers, watches invent nothing, clean-ups run in reverse order.
  This theory holds the properties that span several registries.

  \<^bold>\<open>How code becomes definitions.\<close> A struct is a record, an enumeration a datatype, a method a definition from the old state to the
  result and the new state; a run-time panic is a value of type \<open>go\<close> or a field \<open>crashed\<close> of a state machine, after which
  nothing happens. A section under a mutex is one step. A goroutine is a program counter, each case of a select is an
  action of its own, and reachability is inductive with the actions as labels, so that a theorem about reachable states covers every
  interleaving. A pointer is an index or an address where sharing matters and the value itself where the code never changes it after publication.
  A buffered channel is a list with its capacity. The iteration order of a map, instants, random numbers, the cancellation of a
  context and the answers of libraries (etcd, DNS, dialling, plugins, Prometheus, zap, OpenTelemetry, SHA-256, JSON, certificates) are arguments of
  the definitions, quantified over in the theorems.

  \<^bold>\<open>Bounds and abstractions.\<close> Floating-point numbers are rationals, without rounding. Counters wrap around at 64 bits
  (32 in the health monitor); theorems that speak of exact numbers assume fewer than \<open>2 ^ 63\<close> operations (histories of
  registries, selections of the rotation) or thresholds below \<open>2 ^ 31\<close>. Channel capacities are those of the source: 1000 in the pipeline and the
  exporter, 100 in the subscriber, twice the number of workers in the pool, 10 for health notifications. No definition uses
  fuel: loops are recursion on data, or on the number of attempts left, which is a natural number (the counter of the source would overflow with
  \<open>2 ^ 63 - 1\<close> retries). The fingerprint of a goal state is an arbitrary function of the four fields that go into the digest; what is said about the cache
  assumes that it separates the known constructs. The map of constructs holds no nil pointers. The theorem on routing is about strategies in a proper state,
  custom ones that return a replica, and clients with hashes below \<open>2 ^ 63\<close>. Texts are byte strings; trimming of white space knows the
  ASCII characters only, and paths are those of Unix.

  \<^bold>\<open>Not modelled.\<close> Packages that consist of documentation only (actor, adapter, audit, driver, ha, lifecycle, reconcile, security,
  tier); the texts that flag errors and usage print to the terminal; the routing of unclean paths in the HTTP library; interfaces, whose methods are
  modelled where they are implemented; declarations that no code uses. Opening a port, the arrival of a signal and decoding a
  body are arguments. Data races, which the memory model of Go leaves open, are reported in the findings and not modelled.
\<close>

section \<open>Properties across components\<close>

text \<open>C6: The registries of bindings, ACL groups, route groups and meter policies never panic, whatever sequence
  of acquires, releases and adds their callers produce, and only ever hold values that satisfy the
  invariants of their kind under their own identifier: set and specified addresses of a
  binding, a non-negative rule count, a set and specified next hop, a positive rate.\<close>

theorem plain_registries_history:
  assumes "length ms < 2 ^ 63" and "length as < 2 ^ 63" and "length rs < 2 ^ 63" and "length ps < 2 ^ 63"
  shows "(\<exists>r. treg_run Mapping_Acquire Mapping_Release Mapping_Add Mapping_New ms = Inr r \<and>
      (\<forall>k s. Mapping_Get r k = Some s \<longrightarrow> map_MappingID s = k \<and> valid_id k \<and> valid_id (map_VnetID s) \<and>
        {map_VIP s, map_DIP s} \<inter> {AddrZero, AddrV4 0, AddrV6 0 []} = {})) \<and>
    (\<exists>r. treg_run Acl_Acquire Acl_Release Acl_Add Acl_New as = Inr r \<and>
      (\<forall>k s. Acl_Get r k = Some s \<longrightarrow> acl_AclGroupID s = k \<and> valid_id k \<and> valid_id (acl_VnetID s) \<and>
        0 \<le> acl_RuleCount s)) \<and>
    (\<exists>r. treg_run Route_Acquire Route_Release Route_Add Route_New rs = Inr r \<and>
      (\<forall>k s. Route_Get r k = Some s \<longrightarrow> rt_RouteGroupID s = k \<and> valid_id k \<and> valid_id (rt_VnetID s) \<and>
        rt_NextHop s \<notin> {AddrZero, AddrV4 0, AddrV6 0 []})) \<and>
    (\<exists>r. treg_run Meter_Acquire Meter_Release Meter_Add Meter_New ps = Inr r \<and>
      (\<forall>k s. Meter_Get r k = Some s \<longrightarrow> mt_MeterPolicyID s = k \<and> valid_id k \<and> valid_id (mt_VnetID s) \<and>
        mt_RateBps s \<noteq> 0))"
proof (intro conjI)
  show "\<exists>r. treg_run Mapping_Acquire Mapping_Release Mapping_Add Mapping_New ms = Inr r \<and>
      (\<forall>k s. Mapping_Get r k = Some s \<longrightarrow> map_MappingID s = k \<and> valid_id k \<and> valid_id (map_VnetID s) \<and>
        {map_VIP s, map_DIP s} \<inter> {AddrZero, AddrV4 0, AddrV6 0 []} = {})"
    using mapping_reg.history_ok [OF assms(1)]
    by (fastforce simp: stored_ok_def Mapping_validate_None_iff Addr_IsValid_def Addr_IsUnspecified_def)
  show "\<exists>r. treg_run Acl_Acquire Acl_Release Acl_Add Acl_New as = Inr r \<and>
      (\<forall>k s. Acl_Get r k = Some s \<longrightarrow> acl_AclGroupID s = k \<and> valid_id k \<and> valid_id (acl_VnetID s) \<and>
        0 \<le> acl_RuleCount s)"
    using acl_reg.history_ok [OF assms(2)] by (fastforce simp: stored_ok_def Acl_validate_None_iff)
  show "\<exists>r. treg_run Route_Acquire Route_Release Route_Add Route_New rs = Inr r \<and>
      (\<forall>k s. Route_Get r k = Some s \<longrightarrow> rt_RouteGroupID s = k \<and> valid_id k \<and> valid_id (rt_VnetID s) \<and>
        rt_NextHop s \<notin> {AddrZero, AddrV4 0, AddrV6 0 []})"
    using route_reg.history_ok [OF assms(3)]
    by (fastforce simp: stored_ok_def Route_validate_None_iff Addr_IsValid_def Addr_IsUnspecified_def)
  show "\<exists>r. treg_run Meter_Acquire Meter_Release Meter_Add Meter_New ps = Inr r \<and>
      (\<forall>k s. Meter_Get r k = Some s \<longrightarrow> mt_MeterPolicyID s = k \<and> valid_id k \<and> valid_id (mt_VnetID s) \<and>
        mt_RateBps s \<noteq> 0)"
    using meter_reg.history_ok [OF assms(4)] by (fastforce simp: stored_ok_def Meter_validate_None_iff)
qed

theorem plain_registries_history_witness:
  "\<exists>r s. treg_run Acl_Acquire Acl_Release Acl_Add Acl_New
       [TAcquire ''g'', TAdd (Some \<lparr>acl_AclGroupID = ''g'', acl_VnetID = ''v'', acl_RuleCount = 3, acl_SpecRevision = 1, acl_LastUpdated = 0\<rparr>),
        TAdd None] = Inr r \<and> Acl_Get r ''g'' = Some s \<and> 0 \<le> acl_RuleCount s"
proof -
  let ?as = "[TAcquire ''g'', TAdd (Some \<lparr>acl_AclGroupID = ''g'', acl_VnetID = ''v'', acl_RuleCount = 3, acl_SpecRevision = 1, acl_LastUpdated = 0\<rparr>),
    TAdd None]"
  have got: "case treg_run Acl_Acquire Acl_Release Acl_Add Acl_New ?as of Inl pn \<Rightarrow> False | Inr r \<Rightarrow> Acl_Get r ''g'' \<noteq> None"
    by code_simp
  have "length ?as < 2 ^ 63" by simp
  with plain_registries_history [of "[]" ?as "[]" "[]"] obtain r where
    r: "treg_run Acl_Acquire Acl_Release Acl_Add Acl_New ?as = Inr r" "\<And>k s. Acl_Get r k = Some s \<Longrightarrow> 0 \<le> acl_RuleCount s"
    by auto
  with got obtain s where "Acl_Get r ''g'' = Some s" by auto
  with r show ?thesis by blast
qed

end
